(* ===== verification/JSNum.thy ===== *)
theory JSNum
  imports Prelude
begin

section \<open>JavaScript numbers\<close>

text \<open>
  A JavaScript number is an IEEE 754 binary64 value. The finite ones are rationals, and every
  arithmetic operation rounds its exact result to the nearest double, ties to even
  (\<open>fl\<close>), overflowing to an infinity (\<open>to_num\<close>). The signed zeros are
  identified: nothing the modelled code does (comparisons, sums, products, printing) tells them
  apart, and no modelled division has a zero divisor of unknown sign.
  The lemmas are the ones the components use: rounding is monotone, exact on representable
  values, integers up to \<open>2 ^ 53\<close> are representable, and the relative error of a rounding
  is at most \<open>2 ^ -53\<close>.
\<close>

datatype jsnum = NaN | Infty bool | Fin rat

subsection \<open>Rounding\<close>

text \<open>Powers of two and the integer logarithm, by halving, so that they evaluate quickly.\<close>

function pow2 :: "int \<Rightarrow> int" where
  "pow2 e =
     (if e \<le> 0 then 1
      else let h = pow2 (e div 2) in if e mod 2 = 0 then h * h else 2 * (h * h))"
  by pat_completeness auto
termination
  by (relation "measure nat") auto

declare pow2.simps [simp del]

lemma pow2_eq: "pow2 e = 2 ^ nat e"
proof (induction e rule: pow2.induct)
  case (1 e)
  show ?case
  proof (cases "e \<le> 0")
    case True
    then show ?thesis by (simp add: pow2.simps [of e])
  next
    case False
    then have h: "pow2 (e div 2) = 2 ^ nat (e div 2)" by (rule "1.IH")
    show ?thesis
    proof (cases "e mod 2 = 0")
      case True
      then have "e = e div 2 + e div 2" "0 \<le> e div 2" using False by presburger+
      then have e: "nat e = nat (e div 2) + nat (e div 2)" by linarith
      show ?thesis unfolding pow2.simps [of e] e power_add using False True h by (simp add: Let_def)
    next
      case odd: False
      then have "e = 1 + (e div 2 + e div 2)" "0 \<le> e div 2" using False by presburger+
      then have e: "nat e = Suc (nat (e div 2) + nat (e div 2))" by linarith
      show ?thesis unfolding pow2.simps [of e] e power_Suc power_add using False odd h by (simp add: Let_def)
    qed
  qed
qed

definition p2 :: "int \<Rightarrow> rat" where
  "p2 e = 2 powi e"

lemma p2_code [code]: "p2 e = (if 0 \<le> e then of_int (pow2 e) else 1 / of_int (pow2 (- e)))"
  by (simp add: p2_def pow2_eq power_int_def inverse_eq_divide power_one_over)

function ilog2 :: "int \<Rightarrow> int" where
  "ilog2 n = (if n < 2 then 0 else 1 + ilog2 (n div 2))"
  by pat_completeness auto
termination
  by (relation "measure nat") auto

declare ilog2.simps [simp del]

lemma ilog2_nonneg: "0 \<le> ilog2 n"
proof (induction n rule: ilog2.induct)
  case (1 n)
  then show ?case by (simp add: ilog2.simps [of n])
qed

lemma ilog2_bounds: "0 < n \<Longrightarrow> 2 ^ nat (ilog2 n) \<le> n \<and> n < 2 ^ Suc (nat (ilog2 n))"
proof (induction n rule: ilog2.induct)
  case (1 n)
  show ?case
  proof (cases "n < 2")
    case True
    with "1.prems" show ?thesis by (simp add: ilog2.simps [of n])
  next
    case False
    with "1.IH" have "2 ^ nat (ilog2 (n div 2)) \<le> n div 2
        \<and> n div 2 < 2 ^ Suc (nat (ilog2 (n div 2)))"
      by simp
    with False ilog2_nonneg [of "n div 2"] show ?thesis
      by (auto simp: ilog2.simps [of n] nat_add_distrib)
  qed
qed

definition flog2 :: "rat \<Rightarrow> int" where
  "flog2 x =
     (let (n, d) = quotient_of x; k = ilog2 n - ilog2 d
      in if p2 k \<le> x then k else k - 1)"

lemma powi_le_iff [simp]: "(2::rat) powi a \<le> 2 powi b \<longleftrightarrow> a \<le> b"
  by (meson linorder_not_le one_less_numeral_iff power_int_increasing power_int_strict_increasing
      less_imp_le not_less semiring_norm(76))

lemma powi_less_iff [simp]: "(2::rat) powi a < 2 powi b \<longleftrightarrow> a < b"
  using powi_le_iff [of b a] by linarith

lemma powi_eq_iff [simp]: "(2::rat) powi a = 2 powi b \<longleftrightarrow> a = b"
  by (metis order.eq_iff powi_le_iff)

lemma powi_pos [simp]: "0 < (2::rat) powi a"
  by (simp add: zero_less_power_int)

lemma powi_nonneg [simp]: "0 \<le> (2::rat) powi a"
  by (simp add: less_imp_le)

lemma powi_nonzero [simp]: "(2::rat) powi a \<noteq> 0"
  by (simp add: less_imp_neq [THEN not_sym])

lemma powi_nat: "(2::rat) powi (int n) = 2 ^ n"
  by (simp add: power_int_def)

lemma flog2_bounds:
  assumes "0 < x"
  shows "2 powi flog2 x \<le> x" and "x < 2 powi (flog2 x + 1)"
proof -
  obtain n d where q: "quotient_of x = (n, d)" by (cases "quotient_of x")
  then have d: "0 < d" by (rule quotient_of_denom_pos)
  from q have x: "x = of_int n / of_int d" by (rule quotient_of_div)
  with assms d have n: "0 < n" by (simp add: zero_less_divide_iff)
  define a b where "a = nat (ilog2 n)" and "b = nat (ilog2 d)"
  have ab: "ilog2 n = int a" "ilog2 d = int b" by (simp_all add: a_def b_def ilog2_nonneg)
  have an: "2 ^ a \<le> n" "n < 2 ^ Suc a" and bd: "2 ^ b \<le> d" "d < 2 ^ Suc b"
    using ilog2_bounds [of n] ilog2_bounds [of d] n d unfolding a_def b_def by blast+
  have an': "(2::rat) ^ a \<le> of_int n" "of_int n < (2::rat) ^ Suc a"
    and bd': "(2::rat) ^ b \<le> of_int d" "of_int d < (2::rat) ^ Suc b"
    using an bd by (metis of_int_le_iff of_int_less_iff of_int_numeral of_int_power)+
  have k1: "(2::rat) powi (int a - int b) * 2 ^ b = 2 ^ a"
    by (simp add: power_int_diff powi_nat)
  have up: "x < 2 powi (int a - int b + 1)"
  proof -
    have "(2::rat) powi (int a - int b + 1) * 2 ^ b = 2 ^ Suc a"
      using k1 by (simp add: power_int_add)
    then have "2 ^ Suc a \<le> (2::rat) powi (int a - int b + 1) * of_int d"
      using bd'(1) mult_left_mono [of "2 ^ b" "of_int d" "(2::rat) powi (int a - int b + 1)"] by simp
    with an'(2) have "of_int n < (2::rat) powi (int a - int b + 1) * of_int d" by linarith
    with d show ?thesis by (simp add: x pos_divide_less_eq)
  qed
  have lo: "2 powi (int a - int b - 1) \<le> x"
  proof -
    have "(2::rat) powi (int a - int b - 1) * 2 ^ Suc b = 2 ^ a"
      using k1 by (simp add: power_int_diff)
    then have "(2::rat) powi (int a - int b - 1) * of_int d \<le> 2 ^ a"
      using bd'(2) mult_left_mono [of "of_int d" "2 ^ Suc b" "(2::rat) powi (int a - int b - 1)"]
      by simp
    with an'(1) have "(2::rat) powi (int a - int b - 1) * of_int d \<le> of_int n" by linarith
    with d show ?thesis by (simp add: x pos_le_divide_eq)
  qed
  have f: "flog2 x = (if 2 powi (int a - int b) \<le> x then int a - int b else int a - int b - 1)"
    by (simp add: flog2_def q ab Let_def p2_def)
  from f lo show "2 powi flog2 x \<le> x" by simp
  from f up show "x < 2 powi (flog2 x + 1)" by simp
qed

lemma flog2_unique:
  assumes "2 powi k \<le> x" "x < 2 powi (k + 1)"
  shows "flog2 x = k"
proof -
  have x: "0 < x" using assms(1) powi_pos [of k] by linarith
  have "(2::rat) powi k < 2 powi (flog2 x + 1)" "(2::rat) powi flog2 x < 2 powi (k + 1)"
    using assms flog2_bounds [OF x] by linarith+
  then show ?thesis by simp
qed

lemma flog2_mono: "0 < x \<Longrightarrow> x \<le> y \<Longrightarrow> flog2 x \<le> flog2 y"
proof -
  assume "0 < x" "x \<le> y"
  then have "(2::rat) powi flog2 x < 2 powi (flog2 y + 1)"
    using flog2_bounds [of x] flog2_bounds [of y] by linarith
  then show ?thesis by simp
qed

definition round_half_even :: "rat \<Rightarrow> int" where
  "round_half_even x =
     (let f = \<lfloor>x\<rfloor>; r = x - of_int f
      in if r < 1 / 2 \<or> (r = 1 / 2 \<and> even f) then f else f + 1)"

lemma round_half_even_int [simp]: "round_half_even (of_int n) = n"
  by (simp add: round_half_even_def)

lemma round_half_even_err: "\<bar>of_int (round_half_even x) - x\<bar> \<le> 1 / 2"
  unfolding round_half_even_def Let_def
  by (auto simp: abs_if) linarith+

lemma round_half_even_mono: "x \<le> y \<Longrightarrow> round_half_even x \<le> round_half_even y"
proof -
  assume le: "x \<le> y"
  then have f: "\<lfloor>x\<rfloor> \<le> \<lfloor>y\<rfloor>" by (rule floor_mono)
  show ?thesis
  proof (cases "\<lfloor>x\<rfloor> = \<lfloor>y\<rfloor>")
    case True
    with le show ?thesis unfolding round_half_even_def Let_def by auto
  next
    case False
    with f have "\<lfloor>x\<rfloor> + 1 \<le> \<lfloor>y\<rfloor>" by linarith
    then show ?thesis unfolding round_half_even_def Let_def by auto
  qed
qed

lemma round_half_even_minus: "round_half_even (- x) = - round_half_even x"
proof (cases "x = of_int \<lfloor>x\<rfloor>")
  case True
  then show ?thesis by (metis of_int_minus round_half_even_int)
next
  case False
  then have m: "\<lfloor>- x\<rfloor> = - \<lfloor>x\<rfloor> - 1" by linarith
  show ?thesis unfolding round_half_even_def Let_def m by (auto simp: field_simps)
qed

definition ulp :: "rat \<Rightarrow> rat" where
  "ulp x = p2 (max (flog2 \<bar>x\<bar> - 52) (- 1074))"

lemma ulp_powi: "ulp x = 2 powi (max (flog2 \<bar>x\<bar> - 52) (- 1074))"
  by (simp add: ulp_def p2_def)

definition fl :: "rat \<Rightarrow> rat" where
  "fl x = (if x = 0 then 0 else of_int (round_half_even (x / ulp x)) * ulp x)"

lemma ulp_pos [simp]: "0 < ulp x" by (simp add: ulp_powi)

lemma ulp_nonzero [simp]: "ulp x \<noteq> 0" by (simp add: ulp_powi)

lemma fl_0 [simp]: "fl 0 = 0" by (simp add: fl_def)

lemma fl_minus [simp]: "fl (- x) = - fl x"
  by (simp add: fl_def ulp_powi round_half_even_minus)

text \<open>The representable values: integers of at most 53 bits times a power of two.\<close>

lemma powi_int_multiple:
  "p \<le> e \<Longrightarrow> \<exists>k::int. (2::rat) powi e = of_int k * 2 powi p"
proof -
  assume "p \<le> e"
  then have e: "e = int (nat (e - p)) + p" by simp
  have "(2::rat) powi e = 2 powi (int (nat (e - p)) + p)" using e by (rule arg_cong)
  then have "(2::rat) powi e = 2 powi (int (nat (e - p))) * 2 powi p"
    using power_int_add [of "2::rat" "int (nat (e - p))" p] by linarith
  also have "\<dots> = of_int (2 ^ nat (e - p)) * 2 powi p" by (simp only: powi_nat of_int_power of_int_numeral)
  finally show ?thesis by blast
qed

lemma fl_multiple:
  assumes "x = of_int k * ulp x"
  shows "fl x = x"
proof -
  have "x / ulp x = of_int k"
    using assms by (metis nonzero_mult_div_cancel_right ulp_pos less_irrefl)
  with assms show ?thesis by (simp add: fl_def)
qed

lemma fl_powi: "- 1074 \<le> e \<Longrightarrow> fl (2 powi e) = 2 powi e"
proof -
  assume e: "- 1074 \<le> e"
  have "flog2 (2 powi e) = e" by (rule flog2_unique) simp_all
  then have "ulp (2 powi e) = 2 powi (max (e - 52) (- 1074))" by (simp add: ulp_powi)
  with e obtain k :: int where "(2::rat) powi e = of_int k * ulp (2 powi e)"
    using powi_int_multiple [of "max (e - 52) (- 1074)" e] by auto
  then show ?thesis by (rule fl_multiple)
qed

lemma fl_representable:
  assumes "\<bar>m\<bar> \<le> 2 ^ 53" and "- 1074 \<le> e"
  shows "fl (of_int m * 2 powi e) = of_int m * 2 powi e"
proof -
  consider "m = 0" | "\<bar>m\<bar> = 2 ^ 53" | "m \<noteq> 0" "\<bar>m\<bar> < 2 ^ 53" using assms(1) by linarith
  then show ?thesis
  proof cases
    case 1
    then show ?thesis by simp
  next
    case 2
    have p: "(2::rat) ^ 53 * 2 powi e = 2 powi (e + 53)" by (simp add: power_int_add)
    from 2 consider "m = 2 ^ 53" | "m = - (2 ^ 53)" by linarith
    then have "of_int m * (2::rat) powi e = 2 powi (e + 53)
        \<or> of_int m * (2::rat) powi e = - (2 powi (e + 53))"
      unfolding p [symmetric] by cases simp_all
    then show ?thesis using fl_powi [of "e + 53"] assms(2) by auto
  next
    case 3
    let ?x = "of_int m * (2::rat) powi e"
    have ax: "\<bar>?x\<bar> = of_int \<bar>m\<bar> * 2 powi e" by (simp add: abs_mult)
    have pos: "0 < \<bar>?x\<bar>" using 3(1) by simp
    have "of_int \<bar>m\<bar> < (2::rat) ^ 53" using 3(2) by (metis of_int_less_iff of_int_numeral of_int_power)
    then have "\<bar>?x\<bar> < 2 ^ 53 * 2 powi e" unfolding ax by simp
    also have "\<dots> = 2 powi (e + 53)" by (simp add: power_int_add)
    finally have "(2::rat) powi flog2 \<bar>?x\<bar> < 2 powi (e + 53)"
      using flog2_bounds(1) [OF pos] by linarith
    then have "flog2 \<bar>?x\<bar> < e + 53" by simp
    with assms(2) have "max (flog2 \<bar>?x\<bar> - 52) (- 1074) \<le> e" by linarith
    then obtain k :: int where "(2::rat) powi e = of_int k * ulp ?x"
      unfolding ulp_powi using powi_int_multiple by blast
    then have "?x = of_int (m * k) * ulp ?x" by simp
    then show ?thesis by (rule fl_multiple)
  qed
qed

lemma fl_of_int: "\<bar>n\<bar> \<le> 2 ^ 53 \<Longrightarrow> fl (of_int n) = of_int n"
  using fl_representable [of n 0] by simp

lemma fl_1 [simp]: "fl 1 = 1"
  using fl_of_int [of 1] by simp

lemma fl_pos_scaled: "0 < x \<Longrightarrow> fl x = of_int (round_half_even (x / ulp x)) * ulp x"
  by (simp add: fl_def)

lemma fl_mono_pos:
  assumes "0 < x" "x \<le> y"
  shows "fl x \<le> fl y"
proof (cases "ulp x = ulp y")
  case True
  have "x / ulp x \<le> y / ulp x" using assms by (simp add: divide_right_mono less_imp_le)
  then have "round_half_even (x / ulp x) \<le> round_half_even (y / ulp y)"
    using True round_half_even_mono by simp
  with True assms show ?thesis by (simp add: fl_pos_scaled mult_right_mono less_imp_le)
next
  case False
  have ef: "flog2 x \<le> flog2 y" using assms by (rule flog2_mono)
  with False assms have ey: "ulp y = 2 powi (flog2 y - 52)" "- 1074 \<le> flog2 y - 52"
    "flog2 x < flog2 y"
    by (auto simp: ulp_powi max_def split: if_splits)
  have y0: "0 < y" using assms by linarith
  have "(2::rat) powi flog2 y / ulp y = of_int (2 ^ 52)"
    by (simp add: ey power_int_diff)
  moreover have "(2::rat) powi flog2 y / ulp y \<le> y / ulp y"
    using flog2_bounds(1) [OF y0] by (simp add: divide_right_mono less_imp_le)
  ultimately have "2 ^ 52 \<le> round_half_even (y / ulp y)"
    by (metis round_half_even_int round_half_even_mono)
  then have "of_int (2 ^ 52) * ulp y \<le> fl y"
    unfolding fl_pos_scaled [OF y0]
    by (intro mult_right_mono) (simp_all only: of_int_le_iff less_imp_le [OF ulp_pos])
  moreover have "of_int (2 ^ 52) * ulp y = 2 powi flog2 y" by (simp add: ey power_int_diff)
  ultimately have hi: "2 powi flog2 y \<le> fl y" by simp
  have "x < 2 powi flog2 y"
  proof -
    have "(2::rat) powi (flog2 x + 1) \<le> 2 powi flog2 y" using ey(3) by (simp only: powi_le_iff)
    then show ?thesis using flog2_bounds(2) [OF assms(1)] by linarith
  qed
  obtain k :: int where k: "(2::rat) powi flog2 y = of_int k * ulp x"
    using powi_int_multiple [of "max (flog2 \<bar>x\<bar> - 52) (- 1074)" "flog2 y"] assms ey
    by (auto simp: ulp_powi)
  have "x / ulp x \<le> of_int k"
    using \<open>x < 2 powi flog2 y\<close> k by (simp add: pos_divide_le_eq less_imp_le)
  then have "round_half_even (x / ulp x) \<le> k" by (metis round_half_even_int round_half_even_mono)
  then have "fl x \<le> of_int k * ulp x"
    unfolding fl_pos_scaled [OF assms(1)] by (simp add: mult_right_mono less_imp_le)
  with hi k show ?thesis by simp
qed

lemma fl_nonneg: "0 \<le> x \<Longrightarrow> 0 \<le> fl x"
proof (cases "x = 0")
  case False
  assume "0 \<le> x"
  with False have "0 \<le> x / ulp x" by (simp add: less_imp_le)
  then have "round_half_even 0 \<le> round_half_even (x / ulp x)" by (rule round_half_even_mono)
  then have "0 \<le> round_half_even (x / ulp x)" using round_half_even_int [of 0] by simp
  then show ?thesis by (simp add: fl_def less_imp_le)
qed simp

lemma fl_mono: "x \<le> y \<Longrightarrow> fl x \<le> fl y"
proof -
  assume le: "x \<le> y"
  consider "0 < x" | "x \<le> 0" "0 \<le> y" | "y < 0" using le by linarith
  then show ?thesis
  proof cases
    case 1
    then show ?thesis using le by (rule fl_mono_pos)
  next
    case 2
    then show ?thesis using fl_nonneg [of y] fl_nonneg [of "- x"] by simp
  next
    case 3
    then show ?thesis using fl_mono_pos [of "- y" "- x"] le by simp
  qed
qed

lemma fl_err_ulp: "\<bar>fl x - x\<bar> \<le> ulp x / 2"
proof (cases "x = 0")
  case False
  have "fl x - x = (of_int (round_half_even (x / ulp x)) - x / ulp x) * ulp x"
    using False by (simp add: fl_def algebra_simps)
  then have "\<bar>fl x - x\<bar> = \<bar>of_int (round_half_even (x / ulp x)) - x / ulp x\<bar> * ulp x"
    by (simp add: abs_mult less_imp_le)
  also have "\<dots> \<le> 1 / 2 * ulp x"
    by (intro mult_right_mono round_half_even_err) (simp add: less_imp_le)
  finally show ?thesis by simp
qed (simp add: less_imp_le)

lemma fl_err_rel:
  assumes "2 powi (- 1022) \<le> \<bar>x\<bar>"
  shows "\<bar>fl x - x\<bar> \<le> \<bar>x\<bar> * 2 powi (- 53)"
proof -
  have pos: "0 < \<bar>x\<bar>" using assms powi_pos [of "- 1022"] by linarith
  have "(2::rat) powi (- 1022) < 2 powi (flog2 \<bar>x\<bar> + 1)"
    using assms flog2_bounds(2) [OF pos] by linarith
  then have "- 1022 < flog2 \<bar>x\<bar> + 1" by (simp only: powi_less_iff)
  then have "ulp x = 2 powi (flog2 \<bar>x\<bar> - 52)" by (simp add: ulp_powi max_def)
  then have "ulp x / 2 = 2 powi flog2 \<bar>x\<bar> * 2 powi (- 53)"
    by (simp add: power_int_diff power_int_minus)
  also have "\<dots> \<le> \<bar>x\<bar> * 2 powi (- 53)"
    by (intro mult_right_mono flog2_bounds(1) pos) simp
  finally show ?thesis using fl_err_ulp [of x] by linarith
qed

lemma fl_idem [simp]: "fl (fl x) = fl x"
proof (cases "x = 0")
  case False
  let ?m = "round_half_even (x / ulp x)" and ?e = "max (flog2 \<bar>x\<bar> - 52) (- 1074)"
  have pos: "0 < \<bar>x\<bar>" using False by simp
  have "\<bar>x\<bar> / ulp x \<le> of_int (2 ^ 53)"
  proof -
    have "\<bar>x\<bar> < 2 powi (flog2 \<bar>x\<bar> + 1)" by (rule flog2_bounds(2) [OF pos])
    also have "\<dots> \<le> 2 powi (?e + 53)" by simp
    also have "\<dots> = 2 ^ 53 * ulp x" by (simp add: ulp_powi power_int_add)
    finally show ?thesis by (simp add: pos_divide_le_eq less_imp_le)
  qed
  then have "round_half_even (\<bar>x\<bar> / ulp x) \<le> 2 ^ 53" by (metis round_half_even_int round_half_even_mono)
  moreover have "0 \<le> round_half_even (\<bar>x\<bar> / ulp x)"
    using round_half_even_mono [of 0 "\<bar>x\<bar> / ulp x"] round_half_even_int [of 0]
    by (simp add: less_imp_le)
  moreover have "\<bar>?m\<bar> = \<bar>round_half_even (\<bar>x\<bar> / ulp x)\<bar>"
    by (simp add: abs_if [of x] round_half_even_minus)
  ultimately have "\<bar>?m\<bar> \<le> 2 ^ 53" by simp
  then have "fl (of_int ?m * 2 powi ?e) = of_int ?m * 2 powi ?e"
    by (rule fl_representable) simp
  moreover have "fl x = of_int ?m * 2 powi ?e" using False by (simp add: fl_def ulp_powi)
  ultimately show ?thesis by simp
qed simp


subsection \<open>The values and operations\<close>

definition max_double :: rat where
  "max_double = of_int (pow2 53 - 1) * p2 971"

definition to_num :: "rat \<Rightarrow> jsnum" where
  "to_num x = (let y = fl x in if \<bar>y\<bar> \<le> max_double then Fin y else Infty (y < 0))"

definition num_of_int :: "int \<Rightarrow> jsnum" where
  "num_of_int n = to_num (of_int n)"

fun is_finite :: "jsnum \<Rightarrow> bool" where
  "is_finite (Fin _) = True"
| "is_finite _ = False"

fun is_integer :: "jsnum \<Rightarrow> bool" where
  "is_integer (Fin x) = (x = of_int \<lfloor>x\<rfloor>)"
| "is_integer _ = False"

fun nneg :: "jsnum \<Rightarrow> jsnum" where
  "nneg NaN = NaN"
| "nneg (Infty s) = Infty (\<not> s)"
| "nneg (Fin x) = Fin (- x)"

fun nadd :: "jsnum \<Rightarrow> jsnum \<Rightarrow> jsnum" where
  "nadd (Fin x) (Fin y) = to_num (x + y)"
| "nadd NaN _ = NaN"
| "nadd _ NaN = NaN"
| "nadd (Infty s) (Infty t) = (if s = t then Infty s else NaN)"
| "nadd (Infty s) (Fin _) = Infty s"
| "nadd (Fin _) (Infty t) = Infty t"

definition nsub :: "jsnum \<Rightarrow> jsnum \<Rightarrow> jsnum" where
  "nsub x y = nadd x (nneg y)"

fun nmul :: "jsnum \<Rightarrow> jsnum \<Rightarrow> jsnum" where
  "nmul (Fin x) (Fin y) = to_num (x * y)"
| "nmul NaN _ = NaN"
| "nmul _ NaN = NaN"
| "nmul (Infty s) (Infty t) = Infty (s \<noteq> t)"
| "nmul (Infty s) (Fin y) = (if y = 0 then NaN else Infty (s \<noteq> (y < 0)))"
| "nmul (Fin x) (Infty t) = (if x = 0 then NaN else Infty ((x < 0) \<noteq> t))"

fun ndiv :: "jsnum \<Rightarrow> jsnum \<Rightarrow> jsnum" where
  "ndiv (Fin x) (Fin y) =
     (if y = 0 then (if x = 0 then NaN else Infty (x < 0)) else to_num (x / y))"
| "ndiv NaN _ = NaN"
| "ndiv _ NaN = NaN"
| "ndiv (Infty s) (Infty t) = NaN"
| "ndiv (Infty s) (Fin y) = Infty (s \<noteq> (y < 0))"
| "ndiv (Fin x) (Infty t) = Fin 0"

fun nlt :: "jsnum \<Rightarrow> jsnum \<Rightarrow> bool" where
  "nlt (Fin x) (Fin y) = (x < y)"
| "nlt NaN _ = False"
| "nlt _ NaN = False"
| "nlt (Infty s) (Infty t) = (s \<and> \<not> t)"
| "nlt (Infty s) (Fin _) = s"
| "nlt (Fin _) (Infty t) = (\<not> t)"

fun nle :: "jsnum \<Rightarrow> jsnum \<Rightarrow> bool" where
  "nle (Fin x) (Fin y) = (x \<le> y)"
| "nle NaN _ = False"
| "nle _ NaN = False"
| "nle (Infty s) (Infty t) = (s \<or> \<not> t)"
| "nle (Infty s) (Fin _) = s"
| "nle (Fin _) (Infty t) = (\<not> t)"

definition nge :: "jsnum \<Rightarrow> jsnum \<Rightarrow> bool" where "nge x y = nle y x"
definition ngt :: "jsnum \<Rightarrow> jsnum \<Rightarrow> bool" where "ngt x y = nlt y x"

text \<open>\<open>===\<close> on numbers: \<open>NaN\<close> differs from itself.\<close>

definition neq :: "jsnum \<Rightarrow> jsnum \<Rightarrow> bool" where
  "neq x y = (x = y \<and> x \<noteq> NaN)"

text \<open>\<open>Math.floor\<close>, \<open>Math.ceil\<close>, \<open>Math.round\<close> (ties towards plus infinity), \<open>Math.abs\<close>,
  \<open>Math.max\<close>, \<open>Math.min\<close>: exact on doubles.\<close>

fun nfloor :: "jsnum \<Rightarrow> jsnum" where
  "nfloor (Fin x) = Fin (of_int \<lfloor>x\<rfloor>)"
| "nfloor x = x"

fun nceil :: "jsnum \<Rightarrow> jsnum" where
  "nceil (Fin x) = Fin (of_int \<lceil>x\<rceil>)"
| "nceil x = x"

fun nround :: "jsnum \<Rightarrow> jsnum" where
  "nround (Fin x) = Fin (of_int \<lfloor>x + 1 / 2\<rfloor>)"
| "nround x = x"

fun nabs :: "jsnum \<Rightarrow> jsnum" where
  "nabs (Fin x) = Fin \<bar>x\<bar>"
| "nabs (Infty s) = Infty False"
| "nabs NaN = NaN"

definition nmax :: "jsnum \<Rightarrow> jsnum \<Rightarrow> jsnum" where
  "nmax x y = (if x = NaN \<or> y = NaN then NaN else if nle x y then y else x)"

definition nmin :: "jsnum \<Rightarrow> jsnum \<Rightarrow> jsnum" where
  "nmin x y = (if x = NaN \<or> y = NaN then NaN else if nle x y then x else y)"

subsection \<open>Laws\<close>

lemma max_double_eq: "max_double = (2 ^ 53 - 1) * 2 ^ 971"
  by (simp add: max_double_def pow2_eq p2_def power_int_def)

lemma max_double_nonneg [simp]: "0 \<le> max_double" "1 \<le> max_double"
  by (simp_all add: max_double_eq)

lemma fl_max_double: "fl max_double = max_double"
  unfolding max_double_eq using fl_representable [of "2 ^ 53 - 1" 971]
  by (simp add: power_int_def)

lemma to_num_Fin: "\<bar>x\<bar> \<le> max_double \<Longrightarrow> to_num x = Fin (fl x)"
proof -
  assume "\<bar>x\<bar> \<le> max_double"
  then have "fl x \<le> fl max_double" "fl (- x) \<le> fl max_double"
    by (intro fl_mono; simp)+
  then have "\<bar>fl x\<bar> \<le> max_double" by (simp add: fl_max_double)
  then show ?thesis by (simp add: to_num_def)
qed

lemma max_double_ge: "x \<le> 2 ^ 1000 \<Longrightarrow> x \<le> max_double"
proof -
  assume "x \<le> 2 ^ 1000"
  also have "(2::rat) ^ 1000 \<le> max_double" unfolding max_double_eq by simp
  finally show ?thesis .
qed

lemma to_num_small: "\<bar>x\<bar> \<le> 2 ^ 1000 \<Longrightarrow> to_num x = Fin (fl x)"
  by (rule to_num_Fin) (rule max_double_ge)

lemma num_of_int_small: "\<bar>n\<bar> \<le> 2 ^ 53 \<Longrightarrow> num_of_int n = Fin (of_int n)"
proof -
  assume n: "\<bar>n\<bar> \<le> 2 ^ 53"
  then have "of_int \<bar>n\<bar> \<le> (of_int (2 ^ 53) :: rat)" by (simp only: of_int_le_iff)
  then have "\<bar>of_int n :: rat\<bar> \<le> 2 ^ 53" by simp
  then have "\<bar>of_int n :: rat\<bar> \<le> 2 ^ 1000" by (rule order_trans) simp
  then show ?thesis unfolding num_of_int_def using n by (simp only: to_num_small fl_of_int)
qed

lemma to_num_neq_NaN [simp]: "to_num x \<noteq> NaN"
  by (simp add: to_num_def Let_def)

lemma to_num_0 [simp]: "to_num 0 = Fin 0"
  by (simp add: to_num_def)

lemma to_num_1 [simp]: "to_num 1 = Fin 1"
  by (simp add: to_num_def)

lemma to_num_mono: "x \<le> y \<Longrightarrow> nle (to_num x) (to_num y)"
  using fl_mono [of x y] by (auto simp: to_num_def Let_def abs_if split: if_splits)

lemma to_num_nonneg: "0 \<le> x \<Longrightarrow> nle (Fin 0) (to_num x)"
  using to_num_mono [of 0 x] by simp

lemma nle_refl: "x \<noteq> NaN \<Longrightarrow> nle x x" by (cases x) auto

lemma nle_trans: "nle x y \<Longrightarrow> nle y z \<Longrightarrow> nle x z"
  by (cases x; cases y; cases z) auto

lemma nlt_nle: "nlt x y \<Longrightarrow> nle x y" by (cases x; cases y) auto

lemma nlt_irrefl [simp]: "\<not> nlt x x" by (cases x) auto

lemma nlt_asym: "nlt x y \<Longrightarrow> \<not> nlt y x" by (cases x; cases y) auto

lemma nlt_trans: "nlt x y \<Longrightarrow> nlt y z \<Longrightarrow> nlt x z" by (cases x; cases y; cases z) auto

lemma nle_nlt_trans: "nle x y \<Longrightarrow> nlt y z \<Longrightarrow> nlt x z" by (cases x; cases y; cases z) auto

lemma nlt_nle_trans: "nlt x y \<Longrightarrow> nle y z \<Longrightarrow> nlt x z" by (cases x; cases y; cases z) auto

lemma not_nlt: "x \<noteq> NaN \<Longrightarrow> y \<noteq> NaN \<Longrightarrow> \<not> nlt x y \<longleftrightarrow> nle y x"
  by (cases x; cases y) auto

lemma not_nle: "x \<noteq> NaN \<Longrightarrow> y \<noteq> NaN \<Longrightarrow> \<not> nle x y \<longleftrightarrow> nlt y x"
  by (cases x; cases y) auto

lemma nle_antisym: "nle x y \<Longrightarrow> nle y x \<Longrightarrow> x = y"
  by (cases x; cases y) auto

lemma nle_not_NaN: "nle x y \<Longrightarrow> x \<noteq> NaN \<and> y \<noteq> NaN"
  by (cases x; cases y) auto

lemma is_finite_iff: "is_finite x \<longleftrightarrow> (\<exists>r. x = Fin r)" by (cases x) auto

lemma nround_half: "nround (Fin x) = Fin (of_int (\<lfloor>x + 1 / 2\<rfloor>))" by simp

end
