(* ===== verification/JSText.thy ===== *)
theory JSText
  imports JSNum
begin

section \<open>JavaScript strings and big integers\<close>

text \<open>
  Strings are character lists (the code's identifiers, addresses and amounts are ASCII).
  \<open>bigint_of_string\<close> is the \<open>BigInt(s)\<close> conversion, \<open>None\<close> where it throws a
  \<open>SyntaxError\<close>: surrounding white space is ignored, the empty string is zero, a decimal
  literal may carry a sign, \<open>0x\<close>, \<open>0o\<close> and \<open>0b\<close> literals may not.
  \<open>string_of_int\<close> is \<open>toString()\<close>; the two are inverse on printed integers.
\<close>

abbreviation char_code :: "char \<Rightarrow> nat" where "char_code c \<equiv> of_char c"

definition lower_char :: "char \<Rightarrow> char" where
  "lower_char c = (if 65 \<le> char_code c \<and> char_code c \<le> 90 then char_of (char_code c + 32) else c)"

definition to_lower :: "string \<Rightarrow> string" where
  "to_lower s = map lower_char s"

definition is_digit :: "char \<Rightarrow> bool" where
  "is_digit c = (48 \<le> char_code c \<and> char_code c \<le> 57)"

definition is_hex :: "char \<Rightarrow> bool" where
  "is_hex c = (is_digit c \<or> (65 \<le> char_code c \<and> char_code c \<le> 70) \<or> (97 \<le> char_code c \<and> char_code c \<le> 102))"

definition is_space :: "char \<Rightarrow> bool" where
  "is_space c = (char_code c = 32 \<or> (9 \<le> char_code c \<and> char_code c \<le> 13))"

definition digit_value :: "char \<Rightarrow> nat" where
  "digit_value c =
     (if is_digit c then char_code c - 48
      else if 97 \<le> char_code c then char_code c - 87 else char_code c - 55)"

definition trim :: "string \<Rightarrow> string" where
  "trim s = rev (dropWhile is_space (rev (dropWhile is_space s)))"

definition starts_with :: "string \<Rightarrow> string \<Rightarrow> bool" where
  "starts_with p s = (take (length p) s = p)"

definition ends_with :: "string \<Rightarrow> string \<Rightarrow> bool" where
  "ends_with p s = (length p \<le> length s \<and> drop (length s - length p) s = p)"

fun contains_str :: "string \<Rightarrow> string \<Rightarrow> bool" where
  "contains_str p [] = (p = [])"
| "contains_str p (c # s) = (starts_with p (c # s) \<or> contains_str p s)"

lemma lower_char_idem [simp]: "lower_char (lower_char c) = lower_char c"
  by (auto simp: lower_char_def)

lemma to_lower_idem [simp]: "to_lower (to_lower s) = to_lower s"
  by (simp add: to_lower_def comp_def)

lemma length_to_lower [simp]: "length (to_lower s) = length s"
  by (simp add: to_lower_def)

lemma to_lower_Nil [simp]: "to_lower [] = []" "to_lower s = [] \<longleftrightarrow> s = []"
  by (simp_all add: to_lower_def)

subsection \<open>Printing and reading integers\<close>

definition digit_char :: "nat \<Rightarrow> char" where
  "digit_char d = char_of (48 + d)"

function nat_digits :: "nat \<Rightarrow> string" where
  "nat_digits n = (if n < 10 then [digit_char n] else nat_digits (n div 10) @ [digit_char (n mod 10)])"
  by pat_completeness auto
termination
  by (relation "measure id") auto

declare nat_digits.simps [simp del]

definition string_of_int :: "int \<Rightarrow> string" where
  "string_of_int i = (if i < 0 then CHR ''-'' # nat_digits (nat (- i)) else nat_digits (nat i))"

text \<open>The same digits computed on integers, which the evaluator divides quickly.\<close>

function int_digits :: "int \<Rightarrow> string" where
  "int_digits i = (if i < 10 then [digit_char (nat i)] else int_digits (i div 10) @ [digit_char (nat (i mod 10))])"
  by pat_completeness auto
termination
  by (relation "measure nat") auto

declare int_digits.simps [simp del]

lemma int_digits_nat: "int_digits (int n) = nat_digits n"
proof (induction n rule: nat_digits.induct)
  case (1 n)
  show ?case
  proof (cases "n < 10")
    case True
    then show ?thesis by (simp add: int_digits.simps [of "int n"] nat_digits.simps [of n])
  next
    case False
    have "int n div 10 = int (n div 10)" "int n mod 10 = int (n mod 10)"
      by (simp_all add: zdiv_int zmod_int)
    with False 1 show ?thesis
      by (simp add: int_digits.simps [of "int n"] nat_digits.simps [of n])
  qed
qed

lemma string_of_int_code [code]:
  "string_of_int i = (if i < 0 then CHR ''-'' # int_digits (- i) else int_digits i)"
proof -
  have "int_digits j = nat_digits (nat j)" if "0 \<le> j" for j
    using int_digits_nat [of "nat j"] that by (simp only: int_nat_eq if_True)
  then show ?thesis by (simp add: string_of_int_def)
qed

definition radix_value :: "nat \<Rightarrow> string \<Rightarrow> int" where
  "radix_value b s = foldl (\<lambda>a c. a * int b + int (digit_value c)) 0 s"

definition all_digits :: "string \<Rightarrow> bool" where
  "all_digits s = (s \<noteq> [] \<and> list_all is_digit s)"

definition decimal_literal :: "string \<Rightarrow> int option" where
  "decimal_literal s = (if all_digits s then Some (radix_value 10 s) else None)"

definition prefixed_literal :: "char \<Rightarrow> string \<Rightarrow> int option" where
  "prefixed_literal p ds =
     (if ds = [] then None
      else if lower_char p = CHR ''x'' \<and> list_all is_hex ds then Some (radix_value 16 ds)
      else if lower_char p = CHR ''o'' \<and> list_all (\<lambda>c. is_digit c \<and> digit_value c < 8) ds
        then Some (radix_value 8 ds)
      else if lower_char p = CHR ''b'' \<and> list_all (\<lambda>c. is_digit c \<and> digit_value c < 2) ds
        then Some (radix_value 2 ds)
      else None)"

definition bigint_literal :: "string \<Rightarrow> int option" where
  "bigint_literal s =
     (case s of
        [] \<Rightarrow> Some 0
      | c # t \<Rightarrow>
          if c = CHR ''-'' then map_option uminus (decimal_literal t)
          else if c = CHR ''+'' then decimal_literal t
          else (case t of
                  [] \<Rightarrow> decimal_literal s
                | p # ds \<Rightarrow> if c = CHR ''0'' \<and> \<not> is_digit p then prefixed_literal p ds
                            else decimal_literal s))"

definition bigint_of_string :: "string \<Rightarrow> int option" where
  "bigint_of_string s = bigint_literal (trim s)"

lemma digit_char_code: "d < 10 \<Longrightarrow> char_code (digit_char d) = 48 + d"
  by (simp add: digit_char_def of_char_of)

lemma is_digit_digit_char: "d < 10 \<Longrightarrow> is_digit (digit_char d)"
  by (simp add: is_digit_def digit_char_code)

lemma digit_value_digit_char: "d < 10 \<Longrightarrow> digit_value (digit_char d) = d"
  by (simp add: digit_value_def is_digit_digit_char digit_char_code)

lemma nat_digits_all: "all_digits (nat_digits n)"
proof (induction n rule: nat_digits.induct)
  case (1 n)
  then show ?case
    by (cases "n < 10")
      (simp_all add: nat_digits.simps [of n] all_digits_def is_digit_digit_char)
qed

lemma radix_value_snoc: "radix_value b (s @ [c]) = radix_value b s * int b + int (digit_value c)"
  by (simp add: radix_value_def)

lemma radix_value_nat_digits: "radix_value 10 (nat_digits n) = int n"
proof (induction n rule: nat_digits.induct)
  case (1 n)
  show ?case
  proof (cases "n < 10")
    case True
    then show ?thesis
      by (simp add: nat_digits.simps [of n] radix_value_def digit_value_digit_char)
  next
    case False
    have "int (n div 10) * 10 + int (n mod 10) = int n"
      using div_mult_mod_eq [of n 10] by linarith
    with 1 False show ?thesis
      by (simp add: nat_digits.simps [of n] radix_value_snoc digit_value_digit_char)
  qed
qed

lemma radix_value_nonneg: "0 \<le> radix_value b s"
  by (induction s rule: rev_induct) (simp_all add: radix_value_snoc, simp add: radix_value_def)

lemma digit_not_space: "is_digit c \<Longrightarrow> \<not> is_space c"
  by (auto simp: is_digit_def is_space_def)

lemma trim_id:
  "s \<noteq> [] \<Longrightarrow> \<not> is_space (hd s) \<Longrightarrow> \<not> is_space (last s) \<Longrightarrow> trim s = s"
proof -
  assume a: "s \<noteq> []" "\<not> is_space (hd s)" "\<not> is_space (last s)"
  then have "dropWhile is_space s = s" by (cases s) auto
  moreover have "dropWhile is_space (rev s) = rev s"
    using a by (cases s rule: rev_cases) auto
  ultimately show ?thesis by (simp add: trim_def)
qed

lemma trim_digits: "all_digits s \<Longrightarrow> trim s = s"
  by (rule trim_id) (auto simp: all_digits_def list_all_iff digit_not_space)

lemma bigint_literal_digits: "all_digits s \<Longrightarrow> bigint_literal s = Some (radix_value 10 s)"
proof -
  assume a: "all_digits s"
  then obtain c t where s: "s = c # t" by (cases s) (auto simp: all_digits_def)
  with a have "is_digit c" by (simp add: all_digits_def)
  then have "c \<noteq> CHR ''-''" "c \<noteq> CHR ''+''" by (auto simp: is_digit_def)
  moreover have "is_digit p" if "t = p # ds" for p ds using a s that by (simp add: all_digits_def)
  ultimately show ?thesis
    using a s by (auto simp: bigint_literal_def decimal_literal_def split: list.splits)
qed

lemma bigint_of_digits: "all_digits s \<Longrightarrow> bigint_of_string s = Some (radix_value 10 s)"
  by (simp add: bigint_of_string_def trim_digits bigint_literal_digits)

lemma bigint_of_string_of_int [simp, js_simps]: "bigint_of_string (string_of_int i) = Some i"
proof (cases "i < 0")
  case True
  let ?d = "nat_digits (nat (- i))"
  have ne: "?d \<noteq> []" and dig: "list_all is_digit ?d"
    using nat_digits_all [of "nat (- i)"] by (simp_all add: all_digits_def)
  then have "\<not> is_space (last (CHR ''-'' # ?d))"
    by (auto simp: list_all_iff digit_not_space)
  then have "trim (CHR ''-'' # ?d) = CHR ''-'' # ?d"
    by (intro trim_id) (simp_all add: is_space_def)
  with True show ?thesis
    by (simp add: string_of_int_def bigint_of_string_def bigint_literal_def decimal_literal_def
        nat_digits_all radix_value_nat_digits)
next
  case False
  then show ?thesis
    by (simp add: string_of_int_def bigint_of_digits nat_digits_all radix_value_nat_digits)
qed

lemma string_of_int_inj: "string_of_int i = string_of_int j \<longleftrightarrow> i = j"
  by (metis bigint_of_string_of_int option.inject)

lemma string_of_int_0: "string_of_int 0 = ''0''"
  by (simp add: string_of_int_def nat_digits.simps digit_char_def char_of_def bit_0 bit_Suc)

lemma string_of_int_nonneg_digits: "0 \<le> i \<Longrightarrow> all_digits (string_of_int i)"
  by (simp add: string_of_int_def nat_digits_all)


subsection \<open>Errors, big-integer division, JSON values\<close>

text \<open>What the code throws: plain errors, the engine's own errors, and the HTTP exceptions of
  the API, each with its message.\<close>

datatype js_error =
    Error string
  | SyntaxError
  | RangeError
  | TypeError
  | BadRequest string
  | Unauthorized string
  | Forbidden string
  | NotFound string
  | Conflict string
  | TooManyRequests string
  | Unprocessable string
  | ServiceUnavailable string
  | BadGateway string
  | UniqueConstraint string

text \<open>\<open>/\<close> on big integers truncates towards zero.\<close>

definition bigint_div :: "int \<Rightarrow> int \<Rightarrow> int" where
  "bigint_div a b = sgn a * sgn b * (\<bar>a\<bar> div \<bar>b\<bar>)"

definition bigint_mod :: "int \<Rightarrow> int \<Rightarrow> int" where
  "bigint_mod a b = a - b * bigint_div a b"

lemma bigint_div_nonneg [simp]: "0 \<le> a \<Longrightarrow> 0 < b \<Longrightarrow> bigint_div a b = a div b"
  by (cases "a = 0") (simp_all add: bigint_div_def)

lemma bigint_mod_nonneg: "0 \<le> a \<Longrightarrow> 0 < b \<Longrightarrow> bigint_mod a b = a mod b"
  by (simp add: bigint_mod_def minus_mult_div_eq_mod)

text \<open>\<open>BigInt(s)\<close> as a computation that may throw, and \<open>BigInt(n)\<close> of a number, which
  throws unless the number is an integer.\<close>

definition BigInt :: "string \<Rightarrow> (js_error, int) result" where
  "BigInt s = (case bigint_of_string s of None \<Rightarrow> Err SyntaxError | Some i \<Rightarrow> Ok i)"

fun BigInt_num :: "jsnum \<Rightarrow> (js_error, int) result" where
  "BigInt_num (Fin x) = (if x = of_int \<lfloor>x\<rfloor> then Ok \<lfloor>x\<rfloor> else Err RangeError)"
| "BigInt_num _ = Err RangeError"

lemma BigInt_string_of_int [simp, js_simps]: "BigInt (string_of_int i) = Ok i"
  by (simp add: BigInt_def)

lemma BigInt_num_int [simp, js_simps]: "BigInt_num (Fin (of_int i)) = Ok i"
  by simp

text \<open>Values of \<open>JSON.parse\<close>; objects are association lists with distinct keys.\<close>

datatype json =
    JNull
  | JBool bool
  | JNum jsnum
  | JStr string
  | JArr "json list"
  | JObj "(string \<times> json) list"

fun json_field :: "json \<Rightarrow> string \<Rightarrow> json option" where
  "json_field (JObj kvs) k = map_of kvs k"
| "json_field _ k = None"

fun zod_string :: "json option \<Rightarrow> string option" where
  "zod_string (Some (JStr s)) = Some s"
| "zod_string _ = None"

fun zod_nullable_string :: "json option \<Rightarrow> string option option" where
  "zod_nullable_string (Some (JStr s)) = Some (Some s)"
| "zod_nullable_string (Some JNull) = Some None"
| "zod_nullable_string _ = None"

end
