(* ===== verification/Trading.thy ===== *)
theory Trading
  imports JSText
begin

section \<open>Trading rules\<close>

text \<open>
  \<open>packages/domain/src/trading.ts\<close>, the address rules of \<open>wallet.ts\<close>, the chain table of
  \<open>chain-registry.ts\<close> and the relayed-swap consent object of \<open>evm-relayer.ts\<close>: fees,
  slippage floors, price-impact levels, the match of an on-chain transaction with a quote, and
  the wire form of the EIP-712 object. Amounts are unbounded integers, rates and dollar sizes
  JavaScript numbers.
\<close>

subsection \<open>Addresses and user names\<close>

definition isEvmAddress :: "string \<Rightarrow> bool" where
  "isEvmAddress a = (take 2 a = ''0x'' \<and> length a = 42 \<and> list_all is_hex (drop 2 a))"

definition normalizeEvmAddress :: "string \<Rightarrow> string" where
  "normalizeEvmAddress a = to_lower a"

definition is_base58 :: "char \<Rightarrow> bool" where
  "is_base58 c =
     ((49 \<le> char_code c \<and> char_code c \<le> 57)
      \<or> (65 \<le> char_code c \<and> char_code c \<le> 72) \<or> (74 \<le> char_code c \<and> char_code c \<le> 78)
      \<or> (80 \<le> char_code c \<and> char_code c \<le> 90)
      \<or> (97 \<le> char_code c \<and> char_code c \<le> 107) \<or> (109 \<le> char_code c \<and> char_code c \<le> 122))"

definition isSolanaAddress :: "string \<Rightarrow> bool" where
  "isSolanaAddress a = (32 \<le> length a \<and> length a \<le> 44 \<and> list_all is_base58 a)"

definition normalizeTraderAddress :: "string \<Rightarrow> string" where
  "normalizeTraderAddress a = (if isEvmAddress a then normalizeEvmAddress a else a)"

definition USERNAME_MIN_LENGTH :: nat where "USERNAME_MIN_LENGTH = 3"
definition USERNAME_MAX_LENGTH :: nat where "USERNAME_MAX_LENGTH = 20"

definition username_char :: "char \<Rightarrow> bool" where
  "username_char c = ((97 \<le> char_code c \<and> char_code c \<le> 122) \<or> is_digit c \<or> c = CHR ''_'')"

definition RESERVED_USERNAMES :: "string list" where
  "RESERVED_USERNAMES =
     [''kamby'', ''admin'', ''administrator'', ''support'', ''moderator'', ''mod'', ''staff'', ''official'',
      ''system'', ''root'', ''null'', ''undefined'', ''api'']"

definition normalizeUsername :: "string \<Rightarrow> string" where
  "normalizeUsername u = to_lower u"

definition isValidUsername :: "string \<Rightarrow> bool" where
  "isValidUsername u =
     (let n = normalizeUsername u in
      if length n < USERNAME_MIN_LENGTH \<or> length n > USERNAME_MAX_LENGTH then False
      else if \<not> (n \<noteq> [] \<and> list_all username_char n) then False
      else if n \<in> set RESERVED_USERNAMES then False
      else True)"

lemma lower_hex [simp]: "is_hex (lower_char c) = is_hex c"
proof (cases "65 \<le> char_code c \<and> char_code c \<le> 90")
  case True
  then have "char_code (lower_char c) = char_code c + 32"
    by (simp add: lower_char_def of_char_of)
  with True show ?thesis by (auto simp: is_hex_def is_digit_def)
next
  case False
  then have "lower_char c = c" by (auto simp: lower_char_def)
  then show ?thesis by simp
qed

lemma to_lower_0x: "take 2 a = ''0x'' \<Longrightarrow> take 2 (to_lower a) = ''0x''"
  by (simp add: to_lower_def take_map lower_char_def)

lemma isEvmAddress_lower: "isEvmAddress a \<Longrightarrow> isEvmAddress (to_lower a)"
  by (auto simp: isEvmAddress_def to_lower_0x)
    (simp add: to_lower_def drop_map list_all_iff)

lemma normalizeTraderAddress_idem [simp]:
  "normalizeTraderAddress (normalizeTraderAddress a) = normalizeTraderAddress a"
  by (simp add: normalizeTraderAddress_def normalizeEvmAddress_def)

lemma isValidUsername_normalize: "isValidUsername (normalizeUsername u) = isValidUsername u"
  by (simp add: isValidUsername_def normalizeUsername_def)

subsection \<open>The chain table\<close>

record chain_entry =
  ch_slug :: string
  ch_identifier :: string
  ch_numericId :: int
  ch_name :: string
  ch_nativeSymbol :: string

definition CHAIN_REGISTRY :: "chain_entry list" where
  "CHAIN_REGISTRY =
     [\<lparr>ch_slug = ''base'', ch_identifier = ''eip155:8453'', ch_numericId = 8453,
       ch_name = ''Base'', ch_nativeSymbol = ''ETH''\<rparr>,
      \<lparr>ch_slug = ''arbitrum'', ch_identifier = ''eip155:42161'', ch_numericId = 42161,
       ch_name = ''Arbitrum'', ch_nativeSymbol = ''ETH''\<rparr>,
      \<lparr>ch_slug = ''bnb'', ch_identifier = ''eip155:56'', ch_numericId = 56,
       ch_name = ''BSC'', ch_nativeSymbol = ''BNB''\<rparr>,
      \<lparr>ch_slug = ''robinhood'', ch_identifier = ''eip155:4663'', ch_numericId = 4663,
       ch_name = ''Robinhood Chain'', ch_nativeSymbol = ''ETH''\<rparr>,
      \<lparr>ch_slug = ''ethereum'', ch_identifier = ''eip155:1'', ch_numericId = 1,
       ch_name = ''Ethereum'', ch_nativeSymbol = ''ETH''\<rparr>]"

definition SUPPORTED_CHAIN_SLUGS :: "string list" where
  "SUPPORTED_CHAIN_SLUGS = map ch_slug CHAIN_REGISTRY"

definition SUPPORTED_CHAIN_IDS :: "int list" where
  "SUPPORTED_CHAIN_IDS = map ch_numericId CHAIN_REGISTRY"

definition isChainSlug :: "string \<Rightarrow> bool" where
  "isChainSlug v = (v \<in> set SUPPORTED_CHAIN_SLUGS)"

definition slugForChainId :: "int \<Rightarrow> string option" where
  "slugForChainId n = map_option ch_slug (find (\<lambda>c. ch_numericId c = n) CHAIN_REGISTRY)"

definition slugForIdentifier :: "string \<Rightarrow> string option" where
  "slugForIdentifier i = map_option ch_slug (find (\<lambda>c. ch_identifier c = i) CHAIN_REGISTRY)"

definition identifierForChainId :: "int \<Rightarrow> string option" where
  "identifierForChainId n =
     (case slugForChainId n of
        None \<Rightarrow> None
      | Some s \<Rightarrow> map_option ch_identifier (find (\<lambda>c. ch_slug c = s) CHAIN_REGISTRY))"

subsection \<open>Constants, price impact, slippage\<close>

datatype trade_side = BUY | SELL
datatype trade_status = PENDING | CONFIRMED | FAILED | EXPIRED

record trading_defaults =
  platformFeeBps :: int
  defaultSlippageBps :: int
  minSlippageBps :: int
  maxSlippageBps :: int
  quoteTtlSeconds :: int
  pendingTransactionTimeoutMinutes :: int
  solanaDroppedTransactionMinutes :: int
  minConfirmations :: int
  highPriceImpactBps :: int
  extremePriceImpactBps :: int

definition TRADING_DEFAULTS :: trading_defaults where
  "TRADING_DEFAULTS =
     \<lparr>platformFeeBps = 50, defaultSlippageBps = 50, minSlippageBps = 1, maxSlippageBps = 2000,
      quoteTtlSeconds = 30, pendingTransactionTimeoutMinutes = 30,
      solanaDroppedTransactionMinutes = 3, minConfirmations = 2,
      highPriceImpactBps = 500, extremePriceImpactBps = 1500\<rparr>"

definition MIN_TRADE_USD :: jsnum where "MIN_TRADE_USD = Fin 2"

datatype PriceImpactLevel = impact_normal | impact_high | impact_extreme

definition classifyPriceImpactBps :: "jsnum option \<Rightarrow> PriceImpactLevel option" where
  "classifyPriceImpactBps bps =
     (case bps of
        None \<Rightarrow> None
      | Some b \<Rightarrow>
          if nge b (Fin (of_int (extremePriceImpactBps TRADING_DEFAULTS))) then Some impact_extreme
          else if nge b (Fin (of_int (highPriceImpactBps TRADING_DEFAULTS))) then Some impact_high
          else Some impact_normal)"

text \<open>The levels are ordered by severity.\<close>

fun impact_rank :: "PriceImpactLevel \<Rightarrow> nat" where
  "impact_rank impact_normal = 0"
| "impact_rank impact_high = 1"
| "impact_rank impact_extreme = 2"

lemma impact_rank_inj [simp]: "impact_rank a = impact_rank b \<longleftrightarrow> a = b"
  by (cases a; cases b) simp_all

instantiation PriceImpactLevel :: linorder
begin

definition less_eq_PriceImpactLevel :: "PriceImpactLevel \<Rightarrow> PriceImpactLevel \<Rightarrow> bool" where
  "a \<le> b \<longleftrightarrow> impact_rank a \<le> impact_rank b"

definition less_PriceImpactLevel :: "PriceImpactLevel \<Rightarrow> PriceImpactLevel \<Rightarrow> bool" where
  "a < b \<longleftrightarrow> impact_rank a < impact_rank b"

instance
  by standard (auto simp: less_eq_PriceImpactLevel_def less_PriceImpactLevel_def simp flip: impact_rank_inj)

end

lemma classify_mono:
  "nle b c \<Longrightarrow> classifyPriceImpactBps (Some b) = Some l \<Longrightarrow>
   classifyPriceImpactBps (Some c) = Some m \<Longrightarrow> l \<le> m"
  unfolding classifyPriceImpactBps_def nge_def less_eq_PriceImpactLevel_def
  by (auto split: if_splits dest: nle_trans)

definition isValidSlippageBps :: "jsnum \<Rightarrow> bool" where
  "isValidSlippageBps bps =
     (is_integer bps \<and> nge bps (Fin (of_int (minSlippageBps TRADING_DEFAULTS)))
      \<and> nle bps (Fin (of_int (maxSlippageBps TRADING_DEFAULTS))))"

lemma isValidSlippageBps_iff:
  "isValidSlippageBps bps \<longleftrightarrow> (\<exists>n::int. bps = Fin (of_int n) \<and> 1 \<le> n \<and> n \<le> 2000)"
proof (cases bps)
  case (Fin x)
  have "x = of_int \<lfloor>x\<rfloor> \<and> 1 \<le> x \<and> x \<le> 2000 \<longleftrightarrow>
      (\<exists>n::int. x = of_int n \<and> 1 \<le> n \<and> n \<le> 2000)"
  proof
    assume a: "x = of_int \<lfloor>x\<rfloor> \<and> 1 \<le> x \<and> x \<le> 2000"
    then have "1 \<le> \<lfloor>x\<rfloor> \<and> \<lfloor>x\<rfloor> \<le> 2000" by linarith
    with a show "\<exists>n::int. x = of_int n \<and> 1 \<le> n \<and> n \<le> 2000" by blast
  qed auto
  with Fin show ?thesis
    by (simp add: isValidSlippageBps_def TRADING_DEFAULTS_def nge_def)
qed (simp_all add: isValidSlippageBps_def)

subsection \<open>Fees\<close>

record fee_tier =
  minUsd :: jsnum
  feeBps :: jsnum

definition PLATFORM_FEE_TIERS :: "fee_tier list" where
  "PLATFORM_FEE_TIERS =
     [\<lparr>minUsd = Fin 0, feeBps = Fin 400\<rparr>, \<lparr>minUsd = Fin 10, feeBps = Fin 200\<rparr>,
      \<lparr>minUsd = Fin 100, feeBps = Fin 100\<rparr>, \<lparr>minUsd = Fin 500, feeBps = Fin 75\<rparr>]"

definition PLATFORM_FEE_FALLBACK_BPS :: jsnum where "PLATFORM_FEE_FALLBACK_BPS = Fin 200"

fun tier_loop :: "jsnum \<Rightarrow> jsnum \<Rightarrow> fee_tier list \<Rightarrow> jsnum" where
  "tier_loop usd bps [] = bps"
| "tier_loop usd bps (t # ts) = tier_loop usd (if nge usd (minUsd t) then feeBps t else bps) ts"

definition resolveTierFeeBps :: "jsnum \<Rightarrow> fee_tier list \<Rightarrow> (js_error, jsnum) result" where
  "resolveTierFeeBps usdAmount tiers =
     (if \<not> is_finite usdAmount \<or> nlt usdAmount (Fin 0)
      then Err (Error ''usdAmount must be a non-negative finite number'')
      else (case tiers of
              [] \<Rightarrow> Err (Error ''tiers must not be empty'')
            | t # _ \<Rightarrow> Ok (tier_loop usdAmount (feeBps t) tiers)))"

definition calculateFeeAmount :: "int \<Rightarrow> jsnum \<Rightarrow> (js_error, int) result" where
  "calculateFeeAmount amountRaw bps =
     (if \<not> is_integer bps \<or> nlt bps (Fin 0)
      then Err (Error ''feeBps must be a non-negative integer'')
      else if amountRaw < 0 then Err (Error ''amountRaw must not be negative'')
      else bind_result (BigInt_num bps) (\<lambda>b. Ok (bigint_div (amountRaw * b) 10000)))"

definition calculateMinOutputAmount :: "int \<Rightarrow> jsnum \<Rightarrow> (js_error, int) result" where
  "calculateMinOutputAmount expectedOutputRaw slippageBps =
     (if \<not> isValidSlippageBps slippageBps then Err (Error ''slippageBps out of the allowed range'')
      else if expectedOutputRaw < 0 then Err (Error ''expectedOutputRaw must not be negative'')
      else bind_result (BigInt_num (nsub (Fin 10000) slippageBps))
             (\<lambda>b. Ok (bigint_div (expectedOutputRaw * b) 10000)))"

lemma calculateFeeAmount_int:
  "0 \<le> amountRaw \<Longrightarrow> 0 \<le> b \<Longrightarrow>
   calculateFeeAmount amountRaw (Fin (of_int b)) = Ok (amountRaw * b div 10000)"
  by (simp add: calculateFeeAmount_def)

lemma calculateFeeAmount_Ok:
  assumes "calculateFeeAmount a bps = Ok f"
  obtains b :: int where "bps = Fin (of_int b)" "0 \<le> b" "0 \<le> a" "f = a * b div 10000"
proof (cases bps)
  case (Fin x)
  from assms Fin have x: "x = of_int \<lfloor>x\<rfloor>" "0 \<le> x" and a: "0 \<le> a"
    by (auto simp: calculateFeeAmount_def split: if_splits)
  then have b: "0 \<le> \<lfloor>x\<rfloor>" by simp
  moreover have "f = a * \<lfloor>x\<rfloor> div 10000"
    using assms calculateFeeAmount_int [OF a b] Fin x(1) by simp
  ultimately show thesis using that [of "\<lfloor>x\<rfloor>"] Fin x(1) a by simp
qed (use assms in \<open>simp_all add: calculateFeeAmount_def\<close>)

lemma minOutput_int:
  assumes "0 \<le> e" "1 \<le> s" "s \<le> 2000"
  shows "calculateMinOutputAmount e (Fin (of_int s)) = Ok (e * (10000 - s) div 10000)"
proof -
  have v: "isValidSlippageBps (Fin (of_int s))" using assms isValidSlippageBps_iff by auto
  have "nsub (Fin 10000) (Fin (of_int s)) = num_of_int (10000 - s)"
    by (simp add: nsub_def num_of_int_def)
  also have "\<dots> = Fin (of_int (10000 - s))" using assms by (intro num_of_int_small) auto
  finally have "BigInt_num (nsub (Fin 10000) (Fin (of_int s))) = Ok (10000 - s)"
    by (simp only: BigInt_num_int)
  with assms v show ?thesis by (simp add: calculateMinOutputAmount_def)
qed

definition isQuoteExpired :: "int \<Rightarrow> int \<Rightarrow> bool" where
  "isQuoteExpired expiresAt now = (expiresAt \<le> now)"


subsection \<open>Properties\<close>

lemma tier_loop_spec:
  assumes "sorted_wrt (\<lambda>a b. nle (minUsd a) (minUsd b)) (t0 # ts)" and "nle (minUsd t0) usd"
  shows "\<exists>t\<in>set (t0 # ts). tier_loop usd (feeBps t0) ts = feeBps t \<and> nle (minUsd t) usd
           \<and> (\<forall>u\<in>set (t0 # ts). nle (minUsd u) usd \<longrightarrow> nle (minUsd u) (minUsd t))"
  using assms
proof (induction ts arbitrary: t0)
  case Nil
  then show ?case using nle_refl nle_not_NaN by auto
next
  case (Cons t ts)
  show ?case
  proof (cases "nle (minUsd t) usd")
    case True
    have "sorted_wrt (\<lambda>a b. nle (minUsd a) (minUsd b)) (t # ts)" using Cons.prems by simp
    from Cons.IH [OF this True] True Cons.prems show ?thesis
      by (auto simp: nge_def dest: nle_trans)
  next
    case False
    then have no: "\<not> nle (minUsd u) usd" if "u \<in> set (t # ts)" for u
      using that Cons.prems(1) by (auto dest: nle_trans)
    have "sorted_wrt (\<lambda>a b. nle (minUsd a) (minUsd b)) (t0 # ts)" using Cons.prems by simp
    from Cons.IH [OF this Cons.prems(2)] no False show ?thesis by (auto simp: nge_def)
  qed
qed

text \<open>C1: On any fee schedule ordered by size that covers the amount, the resolved rate is the rate of
  the highest tier whose minimum the amount reaches.\<close>

theorem resolveTierFeeBps_highest:
  assumes "sorted_wrt (\<lambda>a b. nle (minUsd a) (minUsd b)) (t0 # ts)"
    and "nle (minUsd t0) usd" and "is_finite usd" and "nle (Fin 0) usd"
  shows "\<exists>t\<in>set (t0 # ts). resolveTierFeeBps usd (t0 # ts) = Ok (feeBps t) \<and> nle (minUsd t) usd
           \<and> (\<forall>u\<in>set (t0 # ts). nle (minUsd u) usd \<longrightarrow> nle (minUsd u) (minUsd t))"
proof -
  have "\<not> nlt usd (Fin 0)" using assms(4) by (cases usd) auto
  moreover have "tier_loop usd (feeBps t0) (t0 # ts) = tier_loop usd (feeBps t0) ts" by simp
  ultimately show ?thesis
    using tier_loop_spec [OF assms(1,2)] assms(3) by (simp add: resolveTierFeeBps_def)
qed

theorem resolveTierFeeBps_highest_witness:
  "\<exists>t\<in>set PLATFORM_FEE_TIERS. resolveTierFeeBps (Fin 250) PLATFORM_FEE_TIERS = Ok (feeBps t)
      \<and> nle (minUsd t) (Fin 250)"
proof -
  have "sorted_wrt (\<lambda>a b. nle (minUsd a) (minUsd b)) PLATFORM_FEE_TIERS" by code_simp
  then show ?thesis
    using resolveTierFeeBps_highest [of "\<lparr>minUsd = Fin 0, feeBps = Fin 400\<rparr>" "tl PLATFORM_FEE_TIERS" "Fin 250"]
    by (auto simp: PLATFORM_FEE_TIERS_def)
qed

text \<open>C2: The fee is the exact floor of amount times basis points over 10000 and, for a rate of at most
  100 percent, never negative nor more than the amount; a fractional or negative rate and a
  negative amount throw.\<close>

theorem calculateFeeAmount_exact:
  "(0 \<le> a \<and> 0 \<le> b \<longrightarrow>
      (\<exists>f. calculateFeeAmount a (Fin (of_int b)) = Ok f \<and> 0 \<le> f
         \<and> 10000 * f \<le> a * b \<and> a * b < 10000 * (f + 1) \<and> (b \<le> 10000 \<longrightarrow> f \<le> a)))
   \<and> (is_ok (calculateFeeAmount a bps) \<longleftrightarrow> 0 \<le> a \<and> (\<exists>n::int. 0 \<le> n \<and> bps = Fin (of_int n)))"
proof
  show "0 \<le> a \<and> 0 \<le> b \<longrightarrow>
      (\<exists>f. calculateFeeAmount a (Fin (of_int b)) = Ok f \<and> 0 \<le> f
         \<and> 10000 * f \<le> a * b \<and> a * b < 10000 * (f + 1) \<and> (b \<le> 10000 \<longrightarrow> f \<le> a))"
  proof
    assume ab: "0 \<le> a \<and> 0 \<le> b"
    then have p: "0 \<le> a * b" by simp
    have "b \<le> 10000 \<longrightarrow> a * b \<le> a * 10000" using ab by (simp add: mult_left_mono)
    then have "b \<le> 10000 \<longrightarrow> a * b div 10000 \<le> a" using p by linarith
    moreover have "10000 * (a * b div 10000) \<le> a * b" "a * b < 10000 * (a * b div 10000 + 1)"
      by (rule div_floor_bounds; simp)+
    moreover have "0 \<le> a * b div 10000" using p by (simp add: pos_imp_zdiv_nonneg_iff)
    ultimately show "\<exists>f. calculateFeeAmount a (Fin (of_int b)) = Ok f \<and> 0 \<le> f
         \<and> 10000 * f \<le> a * b \<and> a * b < 10000 * (f + 1) \<and> (b \<le> 10000 \<longrightarrow> f \<le> a)"
      using calculateFeeAmount_int [of a b] ab by blast
  qed
  show "is_ok (calculateFeeAmount a bps) \<longleftrightarrow> 0 \<le> a \<and> (\<exists>n::int. 0 \<le> n \<and> bps = Fin (of_int n))"
  proof
    assume "is_ok (calculateFeeAmount a bps)"
    then obtain f where "calculateFeeAmount a bps = Ok f" by (cases "calculateFeeAmount a bps") auto
    then show "0 \<le> a \<and> (\<exists>n::int. 0 \<le> n \<and> bps = Fin (of_int n))"
      by (auto elim: calculateFeeAmount_Ok)
  next
    assume "0 \<le> a \<and> (\<exists>n::int. 0 \<le> n \<and> bps = Fin (of_int n))"
    then show "is_ok (calculateFeeAmount a bps)" using calculateFeeAmount_int [of a] by auto
  qed
qed

theorem calculateFeeAmount_exact_witness:
  "\<exists>f. calculateFeeAmount 1999999 (Fin (of_int 75)) = Ok f \<and> 10000 * f \<le> 1999999 * 75"
  using calculateFeeAmount_exact [of 1999999 75] by auto

text \<open>The enforced floor output lies between 80 percent of the expected output (the widest
  tolerance allowed) and the expected output, and is the exact floor for the tolerance;
  a tolerance that is not a whole number of basis points from 1 to 2000 throws.\<close>

theorem min_output_floor:
  "(calculateMinOutputAmount e s = Ok m \<longrightarrow>
      0 \<le> m \<and> m \<le> e \<and> 8000 * e \<le> 10000 * m + 9999
      \<and> (\<exists>n::int. s = Fin (of_int n) \<and> 1 \<le> n \<and> n \<le> 2000
          \<and> 10000 * m \<le> e * (10000 - n) \<and> e * (10000 - n) < 10000 * (m + 1)))
   \<and> (\<not> isValidSlippageBps s \<longrightarrow> \<not> is_ok (calculateMinOutputAmount e s))"
proof
  show "calculateMinOutputAmount e s = Ok m \<longrightarrow>
      0 \<le> m \<and> m \<le> e \<and> 8000 * e \<le> 10000 * m + 9999
      \<and> (\<exists>n::int. s = Fin (of_int n) \<and> 1 \<le> n \<and> n \<le> 2000
          \<and> 10000 * m \<le> e * (10000 - n) \<and> e * (10000 - n) < 10000 * (m + 1))"
  proof
    assume ok: "calculateMinOutputAmount e s = Ok m"
    then have "isValidSlippageBps s" and e: "0 \<le> e"
      by (auto simp: calculateMinOutputAmount_def split: if_splits)
    then obtain n :: int where n: "s = Fin (of_int n)" "1 \<le> n" "n \<le> 2000"
      by (auto simp: isValidSlippageBps_iff)
    with ok e have m: "m = e * (10000 - n) div 10000" by (simp add: minOutput_int)
    have "e * 8000 \<le> e * (10000 - n)" "e * (10000 - n) \<le> e * 10000"
      using e n by (simp_all add: mult_left_mono)
    moreover have b: "10000 * m \<le> e * (10000 - n)" "e * (10000 - n) < 10000 * (m + 1)"
      unfolding m by (rule div_floor_bounds; simp)+
    ultimately have "10000 * m \<le> e * 10000" "e * 8000 < 10000 * (m + 1)" by linarith+
    moreover have "0 \<le> m" unfolding m using e n by (intro pos_imp_zdiv_nonneg_iff [THEN iffD2]) auto
    ultimately show "0 \<le> m \<and> m \<le> e \<and> 8000 * e \<le> 10000 * m + 9999
      \<and> (\<exists>n::int. s = Fin (of_int n) \<and> 1 \<le> n \<and> n \<le> 2000
          \<and> 10000 * m \<le> e * (10000 - n) \<and> e * (10000 - n) < 10000 * (m + 1))"
      using n b by auto
  qed
  show "\<not> isValidSlippageBps s \<longrightarrow> \<not> is_ok (calculateMinOutputAmount e s)"
    by (simp add: calculateMinOutputAmount_def)
qed

theorem min_output_floor_witness:
  "calculateMinOutputAmount 1000001 (Fin (of_int 50)) = Ok 995000 \<and> (995000 :: int) \<le> 1000001"
proof -
  have "calculateMinOutputAmount 1000001 (Fin (of_int 50)) = Ok 995000" by (subst minOutput_int) simp_all
  with min_output_floor [of 1000001 "Fin (of_int 50)" 995000] show ?thesis by simp
qed

end
