(* ===== verification/Consent.thy ===== *)
theory Consent
  imports Trading
begin

section \<open>Transaction integrity and relayed-swap consent\<close>

text \<open>
  The two checks that tie money movement to what the user reviewed:
  \<open>transactionMatchesQuote\<close> (\<open>trading.ts\<close>), the only gate between a successful receipt and
  a confirmed trade, and the EIP-712 object of \<open>evm-relayer.ts\<close> with its JSON wire form.
\<close>

subsection \<open>The quoted and the on-chain transaction\<close>

record unsigned_tx =
  tx_to :: string
  tx_data :: string
  tx_value :: string
  tx_gas :: "string option"
  tx_maxFeePerGas :: "string option"
  tx_maxPriorityFeePerGas :: "string option"

definition parseUnsignedTx :: "json \<Rightarrow> unsigned_tx option" where
  "parseUnsignedTx j =
     (case (zod_string (json_field j ''to''), zod_string (json_field j ''data''),
            zod_string (json_field j ''value''), zod_nullable_string (json_field j ''gas''),
            zod_nullable_string (json_field j ''maxFeePerGas''),
            zod_nullable_string (json_field j ''maxPriorityFeePerGas'')) of
        (Some t, Some d, Some v, Some g, Some m, Some p) \<Rightarrow>
          Some \<lparr>tx_to = t, tx_data = d, tx_value = v, tx_gas = g, tx_maxFeePerGas = m,
                tx_maxPriorityFeePerGas = p\<rparr>
      | _ \<Rightarrow> None)"

definition json_nullable :: "string option \<Rightarrow> json" where
  "json_nullable s = (case s of None \<Rightarrow> JNull | Some v \<Rightarrow> JStr v)"

text \<open>What the quote service stores: the same object as JSON.\<close>

definition unsigned_tx_json :: "unsigned_tx \<Rightarrow> json" where
  "unsigned_tx_json t =
     JObj [(''to'', JStr (tx_to t)), (''data'', JStr (tx_data t)), (''value'', JStr (tx_value t)),
           (''gas'', json_nullable (tx_gas t)), (''maxFeePerGas'', json_nullable (tx_maxFeePerGas t)),
           (''maxPriorityFeePerGas'', json_nullable (tx_maxPriorityFeePerGas t))]"

lemma parse_unsigned_tx_json [simp]: "parseUnsignedTx (unsigned_tx_json t) = Some t"
  by (cases t) (auto simp: parseUnsignedTx_def unsigned_tx_json_def json_nullable_def
      split: option.splits)

record onchain_tx =
  oc_from :: string
  oc_to :: "string option"
  oc_value :: int
  oc_data :: string

record expected_tx =
  ex_walletAddress :: string
  ex_unsignedTx :: unsigned_tx

definition transactionMatchesQuote :: "onchain_tx \<Rightarrow> expected_tx \<Rightarrow> (js_error, bool) result" where
  "transactionMatchesQuote actual expected =
     (let expectedFrom = normalizeEvmAddress (ex_walletAddress expected);
          expectedTo = normalizeEvmAddress (tx_to (ex_unsignedTx expected))
      in bind_result (BigInt (tx_value (ex_unsignedTx expected))) (\<lambda>expectedValue.
         let expectedData = to_lower (tx_data (ex_unsignedTx expected));
             actualFrom = normalizeEvmAddress (oc_from actual);
             actualTo = map_option normalizeEvmAddress (oc_to actual);
             actualData = to_lower (oc_data actual)
         in Ok (actualFrom = expectedFrom \<and> actualTo = Some expectedTo
                \<and> oc_value actual = expectedValue \<and> actualData = expectedData)))"

text \<open>The canonical content of a transaction: what two matching transactions share.\<close>

definition tx_content :: "onchain_tx \<Rightarrow> string \<times> string option \<times> int \<times> string" where
  "tx_content t = (normalizeEvmAddress (oc_from t), map_option normalizeEvmAddress (oc_to t),
                   oc_value t, to_lower (oc_data t))"

definition quoted_content :: "expected_tx \<Rightarrow> (string \<times> string option \<times> int \<times> string) option" where
  "quoted_content e =
     map_option (\<lambda>v. (normalizeEvmAddress (ex_walletAddress e),
                      Some (normalizeEvmAddress (tx_to (ex_unsignedTx e))), v,
                      to_lower (tx_data (ex_unsignedTx e))))
       (bigint_of_string (tx_value (ex_unsignedTx e)))"

lemma matches_iff_content:
  "transactionMatchesQuote a e = Ok True \<longleftrightarrow> quoted_content e = Some (tx_content a)"
  by (cases "oc_to a")
    (auto simp: transactionMatchesQuote_def quoted_content_def tx_content_def Let_def BigInt_def
      split: option.splits)

lemma matches_throws_iff:
  "transactionMatchesQuote a e = Err x \<longleftrightarrow>
     x = SyntaxError \<and> bigint_of_string (tx_value (ex_unsignedTx e)) = None"
  by (auto simp: transactionMatchesQuote_def Let_def BigInt_def split: option.splits)

subsection \<open>The consent object\<close>

record typed_data_domain =
  dom_name :: string
  dom_version :: string
  dom_chainId :: int
  dom_verifyingContract :: string

record typed_data_message =
  msg_quoteId :: string
  msg_wallet :: string
  msg_to :: string
  msg_data :: string
  msg_value :: int
  msg_chainId :: int
  msg_expiry :: int

record RelayedSwapTypedData =
  td_domain :: typed_data_domain
  td_types :: "(string \<times> string) list"
  td_primaryType :: string
  td_message :: typed_data_message

definition RELAYED_SWAP_TYPED_DATA_TYPES :: "(string \<times> string) list" where
  "RELAYED_SWAP_TYPED_DATA_TYPES =
     [(''quoteId'', ''string''), (''wallet'', ''address''), (''to'', ''address''), (''data'', ''bytes''),
      (''value'', ''uint256''), (''chainId'', ''uint256''), (''expiry'', ''uint256'')]"

record RelayedSwapConsentSource =
  src_quoteId :: string
  src_walletAddress :: string
  src_chainId :: int
  src_relayerAddress :: string
  src_to :: string
  src_data :: string
  src_value :: string
  src_expiresAt :: int

text \<open>\<open>expiresAt\<close> is the time in milliseconds; the object carries whole seconds.\<close>

definition buildRelayedSwapTypedData ::
    "RelayedSwapConsentSource \<Rightarrow> (js_error, RelayedSwapTypedData) result" where
  "buildRelayedSwapTypedData i =
     bind_result (BigInt (src_value i)) (\<lambda>v.
       Ok \<lparr>td_domain = \<lparr>dom_name = ''Kamby'', dom_version = ''1'', dom_chainId = src_chainId i,
                        dom_verifyingContract = normalizeEvmAddress (src_relayerAddress i)\<rparr>,
           td_types = RELAYED_SWAP_TYPED_DATA_TYPES,
           td_primaryType = ''RelayedSwap'',
           td_message = \<lparr>msg_quoteId = src_quoteId i,
                         msg_wallet = normalizeEvmAddress (src_walletAddress i),
                         msg_to = normalizeEvmAddress (src_to i),
                         msg_data = src_data i,
                         msg_value = v,
                         msg_chainId = src_chainId i,
                         msg_expiry = src_expiresAt i div 1000\<rparr>\<rparr>)"

record typed_data_message_wire =
  wmsg_quoteId :: string
  wmsg_wallet :: string
  wmsg_to :: string
  wmsg_data :: string
  wmsg_value :: string
  wmsg_chainId :: string
  wmsg_expiry :: string

record RelayedSwapTypedDataWire =
  wtd_domain :: typed_data_domain
  wtd_types :: "(string \<times> string) list"
  wtd_primaryType :: string
  wtd_message :: typed_data_message_wire

definition toWireTypedData :: "RelayedSwapTypedData \<Rightarrow> RelayedSwapTypedDataWire" where
  "toWireTypedData t =
     \<lparr>wtd_domain = td_domain t, wtd_types = td_types t, wtd_primaryType = td_primaryType t,
      wtd_message =
        (let m = td_message t in
         \<lparr>wmsg_quoteId = msg_quoteId m, wmsg_wallet = msg_wallet m, wmsg_to = msg_to m,
          wmsg_data = msg_data m, wmsg_value = string_of_int (msg_value m),
          wmsg_chainId = string_of_int (msg_chainId m), wmsg_expiry = string_of_int (msg_expiry m)\<rparr>)\<rparr>"

definition parseRelayedSwapTypedDataWire ::
    "RelayedSwapTypedDataWire \<Rightarrow> (js_error, RelayedSwapTypedData) result" where
  "parseRelayedSwapTypedDataWire w =
     (let m = wtd_message w in
      bind_result (BigInt (wmsg_value m)) (\<lambda>v.
      bind_result (BigInt (wmsg_chainId m)) (\<lambda>c.
      bind_result (BigInt (wmsg_expiry m)) (\<lambda>e.
        Ok \<lparr>td_domain = wtd_domain w, td_types = wtd_types w, td_primaryType = wtd_primaryType w,
            td_message = \<lparr>msg_quoteId = wmsg_quoteId m, msg_wallet = wmsg_wallet m,
                          msg_to = wmsg_to m, msg_data = wmsg_data m, msg_value = v,
                          msg_chainId = c, msg_expiry = e\<rparr>\<rparr>))))"

lemma parse_toWire [simp]: "parseRelayedSwapTypedDataWire (toWireTypedData t) = Ok t"
  by (simp add: parseRelayedSwapTypedDataWire_def toWireTypedData_def Let_def)

lemma toWire_inj: "toWireTypedData t = toWireTypedData u \<Longrightarrow> t = u"
  by (metis Inr_inject parse_toWire)

text \<open>What one signature consents to.\<close>

lemma build_content:
  assumes "buildRelayedSwapTypedData i = Ok t"
  shows "msg_quoteId (td_message t) = src_quoteId i"
    and "msg_wallet (td_message t) = normalizeEvmAddress (src_walletAddress i)"
    and "msg_to (td_message t) = normalizeEvmAddress (src_to i)"
    and "msg_data (td_message t) = src_data i"
    and "Some (msg_value (td_message t)) = bigint_of_string (src_value i)"
    and "msg_chainId (td_message t) = src_chainId i"
    and "msg_expiry (td_message t) = src_expiresAt i div 1000"
    and "dom_verifyingContract (td_domain t) = normalizeEvmAddress (src_relayerAddress i)"
  using assms
  by (auto simp: buildRelayedSwapTypedData_def bind_result_Ok_iff BigInt_def split: option.splits)

subsection \<open>Dollar legs\<close>

record usdc_info =
  usdc_address :: string
  usdc_symbol :: string
  usdc_decimals :: nat

definition EVM_USDC_BY_CHAIN_ID :: "int \<Rightarrow> usdc_info option" where
  "EVM_USDC_BY_CHAIN_ID n =
     (if n = 8453 then Some \<lparr>usdc_address = ''0x833589fCD6eDb6E08f4c7C32D4f71b54bdA02913'',
                             usdc_symbol = ''USDC'', usdc_decimals = 6\<rparr>
      else if n = 56 then Some \<lparr>usdc_address = ''0x8AC76a51cc950d9822D68b83fE1Ad97B32Cd580d'',
                                usdc_symbol = ''USDC'', usdc_decimals = 18\<rparr>
      else if n = 4663 then Some \<lparr>usdc_address = ''0x5fc5360D0400a0Fd4f2af552ADD042D716F1d168'',
                                  usdc_symbol = ''USDG'', usdc_decimals = 6\<rparr>
      else None)"

definition tradesInChainUsdc :: "int \<Rightarrow> trade_side \<Rightarrow> string option \<Rightarrow> string option \<Rightarrow> bool" where
  "tradesInChainUsdc chain s inputToken outputToken =
     (let usdc = map_option (\<lambda>u. to_lower (usdc_address u)) (EVM_USDC_BY_CHAIN_ID chain);
          dollarSide = map_option to_lower (if s = BUY then inputToken else outputToken)
      in (case (usdc, dollarSide) of
            (Some u, Some d) \<Rightarrow> u \<noteq> '''' \<and> d \<noteq> '''' \<and> u = d
          | _ \<Rightarrow> False))"

definition SOLANA_USDC_MINT :: string where
  "SOLANA_USDC_MINT = ''EPjFWdd5AufqSSqeM2qN1xzybapC8G4wEGGkZwyTDt1v''"

definition SOLANA_NATIVE_MINT :: string where
  "SOLANA_NATIVE_MINT = ''So11111111111111111111111111111111111111112''"

definition PUMP_FUN_GRADUATION_THRESHOLD_LAMPORTS :: int where
  "PUMP_FUN_GRADUATION_THRESHOLD_LAMPORTS = 85000000000"


subsection \<open>Properties\<close>

text \<open>A quote confirms only the transaction the user reviewed: two on-chain transactions that
  both pass the integrity check against one quote have the same sender, destination, value and
  calldata (up to letter case), and a contract creation never passes it.\<close>

theorem matching_transactions_agree:
  assumes "transactionMatchesQuote a e = Ok True" and "transactionMatchesQuote b e = Ok True"
  shows "normalizeEvmAddress (oc_from a) = normalizeEvmAddress (oc_from b)
       \<and> map_option normalizeEvmAddress (oc_to a) = map_option normalizeEvmAddress (oc_to b)
       \<and> oc_to a \<noteq> None \<and> oc_value a = oc_value b \<and> to_lower (oc_data a) = to_lower (oc_data b)"
proof -
  have "tx_content a = tx_content b"
    using assms matches_iff_content [of a e] matches_iff_content [of b e] by simp
  moreover have "oc_to a \<noteq> None"
    using assms(1) by (cases "oc_to a") (auto simp: matches_iff_content quoted_content_def tx_content_def)
  ultimately show ?thesis by (simp add: tx_content_def)
qed

theorem matching_transactions_agree_witness:
  "(let e = \<lparr>ex_walletAddress = ''0xAb'', ex_unsignedTx = \<lparr>tx_to = ''0xCd'', tx_data = ''0xEF'',
        tx_value = ''12'', tx_gas = None, tx_maxFeePerGas = None, tx_maxPriorityFeePerGas = None\<rparr>\<rparr>;
        a = \<lparr>oc_from = ''0xab'', oc_to = Some ''0xcd'', oc_value = 12, oc_data = ''0xef''\<rparr>;
        b = \<lparr>oc_from = ''0xAB'', oc_to = Some ''0xCD'', oc_value = 12, oc_data = ''0xEf''\<rparr>
    in transactionMatchesQuote a e = Ok True \<and> transactionMatchesQuote b e = Ok True
       \<and> to_lower (oc_data a) = to_lower (oc_data b))"
proof -
  let ?e = "\<lparr>ex_walletAddress = ''0xAb'', ex_unsignedTx = \<lparr>tx_to = ''0xCd'', tx_data = ''0xEF'',
        tx_value = ''12'', tx_gas = None, tx_maxFeePerGas = None, tx_maxPriorityFeePerGas = None\<rparr>\<rparr>"
  let ?a = "\<lparr>oc_from = ''0xab'', oc_to = Some ''0xcd'', oc_value = 12, oc_data = ''0xef''\<rparr>"
  let ?b = "\<lparr>oc_from = ''0xAB'', oc_to = Some ''0xCD'', oc_value = 12, oc_data = ''0xEf''\<rparr>"
  have "transactionMatchesQuote ?a ?e = Ok True" and "transactionMatchesQuote ?b ?e = Ok True"
    by code_simp+
  with matching_transactions_agree [of ?a ?e ?b] show ?thesis by (simp add: Let_def)
qed

text \<open>C3: The consent object survives the wire: parsing the JSON-safe form of any typed-data object
  gives the object back, so what the client signs and what the server verifies are the same
  value, and two objects with the same wire form are equal.\<close>

theorem consent_wire_roundtrip:
  "parseRelayedSwapTypedDataWire (toWireTypedData t) = Ok t
   \<and> (toWireTypedData t = toWireTypedData u \<longleftrightarrow> t = u)"
  using toWire_inj by auto

text \<open>C4: One signature is consent to one quote: two consent sources that build the same typed-data
  object agree on the quote, the wallet, the destination, the calldata, the value, the chain,
  the relayer and the expiry second.\<close>

theorem consent_binds_quote:
  assumes "buildRelayedSwapTypedData i = Ok t" and "buildRelayedSwapTypedData j = Ok t"
  shows "src_quoteId i = src_quoteId j
       \<and> normalizeEvmAddress (src_walletAddress i) = normalizeEvmAddress (src_walletAddress j)
       \<and> normalizeEvmAddress (src_to i) = normalizeEvmAddress (src_to j)
       \<and> src_data i = src_data j
       \<and> bigint_of_string (src_value i) = bigint_of_string (src_value j)
       \<and> src_chainId i = src_chainId j
       \<and> normalizeEvmAddress (src_relayerAddress i) = normalizeEvmAddress (src_relayerAddress j)
       \<and> src_expiresAt i div 1000 = src_expiresAt j div 1000"
  using build_content [OF assms(1)] build_content [OF assms(2)] by metis

theorem consent_binds_quote_witness:
  "(let i = \<lparr>src_quoteId = ''q1'', src_walletAddress = ''0xAB'', src_chainId = 8453,
              src_relayerAddress = ''0xFE'', src_to = ''0xC0'', src_data = ''0x1'', src_value = ''7'',
              src_expiresAt = 1999\<rparr>;
        j = i\<lparr>src_walletAddress := ''0xab'', src_value := ''0x7'', src_expiresAt := 1000\<rparr>
    in \<exists>t. buildRelayedSwapTypedData i = Ok t \<and> buildRelayedSwapTypedData j = Ok t
         \<and> bigint_of_string (src_value i) = bigint_of_string (src_value j))"
proof -
  let ?i = "\<lparr>src_quoteId = ''q1'', src_walletAddress = ''0xAB'', src_chainId = 8453,
              src_relayerAddress = ''0xFE'', src_to = ''0xC0'', src_data = ''0x1'', src_value = ''7'',
              src_expiresAt = 1999\<rparr>"
  let ?j = "?i\<lparr>src_walletAddress := ''0xab'', src_value := ''0x7'', src_expiresAt := 1000\<rparr>"
  have v: "bigint_of_string ''7'' = Some 7" "bigint_of_string ''0x7'' = Some 7" by code_simp+
  have w: "normalizeEvmAddress ''0xAB'' = normalizeEvmAddress ''0xab''" by code_simp
  obtain t where t: "buildRelayedSwapTypedData ?i = Ok t"
    by (simp add: buildRelayedSwapTypedData_def BigInt_def v)
  moreover from t have u: "buildRelayedSwapTypedData ?j = Ok t"
    by (simp add: buildRelayedSwapTypedData_def BigInt_def v w)
  ultimately show ?thesis using consent_binds_quote [of ?i t ?j] by (auto simp: Let_def)
qed

end
