(* ===== verification/Pnl.thy ===== *)
theory Pnl
  imports Consent
begin

section \<open>Realized PnL: FIFO lot matching\<close>

text \<open>
  \<open>packages/domain/src/pnl.ts\<close>: a sell consumes the open lots of its token oldest first.
  Quantities are raw integers printed as strings, dollar figures JavaScript numbers. The
  specification \<open>fifo_spec\<close> says what a correct allocation is; the matcher is shown to
  compute one.
\<close>

record OpenLot =
  lot_id :: string
  lot_originalRaw :: string
  lot_remainingRaw :: string
  lot_costBasisUsd :: jsnum

record FifoMatch =
  fm_lotId :: string
  fm_quantityMatchedRaw :: string
  fm_costBasisUsd :: jsnum

record FifoMatchResult =
  fr_matches :: "FifoMatch list"
  fr_unmatchedQuantityRaw :: string

fun fifo_loop :: "OpenLot list \<Rightarrow> int \<Rightarrow> (js_error, FifoMatch list \<times> int) result" where
  "fifo_loop [] remaining = Ok ([], remaining)"
| "fifo_loop (lot # lots) remaining =
     (if remaining \<le> 0 then Ok ([], remaining)
      else bind_result (BigInt (lot_remainingRaw lot)) (\<lambda>lotRemaining.
        if lotRemaining \<le> 0 then fifo_loop lots remaining
        else bind_result (BigInt (lot_originalRaw lot)) (\<lambda>lotOriginal.
          let matchedQty = (if remaining < lotRemaining then remaining else lotRemaining);
              cost = (if 0 < lotOriginal
                      then nmul (lot_costBasisUsd lot) (ndiv (num_of_int matchedQty) (num_of_int lotOriginal))
                      else Fin 0);
              m = \<lparr>fm_lotId = lot_id lot, fm_quantityMatchedRaw = string_of_int matchedQty,
                   fm_costBasisUsd = cost\<rparr>
          in bind_result (fifo_loop lots (remaining - matchedQty)) (\<lambda>(ms, rest). Ok (m # ms, rest)))))"

definition matchFifoSell :: "OpenLot list \<Rightarrow> string \<Rightarrow> (js_error, FifoMatchResult) result" where
  "matchFifoSell openLots sellQuantityRaw =
     bind_result (BigInt sellQuantityRaw) (\<lambda>remaining.
       if remaining < 0 then Err (Error ''sellQuantityRaw must not be negative'')
       else bind_result (fifo_loop openLots remaining) (\<lambda>(ms, rest).
         Ok \<lparr>fr_matches = ms, fr_unmatchedQuantityRaw = string_of_int rest\<rparr>))"

record RealizedPnlMatch = FifoMatch +
  rm_proceedsUsd :: jsnum
  rm_realizedPnlUsd :: jsnum

record RealizedPnlResult =
  rr_matches :: "RealizedPnlMatch list"
  rr_unmatchedQuantityRaw :: string

fun map_result :: "('a \<Rightarrow> ('e, 'b) result) \<Rightarrow> 'a list \<Rightarrow> ('e, 'b list) result" where
  "map_result f [] = Ok []"
| "map_result f (x # xs) =
     bind_result (f x) (\<lambda>y. bind_result (map_result f xs) (\<lambda>ys. Ok (y # ys)))"

definition with_proceeds ::
    "int \<Rightarrow> jsnum \<Rightarrow> FifoMatch \<Rightarrow> (js_error, RealizedPnlMatch) result" where
  "with_proceeds totalSellQty sellProceedsUsd m =
     (let mk = (\<lambda>proceeds.
         Ok (FifoMatch.extend m
               (RealizedPnlMatch.fields proceeds (nsub proceeds (fm_costBasisUsd m)))))
      in if 0 < totalSellQty
         then bind_result (BigInt (fm_quantityMatchedRaw m)) (\<lambda>q.
                mk (nmul sellProceedsUsd (ndiv (num_of_int q) (num_of_int totalSellQty))))
         else mk (Fin 0))"

definition computeFifoRealizedPnl ::
    "OpenLot list \<Rightarrow> string \<Rightarrow> jsnum \<Rightarrow> (js_error, RealizedPnlResult) result" where
  "computeFifoRealizedPnl openLots sellQuantityRaw sellProceedsUsd =
     bind_result (matchFifoSell openLots sellQuantityRaw) (\<lambda>r.
     bind_result (BigInt sellQuantityRaw) (\<lambda>totalSellQty.
     bind_result (map_result (with_proceeds totalSellQty sellProceedsUsd) (fr_matches r)) (\<lambda>ms.
       Ok \<lparr>rr_matches = ms, rr_unmatchedQuantityRaw = fr_unmatchedQuantityRaw r\<rparr>)))"

subsection \<open>Window statistics\<close>

datatype PnlWindow = W24h | W7d | W30d

fun PNL_WINDOW_MS :: "PnlWindow \<Rightarrow> int" where
  "PNL_WINDOW_MS W24h = 24 * 60 * 60 * 1000"
| "PNL_WINDOW_MS W7d = 7 * 24 * 60 * 60 * 1000"
| "PNL_WINDOW_MS W30d = 30 * 24 * 60 * 60 * 1000"

record PnlWindowStats =
  pw_window :: PnlWindow
  pw_realizedPnlUsd :: "jsnum option"
  pw_realizedPnlPct :: "jsnum option"
  pw_volumeUsd :: jsnum

record pnl_aggregate =
  ag_realizedPnlUsd :: jsnum
  ag_costBasisUsd :: jsnum
  ag_proceedsUsd :: jsnum
  ag_matchedCount :: jsnum

definition toPnlWindowStats :: "PnlWindow \<Rightarrow> pnl_aggregate \<Rightarrow> PnlWindowStats" where
  "toPnlWindowStats w a =
     (if nle (ag_matchedCount a) (Fin 0)
      then \<lparr>pw_window = w, pw_realizedPnlUsd = None, pw_realizedPnlPct = None, pw_volumeUsd = Fin 0\<rparr>
      else \<lparr>pw_window = w, pw_realizedPnlUsd = Some (ag_realizedPnlUsd a),
            pw_realizedPnlPct =
              (if ngt (ag_costBasisUsd a) (Fin 0)
               then Some (nmul (ndiv (ag_realizedPnlUsd a) (ag_costBasisUsd a)) (Fin 100)) else None),
            pw_volumeUsd = nadd (ag_costBasisUsd a) (ag_proceedsUsd a)\<rparr>)"

subsection \<open>What a correct allocation is\<close>

definition lot_qty :: "OpenLot \<Rightarrow> int" where
  "lot_qty l = (case bigint_of_string (lot_remainingRaw l) of Some n \<Rightarrow> n | None \<Rightarrow> 0)"

definition match_qty :: "('a FifoMatch_scheme) \<Rightarrow> int" where
  "match_qty m = (case bigint_of_string (fm_quantityMatchedRaw m) of Some n \<Rightarrow> n | None \<Rightarrow> 0)"

definition open_lots :: "OpenLot list \<Rightarrow> OpenLot list" where
  "open_lots lots = filter (\<lambda>l. 0 < lot_qty l) lots"

text \<open>Oldest first: the quantities taken from the open lots, in order.\<close>

fun take_fifo :: "int list \<Rightarrow> int \<Rightarrow> int list" where
  "take_fifo [] n = []"
| "take_fifo (q # qs) n = (if n \<le> 0 then [] else min n q # take_fifo qs (n - min n q))"

definition fifo_spec :: "OpenLot list \<Rightarrow> int \<Rightarrow> ('a FifoMatch_scheme) list \<Rightarrow> int \<Rightarrow> bool" where
  "fifo_spec lots n ms rest \<longleftrightarrow>
     map match_qty ms = take_fifo (map lot_qty (open_lots lots)) n
     \<and> map fm_lotId ms = map lot_id (take (length ms) (open_lots lots))
     \<and> rest = n - sum_list (map match_qty ms)"

lemma take_fifo_nonpos [simp]: "n \<le> 0 \<Longrightarrow> take_fifo qs n = []"
  by (cases qs) auto

lemma take_fifo_pos: "\<forall>q\<in>set qs. 0 < q \<Longrightarrow> \<forall>x\<in>set (take_fifo qs n). 0 < x"
  by (induction qs n rule: take_fifo.induct) auto

lemma take_fifo_sum:
  "\<forall>q\<in>set qs. 0 < q \<Longrightarrow> 0 \<le> n \<Longrightarrow> sum_list (take_fifo qs n) = min n (sum_list qs)"
proof (induction qs n rule: take_fifo.induct)
  case (2 q qs n)
  have p: "0 \<le> sum_list qs" using 2(2) by (intro sum_list_nonneg) (auto simp: less_imp_le)
  from 2 p show ?case by (cases "n \<le> q") (auto simp: min_def)
qed (simp add: min_def)

lemma take_fifo_le: "length (take_fifo qs n) \<le> length qs \<and>
    (\<forall>i<length (take_fifo qs n). take_fifo qs n ! i \<le> qs ! i)"
  by (induction qs n rule: take_fifo.induct) (auto simp: nth_Cons split: nat.splits)

lemma take_fifo_full: "i + 1 < length (take_fifo qs n) \<Longrightarrow> take_fifo qs n ! i = qs ! i"
proof (induction qs n arbitrary: i rule: take_fifo.induct)
  case (2 q qs n)
  then show ?case by (cases i) (auto simp: min_def split: if_splits)
qed simp

lemma match_qty_simp [simp]: "fm_quantityMatchedRaw m = string_of_int n \<Longrightarrow> match_qty m = n"
  by (simp add: match_qty_def)

lemma lot_qty_BigInt: "BigInt (lot_remainingRaw l) = Ok n \<Longrightarrow> lot_qty l = n"
  by (auto simp: BigInt_def lot_qty_def split: option.splits)

lemma fifo_loop_spec:
  "fifo_loop lots n = Ok (ms, rest) \<Longrightarrow> fifo_spec lots n ms rest"
proof (induction lots arbitrary: n ms rest)
  case Nil
  then show ?case by (simp add: fifo_spec_def open_lots_def)
next
  case (Cons lot lots)
  show ?case
  proof (cases "n \<le> 0")
    case True
    with Cons.prems show ?thesis by (auto simp: fifo_spec_def)
  next
    case False
    with Cons.prems obtain q where q: "BigInt (lot_remainingRaw lot) = Ok q"
      by (auto simp: bind_result_Ok_iff)
    then have lq: "lot_qty lot = q" by (rule lot_qty_BigInt)
    show ?thesis
    proof (cases "q \<le> 0")
      case True
      with Cons.prems False q have "fifo_loop lots n = Ok (ms, rest)" by simp
      from Cons.IH [OF this] True lq show ?thesis by (simp add: fifo_spec_def open_lots_def)
    next
      case pos: False
      have mn: "(if n < q then n else q) = min n q" by (simp add: min_def)
      from pos Cons.prems False q obtain ms' c where
        m: "ms = \<lparr>fm_lotId = lot_id lot, fm_quantityMatchedRaw = string_of_int (min n q),
                  fm_costBasisUsd = c\<rparr> # ms'"
        and rec: "fifo_loop lots (n - min n q) = Ok (ms', rest)"
        by (auto simp: bind_result_Ok_iff Let_def mn)
      from Cons.IH [OF rec] m pos lq False show ?thesis
        by (auto simp: fifo_spec_def open_lots_def)
    qed
  qed
qed

lemma matchFifoSell_spec:
  assumes "matchFifoSell lots q = Ok r"
  obtains n rest where "BigInt q = Ok n" "0 \<le> n" "fifo_loop lots n = Ok (fr_matches r, rest)"
    "fr_unmatchedQuantityRaw r = string_of_int rest" "fifo_spec lots n (fr_matches r) rest"
proof -
  from assms obtain n ms rest where "BigInt q = Ok n" "\<not> n < 0" "fifo_loop lots n = Ok (ms, rest)"
    and "r = \<lparr>fr_matches = ms, fr_unmatchedQuantityRaw = string_of_int rest\<rparr>"
    by (auto simp: matchFifoSell_def bind_result_Ok_iff split: if_splits)
  with that [of n rest] show thesis by (simp add: fifo_loop_spec)
qed

lemma open_lots_pos: "\<forall>q\<in>set (map lot_qty (open_lots lots)). 0 < q"
  by (auto simp: open_lots_def)

lemma fifo_spec_rest:
  assumes "fifo_spec lots n ms rest" and "0 \<le> n"
  shows "rest = n - min n (sum_list (map lot_qty (open_lots lots)))"
  using assms take_fifo_sum [OF open_lots_pos assms(2)] by (simp add: fifo_spec_def)


subsection \<open>Cost basis stays within the lot's cost\<close>

text \<open>The share of a lot's cost is rounded twice, but never above the lot's cost: rounding is
  monotone and the ratio of the matched to the original quantity rounds to at most one.\<close>

lemma num_of_int_uint256:
  assumes "0 \<le> a" "a < 2 ^ 256"
  shows "num_of_int a = Fin (fl (of_int a))"
proof -
  have "of_int a < (of_int (2 ^ 256) :: rat)" using assms(2) by (simp only: of_int_less_iff)
  then have "of_int a \<le> (2::rat) ^ 1000" by simp
  with assms(1) show ?thesis unfolding num_of_int_def by (intro to_num_small) simp
qed

lemma ratio_le_1:
  assumes "0 < a" "a \<le> b" "b < 2 ^ 256"
  shows "\<exists>r. ndiv (num_of_int a) (num_of_int b) = Fin r \<and> 0 \<le> r \<and> r \<le> 1"
proof -
  let ?x = "fl (of_int a)" and ?y = "fl (of_int b)"
  have fa: "0 \<le> ?x" "?x \<le> ?y" using assms by (simp_all add: fl_nonneg fl_mono)
  have one: "1 \<le> ?y" using assms fl_mono [of 1 "of_int b"] by simp
  have q: "0 \<le> ?x / ?y" "?x / ?y \<le> 1" using fa one by simp_all
  then have "\<bar>?x / ?y\<bar> \<le> max_double"
    using order_trans [OF q(2) max_double_nonneg(2)] by simp
  then have "to_num (?x / ?y) = Fin (fl (?x / ?y))" by (rule to_num_Fin)
  moreover have "0 \<le> fl (?x / ?y)" "fl (?x / ?y) \<le> 1"
    using q fl_nonneg fl_mono [of "?x / ?y" 1] by simp_all
  ultimately show ?thesis using assms one by (auto simp: num_of_int_uint256)
qed

lemma nmul_share_le:
  assumes "0 \<le> y" "y \<le> 1" "0 \<le> x" "fl x = x" "x \<le> max_double"
  shows "nle (Fin 0) (nmul (Fin x) (Fin y)) \<and> nle (nmul (Fin x) (Fin y)) (Fin x)"
proof -
  have p: "0 \<le> x * y" "x * y \<le> x" using assms by (simp_all add: mult_left_le)
  then have "\<bar>x * y\<bar> \<le> max_double" using assms(5) by simp
  then have "to_num (x * y) = Fin (fl (x * y))" by (rule to_num_Fin)
  moreover have "0 \<le> fl (x * y)" "fl (x * y) \<le> x"
    using fl_nonneg [OF p(1)] fl_mono [OF p(2)] assms(4) by simp_all
  ultimately show ?thesis by simp
qed

subsection \<open>The contract of a lot matcher\<close>

text \<open>What the ledger relies on when it records a sell: matches refer to distinct given lots, take a
  positive quantity of at most the lot's remainder, and together take at most the sell.\<close>

locale lot_matcher =
  fixes matcher :: "OpenLot list \<Rightarrow> string \<Rightarrow> jsnum \<Rightarrow> (js_error, RealizedPnlResult) result"
  assumes lots_distinct:
      "matcher lots q p = Ok r \<Longrightarrow> distinct (map lot_id lots) \<Longrightarrow> distinct (map fm_lotId (rr_matches r))"
    and within_lot:
      "matcher lots q p = Ok r \<Longrightarrow> m \<in> set (rr_matches r) \<Longrightarrow>
       \<exists>l\<in>set lots. lot_id l = fm_lotId m \<and> 0 < match_qty m \<and> match_qty m \<le> lot_qty l"
    and within_sell:
      "matcher lots q p = Ok r \<Longrightarrow> bigint_of_string q = Some n \<Longrightarrow>
       sum_list (map match_qty (rr_matches r)) \<le> n"

lemma with_proceeds_base:
  assumes "with_proceeds t p m = Ok m'"
  shows "fm_lotId m' = fm_lotId m" "match_qty m' = match_qty m"
    "fm_quantityMatchedRaw m' = fm_quantityMatchedRaw m"
  using assms
  by (auto simp: with_proceeds_def Let_def bind_result_Ok_iff match_qty_def FifoMatch.defs
      RealizedPnlMatch.defs split: if_splits)

lemma map_result_with_proceeds:
  "map_result (with_proceeds t p) ms = Ok ms' \<Longrightarrow>
   map fm_lotId ms' = map fm_lotId ms \<and> map match_qty ms' = map match_qty ms"
  by (induction ms arbitrary: ms') (auto simp: bind_result_Ok_iff with_proceeds_base)

lemma computeFifo_base:
  assumes "computeFifoRealizedPnl lots q p = Ok r"
  obtains n where "BigInt q = Ok n" "0 \<le> n"
    "map fm_lotId (rr_matches r) = map lot_id (take (length (rr_matches r)) (open_lots lots))"
    "map match_qty (rr_matches r) = take_fifo (map lot_qty (open_lots lots)) n"
proof -
  from assms obtain fr t where fr: "matchFifoSell lots q = Ok fr"
    and ms: "map_result (with_proceeds t p) (fr_matches fr) = Ok (rr_matches r)"
    by (auto simp: computeFifoRealizedPnl_def bind_result_Ok_iff)
  from fr obtain n rest where n: "BigInt q = Ok n" "0 \<le> n"
    and spec: "fifo_spec lots n (fr_matches fr) rest"
    by (auto elim!: matchFifoSell_spec)
  from map_result_with_proceeds [OF ms] have eq:
    "map fm_lotId (rr_matches r) = map fm_lotId (fr_matches fr)"
    "map match_qty (rr_matches r) = map match_qty (fr_matches fr)"
    by simp_all
  then have "length (rr_matches r) = length (fr_matches fr)" by (metis length_map)
  with spec eq n show thesis by (intro that [of n]) (simp_all add: fifo_spec_def)
qed

interpretation fifo: lot_matcher computeFifoRealizedPnl
proof
  fix lots q p r
  assume r: "computeFifoRealizedPnl lots q p = Ok r"
  obtain n where n: "BigInt q = Ok n" "0 \<le> n"
    and ids: "map fm_lotId (rr_matches r) = map lot_id (take (length (rr_matches r)) (open_lots lots))"
    and qs: "map match_qty (rr_matches r) = take_fifo (map lot_qty (open_lots lots)) n"
    by (rule computeFifo_base [OF r])
  show "distinct (map fm_lotId (rr_matches r))" if "distinct (map lot_id lots)"
  proof -
    have "distinct (map lot_id (open_lots lots))"
      unfolding open_lots_def using that by (rule distinct_map_filter)
    then show ?thesis unfolding ids by (metis distinct_take take_map)
  qed
  show "\<exists>l\<in>set lots. lot_id l = fm_lotId m \<and> 0 < match_qty m \<and> match_qty m \<le> lot_qty l"
    if "m \<in> set (rr_matches r)" for m
  proof -
    let ?o = "open_lots lots"
    from that obtain i where i: "i < length (rr_matches r)" "rr_matches r ! i = m"
      by (auto simp: in_set_conv_nth)
    have len: "length (take_fifo (map lot_qty ?o) n) = length (rr_matches r)"
      by (metis qs length_map)
    with i take_fifo_le [of "map lot_qty ?o" n] have io: "i < length ?o" by simp
    have "match_qty m = take_fifo (map lot_qty ?o) n ! i" using i by (simp flip: qs)
    moreover have "take_fifo (map lot_qty ?o) n ! i \<le> lot_qty (?o ! i)"
    proof -
      have "take_fifo (map lot_qty ?o) n ! i \<le> map lot_qty ?o ! i"
      proof -
        have "i < length (take_fifo (map lot_qty ?o) n)" using i(1) len by simp
        then show ?thesis using take_fifo_le [of "map lot_qty ?o" n] by blast
      qed
      with io show ?thesis by simp
    qed
    moreover have "fm_lotId m = lot_id (?o ! i)"
      using i io arg_cong [OF ids, of "\<lambda>xs. xs ! i"] by simp
    moreover have "?o ! i \<in> set lots" using io nth_mem [OF io] by (simp add: open_lots_def)
    moreover have "0 < match_qty m"
      using take_fifo_pos [OF open_lots_pos, of lots n] that by (simp flip: qs)
    ultimately show ?thesis by metis
  qed
  show "sum_list (map match_qty (rr_matches r)) \<le> n'" if "bigint_of_string q = Some n'" for n'
  proof -
    have "n' = n" using n(1) that by (simp add: BigInt_def)
    then show ?thesis using take_fifo_sum [OF open_lots_pos n(2), of lots] qs by simp
  qed
qed

subsection \<open>Properties\<close>

text \<open>C5: FIFO matching is exact and complete: it never throws on well-formed lots, the matched
  quantities are the oldest-first allocation of the sell over the open lots (each match
  positive and at most its lot's remainder, every lot before the last match fully consumed),
  and matched plus unmatched is exactly the sell, with an unmatched part only when every open
  lot is exhausted.\<close>

theorem fifo_matching_correct:
  assumes "matchFifoSell lots q = Ok r" and "bigint_of_string q = Some n"
  shows "map match_qty (fr_matches r) = take_fifo (map lot_qty (open_lots lots)) n
    \<and> map fm_lotId (fr_matches r) = map lot_id (take (length (fr_matches r)) (open_lots lots))
    \<and> (\<forall>m\<in>set (fr_matches r). 0 < match_qty m)
    \<and> (\<forall>i. i + 1 < length (fr_matches r) \<longrightarrow>
          match_qty (fr_matches r ! i) = lot_qty (open_lots lots ! i))
    \<and> (\<exists>u. fr_unmatchedQuantityRaw r = string_of_int u \<and> 0 \<le> u
          \<and> n = sum_list (map match_qty (fr_matches r)) + u
          \<and> (0 < u \<longrightarrow> sum_list (map match_qty (fr_matches r)) = sum_list (map lot_qty (open_lots lots))))"
proof -
  from assms obtain rest where n: "0 \<le> n" and u: "fr_unmatchedQuantityRaw r = string_of_int rest"
    and spec: "fifo_spec lots n (fr_matches r) rest"
    by (auto elim!: matchFifoSell_spec simp: BigInt_def)
  let ?qs = "map lot_qty (open_lots lots)" and ?ms = "fr_matches r"
  from spec have eq: "map match_qty ?ms = take_fifo ?qs n" by (simp add: fifo_spec_def)
  then have len: "length ?ms = length (take_fifo ?qs n)" by (metis length_map)
  have nth: "match_qty (?ms ! i) = take_fifo ?qs n ! i" if "i < length ?ms" for i
    using that by (simp flip: eq)
  have "set (take_fifo ?qs n) = match_qty ` set ?ms" by (simp flip: eq)
  then have "\<forall>m\<in>set ?ms. 0 < match_qty m"
    using take_fifo_pos [OF open_lots_pos, of lots n] by simp
  moreover have "\<forall>i. i + 1 < length ?ms \<longrightarrow> match_qty (?ms ! i) = lot_qty (open_lots lots ! i)"
  proof (intro allI impI)
    fix i assume i: "i + 1 < length ?ms"
    then have "take_fifo ?qs n ! i = ?qs ! i" by (intro take_fifo_full) (simp add: len)
    moreover have "i < length (open_lots lots)"
      using i len take_fifo_le [of ?qs n] by simp
    ultimately show "match_qty (?ms ! i) = lot_qty (open_lots lots ! i)" using i nth by simp
  qed
  moreover have "rest = n - sum_list (map match_qty ?ms)" using spec by (simp add: fifo_spec_def)
  moreover have "sum_list (map match_qty ?ms) = min n (sum_list ?qs)"
    using take_fifo_sum [OF open_lots_pos n] eq by simp
  ultimately show ?thesis using u spec by (auto simp: fifo_spec_def)
qed

theorem fifo_matching_correct_witness:
  "\<exists>r. matchFifoSell
     [\<lparr>lot_id = ''a'', lot_originalRaw = ''10'', lot_remainingRaw = ''4'', lot_costBasisUsd = Fin 20\<rparr>,
      \<lparr>lot_id = ''b'', lot_originalRaw = ''5'', lot_remainingRaw = ''0'', lot_costBasisUsd = Fin 9\<rparr>,
      \<lparr>lot_id = ''c'', lot_originalRaw = ''9'', lot_remainingRaw = ''9'', lot_costBasisUsd = Fin 9\<rparr>] ''7'' = Ok r
   \<and> map fm_lotId (fr_matches r) = [''a'', ''c''] \<and> sum_list (map match_qty (fr_matches r)) = 7"
proof -
  let ?l = "[\<lparr>lot_id = ''a'', lot_originalRaw = ''10'', lot_remainingRaw = ''4'', lot_costBasisUsd = Fin 20\<rparr>,
      \<lparr>lot_id = ''b'', lot_originalRaw = ''5'', lot_remainingRaw = ''0'', lot_costBasisUsd = Fin 9\<rparr>,
      \<lparr>lot_id = ''c'', lot_originalRaw = ''9'', lot_remainingRaw = ''9'', lot_costBasisUsd = Fin 9\<rparr>]"
  have ok: "is_ok (matchFifoSell ?l ''7'')" by code_simp
  then obtain r where r: "matchFifoSell ?l ''7'' = Ok r" by (cases "matchFifoSell ?l ''7''") auto
  have seven: "bigint_of_string ''7'' = Some 7" by code_simp
  have open_l: "map lot_qty (open_lots ?l) = [4, 9]" "map lot_id (take 2 (open_lots ?l)) = [''a'', ''c'']"
    by code_simp+
  from fifo_matching_correct [OF r seven] open_l(1) have "map match_qty (fr_matches r) = [4, 3]" by simp
  moreover from this have "length (fr_matches r) = 2" by (metis length_map length_Cons list.size(3) numeral_2_eq_2)
  ultimately show ?thesis using fifo_matching_correct [OF r seven] open_l(2) r by auto
qed

text \<open>A match's share of its lot's cost basis is never negative and never exceeds the lot's whole
  cost, although it is rounded twice in binary floating point.\<close>

theorem fifo_cost_within_lot:
  assumes "0 < a" "a \<le> b" "b < 2 ^ 256" and "0 \<le> x" "fl x = x" "x \<le> max_double"
    and "BigInt (lot_remainingRaw lot) = Ok a" "BigInt (lot_originalRaw lot) = Ok b"
    and "lot_costBasisUsd lot = Fin x" and "a \<le> n"
    and "fifo_loop (lot # lots) n = Ok (m # ms, rest)"
  shows "fm_lotId m = lot_id lot
    \<and> nle (Fin 0) (fm_costBasisUsd m) \<and> nle (fm_costBasisUsd m) (Fin x)"
proof -
  have "fm_costBasisUsd m = nmul (Fin x) (ndiv (num_of_int a) (num_of_int b)) \<and> fm_lotId m = lot_id lot"
    using assms by (auto simp: bind_result_Ok_iff Let_def split: if_splits)
  moreover obtain r where "ndiv (num_of_int a) (num_of_int b) = Fin r" "0 \<le> r" "r \<le> 1"
    using ratio_le_1 [OF assms(1-3)] by blast
  ultimately show ?thesis using nmul_share_le [of r x] assms(4-6) by simp
qed

theorem fifo_cost_within_lot_witness:
  "(let lot = \<lparr>lot_id = ''a'', lot_originalRaw = ''10'', lot_remainingRaw = ''4'', lot_costBasisUsd = Fin 20\<rparr>
    in \<exists>m rest. fifo_loop [lot] 7 = Ok ([m], rest) \<and> fm_lotId m = ''a'' \<and> nle (fm_costBasisUsd m) (Fin 20))"
proof -
  let ?lot = "\<lparr>lot_id = ''a'', lot_originalRaw = ''10'', lot_remainingRaw = ''4'', lot_costBasisUsd = Fin 20\<rparr>"
  have b: "BigInt ''4'' = Ok 4" "BigInt ''10'' = Ok 10" by code_simp+
  then obtain m where m: "fifo_loop [?lot] 7 = Ok ([m], 3)" by (simp add: Let_def)
  have "fl 20 = 20" "(20::rat) \<le> max_double" by code_simp+
  then show ?thesis
    using fifo_cost_within_lot [of 4 10 20 ?lot 7 "[]" m "[]" 3] m b by (auto simp: Let_def)
qed

end
