(* ===== verification/PnlSweep.thy ===== *)
theory PnlSweep
  imports Pnl
begin

section \<open>The realized-PnL ledger sweep\<close>

text \<open>
  \<open>apps/workers/src/pnl/pnl-ledger-sweep.ts\<close>: confirmed buys open lots, confirmed sells consume
  them and write realized-PnL events, each row under an advisory lock in one transaction. The
  database is a record of tables; a row's transaction either commits its whole effect or, when
  anything throws, leaves the database as it was. \<open>col\<close> is the round trip of a number through a
  \<open>Decimal(38, 18)\<close> column (the database's, so a parameter), and \<open>now\<close> the clock.
\<close>

datatype wallet_chain = EVM | SOLANA

definition WSOL_MINT :: string where "WSOL_MINT = ''So11111111111111111111111111111111111111112''"
definition PNL_BATCH_SIZE :: nat where "PNL_BATCH_SIZE = 50"
definition USDC_DECIMALS :: nat where "USDC_DECIMALS = 6"

record token_lot =
  tl_id :: string
  tl_userId :: string
  tl_chain :: wallet_chain
  tl_evmTokenId :: "string option"
  tl_solanaMint :: "string option"
  tl_evmBuyTransactionId :: "string option"
  tl_solanaBuyTransactionId :: "string option"
  tl_quantityOriginalRaw :: string
  tl_quantityRemainingRaw :: string
  tl_costBasisUsd :: jsnum
  tl_acquiredAt :: int

record pnl_event =
  pe_userId :: string
  pe_chain :: wallet_chain
  pe_evmTokenId :: "string option"
  pe_solanaMint :: "string option"
  pe_lotId :: string
  pe_evmSellTransactionId :: "string option"
  pe_solanaSellTransactionId :: "string option"
  pe_quantityMatchedRaw :: string
  pe_costBasisUsd :: jsnum
  pe_proceedsUsd :: jsnum
  pe_realizedPnlUsd :: jsnum
  pe_confirmedAt :: int

record EvmSweepRow =
  er_id :: string
  er_userId :: string
  er_side :: string
  er_status :: trade_status
  er_expectedOutputAmount :: string
  er_inputAmount :: string
  er_confirmedAt :: "int option"
  er_pnlProcessedAt :: "int option"
  er_priceUsd :: "jsnum option"
  er_chainId :: "int option"
  er_inputToken :: "string option"
  er_outputToken :: "string option"
  er_tokenId :: string
  er_decimals :: "nat option"

record SolanaSweepRow =
  sr_id :: string
  sr_quote :: "(json \<times> jsnum option) option"
  sr_userId :: string
  sr_side :: string
  sr_status :: trade_status
  sr_inputMint :: string
  sr_outputMint :: string
  sr_inputAmount :: string
  sr_expectedOutputAmount :: string
  sr_confirmedAt :: "int option"
  sr_pnlProcessedAt :: "int option"

record pnl_db =
  db_lots :: "token_lot list"
  db_events :: "pnl_event list"
  db_evm :: "EvmSweepRow list"
  db_sol :: "SolanaSweepRow list"
  db_next :: nat

record PnlSweepResult =
  ps_checked :: nat
  ps_lotsCreated :: nat
  ps_eventsCreated :: nat
  ps_skippedNoPrice :: nat

definition rawToDecimal :: "string \<Rightarrow> nat \<Rightarrow> (js_error, jsnum) result" where
  "rawToDecimal raw decimals =
     bind_result (BigInt raw) (\<lambda>v.
       let base = 10 ^ decimals; whole = bigint_div v base; fraction = bigint_mod v base
       in Ok (nadd (num_of_int whole) (ndiv (num_of_int fraction) (num_of_int base))))"

text \<open>\<open>tokenLot.create\<close>: a generated id; at most one lot per buy transaction.\<close>

definition create_lot :: "token_lot \<Rightarrow> pnl_db \<Rightarrow> (js_error, pnl_db) result" where
  "create_lot lot db =
     (if \<exists>l\<in>set (db_lots db).
           (tl_evmBuyTransactionId lot \<noteq> None \<and> tl_evmBuyTransactionId l = tl_evmBuyTransactionId lot)
           \<or> (tl_solanaBuyTransactionId lot \<noteq> None
              \<and> tl_solanaBuyTransactionId l = tl_solanaBuyTransactionId lot)
      then Err (UniqueConstraint ''token_lots'')
      else Ok (db\<lparr>db_lots := db_lots db @ [lot\<lparr>tl_id := string_of_int (int (db_next db))\<rparr>],
                  db_next := Suc (db_next db)\<rparr>))"

definition create_event :: "pnl_event \<Rightarrow> pnl_db \<Rightarrow> (js_error, pnl_db) result" where
  "create_event e db =
     (if \<exists>f\<in>set (db_events db). pe_lotId f = pe_lotId e \<and>
           ((pe_evmSellTransactionId e \<noteq> None \<and> pe_evmSellTransactionId f = pe_evmSellTransactionId e)
            \<or> (pe_solanaSellTransactionId e \<noteq> None
               \<and> pe_solanaSellTransactionId f = pe_solanaSellTransactionId e))
      then Err (UniqueConstraint ''realized_pnl_events'')
      else Ok (db\<lparr>db_events := db_events db @ [e]\<rparr>))"

definition mark_evm :: "string \<Rightarrow> int \<Rightarrow> pnl_db \<Rightarrow> pnl_db" where
  "mark_evm i now db =
     db\<lparr>db_evm := update_where (\<lambda>r. er_id r = i) (\<lambda>r. r\<lparr>er_pnlProcessedAt := Some now\<rparr>) (db_evm db)\<rparr>"

definition mark_sol :: "string \<Rightarrow> int \<Rightarrow> pnl_db \<Rightarrow> pnl_db" where
  "mark_sol i now db =
     db\<lparr>db_sol := update_where (\<lambda>r. sr_id r = i) (\<lambda>r. r\<lparr>sr_pnlProcessedAt := Some now\<rparr>) (db_sol db)\<rparr>"

subsection \<open>Recording a sell\<close>

record sell_params =
  sp_userId :: string
  sp_chain :: wallet_chain
  sp_evmTokenId :: "string option"
  sp_solanaMint :: "string option"
  sp_sellQuantityRaw :: string
  sp_sellProceedsUsd :: jsnum
  sp_confirmedAt :: int
  sp_evmSellTransactionId :: "string option"
  sp_solanaSellTransactionId :: "string option"

definition lot_selected :: "sell_params \<Rightarrow> token_lot \<Rightarrow> bool" where
  "lot_selected p l =
     (tl_userId l = sp_userId p \<and> tl_chain l = sp_chain p \<and> tl_evmTokenId l = sp_evmTokenId p
      \<and> tl_solanaMint l = sp_solanaMint p \<and> tl_quantityRemainingRaw l \<noteq> ''0'')"

definition openLotRows :: "sell_params \<Rightarrow> pnl_db \<Rightarrow> token_lot list" where
  "openLotRows p db =
     sort_by (\<lambda>a b. tl_acquiredAt a < tl_acquiredAt b) (filter (lot_selected p) (db_lots db))"

definition to_open_lot :: "token_lot \<Rightarrow> OpenLot" where
  "to_open_lot l = \<lparr>lot_id = tl_id l, lot_originalRaw = tl_quantityOriginalRaw l,
                    lot_remainingRaw = tl_quantityRemainingRaw l, lot_costBasisUsd = tl_costBasisUsd l\<rparr>"

definition match_event :: "(jsnum \<Rightarrow> jsnum) \<Rightarrow> sell_params \<Rightarrow> RealizedPnlMatch \<Rightarrow> pnl_event" where
  "match_event col p m =
     \<lparr>pe_userId = sp_userId p, pe_chain = sp_chain p, pe_evmTokenId = sp_evmTokenId p,
      pe_solanaMint = sp_solanaMint p, pe_lotId = fm_lotId m,
      pe_evmSellTransactionId = sp_evmSellTransactionId p,
      pe_solanaSellTransactionId = sp_solanaSellTransactionId p,
      pe_quantityMatchedRaw = fm_quantityMatchedRaw m,
      pe_costBasisUsd = col (fm_costBasisUsd m), pe_proceedsUsd = col (rm_proceedsUsd m),
      pe_realizedPnlUsd = col (rm_realizedPnlUsd m), pe_confirmedAt = sp_confirmedAt p\<rparr>"

definition record_match ::
    "(jsnum \<Rightarrow> jsnum) \<Rightarrow> sell_params \<Rightarrow> token_lot list \<Rightarrow> RealizedPnlMatch \<Rightarrow> pnl_db
     \<Rightarrow> (js_error, pnl_db) result" where
  "record_match col p rows m db =
     (case find (\<lambda>l. tl_id l = fm_lotId m) rows of
        None \<Rightarrow> Err TypeError
      | Some lot \<Rightarrow>
          bind_result (BigInt (tl_quantityRemainingRaw lot)) (\<lambda>remaining.
          bind_result (BigInt (fm_quantityMatchedRaw m)) (\<lambda>matched.
            let db1 = db\<lparr>db_lots := update_where (\<lambda>l. tl_id l = tl_id lot)
                  (\<lambda>l. l\<lparr>tl_quantityRemainingRaw := string_of_int (remaining - matched)\<rparr>) (db_lots db)\<rparr>
            in create_event (match_event col p m) db1)))"

fun record_matches ::
    "(jsnum \<Rightarrow> jsnum) \<Rightarrow> sell_params \<Rightarrow> token_lot list \<Rightarrow> RealizedPnlMatch list \<Rightarrow> pnl_db
     \<Rightarrow> (js_error, pnl_db) result" where
  "record_matches col p rows [] db = Ok db"
| "record_matches col p rows (m # ms) db =
     bind_result (record_match col p rows m db) (record_matches col p rows ms)"

definition matchAndRecordSell ::
    "(jsnum \<Rightarrow> jsnum) \<Rightarrow> sell_params \<Rightarrow> pnl_db \<Rightarrow> (js_error, pnl_db) result" where
  "matchAndRecordSell col p db =
     (let rows = openLotRows p db in
      bind_result (computeFifoRealizedPnl (map to_open_lot rows) (sp_sellQuantityRaw p) (sp_sellProceedsUsd p))
        (\<lambda>r. record_matches col p rows (rr_matches r) db))"

subsection \<open>One EVM row\<close>

definition evm_usdc_usd :: "EvmSweepRow \<Rightarrow> (js_error, jsnum option) result" where
  "evm_usdc_usd row =
     (case Option.bind (er_chainId row) EVM_USDC_BY_CHAIN_ID of
        None \<Rightarrow> Ok None
      | Some usdc \<Rightarrow>
          (case (if er_side row = ''BUY'' then er_inputToken row else er_outputToken row) of
             None \<Rightarrow> Ok None
           | Some leg \<Rightarrow>
               if leg \<noteq> [] \<and> to_lower leg = to_lower (usdc_address usdc)
               then bind_result
                      (rawToDecimal (if er_side row = ''BUY'' then er_inputAmount row
                                     else er_expectedOutputAmount row) (usdc_decimals usdc))
                      (\<lambda>v. Ok (Some v))
               else Ok None))"

text \<open>\<open>usdcUsd ?? rawToDecimal(q, decimals!) * priceUsd!\<close>, reached only when one is known.\<close>

definition evm_leg_usd :: "jsnum option \<Rightarrow> EvmSweepRow \<Rightarrow> string \<Rightarrow> (js_error, jsnum) result" where
  "evm_leg_usd usdcUsd row q =
     (case usdcUsd of
        Some v \<Rightarrow> Ok v
      | None \<Rightarrow>
          (case (er_decimals row, er_priceUsd row) of
             (Some d, Some price) \<Rightarrow> bind_result (rawToDecimal q d) (\<lambda>x. Ok (nmul x price))
           | _ \<Rightarrow> Err TypeError))"

definition processEvmRow ::
    "(jsnum \<Rightarrow> jsnum) \<Rightarrow> int \<Rightarrow> EvmSweepRow \<Rightarrow> pnl_db \<Rightarrow> (js_error, pnl_db \<times> bool) result" where
  "processEvmRow col now row db =
     bind_result (evm_usdc_usd row) (\<lambda>usdcUsd.
       if usdcUsd = None \<and> (er_priceUsd row = None \<or> er_decimals row = None)
       then Ok (mark_evm (er_id row) now db, False)
       else
         let tokenKey = er_tokenId row;
             confirmedAt = (case er_confirmedAt row of Some t \<Rightarrow> t | None \<Rightarrow> now)
         in bind_result
              (if er_side row = ''BUY'' then
                 let quantityRaw = er_expectedOutputAmount row in
                 bind_result (evm_leg_usd usdcUsd row quantityRaw) (\<lambda>cost.
                   create_lot \<lparr>tl_id = [], tl_userId = er_userId row, tl_chain = EVM,
                     tl_evmTokenId = Some tokenKey, tl_solanaMint = None,
                     tl_evmBuyTransactionId = Some (er_id row), tl_solanaBuyTransactionId = None,
                     tl_quantityOriginalRaw = quantityRaw, tl_quantityRemainingRaw = quantityRaw,
                     tl_costBasisUsd = col cost, tl_acquiredAt = confirmedAt\<rparr> db)
               else
                 let quantityRaw = er_inputAmount row in
                 bind_result (evm_leg_usd usdcUsd row quantityRaw) (\<lambda>proceeds.
                   matchAndRecordSell col
                     \<lparr>sp_userId = er_userId row, sp_chain = EVM, sp_evmTokenId = Some tokenKey,
                      sp_solanaMint = None, sp_sellQuantityRaw = quantityRaw,
                      sp_sellProceedsUsd = proceeds, sp_confirmedAt = confirmedAt,
                      sp_evmSellTransactionId = Some (er_id row),
                      sp_solanaSellTransactionId = None\<rparr> db))
              (\<lambda>db1. Ok (mark_evm (er_id row) now db1, True)))"

subsection \<open>One Solana row\<close>

definition sol_usd :: "SolanaSweepRow \<Rightarrow> jsnum option" where
  "sol_usd row =
     (if (if sr_side row = ''BUY'' then sr_inputMint row else sr_outputMint row) = WSOL_MINT
      then Option.bind (sr_quote row) snd else None)"

definition leg_usd :: "SolanaSweepRow \<Rightarrow> string \<Rightarrow> (js_error, jsnum) result" where
  "leg_usd row raw =
     (case sol_usd row of
        Some price \<Rightarrow> bind_result (rawToDecimal raw 9) (\<lambda>x. Ok (nmul x price))
      | None \<Rightarrow> rawToDecimal raw USDC_DECIMALS)"

definition total_paid_raw :: "SolanaSweepRow \<Rightarrow> string" where
  "total_paid_raw row =
     (case Option.bind (sr_quote row) (\<lambda>q. json_field (fst q) ''totalPaidRaw'') of
        Some (JStr s) \<Rightarrow> if all_digits s then s else sr_inputAmount row
      | _ \<Rightarrow> sr_inputAmount row)"

definition processSolanaRow ::
    "(jsnum \<Rightarrow> jsnum) \<Rightarrow> int \<Rightarrow> SolanaSweepRow \<Rightarrow> pnl_db \<Rightarrow> (js_error, pnl_db) result" where
  "processSolanaRow col now row db =
     (let usdcLeg = (if sr_side row = ''BUY'' then sr_inputMint row else sr_outputMint row) in
      if usdcLeg \<noteq> SOLANA_USDC_MINT \<and> sol_usd row = None
      then Ok (mark_sol (sr_id row) now db)
      else
        let trackedMint = (if sr_side row = ''BUY'' then sr_outputMint row else sr_inputMint row);
            confirmedAt = (case sr_confirmedAt row of Some t \<Rightarrow> t | None \<Rightarrow> now)
        in bind_result
             (if sr_side row = ''BUY'' then
                bind_result (leg_usd row (total_paid_raw row)) (\<lambda>usdSpent.
                  create_lot \<lparr>tl_id = [], tl_userId = sr_userId row, tl_chain = SOLANA,
                    tl_evmTokenId = None, tl_solanaMint = Some trackedMint,
                    tl_evmBuyTransactionId = None, tl_solanaBuyTransactionId = Some (sr_id row),
                    tl_quantityOriginalRaw = sr_expectedOutputAmount row,
                    tl_quantityRemainingRaw = sr_expectedOutputAmount row,
                    tl_costBasisUsd = col usdSpent, tl_acquiredAt = confirmedAt\<rparr> db)
              else
                bind_result (leg_usd row (sr_expectedOutputAmount row)) (\<lambda>usdReceived.
                  matchAndRecordSell col
                    \<lparr>sp_userId = sr_userId row, sp_chain = SOLANA, sp_evmTokenId = None,
                     sp_solanaMint = Some trackedMint, sp_sellQuantityRaw = sr_inputAmount row,
                     sp_sellProceedsUsd = usdReceived, sp_confirmedAt = confirmedAt,
                     sp_evmSellTransactionId = None,
                     sp_solanaSellTransactionId = Some (sr_id row)\<rparr> db))
             (\<lambda>db1. Ok (mark_sol (sr_id row) now db1)))"

subsection \<open>One tick\<close>

text \<open>Postgres sorts NULL last in ascending order.\<close>

definition null_last_less :: "int option \<Rightarrow> int option \<Rightarrow> bool" where
  "null_last_less a b =
     (case (a, b) of (Some x, Some y) \<Rightarrow> x < y | (Some x, None) \<Rightarrow> True | _ \<Rightarrow> False)"

definition pending_evm :: "pnl_db \<Rightarrow> EvmSweepRow list" where
  "pending_evm db = take PNL_BATCH_SIZE
     (sort_by (\<lambda>a b. null_last_less (er_confirmedAt a) (er_confirmedAt b))
        (filter (\<lambda>r. er_status r = CONFIRMED \<and> er_pnlProcessedAt r = None) (db_evm db)))"

definition pending_sol :: "pnl_db \<Rightarrow> SolanaSweepRow list" where
  "pending_sol db = take PNL_BATCH_SIZE
     (sort_by (\<lambda>a b. null_last_less (sr_confirmedAt a) (sr_confirmedAt b))
        (filter (\<lambda>r. sr_status r = CONFIRMED \<and> sr_pnlProcessedAt r = None) (db_sol db)))"

definition sweep_evm_row ::
    "(jsnum \<Rightarrow> jsnum) \<Rightarrow> int \<Rightarrow> EvmSweepRow \<Rightarrow> pnl_db \<times> PnlSweepResult \<Rightarrow> pnl_db \<times> PnlSweepResult" where
  "sweep_evm_row col now row s =
     (let (db, r) = s; r = r\<lparr>ps_checked := Suc (ps_checked r)\<rparr> in
      case processEvmRow col now row db of
        Inl e \<Rightarrow> (db, r)
      | Inr (db', processed) \<Rightarrow>
          (db', if \<not> processed then r\<lparr>ps_skippedNoPrice := Suc (ps_skippedNoPrice r)\<rparr>
                else if er_side row = ''BUY'' then r\<lparr>ps_lotsCreated := Suc (ps_lotsCreated r)\<rparr>
                else r\<lparr>ps_eventsCreated := Suc (ps_eventsCreated r)\<rparr>))"

definition sweep_sol_row ::
    "(jsnum \<Rightarrow> jsnum) \<Rightarrow> int \<Rightarrow> SolanaSweepRow \<Rightarrow> pnl_db \<times> PnlSweepResult \<Rightarrow> pnl_db \<times> PnlSweepResult" where
  "sweep_sol_row col now row s =
     (let (db, r) = s; r = r\<lparr>ps_checked := Suc (ps_checked r)\<rparr> in
      case processSolanaRow col now row db of
        Inl e \<Rightarrow> (db, r)
      | Inr db' \<Rightarrow>
          (db', if sr_side row = ''BUY'' then r\<lparr>ps_lotsCreated := Suc (ps_lotsCreated r)\<rparr>
                else r\<lparr>ps_eventsCreated := Suc (ps_eventsCreated r)\<rparr>))"

definition pnl_sweep :: "(jsnum \<Rightarrow> jsnum) \<Rightarrow> int \<Rightarrow> pnl_db \<Rightarrow> pnl_db \<times> PnlSweepResult" where
  "pnl_sweep col now db =
     (let evmRows = pending_evm db; solanaRows = pending_sol db;
          r0 = \<lparr>ps_checked = 0, ps_lotsCreated = 0, ps_eventsCreated = 0, ps_skippedNoPrice = 0\<rparr>
      in fold (sweep_sol_row col now) solanaRows (fold (sweep_evm_row col now) evmRows (db, r0)))"


subsection \<open>The ledger invariant\<close>

definition wf_amount :: "string \<Rightarrow> bool" where
  "wf_amount s = (case bigint_of_string s of Some n \<Rightarrow> 0 \<le> n | None \<Rightarrow> False)"

definition amount :: "string \<Rightarrow> int" where
  "amount s = (case bigint_of_string s of Some n \<Rightarrow> n | None \<Rightarrow> 0)"

definition matched_total :: "pnl_event list \<Rightarrow> string \<Rightarrow> int" where
  "matched_total es i = sum_list (map (\<lambda>e. amount (pe_quantityMatchedRaw e)) (filter (\<lambda>e. pe_lotId e = i) es))"

text \<open>A lot is balanced when what it was opened with is what remains plus what events took.\<close>

definition lot_balanced :: "pnl_event list \<Rightarrow> token_lot \<Rightarrow> bool" where
  "lot_balanced es l \<longleftrightarrow>
     wf_amount (tl_quantityOriginalRaw l) \<and> wf_amount (tl_quantityRemainingRaw l)
     \<and> amount (tl_quantityOriginalRaw l) = amount (tl_quantityRemainingRaw l) + matched_total es (tl_id l)"

definition ledger_inv :: "pnl_db \<Rightarrow> bool" where
  "ledger_inv db \<longleftrightarrow>
     distinct (map tl_id (db_lots db))
     \<and> (\<forall>l\<in>set (db_lots db). \<exists>k<db_next db. tl_id l = string_of_int (int k))
     \<and> (\<forall>e\<in>set (db_events db). pe_lotId e \<in> tl_id ` set (db_lots db))
     \<and> (\<forall>l\<in>set (db_lots db). lot_balanced (db_events db) l)"

definition rows_wf :: "pnl_db \<Rightarrow> bool" where
  "rows_wf db \<longleftrightarrow>
     (\<forall>r\<in>set (db_evm db). wf_amount (er_expectedOutputAmount r) \<and> wf_amount (er_inputAmount r))
     \<and> (\<forall>r\<in>set (db_sol db). wf_amount (sr_expectedOutputAmount r) \<and> wf_amount (sr_inputAmount r))"

lemma amount_string_of_int [simp]: "amount (string_of_int n) = n"
  by (simp add: amount_def)

lemma wf_amount_string_of_int [simp]: "wf_amount (string_of_int n) = (0 \<le> n)"
  by (simp add: wf_amount_def)

lemma BigInt_amount: "BigInt s = Ok n \<Longrightarrow> amount s = n"
  by (auto simp: BigInt_def amount_def split: option.splits)

lemma wf_amount_BigInt: "wf_amount s \<Longrightarrow> BigInt s = Ok (amount s) \<and> 0 \<le> amount s"
  by (auto simp: BigInt_def wf_amount_def amount_def split: option.splits)

lemma lot_id_to_open [simp]: "lot_id (to_open_lot l) = tl_id l"
  by (simp add: to_open_lot_def)

lemma lot_qty_to_open: "lot_qty (to_open_lot l) = amount (tl_quantityRemainingRaw l)"
  by (simp add: lot_qty_def to_open_lot_def amount_def)

lemma match_qty_amount: "match_qty m = amount (fm_quantityMatchedRaw m)"
  by (simp add: match_qty_def amount_def)

lemma matched_total_snoc:
  "matched_total (es @ [e]) i =
     matched_total es i + (if pe_lotId e = i then amount (pe_quantityMatchedRaw e) else 0)"
  by (simp add: matched_total_def)

lemma matched_total_fresh: "(\<And>e. e \<in> set es \<Longrightarrow> pe_lotId e \<noteq> i) \<Longrightarrow> matched_total es i = 0"
  by (simp add: matched_total_def filter_empty_conv)

lemma ledger_inv_mark [simp]:
  "ledger_inv (mark_evm i now db) = ledger_inv db" "ledger_inv (mark_sol i now db) = ledger_inv db"
  by (simp_all add: ledger_inv_def mark_evm_def mark_sol_def)

lemma rows_wf_mark [simp]:
  "rows_wf db \<Longrightarrow> rows_wf (mark_evm i now db)" "rows_wf db \<Longrightarrow> rows_wf (mark_sol i now db)"
  by (auto simp: rows_wf_def mark_evm_def mark_sol_def set_update_where)

lemma ledger_inv_create_lot:
  assumes "ledger_inv db" and "create_lot lot db = Ok db'"
    and "wf_amount (tl_quantityOriginalRaw lot)"
    and "tl_quantityRemainingRaw lot = tl_quantityOriginalRaw lot"
  shows "ledger_inv db'"
proof -
  let ?i = "string_of_int (int (db_next db))"
  have db': "db' = db\<lparr>db_lots := db_lots db @ [lot\<lparr>tl_id := ?i\<rparr>], db_next := Suc (db_next db)\<rparr>"
    using assms(2) by (simp add: create_lot_def split: if_splits)
  have fresh: "?i \<notin> tl_id ` set (db_lots db)"
    using assms(1) by (auto simp: ledger_inv_def string_of_int_inj)
  then have "matched_total (db_events db) ?i = 0"
    using assms(1) by (intro matched_total_fresh) (metis ledger_inv_def)
  with assms(3,4) have "lot_balanced (db_events db) (lot\<lparr>tl_id := ?i\<rparr>)"
    by (simp add: lot_balanced_def)
  moreover have "\<forall>l\<in>set (db_lots db). \<exists>k<Suc (db_next db). tl_id l = string_of_int (int k)"
    using assms(1) unfolding ledger_inv_def by (meson less_SucI)
  ultimately show ?thesis
    using assms(1) fresh unfolding db' ledger_inv_def by auto
qed

text \<open>One recorded match moves a quantity from a lot's remainder to its events.\<close>

lemma match_event_simps [simp]:
  "pe_lotId (match_event col p m) = fm_lotId m"
  "pe_quantityMatchedRaw (match_event col p m) = fm_quantityMatchedRaw m"
  by (simp_all add: match_event_def)

lemma record_match_Ok:
  assumes "record_match col p rows m db = Ok db'" and "distinct (map tl_id rows)"
    and "lot \<in> set rows" "tl_id lot = fm_lotId m" "wf_amount (tl_quantityRemainingRaw lot)"
  shows "db' = db\<lparr>db_lots := update_where (\<lambda>l. tl_id l = fm_lotId m)
        (\<lambda>l. l\<lparr>tl_quantityRemainingRaw :=
            string_of_int (amount (tl_quantityRemainingRaw lot) - match_qty m)\<rparr>) (db_lots db),
        db_events := db_events db @ [match_event col p m]\<rparr>"
proof -
  have "find (\<lambda>l. tl_id l = fm_lotId m) rows = Some lot"
  proof (cases "find (\<lambda>l. tl_id l = fm_lotId m) rows")
    case None
    with assms(3,4) show ?thesis by (auto simp: find_None)
  next
    case (Some l)
    with find_SomeD [OF Some] assms(2-4) show ?thesis by (auto dest: distinct_map_unique)
  qed
  moreover obtain a where a: "BigInt (fm_quantityMatchedRaw m) = Ok a"
    using assms(1) by (auto simp: record_match_def bind_result_Ok_iff split: option.splits)
  moreover from a have "match_qty m = a" by (simp add: match_qty_amount BigInt_amount)
  ultimately show ?thesis
    using assms(1,5)
    by (simp add: record_match_def Let_def create_event_def wf_amount_BigInt assms(4)
        split: if_splits)
qed

context lot_matcher
begin

lemma record_matches_keep_ledger:
  assumes "record_matches col p rows ms db = Ok db'" and "ledger_inv db"
    and "distinct (map tl_id rows)" and "distinct (map fm_lotId ms)"
    and "\<And>m. m \<in> set ms \<Longrightarrow> \<exists>l\<in>set rows. l \<in> set (db_lots db) \<and> tl_id l = fm_lotId m
           \<and> 0 < match_qty m \<and> match_qty m \<le> amount (tl_quantityRemainingRaw l)"
  shows "ledger_inv db'"
  using assms
proof (induction ms arbitrary: db)
  case Nil
  then show ?case by simp
next
  case (Cons m ms)
  from Cons.prems(1) obtain db1 where r1: "record_match col p rows m db = Ok db1"
    and r2: "record_matches col p rows ms db1 = Ok db'"
    by (auto simp: bind_result_Ok_iff)
  from Cons.prems(5) [of m] obtain lot where lot: "lot \<in> set rows" "lot \<in> set (db_lots db)"
    "tl_id lot = fm_lotId m" "0 < match_qty m" "match_qty m \<le> amount (tl_quantityRemainingRaw lot)"
    by auto
  have bal: "lot_balanced (db_events db) l" if "l \<in> set (db_lots db)" for l
    using Cons.prems(2) that by (simp add: ledger_inv_def)
  have d: "distinct (map tl_id (db_lots db))" using Cons.prems(2) by (simp add: ledger_inv_def)
  have w: "wf_amount (tl_quantityRemainingRaw lot)" using bal [OF lot(2)] by (simp add: lot_balanced_def)
  let ?e = "match_event col p m"
  from record_match_Ok [OF r1 Cons.prems(3) lot(1,3) w] have
    db1: "db1 = db\<lparr>db_lots := update_where (\<lambda>l. tl_id l = fm_lotId m)
        (\<lambda>l. l\<lparr>tl_quantityRemainingRaw :=
            string_of_int (amount (tl_quantityRemainingRaw lot) - match_qty m)\<rparr>) (db_lots db),
        db_events := db_events db @ [?e]\<rparr>" .
  have q: "amount (pe_quantityMatchedRaw ?e) = match_qty m" by (simp add: match_qty_amount)
  have "lot_balanced (db_events db1) l" if "l \<in> set (db_lots db1)" for l
  proof -
    from that obtain l0 where l0: "l0 \<in> set (db_lots db)"
      and l: "l = (if tl_id l0 = fm_lotId m then l0\<lparr>tl_quantityRemainingRaw :=
            string_of_int (amount (tl_quantityRemainingRaw lot) - match_qty m)\<rparr> else l0)"
      by (auto simp: db1 set_update_where)
    show ?thesis
    proof (cases "tl_id l0 = fm_lotId m")
      case True
      with lot(2,3) l0 d have "l0 = lot" by (auto dest: distinct_map_unique)
      with True l bal [OF l0] lot(5) q show ?thesis
        by (simp add: lot_balanced_def db1 matched_total_snoc)
    next
      case False
      with l bal [OF l0] show ?thesis by (simp add: lot_balanced_def db1 matched_total_snoc)
    qed
  qed
  moreover have "map tl_id (db_lots db1) = map tl_id (db_lots db)"
    by (simp add: db1 map_update_where_key)
  then have ids: "distinct (map tl_id (db_lots db1))" "tl_id ` set (db_lots db1) = tl_id ` set (db_lots db)"
    using d by (simp_all flip: set_map)
  moreover have "\<forall>l\<in>set (db_lots db1). \<exists>k<db_next db1. tl_id l = string_of_int (int k)"
  proof -
    have "\<forall>i\<in>tl_id ` set (db_lots db). \<exists>k<db_next db. i = string_of_int (int k)"
      using Cons.prems(2) by (auto simp: ledger_inv_def)
    then have "\<forall>i\<in>tl_id ` set (db_lots db1). \<exists>k<db_next db1. i = string_of_int (int k)"
      unfolding ids(2) by (simp add: db1)
    then show ?thesis by blast
  qed
  moreover have "\<forall>f\<in>set (db_events db1). pe_lotId f \<in> tl_id ` set (db_lots db1)"
    unfolding ids(2) using Cons.prems(2) lot(2) unfolding lot(3) [symmetric]
    by (auto simp: db1 ledger_inv_def lot(3) [symmetric])
  ultimately have inv1: "ledger_inv db1" by (simp add: ledger_inv_def)
  show ?case
  proof (rule Cons.IH [OF r2 inv1 Cons.prems(3)])
    show "distinct (map fm_lotId ms)" using Cons.prems(4) by simp
    fix m' assume m': "m' \<in> set ms"
    from Cons.prems(4) have "fm_lotId m \<notin> fm_lotId ` set ms" by simp
    with m' have ne: "fm_lotId m' \<noteq> fm_lotId m" by (metis imageI)
    from Cons.prems(5) [of m'] m' obtain l where "l \<in> set rows" "l \<in> set (db_lots db)"
      "tl_id l = fm_lotId m'" "0 < match_qty m'" "match_qty m' \<le> amount (tl_quantityRemainingRaw l)"
      by auto
    with ne show "\<exists>l\<in>set rows. l \<in> set (db_lots db1) \<and> tl_id l = fm_lotId m'
           \<and> 0 < match_qty m' \<and> match_qty m' \<le> amount (tl_quantityRemainingRaw l)"
      by (intro bexI [of _ l]) (force simp: db1 set_update_where)+
  qed
qed

lemma sell_keeps_ledger:
  assumes "matcher (map to_open_lot rows) q pr = Ok r"
    and "record_matches col p rows (rr_matches r) db = Ok db'" and "ledger_inv db"
    and "distinct (map tl_id rows)" and "set rows \<subseteq> set (db_lots db)"
  shows "ledger_inv db'"
proof (rule record_matches_keep_ledger [OF assms(2-4)])
  have ids: "map lot_id (map to_open_lot rows) = map tl_id rows"
    by (simp add: map_idI)
  then show "distinct (map fm_lotId (rr_matches r))"
    using lots_distinct [OF assms(1)] assms(4) by (simp only: ids)
  fix m assume "m \<in> set (rr_matches r)"
  from within_lot [OF assms(1) this] assms(5)
  show "\<exists>l\<in>set rows. l \<in> set (db_lots db) \<and> tl_id l = fm_lotId m
           \<and> 0 < match_qty m \<and> match_qty m \<le> amount (tl_quantityRemainingRaw l)"
    by (auto simp: lot_qty_to_open)
qed

end


lemma openLotRows_subset: "set (openLotRows p db) \<subseteq> set (db_lots db)"
  by (auto simp: openLotRows_def)

lemma openLotRows_distinct:
  "ledger_inv db \<Longrightarrow> distinct (map tl_id (openLotRows p db))"
proof -
  assume "ledger_inv db"
  then have d: "distinct (map tl_id (filter (lot_selected p) (db_lots db)))"
    by (auto simp: ledger_inv_def intro: distinct_map_filter)
  have "mset (map tl_id (openLotRows p db)) = mset (map tl_id (filter (lot_selected p) (db_lots db)))"
    by (simp add: openLotRows_def)
  with d show ?thesis by (metis mset_eq_imp_distinct_iff)
qed

lemma matchAndRecordSell_ledger:
  assumes "matchAndRecordSell col p db = Ok db'" and "ledger_inv db"
  shows "ledger_inv db'"
proof -
  from assms(1) obtain r where
    "computeFifoRealizedPnl (map to_open_lot (openLotRows p db)) (sp_sellQuantityRaw p) (sp_sellProceedsUsd p) = Ok r"
    "record_matches col p (openLotRows p db) (rr_matches r) db = Ok db'"
    by (auto simp: matchAndRecordSell_def Let_def bind_result_Ok_iff)
  then show ?thesis
    by (rule fifo.sell_keeps_ledger [OF _ _ assms(2) openLotRows_distinct [OF assms(2)] openLotRows_subset])
qed

lemma processEvmRow_ledger:
  assumes "processEvmRow col now row db = Ok (db', b)" and "ledger_inv db"
    and "wf_amount (er_expectedOutputAmount row)"
  shows "ledger_inv db'"
  using assms
  by (auto simp: processEvmRow_def Let_def bind_result_Ok_iff split: if_splits
      intro: matchAndRecordSell_ledger dest: ledger_inv_create_lot [OF assms(2)])

lemma processSolanaRow_ledger:
  assumes "processSolanaRow col now row db = Ok db'" and "ledger_inv db"
    and "wf_amount (sr_expectedOutputAmount row)"
  shows "ledger_inv db'"
  using assms
  by (auto simp: processSolanaRow_def Let_def bind_result_Ok_iff split: if_splits
      intro: matchAndRecordSell_ledger dest: ledger_inv_create_lot [OF assms(2)])

lemma fold_invariant_list:
  assumes "P s" and "\<And>x s. x \<in> set xs \<Longrightarrow> P s \<Longrightarrow> P (f x s)"
  shows "P (fold f xs s)"
  using assms by (induction xs arbitrary: s) auto

lemma sweep_evm_row_ledger:
  assumes "ledger_inv (fst s)" and "wf_amount (er_expectedOutputAmount row)"
  shows "ledger_inv (fst (sweep_evm_row col now row s))"
  using assms processEvmRow_ledger [of col now row "fst s"]
  by (auto simp: sweep_evm_row_def Let_def split: prod.splits sum.splits)

lemma sweep_sol_row_ledger:
  assumes "ledger_inv (fst s)" and "wf_amount (sr_expectedOutputAmount row)"
  shows "ledger_inv (fst (sweep_sol_row col now row s))"
  using assms processSolanaRow_ledger [of col now row "fst s"]
  by (auto simp: sweep_sol_row_def Let_def split: prod.splits sum.splits)

lemma pending_evm_wf: "rows_wf db \<Longrightarrow> r \<in> set (pending_evm db) \<Longrightarrow> wf_amount (er_expectedOutputAmount r)"
  by (auto simp: pending_evm_def rows_wf_def dest!: in_set_takeD)

lemma pending_sol_wf: "rows_wf db \<Longrightarrow> r \<in> set (pending_sol db) \<Longrightarrow> wf_amount (sr_expectedOutputAmount r)"
  by (auto simp: pending_sol_def rows_wf_def dest!: in_set_takeD)

subsection \<open>Properties\<close>

text \<open>C6: A sweep tick keeps the ledger balanced: for every lot, the quantity it was opened with is
  its remaining quantity, never negative, plus everything realized-PnL events took from it;
  lot ids stay unique and every event refers to a lot. Rows whose processing throws leave no
  trace.\<close>

theorem pnl_sweep_keeps_ledger:
  assumes "ledger_inv db" and "rows_wf db"
  shows "ledger_inv (fst (pnl_sweep col now db))"
  unfolding pnl_sweep_def Let_def
  by (intro fold_invariant_list [where P = "\<lambda>s. ledger_inv (fst s)"])
    (use assms in \<open>auto intro: sweep_evm_row_ledger sweep_sol_row_ledger pending_evm_wf pending_sol_wf\<close>)

definition sample_evm_row :: "string \<Rightarrow> string \<Rightarrow> int \<Rightarrow> EvmSweepRow" where
  "sample_evm_row i s t =
     \<lparr>er_id = i, er_userId = ''u'', er_side = s, er_status = CONFIRMED,
      er_expectedOutputAmount = ''500'', er_inputAmount = ''200'', er_confirmedAt = Some t,
      er_pnlProcessedAt = None, er_priceUsd = Some (Fin 2), er_chainId = None, er_inputToken = None,
      er_outputToken = None, er_tokenId = ''t'', er_decimals = Some 0\<rparr>"

definition sample_pnl_db :: pnl_db where
  "sample_pnl_db = \<lparr>db_lots = [], db_events = [],
     db_evm = [sample_evm_row ''b'' ''BUY'' 1, sample_evm_row ''s'' ''SELL'' 2], db_sol = [], db_next = 0\<rparr>"

theorem pnl_sweep_keeps_ledger_witness:
  "ledger_inv (fst (pnl_sweep id 9 sample_pnl_db))
   \<and> map tl_quantityRemainingRaw (db_lots (fst (pnl_sweep id 9 sample_pnl_db))) = [''300'']"
proof
  have "ledger_inv sample_pnl_db" by (simp add: ledger_inv_def sample_pnl_db_def)
  moreover have "rows_wf sample_pnl_db"
  proof -
    have "wf_amount ''500''" "wf_amount ''200''" by code_simp+
    then show ?thesis by (simp add: rows_wf_def sample_pnl_db_def sample_evm_row_def)
  qed
  ultimately show "ledger_inv (fst (pnl_sweep id 9 sample_pnl_db))" by (rule pnl_sweep_keeps_ledger)
  show "map tl_quantityRemainingRaw (db_lots (fst (pnl_sweep id 9 sample_pnl_db))) = [''300'']"
    by code_simp
qed

end
