(* ===== verification/Resilience.thy ===== *)
theory Resilience
  imports JSText
begin

section \<open>Resilience: circuit breaker, connection pool, retries, rate limiting\<close>

text \<open>
  \<open>apps/api/src/chain/{circuit-breaker,solana-connection-pool,rpc-failover-fetch}.ts\<close>,
  \<open>apps/api/src/solana/jupiter-rate-limiter.ts\<close> and
  \<open>packages/chain-adapters/src/retry.ts\<close>.  A remote call is a function from the outside world
  \<open>'w\<close> to a result and the next world; the clock is a reading of the world.  An awaited call of
  the circuit breaker is two steps, \<open>begin_call\<close> and \<open>finish_call\<close>, so that concurrent
  callers are interleavings of those steps (\<open>breaker_run\<close>).
\<close>

type_synonym ('w, 'a) remote = "'w \<Rightarrow> (js_error, 'a) result \<times> 'w"

subsection \<open>The circuit breaker\<close>

datatype CircuitState = CB_CLOSED | CB_OPEN | CB_HALF_OPEN

record CircuitBreakerOptions =
  failureThreshold :: nat
  resetTimeoutMs :: int

record CircuitBreaker =
  cb_state :: CircuitState
  cb_consecutiveFailures :: nat
  cb_openedAt :: int

definition new_breaker :: CircuitBreaker where
  "new_breaker = \<lparr>cb_state = CB_CLOSED, cb_consecutiveFailures = 0, cb_openedAt = 0\<rparr>"

definition getState :: "CircuitBreakerOptions \<Rightarrow> int \<Rightarrow> CircuitBreaker \<Rightarrow> CircuitState" where
  "getState opts now b =
     (if cb_state b = CB_OPEN \<and> resetTimeoutMs opts \<le> now - cb_openedAt b
      then CB_HALF_OPEN else cb_state b)"

definition begin_call ::
    "CircuitBreakerOptions \<Rightarrow> int \<Rightarrow> CircuitBreaker \<Rightarrow> (js_error, CircuitBreaker) result" where
  "begin_call opts now b =
     (let currentState = getState opts now b in
      if currentState = CB_OPEN then Err (Error ''circuit breaker is open'')
      else if currentState = CB_HALF_OPEN then Ok (b\<lparr>cb_state := CB_HALF_OPEN\<rparr>)
      else Ok b)"

definition onSuccess :: "CircuitBreaker \<Rightarrow> CircuitBreaker" where
  "onSuccess b = b\<lparr>cb_consecutiveFailures := 0, cb_state := CB_CLOSED\<rparr>"

definition onFailure :: "CircuitBreakerOptions \<Rightarrow> int \<Rightarrow> CircuitBreaker \<Rightarrow> CircuitBreaker" where
  "onFailure opts now b =
     (let b = b\<lparr>cb_consecutiveFailures := Suc (cb_consecutiveFailures b)\<rparr> in
      if cb_state b = CB_HALF_OPEN \<or> failureThreshold opts \<le> cb_consecutiveFailures b
      then b\<lparr>cb_state := CB_OPEN, cb_openedAt := now\<rparr> else b)"

definition finish_call ::
    "CircuitBreakerOptions \<Rightarrow> int \<Rightarrow> (js_error, 'a) result \<Rightarrow> CircuitBreaker \<Rightarrow> CircuitBreaker" where
  "finish_call opts now r b = (if is_ok r then onSuccess b else onFailure opts now b)"

definition execute ::
    "CircuitBreakerOptions \<Rightarrow> ('w \<Rightarrow> int) \<Rightarrow> CircuitBreaker \<Rightarrow> ('w, 'a) remote \<Rightarrow> 'w
     \<Rightarrow> (js_error, 'a) result \<times> CircuitBreaker \<times> 'w" where
  "execute opts clock b fn w =
     (case begin_call opts (clock w) b of
        Inl e \<Rightarrow> (Inl e, b, w)
      | Inr b1 \<Rightarrow> let (r, w1) = fn w in (r, finish_call opts (clock w1) r b1, w1))"

text \<open>Interleaved callers: \<open>K\<close> bounds the calls in flight; the clock never runs backwards.\<close>

datatype breaker_event = Admitted | Refused | Succeeded | Failed | Ticked

record breaker_world =
  bw_breaker :: CircuitBreaker
  bw_inflight :: nat
  bw_now :: int

inductive breaker_step ::
    "CircuitBreakerOptions \<Rightarrow> nat \<Rightarrow> breaker_world \<Rightarrow> breaker_event \<Rightarrow> breaker_world \<Rightarrow> bool"
  for opts K where
  admit: "begin_call opts (bw_now s) (bw_breaker s) = Ok b \<Longrightarrow> bw_inflight s < K
    \<Longrightarrow> breaker_step opts K s Admitted (s\<lparr>bw_breaker := b, bw_inflight := Suc (bw_inflight s)\<rparr>)"
| refuse: "begin_call opts (bw_now s) (bw_breaker s) = Err e \<Longrightarrow> breaker_step opts K s Refused s"
| succeed: "bw_inflight s = Suc n
    \<Longrightarrow> breaker_step opts K s Succeeded (s\<lparr>bw_breaker := onSuccess (bw_breaker s), bw_inflight := n\<rparr>)"
| fail: "bw_inflight s = Suc n
    \<Longrightarrow> breaker_step opts K s Failed
          (s\<lparr>bw_breaker := onFailure opts (bw_now s) (bw_breaker s), bw_inflight := n\<rparr>)"
| tick: "bw_now s \<le> t \<Longrightarrow> breaker_step opts K s Ticked (s\<lparr>bw_now := t\<rparr>)"

inductive breaker_run ::
    "CircuitBreakerOptions \<Rightarrow> nat \<Rightarrow> breaker_world \<Rightarrow> breaker_event list \<Rightarrow> breaker_world \<Rightarrow> bool"
  for opts K where
  done_run: "breaker_run opts K s [] s"
| more: "breaker_run opts K s tr s1 \<Longrightarrow> breaker_step opts K s1 e s2 \<Longrightarrow> breaker_run opts K s (tr @ [e]) s2"

inductive_cases breaker_stepE [elim!]: "breaker_step opts K s e s'"

lemma execute_cases:
  obtains e where "begin_call opts (clock w) b = Err e" "execute opts clock b fn w = (Err e, b, w)"
  | b1 where "begin_call opts (clock w) b = Ok b1"
      "execute opts clock b fn w =
         (fst (fn w), finish_call opts (clock (snd (fn w))) (fst (fn w)) b1, snd (fn w))"
  by (cases "begin_call opts (clock w) b") (auto simp: execute_def split: prod.splits)

lemma begin_call_Ok_iff:
  "begin_call opts now b = Ok b' \<longleftrightarrow>
     (cb_state b = CB_CLOSED \<and> b' = b)
     \<or> (cb_state b = CB_HALF_OPEN \<and> b' = b\<lparr>cb_state := CB_HALF_OPEN\<rparr>)
     \<or> (cb_state b = CB_OPEN \<and> cb_openedAt b + resetTimeoutMs opts \<le> now
        \<and> b' = b\<lparr>cb_state := CB_HALF_OPEN\<rparr>)"
  by (cases "cb_state b") (auto simp: begin_call_def getState_def Let_def)

lemma run_clock: "breaker_run opts K s tr s' \<Longrightarrow> bw_now s \<le> bw_now s'"
  by (induction rule: breaker_run.induct) auto

text \<open>The breaker is closed exactly while fewer than the threshold of failures have piled up.\<close>

definition breaker_inv :: "CircuitBreakerOptions \<Rightarrow> CircuitBreaker \<Rightarrow> bool" where
  "breaker_inv opts b \<longleftrightarrow>
     (cb_state b = CB_CLOSED \<longleftrightarrow> cb_consecutiveFailures b < failureThreshold opts)"

lemma breaker_inv_steps [inv_intros]:
  "0 < failureThreshold opts \<Longrightarrow> breaker_inv opts new_breaker"
  "breaker_inv opts b \<Longrightarrow> begin_call opts now b = Ok b' \<Longrightarrow> breaker_inv opts b'"
  "0 < failureThreshold opts \<Longrightarrow> breaker_inv opts (onSuccess b)"
  "breaker_inv opts b \<Longrightarrow> breaker_inv opts (onFailure opts now b)"
  by (auto simp: breaker_inv_def new_breaker_def begin_call_Ok_iff onSuccess_def onFailure_def Let_def)

lemma breaker_run_inv:
  assumes "breaker_run opts K s tr s'" "0 < failureThreshold opts" "breaker_inv opts (bw_breaker s)"
  shows "breaker_inv opts (bw_breaker s')"
  using assms by (induction rule: breaker_run.induct) (auto intro: inv_intros)

text \<open>Calls admitted so far, while an outage shorter than the reset timeout lasts.\<close>

definition admitted :: "breaker_event list \<Rightarrow> nat" where
  "admitted tr = count_list tr Admitted"

lemma admitted_snoc [simp]:
  "admitted [] = 0" "admitted (tr @ [e]) = admitted tr + (if e = Admitted then 1 else 0)"
  by (simp_all add: admitted_def)

definition outage_inv :: "CircuitBreakerOptions \<Rightarrow> nat \<Rightarrow> int \<Rightarrow> nat \<Rightarrow> breaker_world \<Rightarrow> bool" where
  "outage_inv opts K t0 adm s \<longleftrightarrow>
     t0 \<le> bw_now s \<and>
     (cb_state (bw_breaker s) = CB_CLOSED
        \<and> cb_consecutiveFailures (bw_breaker s) < failureThreshold opts
        \<and> adm = cb_consecutiveFailures (bw_breaker s) + bw_inflight s \<and> bw_inflight s \<le> K
      \<or> cb_state (bw_breaker s) = CB_OPEN \<and> t0 \<le> cb_openedAt (bw_breaker s)
        \<and> adm < failureThreshold opts + K)"

lemma outage_step:
  assumes "breaker_step opts K s e s'" "outage_inv opts K t0 adm s" "e \<noteq> Succeeded"
    and "bw_now s < t0 + resetTimeoutMs opts"
  shows "outage_inv opts K t0 (adm + (if e = Admitted then 1 else 0)) s'"
  using assms
  by (cases rule: breaker_step.cases)
     (auto simp: outage_inv_def begin_call_Ok_iff onFailure_def Let_def)

lemma outage_run:
  assumes "breaker_run opts K s tr s'" "outage_inv opts K t0 0 s" "Succeeded \<notin> set tr"
    and "bw_now s' < t0 + resetTimeoutMs opts"
  shows "outage_inv opts K t0 (admitted tr) s'"
  using assms
proof (induction rule: breaker_run.induct)
  case (more s tr s1 e s2)
  have "bw_now s1 \<le> bw_now s2" using more.hyps(2) by auto
  with more have "outage_inv opts K t0 (admitted tr) s1" by auto
  from outage_step [OF more.hyps(2) this] more.prems \<open>bw_now s1 \<le> bw_now s2\<close>
  show ?case by auto
qed simp

text \<open>C7: while an endpoint is down for less than the reset timeout, it receives at most
  threshold + K - 1 calls from K concurrent callers, however their calls interleave: the breaker
  stops the cascade it exists to stop.\<close>

theorem breaker_bounds_outage:
  assumes "breaker_run opts K \<lparr>bw_breaker = new_breaker, bw_inflight = 0, bw_now = t0\<rparr> tr s'"
    and "Succeeded \<notin> set tr" and "bw_now s' < t0 + resetTimeoutMs opts"
    and "0 < failureThreshold opts"
  shows "admitted tr < failureThreshold opts + K"
proof -
  have "outage_inv opts K t0 0 \<lparr>bw_breaker = new_breaker, bw_inflight = 0, bw_now = t0\<rparr>"
    using assms(4) by (simp add: outage_inv_def new_breaker_def)
  from outage_run [OF assms(1) this assms(2,3)] show ?thesis
    by (auto simp: outage_inv_def)
qed

definition pool_options :: CircuitBreakerOptions where
  "pool_options = \<lparr>failureThreshold = 3, resetTimeoutMs = 15000\<rparr>"

lemma outage_sample_run:
  "breaker_run pool_options 1 \<lparr>bw_breaker = new_breaker, bw_inflight = 0, bw_now = 0\<rparr> 
     (([] @ [Admitted]) @ [Failed])
     \<lparr>bw_breaker = onFailure pool_options 0 new_breaker, bw_inflight = 0, bw_now = 0\<rparr>"
proof -
  let ?s0 = "\<lparr>bw_breaker = new_breaker, bw_inflight = 0, bw_now = 0\<rparr>"
  have 1: "breaker_step pool_options 1 ?s0 Admitted (?s0\<lparr>bw_breaker := new_breaker, bw_inflight := Suc 0\<rparr>)"
    using breaker_step.admit [of pool_options ?s0 new_breaker 1]
    by (simp add: begin_call_Ok_iff) (simp add: new_breaker_def)
  have 2: "breaker_step pool_options 1 (?s0\<lparr>bw_inflight := Suc 0\<rparr>) Failed
      (?s0\<lparr>bw_breaker := onFailure pool_options 0 new_breaker\<rparr>)"
    using breaker_step.fail [of "?s0\<lparr>bw_inflight := Suc 0\<rparr>" 0 pool_options 1] by simp
  from breaker_run.more [OF breaker_run.more [OF breaker_run.done_run 1]] 2 show ?thesis by simp
qed

theorem breaker_bounds_outage_witness:
  "admitted [Admitted, Failed] < failureThreshold pool_options + 1"
  using breaker_bounds_outage [OF outage_sample_run] by (simp add: pool_options_def)

subsection \<open>The connection pool\<close>

text \<open>What a client of a guarded call relies on: it refuses without running the call, or it runs
  it once and hands back exactly its outcome; and it refuses only while it is open.\<close>

locale guarded_call =
  fixes exec :: "'b \<Rightarrow> ('w, 'a) remote \<Rightarrow> 'w \<Rightarrow> (js_error, 'a) result \<times> 'b \<times> 'w"
    and is_open :: "'b \<Rightarrow> 'w \<Rightarrow> bool"
  assumes exec_open: "is_open b w \<Longrightarrow> \<exists>e. exec b fn w = (Err e, b, w)"
    and exec_runs: "\<not> is_open b w \<Longrightarrow> \<exists>b'. exec b fn w = (fst (fn w), b', snd (fn w))"

datatype endpoint = Primary | FallbackEndpoint

record 'b connection_pool =
  primaryBreaker :: 'b
  fallbackBreaker :: 'b
  hasFallback :: bool

definition withFailover_by ::
    "('b \<Rightarrow> ('w, 'a) remote \<Rightarrow> 'w \<Rightarrow> (js_error, 'a) result \<times> 'b \<times> 'w)
     \<Rightarrow> (endpoint \<Rightarrow> ('w, 'a) remote) \<Rightarrow> 'b connection_pool \<Rightarrow> 'w
     \<Rightarrow> (js_error, 'a) result \<times> 'b connection_pool \<times> 'w" where
  "withFailover_by exec operation p w =
     (case exec (primaryBreaker p) (operation Primary) w of
        (Inr a, b, w1) \<Rightarrow> (Inr a, p\<lparr>primaryBreaker := b\<rparr>, w1)
      | (Inl primaryError, b, w1) \<Rightarrow>
          let p1 = p\<lparr>primaryBreaker := b\<rparr> in
          if \<not> hasFallback p then (Inl primaryError, p1, w1)
          else let (r, b2, w2) = exec (fallbackBreaker p1) (operation FallbackEndpoint) w1
               in (r, p1\<lparr>fallbackBreaker := b2\<rparr>, w2))"

definition withPublicFirst_by ::
    "('b \<Rightarrow> ('w, 'a) remote \<Rightarrow> 'w \<Rightarrow> (js_error, 'a) result \<times> 'b \<times> 'w)
     \<Rightarrow> (endpoint \<Rightarrow> ('w, 'a) remote) \<Rightarrow> 'b connection_pool \<Rightarrow> 'w
     \<Rightarrow> (js_error, 'a) result \<times> 'b connection_pool \<times> 'w" where
  "withPublicFirst_by exec operation p w =
     (if \<not> hasFallback p then withFailover_by exec operation p w
      else case exec (fallbackBreaker p) (operation FallbackEndpoint) w of
        (Inr a, b, w1) \<Rightarrow> (Inr a, p\<lparr>fallbackBreaker := b\<rparr>, w1)
      | (Inl e, b, w1) \<Rightarrow>
          let p1 = p\<lparr>fallbackBreaker := b\<rparr>;
              (r, b2, w2) = exec (primaryBreaker p1) (operation Primary) w1
          in (r, p1\<lparr>primaryBreaker := b2\<rparr>, w2))"

context guarded_call begin

lemma exec_result:
  obtains e where "is_open b w" "exec b fn w = (Err e, b, w)"
  | b' where "\<not> is_open b w" "exec b fn w = (fst (fn w), b', snd (fn w))"
  using exec_open exec_runs by metis

lemma exec_Ok: "exec b fn w = (Ok a, b', w') \<Longrightarrow> fn w = (Ok a, w')"
  using exec_open [of b w fn] exec_runs [of b w fn] by (cases "is_open b w"; cases "fn w") auto

lemma exec_Err: "exec b fn w = (Err e, b', w') \<Longrightarrow> w' \<in> {w, snd (fn w)}"
  using exec_open [of b w fn] exec_runs [of b w fn] by (cases "is_open b w"; cases "fn w") auto

lemma failover_success_is_real:
  assumes "withFailover_by exec operation p w = (Ok a, p', w')"
  shows "operation Primary w = (Ok a, w')
     \<or> hasFallback p \<and> (\<exists>w1\<in>{w, snd (operation Primary w)}. operation FallbackEndpoint w1 = (Ok a, w'))"
proof -
  obtain r b w1 where E: "exec (primaryBreaker p) (operation Primary) w = (r, b, w1)"
    by (metis prod_cases3)
  show ?thesis
  proof (cases r)
    case (Inr v)
    with assms E exec_Ok [of "primaryBreaker p" "operation Primary" w v b w1] show ?thesis
      by (simp add: withFailover_by_def)
  next
    case (Inl e)
    obtain r2 b2 w2 where E2: "exec (fallbackBreaker p) (operation FallbackEndpoint) w1 = (r2, b2, w2)"
      by (metis prod_cases3)
    from assms E E2 Inl have "hasFallback p" "r2 = Ok a" "w2 = w'"
      by (auto simp: withFailover_by_def Let_def split: if_splits)
    with E2 exec_Ok [of _ "operation FallbackEndpoint" w1 a b2 w2] have "operation FallbackEndpoint w1 = (Ok a, w')"
      by simp
    with \<open>hasFallback p\<close> exec_Err [of "primaryBreaker p" "operation Primary" w e b w1] E Inl
    show ?thesis by blast
  qed
qed

lemma failover_rescues:
  assumes "hasFallback p"
    and "\<And>w1. w1 \<in> {w, snd (operation Primary w)} \<Longrightarrow> \<not> is_open (fallbackBreaker p) w1
           \<and> is_ok (fst (operation FallbackEndpoint w1))"
  shows "is_ok (fst (withFailover_by exec operation p w))"
proof -
  obtain r b w1 where E: "exec (primaryBreaker p) (operation Primary) w = (r, b, w1)"
    by (metis prod_cases3)
  show ?thesis
  proof (cases r)
    case (Inl e)
    with E exec_Err [of "primaryBreaker p" "operation Primary" w e b w1]
    have w1: "w1 \<in> {w, snd (operation Primary w)}" by simp
    from assms(2) [OF w1] obtain v where v: "fst (operation FallbackEndpoint w1) = Ok v"
      by (auto simp: is_ok_def split: sum.splits)
    from assms(2) [OF w1] exec_runs [of "fallbackBreaker p" w1 "operation FallbackEndpoint"]
    obtain b2 where "exec (fallbackBreaker p) (operation FallbackEndpoint) w1
        = (Ok v, b2, snd (operation FallbackEndpoint w1))" using v by auto
    with E Inl assms(1) show ?thesis by (simp add: withFailover_by_def)
  qed (simp add: withFailover_by_def E)
qed

end

definition breaker_open :: "CircuitBreakerOptions \<Rightarrow> ('w \<Rightarrow> int) \<Rightarrow> CircuitBreaker \<Rightarrow> 'w \<Rightarrow> bool" where
  "breaker_open opts clock b w = (getState opts (clock w) b = CB_OPEN)"

lemma breaker_open_begin:
  "breaker_open opts clock b w \<longleftrightarrow> (\<exists>e. begin_call opts (clock w) b = Err e)"
  by (auto simp: breaker_open_def begin_call_def Let_def)

interpretation breaker: guarded_call "execute opts clock" "breaker_open opts clock" for opts clock
proof
  fix b w fn
  show "breaker_open opts clock b w \<Longrightarrow> \<exists>e. execute opts clock b fn w = (Err e, b, w)"
    by (rule execute_cases [of opts clock w b fn]) (auto simp: breaker_open_begin)
  show "\<not> breaker_open opts clock b w \<Longrightarrow> \<exists>b'. execute opts clock b fn w = (fst (fn w), b', snd (fn w))"
    by (rule execute_cases [of opts clock w b fn]) (auto simp: breaker_open_begin)
qed

definition withFailover where
  "withFailover clock = withFailover_by (execute pool_options clock)"

definition withPublicFirst where
  "withPublicFirst clock = withPublicFirst_by (execute pool_options clock)"

text \<open>C8: \<open>withFailover\<close> never invents a result and never gives up early: a success is the
  outcome of one real call on the primary, or on a configured fallback after the primary failed or
  was refused; and with a fallback that answers and whose breaker is not open the call succeeds,
  whatever the primary does.\<close>

theorem failover_sound_and_live:
  "(\<forall>a p' w'. withFailover clock operation p w = (Ok a, p', w') \<longrightarrow>
      operation Primary w = (Ok a, w')
      \<or> hasFallback p \<and> (\<exists>w1\<in>{w, snd (operation Primary w)}. operation FallbackEndpoint w1 = (Ok a, w')))
   \<and> (hasFallback p \<and>
      (\<forall>w1\<in>{w, snd (operation Primary w)}.
          getState pool_options (clock w1) (fallbackBreaker p) \<noteq> CB_OPEN
          \<and> is_ok (fst (operation FallbackEndpoint w1))) \<longrightarrow>
      is_ok (fst (withFailover clock operation p w)))"
proof (intro conjI allI impI)
  fix a p' w' assume "withFailover clock operation p w = (Ok a, p', w')"
  then show "operation Primary w = (Ok a, w')
      \<or> hasFallback p \<and> (\<exists>w1\<in>{w, snd (operation Primary w)}. operation FallbackEndpoint w1 = (Ok a, w'))"
    unfolding withFailover_def by (rule breaker.failover_success_is_real)
next
  assume *: "hasFallback p \<and>
      (\<forall>w1\<in>{w, snd (operation Primary w)}.
          getState pool_options (clock w1) (fallbackBreaker p) \<noteq> CB_OPEN
          \<and> is_ok (fst (operation FallbackEndpoint w1)))"
  show "is_ok (fst (withFailover clock operation p w))"
    unfolding withFailover_def
  proof (rule breaker.failover_rescues)
    show "hasFallback p" using * by blast
    fix w1 assume "w1 \<in> {w, snd (operation Primary w)}"
    with * show "\<not> breaker_open pool_options clock (fallbackBreaker p) w1
        \<and> is_ok (fst (operation FallbackEndpoint w1))"
      unfolding breaker_open_def by blast
  qed
qed

text \<open>A one-hour clock reading, a primary that is down and a fallback that answers.\<close>

definition sample_endpoints :: "endpoint \<Rightarrow> (int, nat) remote" where
  "sample_endpoints ep w = (case ep of Primary \<Rightarrow> (Err TypeError, w + 1) | FallbackEndpoint \<Rightarrow> (Ok 7, w + 1))"

definition sample_pool :: "CircuitBreaker connection_pool" where
  "sample_pool = \<lparr>primaryBreaker = new_breaker, fallbackBreaker = new_breaker, hasFallback = True\<rparr>"

theorem failover_sound_and_live_witness:
  "is_ok (fst (withFailover (\<lambda>w. w) sample_endpoints sample_pool 3600000))"
proof -
  have "hasFallback sample_pool" by (simp add: sample_pool_def)
  moreover have "\<forall>w1\<in>{3600000, snd (sample_endpoints Primary 3600000)}.
      getState pool_options w1 (fallbackBreaker sample_pool) \<noteq> CB_OPEN
      \<and> is_ok (fst (sample_endpoints FallbackEndpoint w1))"
    by (simp add: sample_pool_def sample_endpoints_def getState_def new_breaker_def)
  ultimately show ?thesis
    using failover_sound_and_live [of "\<lambda>w. w" sample_endpoints sample_pool 3600000] by blast
qed

text \<open>Every caller that arrives while the breaker is half open is admitted, not only one probe.\<close>

lemma half_open_admits_every_caller:
  assumes "getState opts now b = CB_HALF_OPEN"
  obtains b' where "begin_call opts now b = Ok b'" "getState opts now b' = CB_HALF_OPEN"
  using assms by (auto simp: begin_call_def getState_def Let_def split: if_splits)

lemma public_first_success_is_real:
  assumes "withPublicFirst clock operation p w = (Ok a, p', w')" "hasFallback p"
  shows "\<exists>ep. \<exists>w1\<in>{w, snd (operation FallbackEndpoint w)}. operation ep w1 = (Ok a, w')"
proof -
  obtain r b w1 where E: "execute pool_options clock (fallbackBreaker p) (operation FallbackEndpoint) w = (r, b, w1)"
    by (metis prod_cases3)
  show ?thesis
  proof (cases r)
    case (Inr v)
    with assms E breaker.exec_Ok [of pool_options clock _ "operation FallbackEndpoint" w v b w1]
    show ?thesis by (auto simp: withPublicFirst_def withPublicFirst_by_def)
  next
    case (Inl e)
    obtain r2 b2 w2 where E2: "execute pool_options clock (primaryBreaker p) (operation Primary) w1 = (r2, b2, w2)"
      by (metis prod_cases3)
    from assms E E2 Inl have "r2 = Ok a" "w2 = w'"
      by (auto simp: withPublicFirst_def withPublicFirst_by_def Let_def)
    with E2 breaker.exec_Ok [of pool_options clock _ "operation Primary" w1 a b2 w2]
    have "operation Primary w1 = (Ok a, w')" by simp
    with breaker.exec_Err [of pool_options clock _ "operation FallbackEndpoint" w e b w1] E Inl
    show ?thesis by blast
  qed
qed

subsection \<open>Fetch with a fallback URL\<close>

text \<open>\<open>rp_json\<close> is what \<open>res.json()\<close> gives, \<open>None\<close> when the body does not parse.\<close>

record Response =
  rp_status :: int
  rp_json :: "json option"

definition LIMIT_CODES :: "int list" where
  "LIMIT_CODES = [-32005, -32007, -32029, -32429]"

text \<open>\<open>body.error\<close>: \<open>None\<close> is the TypeError of a property of null, \<open>Some None\<close> is undefined.\<close>

fun get_error :: "json \<Rightarrow> json option option" where
  "get_error JNull = None"
| "get_error j = Some (json_field j ''error'')"

definition error_is_limit :: "json option \<Rightarrow> bool" where
  "error_is_limit e =
     (case Option.bind e (\<lambda>j. json_field j ''code'') of
        Some (JNum c) \<Rightarrow> c \<in> set (map num_of_int LIMIT_CODES)
      | _ \<Rightarrow> False)"

definition limit_body :: "json option \<Rightarrow> bool" where
  "limit_body body =
     (case body of
        None \<Rightarrow> False
      | Some j \<Rightarrow>
          (let errors = (case j of JArr bs \<Rightarrow> map get_error bs | _ \<Rightarrow> [get_error j]) in
           if None \<in> set errors then False
           else \<exists>e\<in>set errors. error_is_limit (the e)))"

definition isUnusable :: "Response \<Rightarrow> bool" where
  "isUnusable res =
     (if rp_status res \<in> {429, 401, 402, 403} \<or> 500 \<le> rp_status res then True
      else if \<not> (200 \<le> rp_status res \<and> rp_status res < 300) then False
      else limit_body (rp_json res))"

definition failoverFetch :: "('u \<Rightarrow> ('w, Response) remote) \<Rightarrow> 'u \<Rightarrow> 'u \<Rightarrow> ('w, Response) remote" where
  "failoverFetch base fallbackUrl input w =
     (case base input w of
        (Inr res, w1) \<Rightarrow> if \<not> isUnusable res then (Inr res, w1) else base fallbackUrl w1
      | (Inl e, w1) \<Rightarrow> base fallbackUrl w1)"

lemma failoverFetch_cases:
  "failoverFetch base fb input w =
     (if \<exists>res. fst (base input w) = Ok res \<and> \<not> isUnusable res then base input w
      else base fb (snd (base input w)))"
  by (auto simp: failoverFetch_def split: prod.splits sum.splits)

subsection \<open>Retries\<close>

text \<open>\<open>sleep d\<close> is the wait of \<open>setTimeout(resolve, d)\<close>.  The loop counter is the recursion
  argument \<open>left\<close>, the attempts that remain.\<close>

fun retry_loop ::
    "(int \<Rightarrow> 'w \<Rightarrow> 'w) \<Rightarrow> int \<Rightarrow> ('w, 'a) remote \<Rightarrow> nat \<Rightarrow> nat \<Rightarrow> js_error option \<Rightarrow> 'w
     \<Rightarrow> (js_error option, 'a) result \<times> 'w" where
  "retry_loop sleep baseDelayMs fn attempt 0 lastError w = (Inl lastError, w)"
| "retry_loop sleep baseDelayMs fn attempt (Suc left) lastError w =
     (case fn w of
        (Inr a, w1) \<Rightarrow> (Inr a, w1)
      | (Inl e, w1) \<Rightarrow>
          retry_loop sleep baseDelayMs fn (Suc attempt) left (Some e)
            (if 0 < left then sleep (baseDelayMs * 2 ^ attempt) w1 else w1))"

definition retryRpcCall ::
    "(int \<Rightarrow> 'w \<Rightarrow> 'w) \<Rightarrow> nat \<Rightarrow> int \<Rightarrow> ('w, 'a) remote \<Rightarrow> 'w \<Rightarrow> (js_error option, 'a) result \<times> 'w" where
  "retryRpcCall sleep attempts baseDelayMs fn w =
     retry_loop sleep baseDelayMs fn 0 attempts None w"

text \<open>The world before attempt \<open>k\<close>, when all the earlier ones failed.\<close>

fun attempt_world :: "(int \<Rightarrow> 'w \<Rightarrow> 'w) \<Rightarrow> int \<Rightarrow> ('w, 'a) remote \<Rightarrow> 'w \<Rightarrow> nat \<Rightarrow> 'w" where
  "attempt_world sleep d fn w 0 = w"
| "attempt_world sleep d fn w (Suc k) =
     sleep (d * 2 ^ k) (snd (fn (attempt_world sleep d fn w k)))"

lemma retry_loop_success:
  assumes "fn (attempt_world sleep d fn w k) = (Ok a, w')"
    and "\<forall>j. attempt \<le> j \<and> j < k \<longrightarrow> \<not> is_ok (fst (fn (attempt_world sleep d fn w j)))"
    and "attempt \<le> k" "k < attempt + left"
  shows "retry_loop sleep d fn attempt left le (attempt_world sleep d fn w attempt) = (Ok a, w')"
  using assms
proof (induction left arbitrary: attempt le)
  case (Suc left)
  show ?case
  proof (cases "attempt = k")
    case False
    with Suc.prems have "\<not> is_ok (fst (fn (attempt_world sleep d fn w attempt)))" by auto
    then obtain e w1 where "fn (attempt_world sleep d fn w attempt) = (Err e, w1)"
      by (cases "fn (attempt_world sleep d fn w attempt)") (auto simp: is_ok_def split: sum.splits)
    with Suc.IH [of "Suc attempt" "Some e"] Suc.prems False show ?thesis by auto
  qed (use Suc.prems in simp)
qed simp

lemma retry_loop_exhausted:
  assumes "fn (attempt_world sleep d fn w (attempt + left)) = (Err e, w')"
    and "\<forall>j. attempt \<le> j \<and> j \<le> attempt + left \<longrightarrow> \<not> is_ok (fst (fn (attempt_world sleep d fn w j)))"
  shows "retry_loop sleep d fn attempt (Suc left) le (attempt_world sleep d fn w attempt) = (Err (Some e), w')"
  using assms
proof (induction left arbitrary: attempt le)
  case (Suc left)
  then have "\<not> is_ok (fst (fn (attempt_world sleep d fn w attempt)))" by auto
  then obtain e1 w1 where "fn (attempt_world sleep d fn w attempt) = (Err e1, w1)"
    by (cases "fn (attempt_world sleep d fn w attempt)") (auto simp: is_ok_def split: sum.splits)
  with Suc.IH [of "Suc attempt" "Some e1"] Suc.prems show ?case by auto
qed simp

text \<open>\<open>retryRpcCall\<close> returns the first success among its attempts, made at worlds that
  differ by exponentially growing waits; when every attempt fails it returns the last attempt's
  own error, so retrying changes when the call gives up and never whether it does.\<close>

theorem retry_first_success_or_last_error:
  assumes "0 < attempts"
  shows "(\<exists>k<attempts. \<exists>a. fn (attempt_world sleep d fn w k) = (Ok a, snd (retryRpcCall sleep attempts d fn w))
            \<and> (\<forall>j<k. \<not> is_ok (fst (fn (attempt_world sleep d fn w j))))
            \<and> fst (retryRpcCall sleep attempts d fn w) = Ok a)
       \<or> ((\<forall>j<attempts. \<not> is_ok (fst (fn (attempt_world sleep d fn w j))))
          \<and> (\<exists>e. fn (attempt_world sleep d fn w (attempts - 1)) = (Err e, snd (retryRpcCall sleep attempts d fn w))
               \<and> fst (retryRpcCall sleep attempts d fn w) = Err (Some e)))"
proof (cases "\<exists>k<attempts. is_ok (fst (fn (attempt_world sleep d fn w k)))")
  case True
  define k where "k = (LEAST k. is_ok (fst (fn (attempt_world sleep d fn w k))))"
  from True have ok: "is_ok (fst (fn (attempt_world sleep d fn w k)))"
    unfolding k_def by (metis (mono_tags, lifting) LeastI)
  from True have k: "k < attempts" unfolding k_def by (metis (mono_tags, lifting) Least_le order_le_less_trans)
  have before: "\<forall>j<k. \<not> is_ok (fst (fn (attempt_world sleep d fn w j)))"
    unfolding k_def using not_less_Least by blast
  from ok obtain a w' where fn: "fn (attempt_world sleep d fn w k) = (Ok a, w')"
    by (cases "fn (attempt_world sleep d fn w k)") (auto simp: is_ok_def split: sum.splits)
  with retry_loop_success [of fn sleep d w k a w' 0 attempts None] k before
  have "retryRpcCall sleep attempts d fn w = (Ok a, w')" by (auto simp: retryRpcCall_def)
  with fn k before show ?thesis by auto
next
  case False
  from assms obtain n where n: "attempts = Suc n" by (cases attempts) auto
  with False have "\<not> is_ok (fst (fn (attempt_world sleep d fn w n)))" by auto
  then obtain e w' where fn: "fn (attempt_world sleep d fn w n) = (Err e, w')"
    by (cases "fn (attempt_world sleep d fn w n)") (auto simp: is_ok_def split: sum.splits)
  with retry_loop_exhausted [of fn sleep d w 0 n e w' None] False n
  have "retryRpcCall sleep attempts d fn w = (Err (Some e), w')" by (auto simp: retryRpcCall_def)
  with fn n False show ?thesis by auto
qed

theorem retry_first_success_or_last_error_witness:
  "fst (retryRpcCall (\<lambda>d w. w + d) 3 200 (\<lambda>w. if w < 500 then (Err TypeError, w) else (Ok w, w)) (0 :: int))
     = Ok 600"
proof -
  let ?f = "\<lambda>w :: int. if w < 500 then (Err TypeError, w) else (Ok w, w)"
  have "attempt_world (\<lambda>d w. w + d) 200 ?f 0 2 = 600" "attempt_world (\<lambda>d w. w + d) 200 ?f 0 1 = 200"
    by (simp_all add: numeral_2_eq_2)
  then show ?thesis
    using retry_first_success_or_last_error [of 3 ?f "\<lambda>d w. w + d" 200 0]
    by (auto simp: less_Suc_eq numeral_3_eq_3 numeral_2_eq_2 is_ok_def)
qed

subsection \<open>Rate limiting\<close>

record JupiterRateLimiter =
  rl_nextSlotAt :: jsnum
  rl_spacingMs :: jsnum
  rl_maxWaitMs :: jsnum

definition new_limiter :: "jsnum \<Rightarrow> jsnum \<Rightarrow> JupiterRateLimiter" where
  "new_limiter requestsPerSecond maxWaitMs =
     \<lparr>rl_nextSlotAt = Fin 0,
      rl_spacingMs = ndiv (Fin 1000) (nmax requestsPerSecond (to_num (1 / 10))),
      rl_maxWaitMs = maxWaitMs\<rparr>"

text \<open>\<open>take\<close>: the slot granted to the call (it goes out at \<open>slot\<close>, after waiting), or busy.\<close>

definition limiter_take ::
    "jsnum \<Rightarrow> JupiterRateLimiter \<Rightarrow> (js_error, jsnum) result \<times> JupiterRateLimiter" where
  "limiter_take now l =
     (let slot = nmax now (rl_nextSlotAt l); waitMs = nsub slot now in
      if ngt waitMs (rl_maxWaitMs l)
      then (Err (TooManyRequests ''Solana quotes are busy right now''), l)
      else (Ok slot, l\<lparr>rl_nextSlotAt := nadd slot (rl_spacingMs l)\<rparr>))"

definition limiter_note :: "jsnum \<Rightarrow> JupiterRateLimiter \<Rightarrow> JupiterRateLimiter" where
  "limiter_note now l = l\<lparr>rl_nextSlotAt := nadd (nmax now (rl_nextSlotAt l)) (rl_spacingMs l)\<rparr>"

text \<open>The slots granted to a sequence of callers arriving at the given times.\<close>

fun granted_slots :: "jsnum list \<Rightarrow> JupiterRateLimiter \<Rightarrow> jsnum list" where
  "granted_slots [] l = []"
| "granted_slots (now # rest) l =
     (case limiter_take now l of
        (Inr slot, l') \<Rightarrow> slot # granted_slots rest l'
      | (Inl e, l') \<Rightarrow> granted_slots rest l')"

lemma nmax_Fin [simp]: "nmax (Fin x) (Fin y) = Fin (max x y)"
  by (auto simp: nmax_def max_def)

lemma ngt_Fin [simp]: "ngt (Fin x) (Fin y) \<longleftrightarrow> y < x" by (simp add: ngt_def)

text \<open>Whole milliseconds: every sum the limiter makes is exact.\<close>

definition whole :: "int \<Rightarrow> jsnum" where "whole n = Fin (of_int n)"

lemma whole_arith:
  "nmax (whole a) (whole b) = whole (max a b)"
  "\<bar>a + b\<bar> \<le> 2 ^ 53 \<Longrightarrow> nadd (whole a) (whole b) = whole (a + b)"
  "\<bar>a - b\<bar> \<le> 2 ^ 53 \<Longrightarrow> nsub (whole a) (whole b) = whole (a - b)"
  using num_of_int_small [of "a + b"] num_of_int_small [of "a - b"]
  by (auto simp: whole_def nsub_def num_of_int_def simp flip: of_int_max of_int_add of_int_diff)

fun spaced_from :: "int \<Rightarrow> int \<Rightarrow> int list \<Rightarrow> bool" where
  "spaced_from n sp [] = True"
| "spaced_from n sp (s # ss) = (n \<le> s \<and> spaced_from (s + sp) sp ss)"

lemma spaced_nth: "spaced_from n sp ss \<Longrightarrow> i < length ss \<Longrightarrow> n + int i * sp \<le> ss ! i"
proof (induction ss arbitrary: n i)
  case (Cons s ss)
  show ?case
  proof (cases i)
    case (Suc k)
    with Cons.IH [of "s + sp" k] Cons.prems show ?thesis by (simp add: algebra_simps)
  qed (use Cons.prems in simp)
qed simp

lemma spaced_gap:
  "spaced_from n sp ss \<Longrightarrow> i \<le> j \<Longrightarrow> j < length ss \<Longrightarrow> ss ! i + int (j - i) * sp \<le> ss ! j"
proof (induction ss arbitrary: n i j)
  case (Cons s ss)
  show ?case
  proof (cases i)
    case 0
    then show ?thesis
    proof (cases j)
      case (Suc k)
      with spaced_nth [of "s + sp" sp ss k] Cons.prems 0 show ?thesis by (simp add: algebra_simps)
    qed simp
  next
    case (Suc k)
    with Cons.IH [of "s + sp" k "j - 1"] Cons.prems show ?thesis by (cases j) auto
  qed
qed simp

lemma limiter_take_whole:
  assumes "rl_nextSlotAt l = whole n" "rl_spacingMs l = whole sp" "rl_maxWaitMs l = whole mw"
    and "0 \<le> t" "t \<le> 2 ^ 52" "0 \<le> n" "n \<le> 2 ^ 53 - 1" "0 < sp" "sp \<le> 2 ^ 50" "0 \<le> mw" "mw \<le> 2 ^ 50"
  shows "limiter_take (whole t) l =
     (if mw < max t n - t then (Err (TooManyRequests ''Solana quotes are busy right now''), l)
      else (Ok (whole (max t n)), l\<lparr>rl_nextSlotAt := whole (max t n + sp)\<rparr>))"
proof -
  have "nsub (whole (max t n)) (whole t) = whole (max t n - t)"
    using assms by (intro whole_arith) auto
  moreover have "ngt (whole x) (whole y) \<longleftrightarrow> y < x" for x y by (simp add: whole_def)
  moreover have "nadd (whole (max t n)) (whole sp) = whole (max t n + sp)" if "max t n - t \<le> mw"
    using assms that by (intro whole_arith) auto
  ultimately show ?thesis using assms by (auto simp: limiter_take_def Let_def whole_arith)
qed

lemma granted_slots_spaced:
  assumes "rl_nextSlotAt l = whole n" "rl_spacingMs l = whole sp" "rl_maxWaitMs l = whole mw"
    and "\<forall>t\<in>set ts. 0 \<le> t \<and> t \<le> 2 ^ 52" "0 \<le> n" "n \<le> 2 ^ 53 - 1"
    and "0 < sp" "sp \<le> 2 ^ 50" "0 \<le> mw" "mw \<le> 2 ^ 50"
  shows "\<exists>ss. granted_slots (map whole ts) l = map whole ss \<and> spaced_from n sp ss"
  using assms
proof (induction ts arbitrary: l n)
  case Nil
  then show ?case by (auto intro!: exI [of _ "[]"])
next
  case (Cons t ts)
  note take = limiter_take_whole [OF Cons.prems(1-3), of t]
  show ?case
  proof (cases "mw < max t n - t")
    case True
    with Cons.IH [of l n] Cons.prems take show ?thesis by auto
  next
    case False
    with Cons.prems have "max t n + sp \<le> 2 ^ 53 - 1" by auto
    with Cons.IH [of "l\<lparr>rl_nextSlotAt := whole (max t n + sp)\<rparr>" "max t n + sp"] Cons.prems
    obtain ss where "granted_slots (map whole ts) (l\<lparr>rl_nextSlotAt := whole (max t n + sp)\<rparr>) = map whole ss"
      "spaced_from (max t n + sp) sp ss" by auto
    with take False Cons.prems show ?thesis by (auto intro!: exI [of _ "max t n # ss"])
  qed
qed

text \<open>With a whole number of milliseconds between slots, whatever the arrival times, calls
  the limiter lets through are that spacing apart: the j-th admitted call goes out at least
  (j - i) spacings after the i-th, so no burst exceeds the plan's rate.\<close>

theorem limiter_spaces_calls:
  assumes "ndiv (Fin 1000) (nmax rps (to_num (1 / 10))) = whole sp"
    and "\<forall>t\<in>set ts. 0 \<le> t \<and> t \<le> 2 ^ 52" "0 < sp" "sp \<le> 2 ^ 50" "0 \<le> mw" "mw \<le> 2 ^ 50"
  shows "\<exists>ss. granted_slots (map whole ts) (new_limiter rps (whole mw)) = map whole ss
     \<and> (\<forall>i j. i \<le> j \<and> j < length ss \<longrightarrow> ss ! i + int (j - i) * sp \<le> ss ! j)"
proof -
  have "\<exists>ss. granted_slots (map whole ts) (new_limiter rps (whole mw)) = map whole ss \<and> spaced_from 0 sp ss"
    using assms by (intro granted_slots_spaced [where mw = mw]) (auto simp: new_limiter_def whole_def)
  then show ?thesis using spaced_gap by blast
qed

theorem limiter_spaces_calls_witness:
  "\<exists>ss. granted_slots (map whole [5000, 5000, 5100]) (new_limiter (Fin 10) (whole 8000)) = map whole ss
     \<and> (\<forall>i j. i \<le> j \<and> j < length ss \<longrightarrow> ss ! i + int (j - i) * 100 \<le> ss ! j)"
proof -
  have "ndiv (Fin 1000) (nmax (Fin 10) (to_num (1 / 10))) = whole 100"
    unfolding whole_def by code_simp
  then show ?thesis by (rule limiter_spaces_calls) simp_all
qed

end
