(* ===== verification/EvmRelay.thy ===== *)
theory EvmRelay
  imports Resilience Consent "HOL-Library.Sublist"
begin

section \<open>EVM relayer: nonce serialization, simulation, cost ceilings, broadcast\<close>

text \<open>
  \<open>apps/api/src/trading/relayer/\<close>: \<open>evm-relayer-nonce-manager.service.ts\<close>,
  \<open>evm-relayer-wallet.service.ts\<close> and \<open>evm-gas-relayer.service.ts\<close>.  viem's clients are a
  parameter: the record \<open>evm_rpc\<close> of remote calls.  \<open>parse_gwei\<close> is viem's \<open>parseGwei\<close>.
\<close>

subsection \<open>One queue per chain\<close>

text \<open>\<open>tail\<close> holds, per chain, the promise of the last job; \<open>previous.then(fn, fn)\<close> starts the
  next job when that promise settles, whichever way.  The queue is the chain of pending promises:
  its head may start once nothing runs.\<close>

record 'job nonce_manager =
  nm_queue :: "string \<Rightarrow> 'job list"
  nm_running :: "string \<Rightarrow> 'job option"

definition runExclusive :: "string \<Rightarrow> 'job \<Rightarrow> 'job nonce_manager \<Rightarrow> 'job nonce_manager" where
  "runExclusive chain fn m = m\<lparr>nm_queue := (nm_queue m)(chain := nm_queue m chain @ [fn])\<rparr>"

definition start_next :: "string \<Rightarrow> 'job nonce_manager \<Rightarrow> ('job \<times> 'job nonce_manager) option" where
  "start_next chain m =
     (case (nm_running m chain, nm_queue m chain) of
        (None, fn # rest) \<Rightarrow>
          Some (fn, m\<lparr>nm_queue := (nm_queue m)(chain := rest), nm_running := (nm_running m)(chain := Some fn)\<rparr>)
      | _ \<Rightarrow> None)"

definition settle :: "string \<Rightarrow> 'job nonce_manager \<Rightarrow> 'job nonce_manager" where
  "settle chain m = m\<lparr>nm_running := (nm_running m)(chain := None)\<rparr>"

text \<open>The relayer account on its chains: the pending transaction count each node reports, the
  nonce a running broadcast has read, and what has been submitted.\<close>

record 'job relay_world =
  rw_manager :: "'job nonce_manager"
  rw_count :: "string \<Rightarrow> nat"
  rw_nonce :: "string \<Rightarrow> nat option"
  rw_sent :: "string \<Rightarrow> (nat \<times> 'job) list"
  rw_asked :: "string \<Rightarrow> 'job list"
  rw_settled :: "string \<Rightarrow> 'job list"

inductive relay_step :: "'job relay_world \<Rightarrow> 'job relay_world \<Rightarrow> bool" where
  ask: "relay_step s (s\<lparr>rw_manager := runExclusive c j (rw_manager s),
                        rw_asked := (rw_asked s)(c := rw_asked s c @ [j])\<rparr>)"
| begin_job: "start_next c (rw_manager s) = Some (j, m) \<Longrightarrow> relay_step s (s\<lparr>rw_manager := m\<rparr>)"
| read_nonce: "nm_running (rw_manager s) c = Some j \<Longrightarrow> rw_nonce s c = None
    \<Longrightarrow> relay_step s (s\<lparr>rw_nonce := (rw_nonce s)(c := Some (rw_count s c))\<rparr>)"
| submit: "nm_running (rw_manager s) c = Some j \<Longrightarrow> rw_nonce s c = Some n
    \<Longrightarrow> relay_step s (s\<lparr>rw_manager := settle c (rw_manager s), rw_nonce := (rw_nonce s)(c := None),
          rw_count := (rw_count s)(c := Suc (rw_count s c)),
          rw_sent := (rw_sent s)(c := rw_sent s c @ [(n, j)]),
          rw_settled := (rw_settled s)(c := rw_settled s c @ [j])\<rparr>)"
| reject: "nm_running (rw_manager s) c = Some j
    \<Longrightarrow> relay_step s (s\<lparr>rw_manager := settle c (rw_manager s), rw_nonce := (rw_nonce s)(c := None),
          rw_settled := (rw_settled s)(c := rw_settled s c @ [j])\<rparr>)"

inductive_cases relay_stepE: "relay_step s s'"

definition relay_start :: "(string \<Rightarrow> nat) \<Rightarrow> 'job relay_world" where
  "relay_start base =
     \<lparr>rw_manager = \<lparr>nm_queue = (\<lambda>_. []), nm_running = (\<lambda>_. None)\<rparr>, rw_count = base,
      rw_nonce = (\<lambda>_. None), rw_sent = (\<lambda>_. []), rw_asked = (\<lambda>_. []), rw_settled = (\<lambda>_. [])\<rparr>"

definition relay_inv :: "(string \<Rightarrow> nat) \<Rightarrow> 'job relay_world \<Rightarrow> bool" where
  "relay_inv base s \<longleftrightarrow> (\<forall>c.
     base c \<le> rw_count s c \<and> map fst (rw_sent s c) = [base c ..< rw_count s c]
     \<and> subseq (map snd (rw_sent s c)) (rw_settled s c)
     \<and> rw_asked s c = rw_settled s c
         @ (case nm_running (rw_manager s) c of None \<Rightarrow> [] | Some j \<Rightarrow> [j]) @ nm_queue (rw_manager s) c
     \<and> (\<forall>n. rw_nonce s c = Some n \<longrightarrow> n = rw_count s c \<and> nm_running (rw_manager s) c \<noteq> None))"

lemma relay_inv_start [inv_intros]: "relay_inv base (relay_start base)"
  by (simp add: relay_inv_def relay_start_def)

lemma start_next_SomeD:
  "start_next c m = Some (j, m') \<Longrightarrow>
     \<exists>rest. nm_running m c = None \<and> nm_queue m c = j # rest
       \<and> m' = m\<lparr>nm_queue := (nm_queue m)(c := rest), nm_running := (nm_running m)(c := Some j)\<rparr>"
  by (auto simp: start_next_def split: option.splits list.splits)

lemma relay_inv_step [inv_intros]:
  assumes "relay_step s s'" "relay_inv base s"
  shows "relay_inv base s'"
  using assms
proof (induction rule: relay_step.induct)
  case (begin_job c s j m)
  then show ?case by (auto dest!: start_next_SomeD simp: relay_inv_def)
next
  case (submit s c j n)
  then show ?case
    by (auto simp: relay_inv_def settle_def intro: list_emb_append_mono)
next
  case (reject s c j)
  then show ?case by (auto simp: relay_inv_def settle_def intro: list_emb_append2)
qed (auto simp: relay_inv_def runExclusive_def split: option.splits)

text \<open>C9: however the relayer's broadcasts interleave across chains and callers, and whichever
  of them fail, the nonces submitted on a chain are exactly the consecutive numbers from the
  starting count (no gap, no reuse), in the order the jobs were asked for.\<close>

theorem nonces_gap_free:
  assumes "relay_step\<^sup>*\<^sup>* (relay_start base) s"
  shows "map fst (rw_sent s c) = [base c ..< base c + length (rw_sent s c)]
     \<and> subseq (map snd (rw_sent s c)) (rw_asked s c)"
proof -
  from assms have "relay_inv base s"
    by (induction rule: rtranclp_induct) (auto intro: inv_intros)
  then have inv: "base c \<le> rw_count s c" "map fst (rw_sent s c) = [base c ..< rw_count s c]"
    "subseq (map snd (rw_sent s c)) (rw_settled s c)" "prefix (rw_settled s c) (rw_asked s c)"
    by (auto simp: relay_inv_def)
  from inv(2) have "length (rw_sent s c) = rw_count s c - base c"
    by (metis length_map length_upt)
  with inv show ?thesis by (auto intro: list_emb_prefix simp: prefix_def)
qed

definition two_jobs :: "string relay_world" where
  "two_jobs = (relay_start (\<lambda>_. 7))\<lparr>rw_count := (\<lambda>_. 7)(''base'' := 8),
     rw_sent := (\<lambda>_. [])(''base'' := [(7, ''swap'')]),
     rw_asked := (\<lambda>_. [])(''base'' := [''swap'']), rw_settled := (\<lambda>_. [])(''base'' := [''swap''])\<rparr>"

lemma two_jobs_reached: "relay_step\<^sup>*\<^sup>* (relay_start (\<lambda>_. 7)) two_jobs"
proof -
  let ?s0 = "relay_start (\<lambda>_. 7) :: string relay_world"
  let ?s1 = "?s0\<lparr>rw_manager := runExclusive ''base'' ''swap'' (rw_manager ?s0),
      rw_asked := (rw_asked ?s0)(''base'' := rw_asked ?s0 ''base'' @ [''swap''])\<rparr>"
  let ?m = "\<lparr>nm_queue = (\<lambda>_. [])(''base'' := []), nm_running = (\<lambda>_. None)(''base'' := Some ''swap'')\<rparr>"
  let ?s2 = "?s1\<lparr>rw_manager := ?m\<rparr>"
  let ?s3 = "?s2\<lparr>rw_nonce := (rw_nonce ?s2)(''base'' := Some (rw_count ?s2 ''base''))\<rparr>"
  have 1: "relay_step ?s0 ?s1" by (rule relay_step.ask)
  have 2: "relay_step ?s1 ?s2"
    by (rule relay_step.begin_job [of "''base''" _ "''swap''"])
       (simp add: start_next_def runExclusive_def relay_start_def)
  have 3: "relay_step ?s2 ?s3"
    by (rule relay_step.read_nonce [of _ _ "''swap''"]) (simp_all add: relay_start_def)
  have "relay_step ?s3 (?s3\<lparr>rw_manager := settle ''base'' (rw_manager ?s3),
          rw_nonce := (rw_nonce ?s3)(''base'' := None),
          rw_count := (rw_count ?s3)(''base'' := Suc (rw_count ?s3 ''base'')),
          rw_sent := (rw_sent ?s3)(''base'' := rw_sent ?s3 ''base'' @ [(7, ''swap'')]),
          rw_settled := (rw_settled ?s3)(''base'' := rw_settled ?s3 ''base'' @ [''swap''])\<rparr>)"
    by (rule relay_step.submit) (simp_all add: relay_start_def)
  then have 4: "relay_step ?s3 two_jobs"
    by (simp add: two_jobs_def relay_start_def settle_def fun_upd_idem)
  from 1 2 3 4 show ?thesis by (meson converse_rtranclp_into_rtranclp rtranclp.rtrancl_refl)
qed

theorem nonces_gap_free_witness:
  "map fst (rw_sent two_jobs ''base'') = [7 ..< 7 + length (rw_sent two_jobs ''base'')]"
  using nonces_gap_free [OF two_jobs_reached, of "''base''"] by simp

subsection \<open>Simulate, check the ceiling, broadcast\<close>

record RelayedTransactionRequest =
  rt_to :: string
  rt_data :: string
  rt_value :: int

record gas_fees =
  gf_maxFeePerGas :: int
  gf_maxPriorityFeePerGas :: int

text \<open>What \<open>sendTransaction\<close> is handed, and the per-chain clients of the wallet service.\<close>

record sent_transaction =
  st_account :: string
  st_chainId :: int
  st_request :: RelayedTransactionRequest
  st_nonce :: nat
  st_gas :: int
  st_fees :: gas_fees

record EvmRelayerChainClients =
  cc_chainId :: int
  cc_maxGasPriceGwei :: jsnum
  cc_maxWeiCeiling :: jsnum
  cc_account :: string

type_synonym relayer_wallet = "(string \<times> EvmRelayerChainClients) list"

definition forChain :: "relayer_wallet \<Rightarrow> string \<Rightarrow> EvmRelayerChainClients option" where
  "forChain wallet slug = map_of wallet slug"

definition relayerAddress :: "relayer_wallet \<Rightarrow> string option" where
  "relayerAddress wallet = (case wallet of [] \<Rightarrow> None | (s, c) # rest \<Rightarrow> Some (cc_account c))"

record 'w evm_rpc =
  rpc_call :: "string \<Rightarrow> string \<Rightarrow> RelayedTransactionRequest \<Rightarrow> ('w, unit) remote"
  rpc_estimateGas :: "string \<Rightarrow> string \<Rightarrow> RelayedTransactionRequest \<Rightarrow> ('w, int) remote"
  rpc_estimateFees :: "string \<Rightarrow> ('w, gas_fees) remote"
  rpc_transactionCount :: "string \<Rightarrow> string \<Rightarrow> ('w, nat) remote"
  rpc_sendTransaction :: "string \<Rightarrow> sent_transaction \<Rightarrow> ('w, string) remote"

definition then_remote :: "('w, 'a) remote \<Rightarrow> ('a \<Rightarrow> ('w, 'b) remote) \<Rightarrow> ('w, 'b) remote" where
  "then_remote m f w = (case m w of (Inl e, w1) \<Rightarrow> (Inl e, w1) | (Inr a, w1) \<Rightarrow> f a w1)"

definition return_remote :: "(js_error, 'a) result \<Rightarrow> ('w, 'a) remote" where
  "return_remote r w = (r, w)"

lemma then_remote_Ok:
  "then_remote m f w = (Ok b, w') \<longleftrightarrow> (\<exists>a w1. m w = (Ok a, w1) \<and> f a w1 = (Ok b, w'))"
  by (auto simp: then_remote_def split: prod.splits sum.splits)

lemma return_remote_Ok [simp]: "return_remote r w = (Ok b, w') \<longleftrightarrow> r = Ok b \<and> w' = w"
  by (auto simp: return_remote_def)

datatype simulation = SimOk int | SimRejected string
datatype ceiling_check = CeilingOk gas_fees int | CeilingExceeded string

fun error_message :: "js_error \<Rightarrow> string" where
  "error_message (Error m) = m"
| "error_message (BadRequest m) = m"
| "error_message (Unauthorized m) = m"
| "error_message (Forbidden m) = m"
| "error_message (NotFound m) = m"
| "error_message (Conflict m) = m"
| "error_message (TooManyRequests m) = m"
| "error_message (Unprocessable m) = m"
| "error_message (ServiceUnavailable m) = m"
| "error_message (BadGateway m) = m"
| "error_message (UniqueConstraint m) = ''Unique constraint failed''"
| "error_message SyntaxError = ''SyntaxError''"
| "error_message RangeError = ''RangeError''"
| "error_message TypeError = ''TypeError''"

definition requireChain :: "relayer_wallet \<Rightarrow> string \<Rightarrow> (js_error, EvmRelayerChainClients) result" where
  "requireChain wallet chain =
     (case forChain wallet chain of
        None \<Rightarrow> Err (Error (''EVM gas relayer is not configured for chain '' @ chain))
      | Some c \<Rightarrow> Ok c)"

definition isConfigured :: "relayer_wallet \<Rightarrow> string \<Rightarrow> bool" where
  "isConfigured wallet chain = (forChain wallet chain \<noteq> None)"

definition simulate ::
    "'w evm_rpc \<Rightarrow> relayer_wallet \<Rightarrow> string \<Rightarrow> RelayedTransactionRequest \<Rightarrow> ('w, simulation) remote" where
  "simulate rpc wallet chain tx =
     then_remote (return_remote (requireChain wallet chain)) (\<lambda>clients w.
       case then_remote (rpc_call rpc chain (cc_account clients) tx)
              (\<lambda>_. rpc_estimateGas rpc chain (cc_account clients) tx) w of
         (Inr gasUnits, w1) \<Rightarrow> (Ok (SimOk gasUnits), w1)
       | (Inl e, w1) \<Rightarrow> (Ok (SimRejected (error_message e)), w1))"

definition checkGasCeiling ::
    "(jsnum \<Rightarrow> int) \<Rightarrow> 'w evm_rpc \<Rightarrow> relayer_wallet \<Rightarrow> string \<Rightarrow> int \<Rightarrow> ('w, ceiling_check) remote" where
  "checkGasCeiling parse_gwei rpc wallet chain gasUnits =
     then_remote (return_remote (requireChain wallet chain)) (\<lambda>clients.
     then_remote (rpc_estimateFees rpc chain) (\<lambda>fees.
       let priceCeilingWei = parse_gwei (cc_maxGasPriceGwei clients) in
       if priceCeilingWei < gf_maxFeePerGas fees
       then return_remote (Ok (CeilingExceeded ''estimated maxFeePerGas exceeds the configured ceiling''))
       else
         let totalCostWei = gasUnits * gf_maxFeePerGas fees in
         then_remote (return_remote (BigInt_num (cc_maxWeiCeiling clients))) (\<lambda>totalCostCeilingWei.
           if totalCostCeilingWei < totalCostWei
           then return_remote (Ok (CeilingExceeded ''estimated total cost exceeds the configured ceiling''))
           else return_remote (Ok (CeilingOk fees totalCostWei)))))"

record EvmRelayerBroadcastResult =
  br_txHash :: string
  br_nonce :: nat

definition broadcast ::
    "'w evm_rpc \<Rightarrow> relayer_wallet \<Rightarrow> string \<Rightarrow> RelayedTransactionRequest \<Rightarrow> gas_fees \<Rightarrow> int
     \<Rightarrow> ('w, EvmRelayerBroadcastResult) remote" where
  "broadcast rpc wallet chain tx fees gasUnits =
     then_remote (return_remote (requireChain wallet chain)) (\<lambda>clients.
     then_remote (rpc_transactionCount rpc chain (cc_account clients)) (\<lambda>nonce.
     then_remote (rpc_sendTransaction rpc chain
         \<lparr>st_account = cc_account clients, st_chainId = cc_chainId clients, st_request = tx,
          st_nonce = nonce, st_gas = gasUnits, st_fees = fees\<rparr>) (\<lambda>txHash.
       return_remote (Ok \<lparr>br_txHash = txHash, br_nonce = nonce\<rparr>))))"

lemma simulate_OkD:
  "simulate rpc wallet chain tx w = (Ok (SimOk g), w') \<Longrightarrow>
     \<exists>clients w1. forChain wallet chain = Some clients
       \<and> rpc_call rpc chain (cc_account clients) tx w = (Ok (), w1)
       \<and> rpc_estimateGas rpc chain (cc_account clients) tx w1 = (Ok g, w')"
  by (auto simp: simulate_def then_remote_Ok requireChain_def split: option.splits prod.splits sum.splits)

lemma checkGasCeiling_OkD:
  "checkGasCeiling pg rpc wallet chain gasUnits w = (Ok (CeilingOk fees cost), w') \<Longrightarrow>
     \<exists>clients limit. forChain wallet chain = Some clients \<and> gf_maxFeePerGas fees \<le> pg (cc_maxGasPriceGwei clients)
       \<and> BigInt_num (cc_maxWeiCeiling clients) = Ok limit \<and> cost = gasUnits * gf_maxFeePerGas fees \<and> cost \<le> limit"
  by (auto simp: checkGasCeiling_def then_remote_Ok requireChain_def Let_def
           split: option.splits if_splits)

lemma broadcast_OkD:
  "broadcast rpc wallet chain tx fees gasUnits w = (Ok b, w') \<Longrightarrow>
     \<exists>clients w1. forChain wallet chain = Some clients
       \<and> rpc_transactionCount rpc chain (cc_account clients) w = (Ok (br_nonce b), w1)
       \<and> rpc_sendTransaction rpc chain
           \<lparr>st_account = cc_account clients, st_chainId = cc_chainId clients, st_request = tx,
            st_nonce = br_nonce b, st_gas = gasUnits, st_fees = fees\<rparr> w1 = (Ok (br_txHash b), w')"
  by (auto simp: broadcast_def then_remote_Ok requireChain_def split: option.splits)

end
