(* ===== verification/Paging.thy ===== *)
theory Paging
  imports Prelude "HOL-Library.Product_Lexorder" "HOL-Library.List_Lexorder" "HOL-Library.Char_ord"
begin

section \<open>Keyset pagination\<close>

text \<open>
  Several services page through a table newest first with a cursor that names the last row shown
  (\<open>createdAt\<close> and \<open>id\<close>) and a query for the rows strictly below it, taking one row more than
  the page to learn whether another page exists.  \<open>keyset_feed\<close> is their common contract:
  walking the pages shows every row exactly once, in order.
\<close>

definition desc_by :: "('r \<Rightarrow> 'k::linorder) \<Rightarrow> 'r list \<Rightarrow> 'r list" where
  "desc_by key = sort_by (\<lambda>a b. key b < key a)"

definition below_cursor :: "('r \<Rightarrow> 'k::linorder) \<Rightarrow> 'k option \<Rightarrow> 'r \<Rightarrow> bool" where
  "below_cursor key c r = (case c of None \<Rightarrow> True | Some k \<Rightarrow> key r < k)"

text \<open>\<open>findMany({ where, orderBy: key desc, take: limit + 1 })\<close>, cut to the page.\<close>

definition keyset_page ::
    "('r \<Rightarrow> 'k::linorder) \<Rightarrow> 'r list \<Rightarrow> 'k option \<Rightarrow> nat \<Rightarrow> 'r list \<times> 'k option" where
  "keyset_page key rows c limit =
     (let found = take (limit + 1) (desc_by key (filter (below_cursor key c) rows));
          hasMore = limit < length found;
          page = (if hasMore then take limit found else found)
      in (page, if hasMore \<and> page \<noteq> [] then Some (key (last page)) else None))"

fun walk_pages :: "('k option \<Rightarrow> nat \<Rightarrow> 'r list \<times> 'k option) \<Rightarrow> 'k option \<Rightarrow> nat \<Rightarrow> nat \<Rightarrow> 'r list" where
  "walk_pages page c limit 0 = []"
| "walk_pages page c limit (Suc fuel) =
     (case page c limit of
        (items, None) \<Rightarrow> items
      | (items, Some c') \<Rightarrow> items @ walk_pages page (Some c') limit fuel)"

lemma set_desc_by [simp]: "set (desc_by key xs) = set xs"
  by (simp add: desc_by_def)

lemma length_desc_by [simp]: "length (desc_by key xs) = length xs"
  by (simp add: desc_by_def)

lemma mset_desc_by [simp]: "mset (desc_by key xs) = mset xs"
  by (simp add: desc_by_def)

lemma desc_by_sorted:
  fixes key :: "'r \<Rightarrow> 'k::linorder"
  assumes "distinct (map key xs)"
  shows "sorted_wrt (\<lambda>a b. key b < key a) (desc_by key xs)"
proof -
  have "sorted_wrt (\<lambda>a b. \<not> key a < key b) (desc_by key xs)"
    unfolding desc_by_def by (rule sorted_wrt_sort_by) auto
  moreover have "distinct (map key (desc_by key xs))"
    using assms by (metis mset_desc_by mset_map mset_eq_imp_distinct_iff)
  moreover have "sorted_wrt (\<lambda>a b. key b < key a) zs"
    if "sorted_wrt (\<lambda>a b. \<not> key a < key b) zs" "distinct (map key zs)" for zs
    using that by (induction zs) (auto simp: not_less order_less_le image_iff)
  ultimately show ?thesis by blast
qed

lemma sorted_desc_unique:
  fixes key :: "'r \<Rightarrow> 'k::linorder"
  assumes "sorted_wrt (\<lambda>a b. key b < key a) xs" "sorted_wrt (\<lambda>a b. key b < key a) ys" "set xs = set ys"
  shows "xs = ys"
  using assms
proof (induction xs arbitrary: ys)
  case (Cons x xs)
  then obtain y ys' where ys: "ys = y # ys'" by (cases ys) auto
  have "x = y"
  proof (rule ccontr)
    assume "x \<noteq> y"
    with Cons.prems ys have "x \<in> set ys'" "y \<in> set xs" by auto
    with Cons.prems ys have "key x < key y" "key y < key x" by auto
    then show False by simp
  qed
  moreover from Cons.prems ys \<open>x = y\<close> have "set xs = set ys'" by auto
  ultimately show ?case using Cons ys by auto
qed simp

lemma desc_by_filter:
  assumes "distinct (map key xs)"
  shows "desc_by key (filter P xs) = filter P (desc_by key xs)"
  using assms
  by (intro sorted_desc_unique [where key = key] desc_by_sorted sorted_wrt_filter distinct_map_filter) auto

lemma filter_below_nth:
  fixes key :: "'r \<Rightarrow> 'k::linorder"
  assumes "sorted_wrt (\<lambda>a b. key b < key a) xs" "k < length xs"
  shows "filter (\<lambda>r. key r < key (xs ! k)) xs = drop (Suc k) xs"
  using assms
proof (induction xs arbitrary: k)
  case (Cons x xs)
  show ?case
  proof (cases k)
    case 0
    with Cons.prems show ?thesis by (auto simp: filter_id_conv)
  next
    case (Suc j)
    with Cons.prems have "\<not> key x < key (xs ! j)" by (auto simp: not_less dest: less_imp_le)
    with Suc Cons show ?thesis by auto
  qed
qed simp

locale keyset_feed =
  fixes key :: "'r \<Rightarrow> 'k::linorder"
    and rows :: "'r list"
    and page :: "'k option \<Rightarrow> nat \<Rightarrow> 'r list \<times> 'k option"
  assumes page_is: "page c limit = keyset_page key rows c limit"
begin

lemma walk_suffix:
  assumes "distinct (map key rows)" "0 < limit"
    and "filter (below_cursor key c) (desc_by key rows) = drop k (desc_by key rows)"
    and "length rows - k < fuel"
  shows "walk_pages page c limit fuel = drop k (desc_by key rows)"
  using assms(3,4)
proof (induction fuel arbitrary: c k)
  case (Suc fuel)
  let ?S = "desc_by key rows"
  have found: "desc_by key (filter (below_cursor key c) rows) = drop k ?S"
    using Suc.prems(1) by (simp add: desc_by_filter [OF assms(1)])
  show ?case
  proof (cases "limit < length rows - k")
    case False
    then have "page c limit = (drop k ?S, None)"
      by (simp add: page_is keyset_page_def found Let_def)
    then show ?thesis by simp
  next
    case True
    have last: "last (take limit (drop k ?S)) = ?S ! (k + limit - 1)"
      using True assms(2) by (simp add: last_conv_nth)
    have min: "min (length rows - k) (Suc limit) = Suc limit" using True by simp
    have "page c limit = (take limit (drop k ?S), Some (key (?S ! (k + limit - 1))))"
      using True assms(2) last by (simp add: page_is keyset_page_def found Let_def min)
    moreover have "filter (below_cursor key (Some (key (?S ! (k + limit - 1))))) ?S = drop (k + limit) ?S"
      using filter_below_nth [OF desc_by_sorted [OF assms(1)], of "k + limit - 1"] True assms(2)
      by (simp add: below_cursor_def [abs_def])
    moreover have "length rows - (k + limit) < fuel" using Suc.prems(2) True assms(2) by linarith
    ultimately have "walk_pages page c limit (Suc fuel) = take limit (drop k ?S) @ drop (k + limit) ?S"
      using Suc.IH [of "Some (key (?S ! (k + limit - 1)))" "k + limit"] by simp
    also have "\<dots> = drop k ?S" by (metis add.commute append_take_drop_id drop_drop)
    finally show ?thesis .
  qed
qed simp

lemma walk_all:
  assumes "distinct (map key rows)" "0 < limit" "length rows < fuel"
  shows "walk_pages page None limit fuel = desc_by key rows"
  using walk_suffix [of limit None 0 fuel] assms by (simp add: below_cursor_def)

end

end
