(* ===== verification/TradeTx.thy ===== *)
theory TradeTx
  imports EvmRelay Paging
begin

section \<open>EVM trade transactions: recording, refreshing, sweeping\<close>

text \<open>
  \<open>apps/api/src/trading/transaction.service.ts\<close>, \<open>apps/workers/src/trading/sweep.ts\<close> and the
  three reads of \<open>packages/chain-adapters/src/evm-adapter.ts\<close>.  The answers viem gives during one
  refresh are a parameter (\<open>viem_answers\<close>): the refresh makes each read once, so the answers need
  not come from one chain state.
\<close>

subsection \<open>Rows\<close>

datatype EvmRelayerQuoteStatus = PENDING_CONSENT | CONSENT_RECEIVED | BROADCAST | RELAY_FAILED

record trade_quote =
  tq_id :: string
  tq_userId :: string
  tq_walletAddress :: string
  tq_chainId :: int
  tq_side :: string
  tq_tokenMarketId :: string
  tq_inputToken :: string
  tq_outputToken :: string
  tq_inputAmount :: string
  tq_expectedOutputAmount :: string
  tq_platformFeeAmount :: string
  tq_unsignedTx :: json
  tq_feeUnsignedTx :: json
  tq_sponsorshipRequested :: bool
  tq_relayerConsentSignature :: "string option"
  tq_relayerStatus :: "EvmRelayerQuoteStatus option"
  tq_relayerNonce :: "nat option"
  tq_relayerFailureReason :: "string option"
  tq_expiresAt :: int

record trade_tx =
  tt_id :: string
  tt_userId :: string
  tt_walletAddress :: string
  tt_quoteId :: string
  tt_chainId :: int
  tt_txHash :: string
  tt_tokenMarketId :: string
  tt_side :: string
  tt_inputToken :: string
  tt_outputToken :: string
  tt_inputAmount :: string
  tt_expectedOutputAmount :: string
  tt_platformFeeAmount :: string
  tt_status :: trade_status
  tt_failureReason :: "string option"
  tt_sponsoredByRelayer :: bool
  tt_relayerFeePayer :: "string option"
  tt_feeTxHash :: "string option"
  tt_feeStatus :: "trade_status option"
  tt_feeFailureReason :: "string option"
  tt_feeSubmittedAt :: "int option"
  tt_feeConfirmedAt :: "int option"
  tt_submittedAt :: int
  tt_confirmedAt :: "int option"
  tt_createdAt :: int

record wallet_row =
  wl_address :: string
  wl_userId :: string
  wl_verifiedAt :: "int option"

record trade_db =
  td_quotes :: "trade_quote list"
  td_txs :: "trade_tx list"
  td_wallets :: "wallet_row list"
  td_next :: nat

type_synonym TransactionRow = "trade_tx \<times> trade_quote"

definition find_tx :: "trade_db \<Rightarrow> (trade_tx \<Rightarrow> bool) \<Rightarrow> trade_tx option" where
  "find_tx db p = find p (td_txs db)"

definition find_quote :: "trade_db \<Rightarrow> string \<Rightarrow> trade_quote option" where
  "find_quote db i = find (\<lambda>q. tq_id q = i) (td_quotes db)"

text \<open>\<open>include: { quote: true }\<close>; the foreign key makes the quote exist.\<close>

definition with_quote :: "trade_db \<Rightarrow> trade_tx \<Rightarrow> TransactionRow option" where
  "with_quote db t = map_option (Pair t) (find_quote db (tt_quoteId t))"

definition update_tx :: "string \<Rightarrow> (trade_tx \<Rightarrow> trade_tx) \<Rightarrow> trade_db \<Rightarrow> trade_db" where
  "update_tx i f db = db\<lparr>td_txs := update_where (\<lambda>t. tt_id t = i) f (td_txs db)\<rparr>"

definition update_quote :: "string \<Rightarrow> (trade_quote \<Rightarrow> trade_quote) \<Rightarrow> trade_db \<Rightarrow> trade_db" where
  "update_quote i f db = db\<lparr>td_quotes := update_where (\<lambda>q. tq_id q = i) f (td_quotes db)\<rparr>"

text \<open>\<open>tradeTransaction.create\<close>: unique on the quote and on (chain, hash).\<close>

definition create_tx :: "int \<Rightarrow> trade_tx \<Rightarrow> trade_db \<Rightarrow> (js_error, trade_tx) result \<times> trade_db" where
  "create_tx now t db =
     (if \<exists>r\<in>set (td_txs db). tt_quoteId r = tt_quoteId t
           \<or> (tt_chainId r = tt_chainId t \<and> tt_txHash r = tt_txHash t)
      then (Err (UniqueConstraint ''trade_transactions''), db)
      else let t = t\<lparr>tt_id := string_of_int (int (td_next db)), tt_submittedAt := now, tt_createdAt := now\<rparr>
           in (Ok t, db\<lparr>td_txs := td_txs db @ [t], td_next := Suc (td_next db)\<rparr>))"

text \<open>The row written for a quote: every trade term is copied from the quote.\<close>

definition tx_of_quote ::
    "trade_quote \<Rightarrow> string \<Rightarrow> string \<Rightarrow> string \<Rightarrow> string option \<Rightarrow> trade_tx" where
  "tx_of_quote q userId walletAddress txHash relayer =
     \<lparr>tt_id = [], tt_userId = userId, tt_walletAddress = walletAddress, tt_quoteId = tq_id q,
      tt_chainId = tq_chainId q, tt_txHash = txHash, tt_tokenMarketId = tq_tokenMarketId q,
      tt_side = tq_side q, tt_inputToken = tq_inputToken q, tt_outputToken = tq_outputToken q,
      tt_inputAmount = tq_inputAmount q, tt_expectedOutputAmount = tq_expectedOutputAmount q,
      tt_platformFeeAmount = tq_platformFeeAmount q, tt_status = PENDING, tt_failureReason = None,
      tt_sponsoredByRelayer = (relayer \<noteq> None), tt_relayerFeePayer = relayer,
      tt_feeTxHash = None, tt_feeStatus = None, tt_feeFailureReason = None,
      tt_feeSubmittedAt = None, tt_feeConfirmedAt = None,
      tt_submittedAt = 0, tt_confirmedAt = None, tt_createdAt = 0\<rparr>"

subsection \<open>Reading the chain\<close>

datatype receipt_status = receipt_success | receipt_reverted

text \<open>\<open>None\<close>: the request was rejected or the hash is unknown.  The second receipt read belongs
  to the confirmation count.\<close>

record viem_answers =
  va_receipt :: "string \<Rightarrow> receipt_status option"
  va_transaction :: "string \<Rightarrow> onchain_tx option"
  va_receiptBlock :: "string \<Rightarrow> int option"
  va_blockNumber :: "int option"

definition getTransactionReceiptStatus :: "viem_answers \<Rightarrow> string \<Rightarrow> receipt_status option" where
  "getTransactionReceiptStatus v h = va_receipt v h"

definition getConfirmationCount :: "viem_answers \<Rightarrow> string \<Rightarrow> int option" where
  "getConfirmationCount v h =
     (case (va_receiptBlock v h, va_blockNumber v) of
        (Some block, Some current) \<Rightarrow>
          let depth = current - block in Some (if 0 \<le> depth then depth else 0)
      | _ \<Rightarrow> None)"

definition getTransactionDetails :: "viem_answers \<Rightarrow> string \<Rightarrow> onchain_tx option" where
  "getTransactionDetails v h = va_transaction v h"

definition age_minutes :: "int \<Rightarrow> int \<Rightarrow> jsnum" where
  "age_minutes now since = ndiv (num_of_int (now - since)) (Fin 60000)"

definition timed_out :: "int \<Rightarrow> int \<Rightarrow> bool" where
  "timed_out now since =
     ngt (age_minutes now since) (num_of_int (pendingTransactionTimeoutMinutes TRADING_DEFAULTS))"

subsection \<open>What each refresh writes\<close>

definition mark_swap_failed :: "string \<Rightarrow> trade_tx \<Rightarrow> trade_tx" where
  "mark_swap_failed reason t = t\<lparr>tt_status := FAILED, tt_failureReason := Some reason\<rparr>"

definition mark_swap_expired :: "trade_tx \<Rightarrow> trade_tx" where
  "mark_swap_expired t =
     t\<lparr>tt_status := EXPIRED, tt_failureReason := Some ''No confirmation received within the expected time''\<rparr>"

definition mark_swap_confirmed :: "int \<Rightarrow> trade_tx \<Rightarrow> trade_tx" where
  "mark_swap_confirmed now t = t\<lparr>tt_status := CONFIRMED, tt_confirmedAt := Some now\<rparr>"

definition mark_fee_failed :: "string \<Rightarrow> trade_tx \<Rightarrow> trade_tx" where
  "mark_fee_failed reason t = t\<lparr>tt_feeStatus := Some FAILED, tt_feeFailureReason := Some reason\<rparr>"

definition mark_fee_expired :: "trade_tx \<Rightarrow> trade_tx" where
  "mark_fee_expired t = t\<lparr>tt_feeStatus := Some EXPIRED,
     tt_feeFailureReason := Some ''No confirmation received within the expected time''\<rparr>"

definition mark_fee_confirmed :: "int \<Rightarrow> trade_tx \<Rightarrow> trade_tx" where
  "mark_fee_confirmed now t = t\<lparr>tt_feeStatus := Some CONFIRMED, tt_feeConfirmedAt := Some now\<rparr>"

text \<open>\<open>refreshStatus\<close>: the change it writes to the row, \<open>None\<close> when it leaves it alone.\<close>

definition refresh_swap ::
    "viem_answers \<Rightarrow> int \<Rightarrow> TransactionRow \<Rightarrow> (js_error, (trade_tx \<Rightarrow> trade_tx) option) result" where
  "refresh_swap v now row =
     (let (t, q) = row; receiptStatus = getTransactionReceiptStatus v (tt_txHash t) in
      if receiptStatus = Some receipt_success then
        let expectedUnsignedTx = parseUnsignedTx (tq_unsignedTx q);
            onChain = (if expectedUnsignedTx \<noteq> None then getTransactionDetails v (tt_txHash t) else None)
        in bind_result
             (case (expectedUnsignedTx, onChain) of
                (Some u, Some oc) \<Rightarrow>
                  transactionMatchesQuote oc \<lparr>ex_walletAddress = tt_walletAddress t, ex_unsignedTx = u\<rparr>
              | _ \<Rightarrow> Ok False)
             (\<lambda>matches.
               if \<not> matches then
                 Ok (Some (mark_swap_failed ''On-chain transaction does not match the reviewed trade''))
               else case getConfirmationCount v (tt_txHash t) of
                   None \<Rightarrow> Ok None
                 | Some confirmations \<Rightarrow>
                     if confirmations < minConfirmations TRADING_DEFAULTS then Ok None
                     else Ok (Some (mark_swap_confirmed now)))
      else if receiptStatus = Some receipt_reverted then
        Ok (Some (mark_swap_failed ''Transaction reverted on-chain''))
      else if timed_out now (tt_submittedAt t) then Ok (Some mark_swap_expired)
      else Ok None)"

definition refresh_fee ::
    "viem_answers \<Rightarrow> int \<Rightarrow> TransactionRow \<Rightarrow> (js_error, (trade_tx \<Rightarrow> trade_tx) option) result" where
  "refresh_fee v now row =
     (let (t, q) = row in
      case (tt_feeTxHash t, tt_feeSubmittedAt t) of
        (Some feeTxHash, Some feeSubmittedAt) \<Rightarrow>
          if feeTxHash = [] then Ok None
          else (case parseUnsignedTx (tq_feeUnsignedTx q) of
            None \<Rightarrow> Ok None
          | Some u \<Rightarrow>
              let receiptStatus = getTransactionReceiptStatus v feeTxHash in
              if receiptStatus = Some receipt_success then
                bind_result
                  (case getTransactionDetails v feeTxHash of
                     Some oc \<Rightarrow> transactionMatchesQuote oc
                       \<lparr>ex_walletAddress = tt_walletAddress t, ex_unsignedTx = u\<rparr>
                   | None \<Rightarrow> Ok False)
                  (\<lambda>matches.
                    if \<not> matches then
                      Ok (Some (mark_fee_failed ''On-chain transaction does not match the expected fee transfer''))
                    else case getConfirmationCount v feeTxHash of
                        None \<Rightarrow> Ok None
                      | Some confirmations \<Rightarrow>
                          if confirmations < minConfirmations TRADING_DEFAULTS then Ok None
                          else Ok (Some (mark_fee_confirmed now)))
              else if receiptStatus = Some receipt_reverted then
                Ok (Some (mark_fee_failed ''Fee transfer reverted on-chain''))
              else if timed_out now feeSubmittedAt then Ok (Some mark_fee_expired)
              else Ok None)
      | _ \<Rightarrow> Ok None)"

text \<open>The write, and the row it returns.\<close>

definition apply_change :: "TransactionRow \<Rightarrow> (trade_tx \<Rightarrow> trade_tx) option \<Rightarrow> trade_db \<Rightarrow> TransactionRow \<times> trade_db" where
  "apply_change row change db =
     (case change of
        None \<Rightarrow> (row, db)
      | Some f \<Rightarrow>
          let db1 = update_tx (tt_id (fst row)) f db in
          (case find_tx db1 (\<lambda>t. tt_id t = tt_id (fst row)) of
             Some t \<Rightarrow> ((t, snd row), db1)
           | None \<Rightarrow> (row, db1)))"

definition refreshStatus ::
    "viem_answers \<Rightarrow> int \<Rightarrow> TransactionRow \<Rightarrow> trade_db \<Rightarrow> (js_error, TransactionRow) result \<times> trade_db" where
  "refreshStatus v now row db =
     (case refresh_swap v now row of
        Inl e \<Rightarrow> (Inl e, db)
      | Inr change \<Rightarrow> let (row', db') = apply_change row change db in (Inr row', db'))"

definition refreshFeeStatus ::
    "viem_answers \<Rightarrow> int \<Rightarrow> TransactionRow \<Rightarrow> trade_db \<Rightarrow> (js_error, TransactionRow) result \<times> trade_db" where
  "refreshFeeStatus v now row db =
     (case refresh_fee v now row of
        Inl e \<Rightarrow> (Inl e, db)
      | Inr change \<Rightarrow> let (row', db') = apply_change row change db in (Inr row', db'))"

subsection \<open>The background sweep\<close>

definition SWEEP_BATCH_SIZE :: nat where "SWEEP_BATCH_SIZE = 50"

record TradeSweepResult =
  sw_checked :: nat
  sw_confirmed :: nat
  sw_failed :: nat
  sw_expired :: nat

datatype sweep_effect = sweep_left | sweep_confirmed | sweep_failed | sweep_expired

fun count_effect :: "sweep_effect \<Rightarrow> TradeSweepResult \<Rightarrow> TradeSweepResult" where
  "count_effect sweep_left r = r"
| "count_effect sweep_confirmed r = r\<lparr>sw_confirmed := Suc (sw_confirmed r)\<rparr>"
| "count_effect sweep_failed r = r\<lparr>sw_failed := Suc (sw_failed r)\<rparr>"
| "count_effect sweep_expired r = r\<lparr>sw_expired := Suc (sw_expired r)\<rparr>"

text \<open>One iteration of the sweep: what it writes and which counter it bumps.\<close>

definition sweep_swap_row ::
    "viem_answers \<Rightarrow> int \<Rightarrow> TransactionRow \<Rightarrow> (js_error, (trade_tx \<Rightarrow> trade_tx) option \<times> sweep_effect) result" where
  "sweep_swap_row v now row =
     (let (t, q) = row in
      case getTransactionReceiptStatus v (tt_txHash t) of
        Some receipt_success \<Rightarrow>
          (let expectedUnsignedTx = parseUnsignedTx (tq_unsignedTx q);
               onChain = (if expectedUnsignedTx \<noteq> None then getTransactionDetails v (tt_txHash t) else None)
           in bind_result
                (if expectedUnsignedTx \<noteq> None \<and> onChain \<noteq> None
                 then transactionMatchesQuote (the onChain)
                        \<lparr>ex_walletAddress = tt_walletAddress t, ex_unsignedTx = the expectedUnsignedTx\<rparr>
                 else Ok False)
                (\<lambda>matches.
                  if \<not> matches then
                    Ok (Some (mark_swap_failed ''On-chain transaction does not match the reviewed trade''),
                        sweep_failed)
                  else
                    let confirmations = getConfirmationCount v (tt_txHash t) in
                    if confirmations = None \<or> the confirmations < minConfirmations TRADING_DEFAULTS
                    then Ok (None, sweep_left)
                    else Ok (Some (mark_swap_confirmed now), sweep_confirmed)))
      | Some receipt_reverted \<Rightarrow> Ok (Some (mark_swap_failed ''Transaction reverted on-chain''), sweep_failed)
      | None \<Rightarrow>
          if timed_out now (tt_submittedAt t) then Ok (Some mark_swap_expired, sweep_expired)
          else Ok (None, sweep_left))"

definition sweep_fee_row ::
    "viem_answers \<Rightarrow> int \<Rightarrow> string \<Rightarrow> int \<Rightarrow> TransactionRow
     \<Rightarrow> (js_error, (trade_tx \<Rightarrow> trade_tx) option \<times> sweep_effect) result" where
  "sweep_fee_row v now feeTxHash feeSubmittedAt row =
     (let (t, q) = row in
      case parseUnsignedTx (tq_feeUnsignedTx q) of
        None \<Rightarrow> Ok (None, sweep_left)
      | Some expectedFeeUnsignedTx \<Rightarrow>
          (case getTransactionReceiptStatus v feeTxHash of
             Some receipt_success \<Rightarrow>
               (let onChain = getTransactionDetails v feeTxHash
                in bind_result
                     (if onChain \<noteq> None
                      then transactionMatchesQuote (the onChain)
                             \<lparr>ex_walletAddress = tt_walletAddress t, ex_unsignedTx = expectedFeeUnsignedTx\<rparr>
                      else Ok False)
                     (\<lambda>matches.
                       if \<not> matches then
                         Ok (Some (mark_fee_failed ''On-chain transaction does not match the expected fee transfer''),
                             sweep_failed)
                       else
                         let confirmations = getConfirmationCount v feeTxHash in
                         if confirmations = None \<or> the confirmations < minConfirmations TRADING_DEFAULTS
                         then Ok (None, sweep_left)
                         else Ok (Some (mark_fee_confirmed now), sweep_confirmed)))
           | Some receipt_reverted \<Rightarrow> Ok (Some (mark_fee_failed ''Fee transfer reverted on-chain''), sweep_failed)
           | None \<Rightarrow>
               if timed_out now feeSubmittedAt then Ok (Some mark_fee_expired, sweep_expired)
               else Ok (None, sweep_left)))"

definition write_change :: "trade_tx \<Rightarrow> (trade_tx \<Rightarrow> trade_tx) option \<Rightarrow> trade_db \<Rightarrow> trade_db" where
  "write_change t change db = (case change of None \<Rightarrow> db | Some f \<Rightarrow> update_tx (tt_id t) f db)"

definition sweep_swap_step ::
    "(string \<Rightarrow> viem_answers) \<Rightarrow> int \<Rightarrow> TransactionRow \<Rightarrow> trade_db \<times> TradeSweepResult \<Rightarrow> trade_db \<times> TradeSweepResult" where
  "sweep_swap_step answers now row s =
     (let (db, r) = s; r = r\<lparr>sw_checked := Suc (sw_checked r)\<rparr> in
      case sweep_swap_row (answers (tt_id (fst row))) now row of
        Inl e \<Rightarrow> (db, r)
      | Inr (change, eff) \<Rightarrow> (write_change (fst row) change db, count_effect eff r))"

definition sweep_fee_step ::
    "(string \<Rightarrow> viem_answers) \<Rightarrow> int \<Rightarrow> TransactionRow \<Rightarrow> trade_db \<times> TradeSweepResult \<Rightarrow> trade_db \<times> TradeSweepResult" where
  "sweep_fee_step answers now row s =
     (case (tt_feeTxHash (fst row), tt_feeSubmittedAt (fst row)) of
        (Some h, Some since) \<Rightarrow>
          if h = [] then s
          else (let (db, r) = s; r = r\<lparr>sw_checked := Suc (sw_checked r)\<rparr> in
            case sweep_fee_row (answers (tt_id (fst row))) now h since row of
              Inl e \<Rightarrow> (db, r)
            | Inr (change, eff) \<Rightarrow> (write_change (fst row) change db, count_effect eff r))
      | _ \<Rightarrow> s)"

definition no_sweep :: TradeSweepResult where
  "no_sweep = \<lparr>sw_checked = 0, sw_confirmed = 0, sw_failed = 0, sw_expired = 0\<rparr>"

definition opt_less :: "int option \<Rightarrow> int option \<Rightarrow> bool" where
  "opt_less a b = (case (a, b) of (Some x, Some y) \<Rightarrow> x < y | (Some x, None) \<Rightarrow> True | _ \<Rightarrow> False)"

definition pending_swaps :: "int \<Rightarrow> trade_db \<Rightarrow> TransactionRow list" where
  "pending_swaps chainId db = List.map_filter (with_quote db) (take SWEEP_BATCH_SIZE
     (sort_by (\<lambda>a b. tt_submittedAt a < tt_submittedAt b)
        (filter (\<lambda>t. tt_status t = PENDING \<and> tt_chainId t = chainId) (td_txs db))))"

definition pending_fees :: "int \<Rightarrow> trade_db \<Rightarrow> TransactionRow list" where
  "pending_fees chainId db = List.map_filter (with_quote db) (take SWEEP_BATCH_SIZE
     (sort_by (\<lambda>a b. opt_less (tt_feeSubmittedAt a) (tt_feeSubmittedAt b))
        (filter (\<lambda>t. tt_feeStatus t = Some PENDING \<and> tt_chainId t = chainId) (td_txs db))))"

definition sweepPendingTransactions ::
    "(string \<Rightarrow> viem_answers) \<Rightarrow> int \<Rightarrow> int \<Rightarrow> trade_db \<Rightarrow> trade_db \<times> TradeSweepResult" where
  "sweepPendingTransactions answers now chainId db =
     fold (sweep_swap_step answers now) (pending_swaps chainId db) (db, no_sweep)"

definition sweepPendingFeeTransactions ::
    "(string \<Rightarrow> viem_answers) \<Rightarrow> int \<Rightarrow> int \<Rightarrow> trade_db \<Rightarrow> trade_db \<times> TradeSweepResult" where
  "sweepPendingFeeTransactions answers now chainId db =
     fold (sweep_fee_step answers now) (pending_fees chainId db) (db, no_sweep)"

subsection \<open>One gate for both legs and both processes\<close>

text \<open>The evidence behind a confirmation: a successful receipt for the hash, an on-chain
  transaction that matches the quoted one, and enough blocks on top.\<close>

definition verified :: "viem_answers \<Rightarrow> string option \<Rightarrow> string \<Rightarrow> json \<Rightarrow> bool" where
  "verified v h wallet unsignedTx =
     (case h of None \<Rightarrow> False
      | Some hash \<Rightarrow>
          getTransactionReceiptStatus v hash = Some receipt_success
          \<and> (case (parseUnsignedTx unsignedTx, getTransactionDetails v hash) of
               (Some u, Some oc) \<Rightarrow>
                 transactionMatchesQuote oc \<lparr>ex_walletAddress = wallet, ex_unsignedTx = u\<rparr> = Ok True
             | _ \<Rightarrow> False)
          \<and> (case getConfirmationCount v hash of
               None \<Rightarrow> False | Some n \<Rightarrow> minConfirmations TRADING_DEFAULTS \<le> n))"

lemmas mark_defs = mark_swap_failed_def mark_swap_expired_def mark_swap_confirmed_def
  mark_fee_failed_def mark_fee_expired_def mark_fee_confirmed_def

definition same_trade :: "trade_tx \<Rightarrow> trade_tx \<Rightarrow> bool" where
  "same_trade a b \<longleftrightarrow> tt_id a = tt_id b \<and> tt_userId a = tt_userId b \<and> tt_walletAddress a = tt_walletAddress b
     \<and> tt_quoteId a = tt_quoteId b \<and> tt_chainId a = tt_chainId b \<and> tt_txHash a = tt_txHash b
     \<and> tt_feeTxHash a = tt_feeTxHash b"

locale leg_refresh =
  fixes decide :: "viem_answers \<Rightarrow> int \<Rightarrow> TransactionRow \<Rightarrow> (js_error, (trade_tx \<Rightarrow> trade_tx) option) result"
    and leg_status :: "trade_tx \<Rightarrow> trade_status option"
    and leg_hash :: "trade_tx \<Rightarrow> string option"
    and leg_tx :: "trade_quote \<Rightarrow> json"
  assumes confirms_verified: "decide v now (t, q) = Ok (Some f) \<Longrightarrow> leg_status (f r) = Some CONFIRMED
      \<Longrightarrow> verified v (leg_hash t) (tt_walletAddress t) (leg_tx q)"
    and settles: "decide v now (t, q) = Ok (Some f) \<Longrightarrow> \<exists>s. leg_status (f r) = Some s \<and> s \<noteq> PENDING"
    and keeps_trade: "decide v now (t, q) = Ok (Some f) \<Longrightarrow> same_trade (f r) r"

interpretation api_swap: leg_refresh refresh_swap "\<lambda>t. Some (tt_status t)" "\<lambda>t. Some (tt_txHash t)" tq_unsignedTx
  by unfold_locales
     (auto simp: refresh_swap_def verified_def mark_defs same_trade_def bind_result_Ok_iff Let_def
           split: if_splits option.splits)

interpretation api_fee: leg_refresh refresh_fee tt_feeStatus tt_feeTxHash tq_feeUnsignedTx
  by unfold_locales
     (auto simp: refresh_fee_def verified_def mark_defs same_trade_def bind_result_Ok_iff Let_def
           split: if_splits option.splits)

text \<open>The worker's decision, without its counters.\<close>

definition sweep_swap_change ::
    "viem_answers \<Rightarrow> int \<Rightarrow> TransactionRow \<Rightarrow> (js_error, (trade_tx \<Rightarrow> trade_tx) option) result" where
  "sweep_swap_change v now row = bind_result (sweep_swap_row v now row) (\<lambda>c. Ok (fst c))"

definition sweep_fee_change ::
    "viem_answers \<Rightarrow> int \<Rightarrow> TransactionRow \<Rightarrow> (js_error, (trade_tx \<Rightarrow> trade_tx) option) result" where
  "sweep_fee_change v now row =
     (case (tt_feeTxHash (fst row), tt_feeSubmittedAt (fst row)) of
        (Some h, Some since) \<Rightarrow>
          if h = [] then Ok None else bind_result (sweep_fee_row v now h since row) (\<lambda>c. Ok (fst c))
      | _ \<Rightarrow> Ok None)"

lemma receipt_cases: "(r :: receipt_status option) = None \<or> r = Some receipt_success \<or> r = Some receipt_reverted"
  by (cases r) (auto intro: receipt_status.exhaust)

lemma bind_result_cong: "(\<And>a. f a = g a) \<Longrightarrow> bind_result r f = bind_result r g"
  by (cases r) simp_all

lemma bind_result_assoc: "bind_result (bind_result r f) g = bind_result r (\<lambda>a. bind_result (f a) g)"
  by (cases r) simp_all

lemma sweep_swap_agrees: "sweep_swap_change v now row = refresh_swap v now row"
  using receipt_cases [of "getTransactionReceiptStatus v (tt_txHash (fst row))"]
  by (cases row)
     (auto simp: sweep_swap_change_def sweep_swap_row_def refresh_swap_def Let_def bind_result_assoc
           intro!: bind_result_cong split: option.splits)

lemma sweep_fee_agrees: "sweep_fee_change v now row = refresh_fee v now row"
  using receipt_cases [of "getTransactionReceiptStatus v (the (tt_feeTxHash (fst row)))"]
  by (cases row)
     (auto simp: sweep_fee_change_def sweep_fee_row_def refresh_fee_def Let_def bind_result_assoc
           intro!: bind_result_cong split: option.splits)

text \<open>C10: the worker's sweep and the API's on-demand refresh are the same gate: for every row,
  clock and chain answers they decide the same write, for the swap and for the fee leg.\<close>

theorem worker_agrees_with_api:
  "sweep_swap_change v now row = refresh_swap v now row \<and> sweep_fee_change v now row = refresh_fee v now row"
  by (simp add: sweep_swap_agrees sweep_fee_agrees)

subsection \<open>A whole tick\<close>

lemma fst_fold: "(\<And>x s. fst (step x s) = g x (fst s)) \<Longrightarrow> fst (fold step xs s) = fold g xs (fst s)"
  by (induction xs arbitrary: s) simp_all

definition the_change :: "('e, 'f option) result \<Rightarrow> 'f option" where
  "the_change r = (case r of Inl e \<Rightarrow> None | Inr c \<Rightarrow> c)"

definition apply_opt :: "('r \<Rightarrow> 'r) option \<Rightarrow> 'r \<Rightarrow> 'r" where
  "apply_opt c x = (case c of None \<Rightarrow> x | Some f \<Rightarrow> f x)"

context leg_refresh begin

definition row_change :: "(string \<Rightarrow> viem_answers) \<Rightarrow> int \<Rightarrow> TransactionRow \<Rightarrow> (trade_tx \<Rightarrow> trade_tx) option" where
  "row_change answers now row = the_change (decide (answers (tt_id (fst row))) now row)"

definition swept :: "(string \<Rightarrow> viem_answers) \<Rightarrow> int \<Rightarrow> TransactionRow list \<Rightarrow> trade_tx \<Rightarrow> trade_tx" where
  "swept answers now sel x =
     (case find (\<lambda>row. tt_id (fst row) = tt_id x) sel of
        None \<Rightarrow> x | Some row \<Rightarrow> apply_opt (row_change answers now row) x)"

lemma row_change_SomeD:
  "row_change answers now row = Some f \<Longrightarrow>
     decide (answers (tt_id (fst row))) now (fst row, snd row) = Ok (Some f)"
  by (auto simp: row_change_def the_change_def split: sum.splits)

lemma keeps_id [simp]: "tt_id (apply_opt (row_change answers now row) x) = tt_id x"
  using keeps_trade [OF row_change_SomeD]
  by (auto simp: apply_opt_def same_trade_def split: option.splits)

lemma write_change_map:
  "td_txs (write_change t c db) = map (\<lambda>x. if tt_id x = tt_id t then apply_opt c x else x) (td_txs db)"
  by (auto simp: write_change_def update_tx_def update_where_def apply_opt_def split: option.splits
           intro: map_idI [symmetric])

lemma tick_rows:
  assumes "distinct (map (tt_id \<circ> fst) sel)"
  shows "td_txs (fold (\<lambda>row. write_change (fst row) (row_change answers now row)) sel db)
    = map (swept answers now sel) (td_txs db)"
  using assms
proof (induction sel arbitrary: db)
  case (Cons row sel)
  have none: "find (\<lambda>r. tt_id (fst r) = tt_id (fst row)) sel = None"
    using Cons.prems by (auto simp: find_None image_iff)
  show ?case using Cons none
    by (auto simp: write_change_map swept_def)
qed (auto simp: swept_def intro: map_idI [symmetric])

lemma tick_row_cases:
  assumes ids: "distinct (map tt_id (td_txs db))"
    and sel: "\<And>t q. (t, q) \<in> set sel \<Longrightarrow> t \<in> set (td_txs db)"
    and x: "x \<in> set (td_txs db)"
  shows "swept answers now sel x = x \<or>
    (\<exists>q f. (x, q) \<in> set sel \<and> decide (answers (tt_id x)) now (x, q) = Ok (Some f) \<and> swept answers now sel x = f x)"
proof (cases "find (\<lambda>row. tt_id (fst row) = tt_id x) sel")
  case (Some row)
  then have "row \<in> set sel" "tt_id (fst row) = tt_id x" by (auto dest: find_SomeD)
  moreover from this sel [of "fst row" "snd row"] have "fst row \<in> set (td_txs db)" by simp
  ultimately have "fst row = x" using distinct_map_unique [OF ids] x by blast
  with Some \<open>row \<in> set sel\<close> show ?thesis
    using row_change_SomeD [of answers now row]
    by (cases row) (auto simp: swept_def apply_opt_def split: option.splits)
qed (simp add: swept_def)

lemma tick_sound:
  assumes ids: "distinct (map tt_id (td_txs db))"
    and sel: "\<And>t q. (t, q) \<in> set sel \<Longrightarrow> t \<in> set (td_txs db) \<and> find_quote db (tt_quoteId t) = Some q"
    and "t' \<in> set (map (swept answers now sel) (td_txs db))"
  shows "\<exists>t\<in>set (td_txs db). same_trade t' t \<and>
     (t' = t \<or> (\<exists>q. (t, q) \<in> set sel \<and> (\<exists>s. leg_status t' = Some s \<and> s \<noteq> PENDING)
        \<and> (leg_status t' = Some CONFIRMED \<longrightarrow>
            verified (answers (tt_id t)) (leg_hash t) (tt_walletAddress t) (leg_tx q))))"
proof -
  from assms(3) obtain x where x: "x \<in> set (td_txs db)" "t' = swept answers now sel x" by auto
  from tick_row_cases [OF ids _ x(1), of sel answers now] sel
  have "swept answers now sel x = x \<or>
    (\<exists>q f. (x, q) \<in> set sel \<and> decide (answers (tt_id x)) now (x, q) = Ok (Some f) \<and> swept answers now sel x = f x)"
    by blast
  then show ?thesis
  proof
    assume "swept answers now sel x = x"
    with x show ?thesis by (auto simp: same_trade_def)
  next
    assume "\<exists>q f. (x, q) \<in> set sel \<and> decide (answers (tt_id x)) now (x, q) = Ok (Some f) \<and> swept answers now sel x = f x"
    then obtain q f where "(x, q) \<in> set sel" "decide (answers (tt_id x)) now (x, q) = Ok (Some f)" "t' = f x"
      using x by auto
    note d = this
    have "same_trade t' x" "\<exists>s. leg_status t' = Some s \<and> s \<noteq> PENDING"
      using keeps_trade [OF d(2)] settles [OF d(2)] d(3) by simp_all
    moreover have "leg_status t' = Some CONFIRMED \<longrightarrow>
        verified (answers (tt_id x)) (leg_hash x) (tt_walletAddress x) (leg_tx q)"
      using confirms_verified [OF d(2)] d(3) by simp
    ultimately show ?thesis using x(1) d(1) by (intro bexI [of _ x] conjI disjI2 exI [of _ q]) simp_all
  qed
qed

end

lemma map_filter_set: "y \<in> set (List.map_filter f xs) \<longleftrightarrow> (\<exists>x\<in>set xs. f x = Some y)"
  by (force simp: List.map_filter_def)

lemma pending_swapsD:
  "(t, q) \<in> set (pending_swaps chainId db) \<Longrightarrow>
     t \<in> set (td_txs db) \<and> find_quote db (tt_quoteId t) = Some q \<and> tt_status t = PENDING \<and> tt_chainId t = chainId"
  by (auto simp: pending_swaps_def map_filter_set with_quote_def dest!: in_set_takeD)

lemma pending_feesD:
  "(t, q) \<in> set (pending_fees chainId db) \<Longrightarrow>
     t \<in> set (td_txs db) \<and> find_quote db (tt_quoteId t) = Some q \<and> tt_feeStatus t = Some PENDING \<and> tt_chainId t = chainId"
  by (auto simp: pending_fees_def map_filter_set with_quote_def dest!: in_set_takeD)

lemma map_filter_with_quote_ids:
  "distinct (map tt_id xs) \<Longrightarrow> distinct (map (tt_id \<circ> fst) (List.map_filter (with_quote db) xs))"
proof (induction xs)
  case (Cons x xs)
  have "tt_id (fst r) \<in> tt_id ` set xs" if "r \<in> set (List.map_filter (with_quote db) xs)" for r
    using that by (auto simp: map_filter_set with_quote_def)
  with Cons show ?case
    by (cases "with_quote db x") (force simp: List.map_filter_simps with_quote_def)+
qed (simp add: List.map_filter_simps)

lemma pending_ids:
  assumes "distinct (map tt_id (td_txs db))"
  shows "distinct (map (tt_id \<circ> fst) (pending_swaps chainId db))"
    and "distinct (map (tt_id \<circ> fst) (pending_fees chainId db))"
proof -
  have "distinct (map tt_id (take n (sort_by lt (filter P (td_txs db)))))" for n lt P
  proof -
    have "mset (map tt_id (sort_by lt (filter P (td_txs db)))) = mset (map tt_id (filter P (td_txs db)))"
      by simp
    then have "distinct (map tt_id (sort_by lt (filter P (td_txs db))))"
      using distinct_map_filter [OF assms] by (metis mset_eq_imp_distinct_iff)
    then show ?thesis by (simp add: take_map [symmetric] distinct_take del: take_map)
  qed
  then show "distinct (map (tt_id \<circ> fst) (pending_swaps chainId db))"
    "distinct (map (tt_id \<circ> fst) (pending_fees chainId db))"
    by (auto simp: pending_swaps_def pending_fees_def intro!: map_filter_with_quote_ids)
qed

lemma sweep_swap_step_fst:
  "fst (sweep_swap_step answers now row s) = write_change (fst row) (api_swap.row_change answers now row) (fst s)"
  using sweep_swap_agrees [of "answers (tt_id (fst row))" now row, symmetric]
  by (cases "sweep_swap_row (answers (tt_id (fst row))) now row"; cases s)
     (auto simp: sweep_swap_step_def sweep_swap_change_def api_swap.row_change_def the_change_def
           write_change_def Let_def)

lemma sweep_fee_step_fst:
  "fst (sweep_fee_step answers now row s) = write_change (fst row) (api_fee.row_change answers now row) (fst s)"
  using sweep_fee_agrees [of "answers (tt_id (fst row))" now row, symmetric]
  by (cases s) (auto simp: sweep_fee_step_def sweep_fee_change_def api_fee.row_change_def the_change_def
           write_change_def Let_def split: option.splits sum.splits)

lemma swap_tick:
  "fst (sweepPendingTransactions answers now chainId db) =
     fold (\<lambda>row. write_change (fst row) (api_swap.row_change answers now row)) (pending_swaps chainId db) db"
  unfolding sweepPendingTransactions_def
  by (subst fst_fold [where g = "\<lambda>row. write_change (fst row) (api_swap.row_change answers now row)"])
     (simp_all add: sweep_swap_step_fst)

lemma fee_tick:
  "fst (sweepPendingFeeTransactions answers now chainId db) =
     fold (\<lambda>row. write_change (fst row) (api_fee.row_change answers now row)) (pending_fees chainId db) db"
  unfolding sweepPendingFeeTransactions_def
  by (subst fst_fold [where g = "\<lambda>row. write_change (fst row) (api_fee.row_change answers now row)"])
     (simp_all add: sweep_fee_step_fst)

text \<open>C11: after a sweep tick every row is either untouched, or was PENDING and has settled; it is
  CONFIRMED only when the chain showed a successful receipt, a transaction equal to the quoted one
  in sender, target, value and calldata, and at least two confirmations.\<close>

theorem sweep_confirms_only_verified:
  assumes "distinct (map tt_id (td_txs db))"
    and "t' \<in> set (td_txs (fst (sweepPendingTransactions answers now chainId db)))"
  shows "\<exists>t\<in>set (td_txs db). same_trade t' t \<and>
     (t' = t \<or> tt_status t = PENDING \<and> tt_status t' \<noteq> PENDING \<and>
        (tt_status t' = CONFIRMED \<longrightarrow> (\<exists>q. find_quote db (tt_quoteId t) = Some q \<and>
            verified (answers (tt_id t)) (Some (tt_txHash t)) (tt_walletAddress t) (tq_unsignedTx q))))"
proof -
  from assms(2) have "t' \<in> set (map (api_swap.swept answers now (pending_swaps chainId db)) (td_txs db))"
    unfolding swap_tick by (simp only: api_swap.tick_rows [OF pending_ids(1) [OF assms(1)]])
  from api_swap.tick_sound [OF assms(1) _ this] pending_swapsD
  show ?thesis by (fastforce dest: pending_swapsD)
qed

lemma fee_sweep_confirms_only_verified:
  assumes "distinct (map tt_id (td_txs db))"
    and "t' \<in> set (td_txs (fst (sweepPendingFeeTransactions answers now chainId db)))"
  shows "\<exists>t\<in>set (td_txs db). same_trade t' t \<and>
     (t' = t \<or> tt_feeStatus t = Some PENDING \<and> tt_feeStatus t' \<noteq> Some PENDING \<and>
        (tt_feeStatus t' = Some CONFIRMED \<longrightarrow> (\<exists>q. find_quote db (tt_quoteId t) = Some q \<and>
            verified (answers (tt_id t)) (tt_feeTxHash t) (tt_walletAddress t) (tq_feeUnsignedTx q))))"
proof -
  from assms(2) have "t' \<in> set (map (api_fee.swept answers now (pending_fees chainId db)) (td_txs db))"
    unfolding fee_tick by (simp only: api_fee.tick_rows [OF pending_ids(2) [OF assms(1)]])
  from api_fee.tick_sound [OF assms(1) _ this] pending_feesD
  show ?thesis by (fastforce dest: pending_feesD)
qed

text \<open>A pending trade and the chain's answers about it.\<close>

definition sample_unsigned :: unsigned_tx where
  "sample_unsigned = \<lparr>tx_to = ''0xab'', tx_data = ''0xfe'', tx_value = ''0'', tx_gas = None,
     tx_maxFeePerGas = None, tx_maxPriorityFeePerGas = None\<rparr>"

definition sample_quote :: trade_quote where
  "sample_quote = \<lparr>tq_id = ''q1'', tq_userId = ''u1'', tq_walletAddress = ''0x11'', tq_chainId = 8453,
     tq_side = ''BUY'', tq_tokenMarketId = ''m1'', tq_inputToken = ''0xa'', tq_outputToken = ''0xb'',
     tq_inputAmount = ''5000000'', tq_expectedOutputAmount = ''77'', tq_platformFeeAmount = ''0'',
     tq_unsignedTx = unsigned_tx_json sample_unsigned, tq_feeUnsignedTx = JNull,
     tq_sponsorshipRequested = False, tq_relayerConsentSignature = None, tq_relayerStatus = None,
     tq_relayerNonce = None, tq_relayerFailureReason = None, tq_expiresAt = 1000\<rparr>"

definition sample_tx :: trade_tx where
  "sample_tx = (tx_of_quote sample_quote ''u1'' ''0x11'' ''0xhash'' None)\<lparr>tt_id := ''0''\<rparr>"

definition sample_db :: trade_db where
  "sample_db = \<lparr>td_quotes = [sample_quote], td_txs = [sample_tx], td_wallets = [], td_next = 1\<rparr>"

definition sample_answers :: "string \<Rightarrow> int \<Rightarrow> viem_answers" where
  "sample_answers sender head = \<lparr>va_receipt = (\<lambda>_. Some receipt_success),
     va_transaction = (\<lambda>_. Some \<lparr>oc_from = sender, oc_to = Some ''0xAB'', oc_value = 0, oc_data = ''0xfe''\<rparr>),
     va_receiptBlock = (\<lambda>_. Some 100), va_blockNumber = Some head\<rparr>"

lemma sample_pending: "pending_swaps 8453 sample_db = [(sample_tx, sample_quote)]"
  by (simp add: pending_swaps_def sample_db_def sample_tx_def tx_of_quote_def sample_quote_def
      List.map_filter_simps with_quote_def find_quote_def SWEEP_BATCH_SIZE_def)

lemma sample_matches:
  "transactionMatchesQuote \<lparr>oc_from = ''0x11'', oc_to = Some ''0xAB'', oc_value = 0, oc_data = ''0xfe''\<rparr>
     \<lparr>ex_walletAddress = ''0x11'', ex_unsignedTx = sample_unsigned\<rparr> = Ok True"
  by code_simp

lemma sample_sweep:
  "td_txs (fst (sweepPendingTransactions (\<lambda>_. sample_answers ''0x11'' 102) 500 8453 sample_db))
     = [mark_swap_confirmed 500 sample_tx]"
proof -
  have "refresh_swap (sample_answers ''0x11'' 102) 500 (sample_tx, sample_quote) = Ok (Some (mark_swap_confirmed 500))"
    using sample_matches
    by (simp add: refresh_swap_def sample_answers_def getTransactionReceiptStatus_def getTransactionDetails_def
        getConfirmationCount_def sample_quote_def sample_tx_def tx_of_quote_def TRADING_DEFAULTS_def Let_def)
  then show ?thesis
    by (simp add: swap_tick sample_pending api_swap.row_change_def the_change_def write_change_def
        update_tx_def) (simp add: sample_db_def)
qed

theorem sweep_confirms_only_verified_witness:
  "\<exists>t\<in>set (td_txs sample_db). same_trade (mark_swap_confirmed 500 sample_tx) t \<and> tt_status t = PENDING"
proof -
  have "distinct (map tt_id (td_txs sample_db))" by (simp add: sample_db_def)
  moreover have "mark_swap_confirmed 500 sample_tx \<in>
      set (td_txs (fst (sweepPendingTransactions (\<lambda>_. sample_answers ''0x11'' 102) 500 8453 sample_db)))"
    by (simp add: sample_sweep)
  moreover have "\<forall>t\<in>set (td_txs sample_db). tt_status t = PENDING"
    by (simp add: sample_db_def sample_tx_def tx_of_quote_def)
  ultimately show ?thesis using sweep_confirms_only_verified by blast
qed

end
