(* ===== verification/TradeApi.thy ===== *)
theory TradeApi
  imports TradeTx
begin

section \<open>The trade API: submitting, relaying, watching\<close>

text \<open>
  \<open>transaction.service.ts\<close> (submitting a signed transaction and its fee transfer, watching one
  trade, the paged history) and \<open>relayer/evm-gas-relayer-quote.service.ts\<close> (offering a
  sponsored quote, relaying it after the wallet's consent, the fee leg).  Responses are the rows;
  formatting amounts for display (\<open>toDto\<close>) is viem's \<open>formatUnits\<close> and is left out.
\<close>

subsection \<open>Submitting a signed transaction\<close>

definition is_tx_hash :: "string \<Rightarrow> bool" where
  "is_tx_hash h = (starts_with h ''0x'' \<and> length h = 66 \<and> (\<forall>c\<in>set (drop 2 h). is_hex c))"

record submit_params =
  sp_user :: string
  sp_wallet :: string
  sp_quote :: string
  sp_txHash :: string

definition wallet_verified :: "trade_db \<Rightarrow> string \<Rightarrow> string \<Rightarrow> bool" where
  "wallet_verified db address userId =
     (case find (\<lambda>w. wl_address w = address) (td_wallets db) of
        None \<Rightarrow> False | Some w \<Rightarrow> wl_userId w = userId \<and> wl_verifiedAt w \<noteq> None)"

text \<open>\<open>readers\<close>: one chain reader per configured chain id.\<close>

definition resolveReader :: "(int \<Rightarrow> viem_answers option) \<Rightarrow> int \<Rightarrow> (js_error, viem_answers) result" where
  "resolveReader readers chainId =
     (case readers chainId of
        Some v \<Rightarrow> Ok v
      | None \<Rightarrow> Err (Unprocessable ''Chain is not configured on this deployment''))"

definition submit_checks ::
    "(int \<Rightarrow> viem_answers option) \<Rightarrow> int \<Rightarrow> submit_params \<Rightarrow> trade_db \<Rightarrow> (js_error, trade_quote) result" where
  "submit_checks readers now p db =
     (let walletAddress = normalizeEvmAddress (sp_wallet p) in
      case find_quote db (sp_quote p) of
        None \<Rightarrow> Err (NotFound ''No quote'')
      | Some quote \<Rightarrow>
          bind_result (reject_if (tq_userId quote \<noteq> sp_user p)
            (Forbidden ''This quote does not belong to you'')) (\<lambda>_.
          bind_result (reject_if (normalizeEvmAddress (tq_walletAddress quote) \<noteq> walletAddress)
            (Forbidden ''This quote was created for a different wallet'')) (\<lambda>_.
          bind_result (reject_if (tq_expiresAt quote \<le> now)
            (Unprocessable ''This quote has expired'')) (\<lambda>_.
          bind_result (reject_if (\<not> wallet_verified db walletAddress (sp_user p))
            (Forbidden ''This wallet is not verified as belonging to your account'')) (\<lambda>_.
          (case parseUnsignedTx (tq_unsignedTx quote) of
             None \<Rightarrow> Err (Unprocessable ''This quote can no longer be submitted'')
           | Some u \<Rightarrow>
               bind_result (resolveReader readers (tq_chainId quote)) (\<lambda>v.
                 case getTransactionDetails v (sp_txHash p) of
                   None \<Rightarrow> Ok quote
                 | Some onChain \<Rightarrow>
                     bind_result (transactionMatchesQuote onChain
                         \<lparr>ex_walletAddress = walletAddress, ex_unsignedTx = u\<rparr>) (\<lambda>matches.
                     bind_result (reject_if (\<not> matches)
                       (Forbidden ''This transaction does not match the trade you reviewed'')) (\<lambda>_.
                     Ok quote)))))))))"

definition submitTransaction ::
    "(int \<Rightarrow> viem_answers option) \<Rightarrow> int \<Rightarrow> submit_params \<Rightarrow> trade_db
     \<Rightarrow> (js_error, trade_tx) result \<times> trade_db" where
  "submitTransaction readers now p db =
     (if \<not> is_tx_hash (sp_txHash p)
      then (Err (Unprocessable ''txHash must be a well-formed 32-byte transaction hash''), db)
      else case find_tx db (\<lambda>t. tt_quoteId t = sp_quote p) of
        Some existing \<Rightarrow>
          if tt_userId existing \<noteq> sp_user p then (Err (Forbidden ''This quote does not belong to you''), db)
          else (Ok existing, db)
      | None \<Rightarrow>
          (case submit_checks readers now p db of
             Inl e \<Rightarrow> (Inl e, db)
           | Inr quote \<Rightarrow>
               (case create_tx now (tx_of_quote quote (sp_user p) (normalizeEvmAddress (sp_wallet p))
                       (sp_txHash p) None) db of
                  (Inr created, db1) \<Rightarrow> (Ok created, db1)
                | (Inl e, db1) \<Rightarrow>
                    (case find_tx db1 (\<lambda>t. tt_chainId t = tq_chainId quote \<and> tt_txHash t = sp_txHash p) of
                       Some existing \<Rightarrow>
                         if tt_userId existing \<noteq> sp_user p
                         then (Err (Forbidden ''This transaction does not belong to you''), db1)
                         else (Ok existing, db1)
                     | None \<Rightarrow> (Err e, db1)))))"

text \<open>\<open>update\<close> of the fee hash: unique on (chain, fee hash).\<close>

definition set_fee_hash ::
    "int \<Rightarrow> trade_tx \<Rightarrow> string \<Rightarrow> trade_db \<Rightarrow> (js_error, trade_db) result" where
  "set_fee_hash now t h db =
     (if \<exists>r\<in>set (td_txs db). tt_id r \<noteq> tt_id t \<and> tt_chainId r = tt_chainId t \<and> tt_feeTxHash r = Some h
      then Err (UniqueConstraint ''trade_transactions'')
      else Ok (update_tx (tt_id t)
        (\<lambda>r. r\<lparr>tt_feeTxHash := Some h, tt_feeStatus := Some PENDING, tt_feeSubmittedAt := Some now\<rparr>) db))"

definition submitFeeTransaction ::
    "(int \<Rightarrow> viem_answers option) \<Rightarrow> int \<Rightarrow> string \<Rightarrow> string \<Rightarrow> string \<Rightarrow> trade_db
     \<Rightarrow> (js_error, trade_tx) result \<times> trade_db" where
  "submitFeeTransaction readers now userId transactionId txHash db =
     (if \<not> is_tx_hash txHash
      then (Err (Unprocessable ''txHash must be a well-formed 32-byte transaction hash''), db)
      else case find_tx db (\<lambda>t. tt_id t = transactionId) of
        None \<Rightarrow> (Err (NotFound ''No transaction''), db)
      | Some row \<Rightarrow>
          if tt_userId row \<noteq> userId then (Err (NotFound ''No transaction''), db)
          else if tt_feeTxHash row \<noteq> None \<and> the (tt_feeTxHash row) \<noteq> [] then
            (if tt_feeTxHash row \<noteq> Some txHash
             then (Err (Forbidden ''A different fee transfer has already been recorded for this trade''), db)
             else (Ok row, db))
          else case Option.bind (find_quote db (tt_quoteId row)) (\<lambda>q. parseUnsignedTx (tq_feeUnsignedTx q)) of
            None \<Rightarrow> (Err (Unprocessable ''This trade does not have a guaranteed-USDC fee transfer to submit''), db)
          | Some u \<Rightarrow>
              (case (bind_result (reject_if (\<not> wallet_verified db (tt_walletAddress row) userId)
                      (Forbidden ''This wallet is not verified as belonging to your account'')) (\<lambda>_.
                    bind_result (resolveReader readers (tt_chainId row)) (\<lambda>v.
                      case getTransactionDetails v txHash of
                        None \<Rightarrow> Ok ()
                      | Some onChain \<Rightarrow>
                          bind_result (transactionMatchesQuote onChain
                              \<lparr>ex_walletAddress = tt_walletAddress row, ex_unsignedTx = u\<rparr>) (\<lambda>matches.
                            reject_if (\<not> matches)
                              (Forbidden ''This transaction does not match the expected fee transfer''))))) of
                 Inl e \<Rightarrow> (Inl e, db)
               | Inr _ \<Rightarrow>
                   (case set_fee_hash now row txHash db of
                      Inl e \<Rightarrow> (Err (Forbidden
                        ''This transaction hash is already recorded against a different trade''), db)
                    | Inr db1 \<Rightarrow>
                        (case find_tx db1 (\<lambda>t. tt_id t = transactionId) of
                           Some t \<Rightarrow> (Ok t, db1) | None \<Rightarrow> (Err (NotFound ''No transaction''), db1)))))"

subsection \<open>History\<close>

definition history_key :: "trade_tx \<Rightarrow> int \<times> string" where
  "history_key t = (tt_createdAt t, tt_id t)"

text \<open>The cursor is the decoded (\<open>createdAt\<close>, \<open>id\<close>) pair.\<close>

definition getHistory ::
    "trade_db \<Rightarrow> string \<Rightarrow> (int \<times> string) option \<Rightarrow> nat \<Rightarrow> trade_tx list \<times> (int \<times> string) option" where
  "getHistory db userId decoded limit =
     (let rows = take (limit + 1) (desc_by history_key
            (filter (\<lambda>t. tt_userId t = userId
               \<and> (case decoded of None \<Rightarrow> True
                  | Some (createdAt, i) \<Rightarrow>
                      tt_createdAt t < createdAt \<or> (tt_createdAt t = createdAt \<and> tt_id t < i))) (td_txs db)));
          hasMore = limit < length rows;
          page = (if hasMore then take limit rows else rows);
          nextCursor = (if hasMore \<and> page \<noteq> [] then Some (history_key (last page)) else None)
      in (page, nextCursor))"

interpretation history: keyset_feed history_key "filter (\<lambda>t. tt_userId t = userId) (td_txs db)" "getHistory db userId"
  for db userId
proof
  fix c :: "(int \<times> string) option" and limit
  have "filter (\<lambda>t. tt_userId t = userId
           \<and> (case c of None \<Rightarrow> True
              | Some (createdAt, i) \<Rightarrow> tt_createdAt t < createdAt \<or> (tt_createdAt t = createdAt \<and> tt_id t < i))) (td_txs db)
      = filter (below_cursor history_key c) (filter (\<lambda>t. tt_userId t = userId) (td_txs db))"
    by (auto simp: below_cursor_def history_key_def less_prod_def' intro!: filter_cong split: option.splits)
  then show "getHistory db userId c limit = keyset_page history_key (filter (\<lambda>t. tt_userId t = userId) (td_txs db)) c limit"
    by (simp add: getHistory_def keyset_page_def Let_def)
qed



subsection \<open>Sponsored quotes: the offer\<close>

record 'w relay_env =
  re_chainIdToSlug :: "int \<Rightarrow> string option"
  re_wallet :: relayer_wallet
  re_testWalletAddresses :: "string list option"
  re_rpc :: "'w evm_rpc"
  re_parseGwei :: "jsnum \<Rightarrow> int"
  re_verifyTypedData :: "string \<Rightarrow> RelayedSwapTypedData \<Rightarrow> string \<Rightarrow> (js_error, bool) result"

record sponsorship_offer =
  so_sponsorshipAvailable :: bool
  so_consentTypedData :: "RelayedSwapTypedDataWire option"

definition sponsorship_eligible :: "'w relay_env \<Rightarrow> int \<Rightarrow> string \<Rightarrow> bool" where
  "sponsorship_eligible env chainId walletAddress =
     (let walletAllowed =
        (case re_testWalletAddresses env of
           None \<Rightarrow> True
         | Some allowlist \<Rightarrow> normalizeEvmAddress walletAddress \<in> set (map normalizeEvmAddress allowlist))
      in (case re_chainIdToSlug env chainId of
            None \<Rightarrow> False
          | Some slug \<Rightarrow> slug \<noteq> [] \<and> isConfigured (re_wallet env) slug
              \<and> relayerAddress (re_wallet env) \<noteq> None \<and> walletAllowed))"

definition consent_source :: "trade_quote \<Rightarrow> string \<Rightarrow> unsigned_tx \<Rightarrow> RelayedSwapConsentSource" where
  "consent_source q relayer u =
     \<lparr>src_quoteId = tq_id q, src_walletAddress = tq_walletAddress q, src_chainId = tq_chainId q,
      src_relayerAddress = relayer, src_to = tx_to u, src_data = tx_data u, src_value = tx_value u,
      src_expiresAt = tq_expiresAt q\<rparr>"

text \<open>\<open>q\<close> is the quote just created and \<open>u\<close> its unsigned transaction.\<close>

definition attachSponsorshipIfEligible ::
    "'w relay_env \<Rightarrow> trade_quote \<Rightarrow> unsigned_tx \<Rightarrow> bool \<Rightarrow> trade_db
     \<Rightarrow> (js_error, sponsorship_offer) result \<times> trade_db" where
  "attachSponsorshipIfEligible env q u sponsorshipRequested db =
     (if \<not> sponsorship_eligible env (tq_chainId q) (tq_walletAddress q)
      then (Ok \<lparr>so_sponsorshipAvailable = False, so_consentTypedData = None\<rparr>, db)
      else if \<not> sponsorshipRequested
      then (Ok \<lparr>so_sponsorshipAvailable = True, so_consentTypedData = None\<rparr>, db)
      else
        let db1 = update_quote (tq_id q)
              (\<lambda>r. r\<lparr>tq_sponsorshipRequested := True, tq_relayerStatus := Some PENDING_CONSENT\<rparr>) db
        in (bind_result
              (buildRelayedSwapTypedData (consent_source q (the (relayerAddress (re_wallet env))) u))
              (\<lambda>td. Ok \<lparr>so_sponsorshipAvailable = True, so_consentTypedData = Some (toWireTypedData td)\<rparr>),
            db1))"

subsection \<open>Relaying a consented quote\<close>

record RelaySwapParams =
  rp_userId :: string
  rp_walletAddress :: string
  rp_quoteId :: string
  rp_signature :: string

definition markFailed :: "string \<Rightarrow> string \<Rightarrow> trade_db \<Rightarrow> trade_db" where
  "markFailed quoteId reason =
     update_quote quoteId (\<lambda>q. q\<lparr>tq_relayerStatus := Some RELAY_FAILED, tq_relayerFailureReason := Some reason\<rparr>)"

text \<open>A rejection, and the reason recorded on the quote when the rejection records one.\<close>

type_synonym rejection = "js_error \<times> string option"

definition verifyEvmTypedDataSignature ::
    "'w relay_env \<Rightarrow> string \<Rightarrow> RelayedSwapTypedData \<Rightarrow> string \<Rightarrow> bool" where
  "verifyEvmTypedDataSignature env address td signature =
     (case re_verifyTypedData env address td signature of Inr b \<Rightarrow> b | Inl e \<Rightarrow> False)"

definition relay_checks ::
    "'w relay_env \<Rightarrow> int \<Rightarrow> RelaySwapParams \<Rightarrow> trade_db
     \<Rightarrow> (rejection, trade_quote \<times> string \<times> string \<times> unsigned_tx) result" where
  "relay_checks env now p db =
     (case find_quote db (rp_quoteId p) of
        None \<Rightarrow> Err (NotFound ''No quote'', None)
      | Some quote \<Rightarrow>
          bind_result (reject_if (tq_userId quote \<noteq> rp_userId p)
            (Forbidden ''This quote does not belong to you'', None)) (\<lambda>_.
          bind_result (reject_if (normalizeEvmAddress (tq_walletAddress quote) \<noteq> normalizeEvmAddress (rp_walletAddress p))
            (Forbidden ''This quote was created for a different wallet'', None)) (\<lambda>_.
          bind_result (reject_if (\<not> tq_sponsorshipRequested quote \<or> tq_relayerStatus quote = None)
            (Unprocessable ''This quote was not created as a sponsored (gasless) quote'', None)) (\<lambda>_.
          bind_result (reject_if (tq_relayerStatus quote \<noteq> Some PENDING_CONSENT)
            (Unprocessable ''request a new quote to try again'', None)) (\<lambda>_.
          bind_result (reject_if (tq_expiresAt quote \<le> now)
            (Unprocessable ''This quote has expired'', Some ''Quote expired before consent was received'')) (\<lambda>_.
          (case (re_chainIdToSlug env (tq_chainId quote), relayerAddress (re_wallet env)) of
             (Some slug, Some relayer) \<Rightarrow>
               bind_result (reject_if (slug = [] \<or> relayer = [] \<or> \<not> isConfigured (re_wallet env) slug)
                 (Unprocessable ''The EVM gas relayer is not currently available for this chain'', None)) (\<lambda>_.
               (case parseUnsignedTx (tq_unsignedTx quote) of
                  None \<Rightarrow> Err (Unprocessable ''This quote can no longer be relayed'', None)
                | Some u \<Rightarrow>
                    (case buildRelayedSwapTypedData (consent_source quote relayer u) of
                       Inl e \<Rightarrow> Err (e, None)
                     | Inr typedData \<Rightarrow>
                         bind_result (reject_if
                           (\<not> verifyEvmTypedDataSignature env (tq_walletAddress quote) typedData (rp_signature p))
                           (Forbidden ''This consent signature does not verify'',
                            Some ''Consent signature did not verify against this quote'')) (\<lambda>_.
                         Ok (quote, slug, relayer, u)))))
           | _ \<Rightarrow> Err (Unprocessable ''The EVM gas relayer is not currently available for this chain'', None))))))))"

text \<open>\<open>updateMany\<close> with the status in its condition: the claim, and how many rows it hit.\<close>

definition claim_consent :: "string \<Rightarrow> string \<Rightarrow> trade_db \<Rightarrow> nat \<times> trade_db" where
  "claim_consent quoteId signature db =
     (let p = (\<lambda>q. tq_id q = quoteId \<and> tq_relayerStatus q = Some PENDING_CONSENT) in
      (count_where p (td_quotes db),
       db\<lparr>td_quotes := update_where p
             (\<lambda>q. q\<lparr>tq_relayerStatus := Some CONSENT_RECEIVED, tq_relayerConsentSignature := Some signature\<rparr>)
             (td_quotes db)\<rparr>))"

definition relayed_request :: "unsigned_tx \<Rightarrow> (js_error, RelayedTransactionRequest) result" where
  "relayed_request u = bind_result (BigInt (tx_value u)) (\<lambda>v.
     Ok \<lparr>rt_to = tx_to u, rt_data = tx_data u, rt_value = v\<rparr>)"

text \<open>After the broadcast: the transaction row and the quote's status in one transaction, or the
  row another call for the same quote has already written.\<close>

definition record_broadcast ::
    "int \<Rightarrow> RelaySwapParams \<Rightarrow> trade_quote \<Rightarrow> string \<Rightarrow> EvmRelayerBroadcastResult \<Rightarrow> trade_db
     \<Rightarrow> (js_error, trade_tx) result \<times> trade_db" where
  "record_broadcast now p quote relayer b db =
     (case create_tx now (tx_of_quote quote (rp_userId p) (normalizeEvmAddress (rp_walletAddress p))
             (br_txHash b) (Some relayer)) db of
        (Inr created, db1) \<Rightarrow>
          (Ok created, update_quote (tq_id quote)
             (\<lambda>q. q\<lparr>tq_relayerStatus := Some BROADCAST, tq_relayerNonce := Some (br_nonce b)\<rparr>) db1)
      | (Inl e, db1) \<Rightarrow>
          (case find_tx db1 (\<lambda>t. tt_quoteId t = tq_id quote) of
             Some existing \<Rightarrow> (Ok existing, db1) | None \<Rightarrow> (Err e, db1)))"

definition relay_claimed ::
    "'w relay_env \<Rightarrow> int \<Rightarrow> RelaySwapParams \<Rightarrow> trade_quote \<Rightarrow> string \<Rightarrow> string \<Rightarrow> unsigned_tx \<Rightarrow> trade_db \<Rightarrow> 'w
     \<Rightarrow> (js_error, trade_tx) result \<times> trade_db \<times> 'w" where
  "relay_claimed env now p quote slug relayer u db w =
     (case then_remote (return_remote (relayed_request u)) (\<lambda>tx.
             then_remote (simulate (re_rpc env) (re_wallet env) slug tx) (\<lambda>s. return_remote (Ok (tx, s)))) w of
        (Inl e, w1) \<Rightarrow> (Inl e, db, w1)
      | (Inr (tx, SimRejected reason), w1) \<Rightarrow>
          (Err (Unprocessable (''This trade would fail on-chain and was not broadcast: '' @ reason)),
           markFailed (tq_id quote) reason db, w1)
      | (Inr (tx, SimOk gasUnits), w1) \<Rightarrow>
          (case checkGasCeiling (re_parseGwei env) (re_rpc env) (re_wallet env) slug gasUnits w1 of
             (Inl e, w2) \<Rightarrow> (Inl e, db, w2)
           | (Inr (CeilingExceeded reason), w2) \<Rightarrow>
               (Err (Unprocessable reason), markFailed (tq_id quote) reason db, w2)
           | (Inr (CeilingOk fees cost), w2) \<Rightarrow>
               (case broadcast (re_rpc env) (re_wallet env) slug tx fees gasUnits w2 of
                  (Inl e, w3) \<Rightarrow> (Inl e, db, w3)
                | (Inr b, w3) \<Rightarrow>
                    let (r, db1) = record_broadcast now p quote relayer b db in (r, db1, w3))))"

definition relay ::
    "'w relay_env \<Rightarrow> int \<Rightarrow> RelaySwapParams \<Rightarrow> trade_db \<Rightarrow> 'w
     \<Rightarrow> (js_error, trade_tx) result \<times> trade_db \<times> 'w" where
  "relay env now p db w =
     (case find_tx db (\<lambda>t. tt_quoteId t = rp_quoteId p) of
        Some existing \<Rightarrow>
          if tt_userId existing \<noteq> rp_userId p
          then (Err (Forbidden ''This quote does not belong to you''), db, w) else (Ok existing, db, w)
      | None \<Rightarrow>
          (case relay_checks env now p db of
             Inl (e, None) \<Rightarrow> (Inl e, db, w)
           | Inl (e, Some reason) \<Rightarrow> (Inl e, markFailed (rp_quoteId p) reason db, w)
           | Inr (quote, slug, relayer, u) \<Rightarrow>
               let (claimed, db1) = claim_consent (tq_id quote) (rp_signature p) db in
               if claimed = 0
               then (Err (Unprocessable ''This quote is already being relayed''), db1, w)
               else relay_claimed env now p quote slug relayer u db1 w))"

lemma relay_checks_OkD:
  "relay_checks env now p db = Ok (q, slug, relayer, u) \<Longrightarrow>
     find_quote db (rp_quoteId p) = Some q \<and> tq_userId q = rp_userId p
     \<and> normalizeEvmAddress (tq_walletAddress q) = normalizeEvmAddress (rp_walletAddress p)
     \<and> tq_relayerStatus q = Some PENDING_CONSENT \<and> now < tq_expiresAt q
     \<and> parseUnsignedTx (tq_unsignedTx q) = Some u
     \<and> relayerAddress (re_wallet env) = Some relayer
     \<and> (\<exists>td. buildRelayedSwapTypedData (consent_source q relayer u) = Ok td
          \<and> verifyEvmTypedDataSignature env (tq_walletAddress q) td (rp_signature p))"
  by (auto simp: relay_checks_def split: option.splits sum.splits if_splits)

lemma record_broadcast_OkD:
  assumes "record_broadcast now p q relayer b db = (Ok t, db')" "find_tx db (\<lambda>r. tt_quoteId r = tq_id q) = None"
  shows "tt_txHash t = br_txHash b \<and> tt_sponsoredByRelayer t \<and> tt_relayerFeePayer t = Some relayer
    \<and> tt_quoteId t = tq_id q \<and> tt_walletAddress t = normalizeEvmAddress (rp_walletAddress p)
    \<and> tt_status t = PENDING \<and> tt_feeTxHash t = None \<and> tt_feeStatus t = None"
  using assms
  by (auto simp: record_broadcast_def create_tx_def tx_of_quote_def Let_def split: if_splits option.splits)

text \<open>What it takes for \<open>relay\<close> to broadcast.\<close>

definition consented_broadcast ::
    "'w relay_env \<Rightarrow> int \<Rightarrow> RelaySwapParams \<Rightarrow> trade_quote \<Rightarrow> string \<Rightarrow> bool" where
  "consented_broadcast env now p q txHash \<longleftrightarrow>
     (\<exists>u tx td slug relayer clients limit gas fees nonce w1 w2.
        tq_userId q = rp_userId p \<and> now < tq_expiresAt q \<and> tq_relayerStatus q = Some PENDING_CONSENT
        \<and> parseUnsignedTx (tq_unsignedTx q) = Some u \<and> relayed_request u = Ok tx
        \<and> relayerAddress (re_wallet env) = Some relayer
        \<and> buildRelayedSwapTypedData (consent_source q relayer u) = Ok td
        \<and> verifyEvmTypedDataSignature env (tq_walletAddress q) td (rp_signature p)
        \<and> forChain (re_wallet env) slug = Some clients
        \<and> BigInt_num (cc_maxWeiCeiling clients) = Ok limit
        \<and> gf_maxFeePerGas fees \<le> re_parseGwei env (cc_maxGasPriceGwei clients)
        \<and> gas * gf_maxFeePerGas fees \<le> limit
        \<and> rpc_sendTransaction (re_rpc env) slug
            \<lparr>st_account = cc_account clients, st_chainId = cc_chainId clients, st_request = tx,
             st_nonce = nonce, st_gas = gas, st_fees = fees\<rparr> w1 = (Ok txHash, w2))"


text \<open>A deployment with one relayed chain and a consented quote.\<close>

definition sample_env :: "nat relay_env" where
  "sample_env = \<lparr>re_chainIdToSlug = (\<lambda>c. if c = 8453 then Some ''base'' else None),
     re_wallet = [(''base'', \<lparr>cc_chainId = 8453, cc_maxGasPriceGwei = Fin 5, cc_maxWeiCeiling = Fin 1000000,
                            cc_account = ''0x99''\<rparr>)],
     re_testWalletAddresses = None,
     re_rpc = \<lparr>rpc_call = (\<lambda>c a tx w. (Ok (), w)), rpc_estimateGas = (\<lambda>c a tx w. (Ok 21000, w)),
               rpc_estimateFees = (\<lambda>c w. (Ok \<lparr>gf_maxFeePerGas = 30, gf_maxPriorityFeePerGas = 1\<rparr>, w)),
               rpc_transactionCount = (\<lambda>c a w. (Ok w, w)),
               rpc_sendTransaction = (\<lambda>c tx w. (Ok ''0xsent'', Suc w))\<rparr>,
     re_parseGwei = (\<lambda>g. 5000000000),
     re_verifyTypedData = (\<lambda>a td s. Ok (s = ''consent''))\<rparr>"

definition sponsored_db :: trade_db where
  "sponsored_db = \<lparr>td_quotes = [sample_quote\<lparr>tq_sponsorshipRequested := True,
      tq_relayerStatus := Some PENDING_CONSENT\<rparr>], td_txs = [], td_wallets = [], td_next = 0\<rparr>"

definition sample_relay :: RelaySwapParams where
  "sample_relay = \<lparr>rp_userId = ''u1'', rp_walletAddress = ''0x11'', rp_quoteId = ''q1'', rp_signature = ''consent''\<rparr>"

lemma sample_relay_ok: "is_ok (fst (relay sample_env 500 sample_relay sponsored_db 7))"
  by code_simp


text \<open>C14: a relayed swap is sent by the relayer's account, but the confirmation gate compares the
  on-chain sender with the user's wallet: with a successful receipt the row is marked FAILED, and
  whatever the chain answers the row is never CONFIRMED.\<close>

theorem relayed_swap_never_confirms:
  assumes "\<And>oc. getTransactionDetails v (tt_txHash t) = Some oc \<Longrightarrow>
        normalizeEvmAddress (oc_from oc) \<noteq> normalizeEvmAddress (tt_walletAddress t)"
    and "parseUnsignedTx (tq_unsignedTx q) = Some u" "BigInt (tx_value u) = Ok val"
  shows "refresh_swap v now (t, q) \<noteq> Ok (Some (mark_swap_confirmed now))
     \<and> (getTransactionReceiptStatus v (tt_txHash t) = Some receipt_success \<longrightarrow>
         refresh_swap v now (t, q)
           = Ok (Some (mark_swap_failed ''On-chain transaction does not match the reviewed trade'')))"
proof -
  have no: "transactionMatchesQuote oc \<lparr>ex_walletAddress = tt_walletAddress t, ex_unsignedTx = u\<rparr> = Ok False"
    if "getTransactionDetails v (tt_txHash t) = Some oc" for oc
    using assms(1) [OF that] assms(3) by (simp add: transactionMatchesQuote_def)
  have "tt_status (mark_swap_failed reason t) \<noteq> tt_status (mark_swap_confirmed now t)"
    "tt_status (mark_swap_expired t) \<noteq> tt_status (mark_swap_confirmed now t)" for reason
    by (simp_all add: mark_defs)
  then have diff: "mark_swap_failed reason \<noteq> mark_swap_confirmed now" "mark_swap_expired \<noteq> mark_swap_confirmed now" for reason
    by metis+
  show ?thesis
    using assms(2) no diff
    by (auto simp: refresh_swap_def Let_def split: option.splits)
qed

theorem relayed_swap_never_confirms_witness:
  "refresh_swap (sample_answers ''0x99'' 200) 500 (sample_tx\<lparr>tt_sponsoredByRelayer := True\<rparr>, sample_quote)
     = Ok (Some (mark_swap_failed ''On-chain transaction does not match the reviewed trade''))"
proof -
  let ?t = "sample_tx\<lparr>tt_sponsoredByRelayer := True\<rparr>"
  have "normalizeEvmAddress (oc_from oc) \<noteq> normalizeEvmAddress (tt_walletAddress ?t)"
    if "getTransactionDetails (sample_answers ''0x99'' 200) (tt_txHash ?t) = Some oc" for oc
    using that by (auto simp: getTransactionDetails_def sample_answers_def sample_tx_def tx_of_quote_def
        normalizeEvmAddress_def to_lower_def lower_char_def)
  moreover have "parseUnsignedTx (tq_unsignedTx sample_quote) = Some sample_unsigned"
    by (simp add: sample_quote_def)
  moreover have "BigInt (tx_value sample_unsigned) = Ok 0" by code_simp
  ultimately show ?thesis
    using relayed_swap_never_confirms
      [of "sample_answers ''0x99'' 200" ?t sample_quote sample_unsigned 0 500]
    by (simp add: getTransactionReceiptStatus_def sample_answers_def)
qed

subsection \<open>The fee leg of a sponsored trade\<close>

definition releaseFeeLegClaim :: "string \<Rightarrow> trade_db \<Rightarrow> trade_db" where
  "releaseFeeLegClaim transactionId = update_tx transactionId (\<lambda>t. t\<lparr>tt_feeStatus := None\<rparr>)"

definition claim_fee_leg :: "string \<Rightarrow> trade_db \<Rightarrow> nat \<times> trade_db" where
  "claim_fee_leg transactionId db =
     (let p = (\<lambda>t. tt_id t = transactionId \<and> tt_feeTxHash t = None \<and> tt_feeStatus t = None) in
      (count_where p (td_txs db),
       db\<lparr>td_txs := update_where p (\<lambda>t. t\<lparr>tt_feeStatus := Some PENDING\<rparr>) (td_txs db)\<rparr>))"

definition submitFeeLegIfDue ::
    "'w relay_env \<Rightarrow> int \<Rightarrow> TransactionRow \<Rightarrow> trade_db \<Rightarrow> 'w \<Rightarrow> (js_error, unit) result \<times> trade_db \<times> 'w" where
  "submitFeeLegIfDue env now row db w =
     (let (t, q) = row in
      if \<not> tt_sponsoredByRelayer t \<or> tt_feeTxHash t \<noteq> None \<or> tt_feeStatus t \<noteq> None then (Ok (), db, w)
      else case (parseUnsignedTx (tq_feeUnsignedTx q), re_chainIdToSlug env (tt_chainId t)) of
        (Some u, Some slug) \<Rightarrow>
          if slug = [] \<or> \<not> isConfigured (re_wallet env) slug then (Ok (), db, w)
          else
            let (claimed, db1) = claim_fee_leg (tt_id t) db in
            if claimed = 0 then (Ok (), db1, w)
            else (case then_remote (return_remote (relayed_request u)) (\<lambda>tx.
                     then_remote (simulate (re_rpc env) (re_wallet env) slug tx)
                       (\<lambda>s. return_remote (Ok (tx, s)))) w of
                (Inl e, w1) \<Rightarrow> (Inl e, db1, w1)
              | (Inr (tx, SimRejected reason), w1) \<Rightarrow> (Ok (), releaseFeeLegClaim (tt_id t) db1, w1)
              | (Inr (tx, SimOk gasUnits), w1) \<Rightarrow>
                  (case checkGasCeiling (re_parseGwei env) (re_rpc env) (re_wallet env) slug gasUnits w1 of
                     (Inl e, w2) \<Rightarrow> (Inl e, db1, w2)
                   | (Inr (CeilingExceeded reason), w2) \<Rightarrow> (Ok (), releaseFeeLegClaim (tt_id t) db1, w2)
                   | (Inr (CeilingOk fees cost), w2) \<Rightarrow>
                       (case broadcast (re_rpc env) (re_wallet env) slug tx fees gasUnits w2 of
                          (Inl e, w3) \<Rightarrow> (Ok (), releaseFeeLegClaim (tt_id t) db1, w3)
                        | (Inr b, w3) \<Rightarrow>
                            (Ok (), update_tx (tt_id t) (\<lambda>t. t\<lparr>tt_feeTxHash := Some (br_txHash b),
                                                    tt_feeSubmittedAt := Some now\<rparr>) db1, w3))))
      | _ \<Rightarrow> (Ok (), db, w))"

text \<open>\<open>GET /trade/transactions/:id\<close>: the refresh, the fee leg once confirmed, the fee refresh.\<close>

definition getTransaction ::
    "(int \<Rightarrow> viem_answers option) \<Rightarrow> 'w relay_env \<Rightarrow> int \<Rightarrow> string \<Rightarrow> string \<Rightarrow> trade_db \<Rightarrow> 'w
     \<Rightarrow> (js_error, trade_tx) result \<times> trade_db \<times> 'w" where
  "getTransaction readers env now userId i db w =
     (case Option.bind (find_tx db (\<lambda>t. tt_id t = i)) (with_quote db) of
        None \<Rightarrow> (Err (NotFound ''No transaction''), db, w)
      | Some row \<Rightarrow>
          if tt_userId (fst row) \<noteq> userId then (Err (NotFound ''No transaction''), db, w)
          else
            (case (if tt_status (fst row) = PENDING
                   then (case resolveReader readers (tt_chainId (fst row)) of
                           Inl e \<Rightarrow> (Inl e, db) | Inr v \<Rightarrow> refreshStatus v now row db)
                   else (Ok row, db)) of
               (Inl e, db1) \<Rightarrow> (Inl e, db1, w)
             | (Inr afterStatus, db1) \<Rightarrow>
                 (case (if tt_status (fst afterStatus) = CONFIRMED
                        then submitFeeLegIfDue env now afterStatus db1 w else (Ok (), db1, w)) of
                    (Inl e, db2, w1) \<Rightarrow> (Inl e, db2, w1)
                  | (Inr _, db2, w1) \<Rightarrow>
                      (case (if tt_feeStatus (fst afterStatus) = Some PENDING
                             then (case resolveReader readers (tt_chainId (fst afterStatus)) of
                                     Inl e \<Rightarrow> (Inl e, db2) | Inr v \<Rightarrow> refreshFeeStatus v now afterStatus db2)
                             else (Ok afterStatus, db2)) of
                         (Inl e, db3) \<Rightarrow> (Inl e, db3, w1)
                       | (Inr final, db3) \<Rightarrow> (Ok (fst final), db3, w1)))))"

text \<open>C15: when the fee read behind the ceiling check throws, the fee leg's claim is not released:
  the row stays claimed with no hash, every later attempt to submit the leg does nothing, and no
  refresh settles it, so the fee of that trade is never collected.\<close>

theorem fee_leg_claim_leaks:
  assumes "tt_sponsoredByRelayer t" "tt_feeTxHash t = None" "tt_feeStatus t = None" "find_tx db (\<lambda>r. tt_id r = tt_id t) = Some t"
    and "parseUnsignedTx (tq_feeUnsignedTx q) = Some u" "relayed_request u = Ok tx"
    and "re_chainIdToSlug env (tt_chainId t) = Some slug" "slug \<noteq> []" "isConfigured (re_wallet env) slug"
    and "simulate (re_rpc env) (re_wallet env) slug tx w = (Ok (SimOk gas), w1)"
    and "checkGasCeiling (re_parseGwei env) (re_rpc env) (re_wallet env) slug gas w1 = (Err e, w2)"
    and "submitFeeLegIfDue env now (t, q) db w = (r, db', w')"
  shows "r = Err e \<and> (\<exists>t'. find_tx db' (\<lambda>r. tt_id r = tt_id t) = Some t' \<and>
      (\<forall>env' now' w'. submitFeeLegIfDue env' now' (t', q) db' (w' :: 'v) = (Ok (), db', w')) \<and>
      (\<forall>v now'. refresh_fee v now' (t', q) = Ok None))"
proof -
  let ?t' = "t\<lparr>tt_feeStatus := Some PENDING\<rparr>"
  have mem: "t \<in> set (td_txs db)" using assms(4) by (auto simp: find_tx_def dest: find_SomeD)
  then have "count_where (\<lambda>r. tt_id r = tt_id t \<and> tt_feeTxHash r = None \<and> tt_feeStatus r = None) (td_txs db) \<noteq> 0"
    using assms(2,3) by (auto simp: count_where_zero)
  with assms have r: "r = Err e" "db' = snd (claim_fee_leg (tt_id t) db)"
    by (auto simp: submitFeeLegIfDue_def claim_fee_leg_def then_remote_def return_remote_def Let_def split: if_splits)
  have "find (\<lambda>r. tt_id r = tt_id t) (update_where
      (\<lambda>r. tt_id r = tt_id t \<and> tt_feeTxHash r = None \<and> tt_feeStatus r = None)
      (\<lambda>r. r\<lparr>tt_feeStatus := Some PENDING\<rparr>) rows) = Some ?t'"
    if "find (\<lambda>r. tt_id r = tt_id t) rows = Some t" for rows
    using that assms(2,3) by (induction rows) (auto split: if_splits)
  with assms(4) r have "find_tx db' (\<lambda>r. tt_id r = tt_id t) = Some ?t'"
    by (simp add: find_tx_def claim_fee_leg_def Let_def)
  moreover have "submitFeeLegIfDue env' now' (?t', q) db' (w' :: 'v) = (Ok (), db', w')" for env' now' w'
    by (simp add: submitFeeLegIfDue_def)
  moreover have "refresh_fee v now' (?t', q) = Ok None" for v now'
    using assms(2) by (simp add: refresh_fee_def)
  ultimately show ?thesis using r by blast
qed

definition fee_quote :: trade_quote where
  "fee_quote = sample_quote\<lparr>tq_feeUnsignedTx := unsigned_tx_json sample_unsigned\<rparr>"

definition sponsored_tx :: trade_tx where
  "sponsored_tx = sample_tx\<lparr>tt_sponsoredByRelayer := True, tt_status := CONFIRMED\<rparr>"

definition failing_fees_env :: "nat relay_env" where
  "failing_fees_env = sample_env\<lparr>re_rpc := (re_rpc sample_env)
     \<lparr>rpc_estimateFees := (\<lambda>c w. (Err (Error ''timeout''), w))\<rparr>\<rparr>"

theorem fee_leg_claim_leaks_witness:
  "fst (submitFeeLegIfDue failing_fees_env 600 (sponsored_tx, fee_quote)
      \<lparr>td_quotes = [fee_quote], td_txs = [sponsored_tx], td_wallets = [], td_next = 1\<rparr> 7) = Err (Error ''timeout'')"
proof -
  let ?db = "\<lparr>td_quotes = [fee_quote], td_txs = [sponsored_tx], td_wallets = [], td_next = 1\<rparr>"
  let ?tx = "\<lparr>rt_to = ''0xab'', rt_data = ''0xfe'', rt_value = 0\<rparr>"
  obtain r db' w' where run: "submitFeeLegIfDue failing_fees_env 600 (sponsored_tx, fee_quote) ?db 7 = (r, db', w')"
    by (metis prod_cases3)
  have v: "BigInt ''0'' = Ok 0" by code_simp
  have "r = Err (Error ''timeout'') \<and> (\<exists>t'. find_tx db' (\<lambda>r. tt_id r = tt_id sponsored_tx) = Some t' \<and>
      (\<forall>env' now' w'. submitFeeLegIfDue env' now' (t', fee_quote) db' (w' :: nat) = (Ok (), db', w')) \<and>
      (\<forall>v now'. refresh_fee v now' (t', fee_quote) = Ok None))"
    by (rule fee_leg_claim_leaks [OF _ _ _ _ _ _ _ _ _ _ _ run, of sample_unsigned ?tx "''base''" 21000 7])
       (simp_all add: sponsored_tx_def sample_tx_def tx_of_quote_def find_tx_def fee_quote_def sample_quote_def
          relayed_request_def sample_unsigned_def v failing_fees_env_def sample_env_def isConfigured_def forChain_def
          simulate_def then_remote_def return_remote_def requireChain_def checkGasCeiling_def)
  with run show ?thesis by simp
qed

subsection \<open>Concurrent relays of one quote\<close>

text \<open>Calls of \<open>relay\<close> interleave between their claim, their failure marks and their final
  record; each of those is one database statement.  \<open>Claimed i\<close> is a claim that hit a row.\<close>

datatype relay_event = Claimed string | ClaimLost string | OtherWrite

inductive relay_write :: "trade_db \<Rightarrow> relay_event \<Rightarrow> trade_db \<Rightarrow> bool" where
  claim_won: "fst (claim_consent i s db) \<noteq> 0 \<Longrightarrow> relay_write db (Claimed i) (snd (claim_consent i s db))"
| claim_lost: "fst (claim_consent i s db) = 0 \<Longrightarrow> relay_write db (ClaimLost i) (snd (claim_consent i s db))"
| failed: "relay_write db OtherWrite (markFailed i reason db)"
| recorded: "relay_write db OtherWrite (snd (record_broadcast now p q relayer b db))"
| unrelated: "td_quotes db' = td_quotes db \<Longrightarrow> relay_write db OtherWrite db'"

inductive_cases relay_writeE: "relay_write db e db'"

inductive relay_writes :: "trade_db \<Rightarrow> relay_event list \<Rightarrow> trade_db \<Rightarrow> bool" where
  nothing: "relay_writes db [] db"
| next_write: "relay_writes db tr db1 \<Longrightarrow> relay_write db1 e db2 \<Longrightarrow> relay_writes db (tr @ [e]) db2"

definition awaiting :: "string \<Rightarrow> trade_db \<Rightarrow> bool" where
  "awaiting i db \<longleftrightarrow> (\<exists>q\<in>set (td_quotes db). tq_id q = i \<and> tq_relayerStatus q = Some PENDING_CONSENT)"

lemma claim_won_awaiting: "fst (claim_consent i s db) \<noteq> 0 \<Longrightarrow> awaiting i db"
  unfolding claim_consent_def Let_def fst_conv count_where_zero awaiting_def by blast

lemma claim_ends_awaiting:
  assumes "awaiting j (snd (claim_consent i s db))"
  shows "awaiting j db \<and> j \<noteq> i"
proof -
  from assms obtain q where q: "q \<in> set (td_quotes (snd (claim_consent i s db)))" "tq_id q = j"
    "tq_relayerStatus q = Some PENDING_CONSENT"
    unfolding awaiting_def by blast
  from q(1) obtain q0 where "q0 \<in> set (td_quotes db)"
    "q = (if tq_id q0 = i \<and> tq_relayerStatus q0 = Some PENDING_CONSENT
          then q0\<lparr>tq_relayerStatus := Some CONSENT_RECEIVED, tq_relayerConsentSignature := Some s\<rparr> else q0)"
    by (auto simp: claim_consent_def Let_def set_update_where)
  with q(2,3) show ?thesis unfolding awaiting_def by (auto split: if_splits)
qed

lemma quotes_create_tx [simp]: "td_quotes (snd (create_tx now t db)) = td_quotes db"
  by (simp add: create_tx_def Let_def)

lemma awaiting_update_quote:
  assumes "awaiting i (update_quote j f db)"
    and "\<And>q. tq_id (f q) = tq_id q" "\<And>q. tq_relayerStatus (f q) \<noteq> Some PENDING_CONSENT"
  shows "awaiting i db"
proof -
  from assms(1) obtain q where q: "q \<in> set (update_where (\<lambda>q. tq_id q = j) f (td_quotes db))"
    "tq_id q = i" "tq_relayerStatus q = Some PENDING_CONSENT"
    unfolding awaiting_def update_quote_def by auto
  from q(1) obtain q0 where "q0 \<in> set (td_quotes db)" "q = (if tq_id q0 = j then f q0 else q0)"
    unfolding set_update_where by blast
  with q(2,3) assms(2,3) show ?thesis unfolding awaiting_def by (metis (full_types))
qed

lemma relay_write_awaiting:
  assumes "relay_write db e db'" "awaiting i db'"
  shows "awaiting i db \<and> e \<noteq> Claimed i"
  using assms
proof (cases rule: relay_write.cases)
  case (failed j reason)
  with assms(2) have "awaiting i db"
    unfolding markFailed_def by (auto elim!: awaiting_update_quote)
  with failed show ?thesis by simp
next
  case (recorded now p q relayer b)
  obtain r db1 where c: "create_tx now (tx_of_quote q (rp_userId p) (normalizeEvmAddress (rp_walletAddress p))
      (br_txHash b) (Some relayer)) db = (r, db1)" by force
  then have "td_quotes db1 = td_quotes db" by (metis quotes_create_tx snd_conv)
  then have same: "awaiting i db1 \<longleftrightarrow> awaiting i db" by (simp add: awaiting_def)
  have "awaiting i db"
  proof (cases r)
    case (Inl e)
    with recorded assms(2) c same show ?thesis by (auto simp: record_broadcast_def split: option.splits)
  next
    case (Inr t)
    with recorded assms(2) c have "awaiting i (update_quote (tq_id q)
        (\<lambda>q. q\<lparr>tq_relayerStatus := Some BROADCAST, tq_relayerNonce := Some (br_nonce b)\<rparr>) db1)"
      by (simp add: record_broadcast_def)
    then have "awaiting i db1" by (rule awaiting_update_quote) simp_all
    with same show ?thesis by simp
  qed
  with recorded show ?thesis by simp
next
  case (claim_won j s)
  with assms(2) claim_ends_awaiting [of i j s db] show ?thesis by auto
next
  case (claim_lost j s)
  with assms(2) claim_ends_awaiting [of i j s db] show ?thesis by auto
next
  case unrelated
  with assms(2) show ?thesis by (simp add: awaiting_def)
qed

text \<open>C16: a consent is claimed at most once.  However any number of relay calls for a quote
  interleave, at most one of them wins the conditional update, so at most one of them ever goes on
  to broadcast and spend gas for that quote.\<close>

theorem consent_claimed_once:
  assumes "relay_writes db tr db'"
  shows "count_list tr (Claimed i) \<le> 1"
proof -
  have "(awaiting i db' \<longrightarrow> count_list tr (Claimed i) = 0) \<and> count_list tr (Claimed i) \<le> 1"
    using assms
  proof (induction rule: relay_writes.induct)
    case (next_write db tr db1 e db2)
    have "awaiting i db1" if "e = Claimed i"
      using next_write.hyps(2) that by (cases rule: relay_write.cases) (auto intro: claim_won_awaiting)
    with next_write.IH relay_write_awaiting [OF next_write.hyps(2), of i] show ?case by auto
  qed simp
  then show ?thesis by blast
qed

theorem consent_claimed_once_witness:
  "count_list [Claimed ''q1'', ClaimLost ''q1''] (Claimed ''q1'') \<le> 1"
proof -
  let ?db1 = "snd (claim_consent ''q1'' ''consent'' sponsored_db)"
  have "relay_write sponsored_db (Claimed ''q1'') ?db1"
    by (rule relay_write.claim_won) (simp add: claim_consent_def sponsored_db_def sample_quote_def)
  moreover have "relay_write ?db1 (ClaimLost ''q1'') (snd (claim_consent ''q1'' ''consent'' ?db1))"
    by (rule relay_write.claim_lost) (simp add: claim_consent_def sponsored_db_def sample_quote_def)
  ultimately have "relay_writes sponsored_db (([] @ [Claimed ''q1'']) @ [ClaimLost ''q1''])
      (snd (claim_consent ''q1'' ''consent'' ?db1))"
    using relay_writes.nothing relay_writes.next_write by blast
  from consent_claimed_once [OF this, of "''q1''"] show ?thesis by simp
qed

end
