(* ===== verification/TradeInv.thy ===== *)
theory TradeInv
  imports TradeApi
begin

section \<open>Invariant of the trade tables under every operation\<close>

text \<open>
  The operations of the API, the relayer and the background worker as one step relation on the
  trade tables, and the invariant every reachable state satisfies: a transaction is unique for its
  quote and for its (chain, hash), and carries its quote's owner, wallet and terms.
\<close>

definition trade_key :: "trade_tx \<Rightarrow> trade_tx" where
  "trade_key t = t\<lparr>tt_status := PENDING, tt_failureReason := None, tt_feeTxHash := None, tt_feeStatus := None,
     tt_feeFailureReason := None, tt_feeSubmittedAt := None, tt_feeConfirmedAt := None, tt_confirmedAt := None\<rparr>"

definition quote_key :: "trade_quote \<Rightarrow> trade_quote" where
  "quote_key q = q\<lparr>tq_sponsorshipRequested := False, tq_relayerConsentSignature := None,
     tq_relayerStatus := None, tq_relayerNonce := None, tq_relayerFailureReason := None\<rparr>"

definition of_quote :: "trade_tx \<Rightarrow> trade_quote \<Rightarrow> bool" where
  "of_quote t q \<longleftrightarrow> tt_quoteId t = tq_id q \<and> tt_userId t = tq_userId q
     \<and> tt_walletAddress t = normalizeEvmAddress (tq_walletAddress q) \<and> tt_chainId t = tq_chainId q
     \<and> tt_tokenMarketId t = tq_tokenMarketId q \<and> tt_side t = tq_side q
     \<and> tt_inputToken t = tq_inputToken q \<and> tt_outputToken t = tq_outputToken q
     \<and> tt_inputAmount t = tq_inputAmount q \<and> tt_expectedOutputAmount t = tq_expectedOutputAmount q
     \<and> tt_platformFeeAmount t = tq_platformFeeAmount q"

definition keys_inv :: "trade_tx list \<Rightarrow> trade_quote list \<Rightarrow> nat \<Rightarrow> bool" where
  "keys_inv ts qs n \<longleftrightarrow>
     (\<forall>t\<in>set ts. \<exists>i<n. tt_id t = string_of_int (int i)) \<and> distinct (map tt_id ts)
     \<and> distinct (map tt_quoteId ts) \<and> distinct (map (\<lambda>t. (tt_chainId t, tt_txHash t)) ts)
     \<and> (\<forall>t\<in>set ts. \<exists>q\<in>set qs. of_quote t q)"

definition trade_inv :: "trade_db \<Rightarrow> bool" where
  "trade_inv db \<longleftrightarrow> keys_inv (map trade_key (td_txs db)) (map quote_key (td_quotes db)) (td_next db)"

lemma of_quote_keys [simp]: "of_quote (trade_key t) (quote_key q) = of_quote t q"
  by (simp add: of_quote_def trade_key_def quote_key_def)

lemma trade_key_fields [simp]:
  "tt_id (trade_key t) = tt_id t" "tt_quoteId (trade_key t) = tt_quoteId t"
  "tt_chainId (trade_key t) = tt_chainId t" "tt_txHash (trade_key t) = tt_txHash t"
  by (simp_all add: trade_key_def)

lemma trade_inv_iff:
  "trade_inv db \<longleftrightarrow>
     (\<forall>t\<in>set (td_txs db). \<exists>i<td_next db. tt_id t = string_of_int (int i)) \<and> distinct (map tt_id (td_txs db))
     \<and> distinct (map tt_quoteId (td_txs db)) \<and> distinct (map (\<lambda>t. (tt_chainId t, tt_txHash t)) (td_txs db))
     \<and> (\<forall>t\<in>set (td_txs db). \<exists>q\<in>set (td_quotes db). of_quote t q)"
  by (simp add: trade_inv_def keys_inv_def comp_def)

text \<open>What an operation may change freely: everything outside the keys.\<close>

definition same_keys :: "trade_db \<Rightarrow> trade_db \<Rightarrow> bool" where
  "same_keys db db' \<longleftrightarrow> map trade_key (td_txs db') = map trade_key (td_txs db)
     \<and> map quote_key (td_quotes db') = map quote_key (td_quotes db) \<and> td_next db' = td_next db"

lemma same_keys_refl [simp, inv_intros]: "same_keys db db" by (simp add: same_keys_def)

lemma same_keys_trans: "same_keys a b \<Longrightarrow> same_keys b c \<Longrightarrow> same_keys a c"
  by (simp add: same_keys_def)

lemma same_keys_inv [inv_intros]: "same_keys db db' \<Longrightarrow> trade_inv db \<Longrightarrow> trade_inv db'"
  by (simp add: same_keys_def trade_inv_def)

lemma same_keys_update_tx [inv_intros]:
  "(\<And>t. trade_key (f t) = trade_key t) \<Longrightarrow> same_keys db (update_tx i f db)"
  by (simp add: same_keys_def update_tx_def map_update_where_key)

lemma same_keys_update_quote [inv_intros]:
  "(\<And>q. quote_key (f q) = quote_key q) \<Longrightarrow> same_keys db (update_quote i f db)"
  by (simp add: same_keys_def update_quote_def map_update_where_key)

lemma same_keys_claims [inv_intros]:
  "same_keys db (snd (claim_consent i s db))" "same_keys db (snd (claim_fee_leg i db))"
  by (simp_all add: same_keys_def claim_consent_def claim_fee_leg_def Let_def map_update_where_key
        trade_key_def quote_key_def)

lemma same_keys_marks [inv_intros]:
  "same_keys db (markFailed i reason db)" "same_keys db (releaseFeeLegClaim i db)"
  unfolding markFailed_def releaseFeeLegClaim_def
  by (auto intro!: inv_intros simp: trade_key_def quote_key_def)

lemma refresh_keeps_key:
  "refresh_swap v now row = Ok (Some f) \<Longrightarrow> trade_key (f r) = trade_key r"
  "refresh_fee v now row = Ok (Some f) \<Longrightarrow> trade_key (f r) = trade_key r"
  by (auto simp: refresh_swap_def refresh_fee_def bind_result_Ok_iff mark_defs trade_key_def Let_def
           split: prod.splits if_splits option.splits)

lemma same_keys_apply_change:
  assumes "\<And>f t. c = Some f \<Longrightarrow> trade_key (f t) = trade_key t"
  shows "same_keys db (snd (apply_change row c db))" "same_keys db (write_change t c db)"
  using assms
  by (auto simp: apply_change_def write_change_def Let_def split: option.splits intro: inv_intros)

lemma same_keys_refresh [inv_intros]:
  "same_keys db (snd (refreshStatus v now row db))" "same_keys db (snd (refreshFeeStatus v now row db))"
proof -
  show "same_keys db (snd (refreshStatus v now row db))"
    by (cases "refresh_swap v now row")
       (auto simp: refreshStatus_def split_def Let_def intro!: same_keys_apply_change(1) refresh_keeps_key(1))
  show "same_keys db (snd (refreshFeeStatus v now row db))"
    by (cases "refresh_fee v now row")
       (auto simp: refreshFeeStatus_def split_def Let_def intro!: same_keys_apply_change(1) refresh_keeps_key(2))
qed

lemma same_keys_fold:
  "(\<And>x db. same_keys db (g x db)) \<Longrightarrow> same_keys db (fold g xs db)"
  by (induction xs arbitrary: db) (auto intro: same_keys_trans)

lemma same_keys_sweeps [inv_intros]:
  "same_keys db (fst (sweepPendingTransactions answers now chainId db))"
  "same_keys db (fst (sweepPendingFeeTransactions answers now chainId db))"
  unfolding swap_tick fee_tick
  by (rule same_keys_fold, rule same_keys_apply_change(2),
      auto dest!: api_swap.row_change_SomeD api_fee.row_change_SomeD intro: refresh_keeps_key)+

lemma same_keys_fee_leg [inv_intros]: "same_keys db (fst (snd (submitFeeLegIfDue env now row db w)))"
proof -
  have "same_keys db (releaseFeeLegClaim i (snd (claim_fee_leg j db)))" for i j
    by (rule same_keys_trans [OF same_keys_claims(2) same_keys_marks(2)])
  moreover have "same_keys db (update_tx i (\<lambda>t. t\<lparr>tt_feeTxHash := h, tt_feeSubmittedAt := m\<rparr>)
      (snd (claim_fee_leg j db)))" for i j h m
    by (rule same_keys_trans [OF same_keys_claims(2) same_keys_update_tx]) (simp add: trade_key_def)
  ultimately show ?thesis
    using same_keys_claims(2) [of db]
    by (auto simp: submitFeeLegIfDue_def claim_fee_leg_def Let_def
             split: prod.splits option.splits sum.splits simulation.splits ceiling_check.splits)
qed

subsection \<open>Creating rows\<close>

lemma create_tx_Err: "create_tx now t db = (Err e, db') \<Longrightarrow> db' = db"
  by (auto simp: create_tx_def Let_def split: if_splits)

lemma create_tx_inv:
  assumes "trade_inv db" "create_tx now t db = (r, db')" "\<exists>q\<in>set (td_quotes db). of_quote t q"
  shows "trade_inv db'"
proof (cases "db' = db")
  case False
  let ?t = "t\<lparr>tt_id := string_of_int (int (td_next db)), tt_submittedAt := now, tt_createdAt := now\<rparr>"
  from assms(2) False have db': "db' = db\<lparr>td_txs := td_txs db @ [?t], td_next := Suc (td_next db)\<rparr>"
    and fresh: "\<forall>r\<in>set (td_txs db). tt_quoteId r \<noteq> tt_quoteId t
        \<and> \<not> (tt_chainId r = tt_chainId t \<and> tt_txHash r = tt_txHash t)"
    by (auto simp: create_tx_def Let_def split: if_splits)
  have "tt_id r \<noteq> string_of_int (int (td_next db))" if "r \<in> set (td_txs db)" for r
    using assms(1) that by (fastforce simp: trade_inv_iff string_of_int_inj)
  moreover have "\<exists>q\<in>set (td_quotes db). of_quote ?t q" using assms(3) by (simp add: of_quote_def)
  ultimately show ?thesis
    using assms(1) fresh by (auto simp: db' trade_inv_iff less_Suc_eq)
qed (use assms(1) in simp)

lemma submit_checks_OkD:
  "submit_checks readers now p db = Ok q \<Longrightarrow>
     q \<in> set (td_quotes db) \<and> tq_id q = sp_quote p \<and> tq_userId q = sp_user p
     \<and> normalizeEvmAddress (tq_walletAddress q) = normalizeEvmAddress (sp_wallet p)
     \<and> now < tq_expiresAt q \<and> wallet_verified db (normalizeEvmAddress (sp_wallet p)) (sp_user p)"
  by (auto simp: submit_checks_def bind_result_Ok_iff find_quote_def Let_def
           split: option.splits if_splits dest: find_SomeD)

lemma tx_of_quote_of:
  "tq_userId q = u \<Longrightarrow> normalizeEvmAddress (tq_walletAddress q) = a \<Longrightarrow> of_quote (tx_of_quote q u a h r) q"
  by (simp add: of_quote_def tx_of_quote_def)

lemma submitTransaction_inv [inv_intros]:
  assumes "trade_inv db"
  shows "trade_inv (snd (submitTransaction readers now p db))"
proof (cases "is_tx_hash (sp_txHash p) \<and> find_tx db (\<lambda>t. tt_quoteId t = sp_quote p) = None
    \<and> is_ok (submit_checks readers now p db)")
  case True
  then obtain q where q: "submit_checks readers now p db = Ok q" by (auto simp: is_ok_def split: sum.splits)
  let ?t = "tx_of_quote q (sp_user p) (normalizeEvmAddress (sp_wallet p)) (sp_txHash p) None"
  obtain r db1 where c: "create_tx now ?t db = (r, db1)" by force
  have "\<exists>q\<in>set (td_quotes db). of_quote ?t q"
    using submit_checks_OkD [OF q] by (auto intro: tx_of_quote_of)
  from create_tx_inv [OF assms c this] True q c show ?thesis
    by (auto simp: submitTransaction_def split: sum.splits option.splits)
next
  case False
  then have "snd (submitTransaction readers now p db) = db"
    by (auto simp: submitTransaction_def is_ok_def split: option.splits sum.splits)
  with assms show ?thesis by simp
qed

lemma submitFee_same_keys:
  "same_keys db (snd (submitFeeTransaction readers now userId i h db))"
proof -
  have "same_keys db db'" if "set_fee_hash now' t h' db = Ok db'" for now' t h' db'
    using that by (auto simp: set_fee_hash_def trade_key_def split: if_splits intro!: same_keys_update_tx)
  then show ?thesis
    by (auto simp: submitFeeTransaction_def Let_def split: option.splits sum.splits)
qed

lemma record_broadcast_inv:
  assumes "trade_inv db" "\<exists>q'\<in>set (td_quotes db). quote_key q' = quote_key q" "tq_userId q = rp_userId p"
    and "normalizeEvmAddress (tq_walletAddress q) = normalizeEvmAddress (rp_walletAddress p)"
  shows "trade_inv (snd (record_broadcast now p q relayer b db))"
proof -
  let ?t = "tx_of_quote q (rp_userId p) (normalizeEvmAddress (rp_walletAddress p)) (br_txHash b) (Some relayer)"
  obtain r db1 where c: "create_tx now ?t db = (r, db1)" by force
  have "of_quote ?t q" using assms by (intro tx_of_quote_of)
  with assms(2) have "\<exists>q'\<in>set (td_quotes db). of_quote ?t q'" by (metis of_quote_keys)
  with create_tx_inv [OF assms(1) c] have "trade_inv db1" by blast
  moreover have "same_keys db1 (update_quote (tq_id q)
      (\<lambda>q. q\<lparr>tq_relayerStatus := Some BROADCAST, tq_relayerNonce := Some (br_nonce b)\<rparr>) db1)"
    by (rule same_keys_update_quote) (simp add: quote_key_def)
  ultimately show ?thesis using c
    by (auto simp: record_broadcast_def split: sum.splits option.splits intro: same_keys_inv)
qed

lemma claim_keeps_quote:
  assumes "q \<in> set (td_quotes db)"
  shows "\<exists>q'\<in>set (td_quotes (snd (claim_consent i s db))). quote_key q' = quote_key q"
proof -
  have "quote_key q \<in> set (map quote_key (td_quotes db))" using assms by simp
  also have "map quote_key (td_quotes db) = map quote_key (td_quotes (snd (claim_consent i s db)))"
    using same_keys_claims(1) [of db i s] by (simp add: same_keys_def)
  finally have "quote_key q \<in> quote_key ` set (td_quotes (snd (claim_consent i s db)))" by simp
  then show ?thesis by (metis imageE)
qed

lemma relay_claimed_inv:
  assumes "trade_inv db" "\<exists>q'\<in>set (td_quotes db). quote_key q' = quote_key q" "tq_userId q = rp_userId p"
    and "normalizeEvmAddress (tq_walletAddress q) = normalizeEvmAddress (rp_walletAddress p)"
  shows "trade_inv (fst (snd (relay_claimed env now p q slug relayer u db w)))"
  using assms(1) record_broadcast_inv [OF assms, of now relayer]
    same_keys_inv [OF same_keys_marks(1) assms(1)]
  by (auto simp: relay_claimed_def Let_def split: prod.splits sum.splits simulation.splits ceiling_check.splits)
     (metis snd_conv)+

lemma relay_inv_trade [inv_intros]:
  assumes "trade_inv db"
  shows "trade_inv (fst (snd (relay env now p db w)))"
proof (cases "find_tx db (\<lambda>t. tt_quoteId t = rp_quoteId p) = None \<and> is_ok (relay_checks env now p db)")
  case True
  then obtain q slug relayer u where chk: "relay_checks env now p db = Ok (q, slug, relayer, u)"
    by (auto simp: is_ok_def split: sum.splits)
  note c = relay_checks_OkD [OF chk]
  let ?c = "claim_consent (tq_id q) (rp_signature p) db"
  from c have "q \<in> set (td_quotes db)" by (auto simp: find_quote_def dest: find_SomeD)
  then have ex: "\<exists>q'\<in>set (td_quotes (snd ?c)). quote_key q' = quote_key q" by (rule claim_keeps_quote)
  have inv1: "trade_inv (snd ?c)" by (rule same_keys_inv [OF same_keys_claims(1) assms])
  have "trade_inv (fst (snd (relay_claimed env now p q slug relayer u (snd ?c) w)))"
    by (rule relay_claimed_inv [OF inv1 ex]) (use c in simp_all)
  note this inv1
  then show ?thesis using True chk by (cases ?c) (auto simp: relay_def)
next
  case False
  then have "fst (snd (relay env now p db w)) = db
      \<or> (\<exists>reason. fst (snd (relay env now p db w)) = markFailed (rp_quoteId p) reason db)"
    by (auto simp: relay_def is_ok_def split: option.splits sum.splits prod.splits)
  with assms same_keys_inv [OF same_keys_marks(1) assms] show ?thesis by auto
qed

subsection \<open>Every reachable state\<close>

inductive trade_step :: "'w relay_env \<Rightarrow> trade_db \<Rightarrow> trade_db \<Rightarrow> bool" for env where
  new_quote: "\<forall>r\<in>set (td_quotes db). tq_id r \<noteq> tq_id q \<Longrightarrow> trade_step env db (db\<lparr>td_quotes := td_quotes db @ [q]\<rparr>)"
| wallets: "trade_step env db (db\<lparr>td_wallets := ws\<rparr>)"
| offer: "trade_step env db (snd (attachSponsorshipIfEligible env q u b db))"
| submit: "trade_step env db (snd (submitTransaction readers now p db))"
| submit_fee: "trade_step env db (snd (submitFeeTransaction readers now userId i h db))"
| relayed: "trade_step env db (fst (snd (relay env now rp db w)))"
| refresh: "trade_step env db (snd (refreshStatus v now row db))"
| refresh_fee: "trade_step env db (snd (refreshFeeStatus v now row db))"
| fee_leg: "trade_step env db (fst (snd (submitFeeLegIfDue env now row db w)))"
| sweep: "trade_step env db (fst (sweepPendingTransactions answers now chainId db))"
| sweep_fee: "trade_step env db (fst (sweepPendingFeeTransactions answers now chainId db))"

lemma trade_step_inv:
  assumes "trade_step env db db'" "trade_inv db"
  shows "trade_inv db'"
  using assms
proof (induction rule: trade_step.induct)
  case (new_quote db q)
  then show ?case by (auto simp: trade_inv_iff)
next
  case (wallets db ws)
  then show ?case by (simp add: trade_inv_iff)
next
  case (offer db q u b)
  then show ?case
    using same_keys_inv [OF same_keys_update_quote [of "\<lambda>r. r\<lparr>tq_sponsorshipRequested := True,
        tq_relayerStatus := Some PENDING_CONSENT\<rparr>" db "tq_id q"]]
    by (simp add: attachSponsorshipIfEligible_def Let_def quote_key_def)
next
  case (submit_fee db readers now userId i h)
  then show ?case by (rule same_keys_inv [OF submitFee_same_keys])
qed (auto intro: inv_intros)

text \<open>C17: in every state the API, the relayer and the worker can reach, in any order of their
  operations, a quote has at most one transaction, a (chain, hash) is recorded at most once, and
  every transaction carries exactly the owner, wallet, tokens and amounts of its quote.\<close>

theorem trades_reflect_quotes:
  assumes "(trade_step env)\<^sup>*\<^sup>* \<lparr>td_quotes = [], td_txs = [], td_wallets = [], td_next = 0\<rparr> db"
    and "t \<in> set (td_txs db)"
  shows "(\<exists>q\<in>set (td_quotes db). of_quote t q)
     \<and> (\<forall>t'\<in>set (td_txs db). tt_quoteId t' = tt_quoteId t \<or> (tt_chainId t' = tt_chainId t \<and> tt_txHash t' = tt_txHash t)
          \<longrightarrow> t' = t)"
proof -
  have "trade_inv \<lparr>td_quotes = [], td_txs = [], td_wallets = [], td_next = 0\<rparr>"
    by (simp add: trade_inv_iff)
  with assms(1) have "trade_inv db"
    by (induction rule: rtranclp_induct) (auto intro: trade_step_inv)
  then have d: "distinct (map tt_quoteId (td_txs db))" "distinct (map (\<lambda>t. (tt_chainId t, tt_txHash t)) (td_txs db))"
    and q: "\<exists>q\<in>set (td_quotes db). of_quote t q"
    using assms(2) by (auto simp: trade_inv_iff)
  show ?thesis
    using q distinct_map_unique [OF d(1) _ assms(2)] distinct_map_unique [OF d(2) _ assms(2)] by auto
qed

theorem trades_reflect_quotes_witness:
  "\<exists>(db :: trade_db) t. t \<in> set (td_txs db) \<and> (\<exists>q\<in>set (td_quotes db). of_quote t q)"
proof -
  let ?empty = "\<lparr>td_quotes = [], td_txs = [], td_wallets = [], td_next = 0\<rparr>"
  let ?db = "fst (snd (relay sample_env 500 sample_relay sponsored_db 7))"
  have 1: "trade_step sample_env ?empty sponsored_db"
    using trade_step.new_quote [of ?empty "hd (td_quotes sponsored_db)" sample_env]
    by (simp add: sponsored_db_def)
  have 2: "trade_step sample_env sponsored_db ?db" by (rule trade_step.relayed)
  from 1 have "(trade_step sample_env)\<^sup>*\<^sup>* ?empty sponsored_db" by (rule r_into_rtranclp)
  then have reach: "(trade_step sample_env)\<^sup>*\<^sup>* ?empty ?db"
    using 2 by (rule rtranclp.rtrancl_into_rtrancl)
  have "td_txs ?db \<noteq> []" by code_simp
  then have mem: "hd (td_txs ?db) \<in> set (td_txs ?db)" by simp
  show ?thesis
    by (rule exI [of _ ?db], rule exI [of _ "hd (td_txs ?db)"],
        rule conjI [OF mem conjunct1 [OF trades_reflect_quotes [OF reach mem]]])
qed

text \<open>The refresh writes by id whatever the row has become since it was read: a refresh holding a
  stale PENDING row, whose node shows no receipt after the timeout, turns a CONFIRMED row EXPIRED.\<close>

lemma stale_refresh_overwrites_confirmed:
  assumes "find_tx db (\<lambda>r. tt_id r = tt_id t) = Some t'" "tt_status t' = CONFIRMED"
    and "getTransactionReceiptStatus v (tt_txHash t) = None" "timed_out now (tt_submittedAt t)"
  shows "\<exists>row db'. refreshStatus v now (t, q) db = (Ok row, db') \<and> tt_status (fst row) = EXPIRED
     \<and> find_tx db' (\<lambda>r. tt_id r = tt_id t) = Some (fst row)"
proof -
  let ?db' = "update_tx (tt_id t) mark_swap_expired db"
  have "tt_id (mark_swap_expired r) = tt_id r" for r by (simp add: mark_swap_expired_def)
  with assms(1) have found: "find_tx ?db' (\<lambda>r. tt_id r = tt_id t) = Some (mark_swap_expired t')"
    by (simp add: find_tx_def update_tx_def find_update_where)
  have "refresh_swap v now (t, q) = Ok (Some mark_swap_expired)"
    using assms(3,4) by (simp add: refresh_swap_def)
  then have "refreshStatus v now (t, q) db = (Ok (mark_swap_expired t', q), ?db')"
    using found by (simp add: refreshStatus_def apply_change_def Let_def)
  moreover have "tt_status (mark_swap_expired t') = EXPIRED" by (simp add: mark_swap_expired_def)
  ultimately show ?thesis using found by (metis fst_conv)
qed

end
