(* ===== verification/SolanaGuard.thy ===== *)
theory SolanaGuard
  imports Resilience Consent
begin

section \<open>Solana gas relayer: the instruction guard and the transaction builder\<close>

text \<open>
  \<open>apps/api/src/solana/gas-relayer-instruction-guard.ts\<close>,
  \<open>gas-relayer-transaction-builder.ts\<close>, the relay-deposit reader of
  \<open>gas-relayer.service.ts\<close>, \<open>new-coin-setup-fee.ts\<close> and \<open>solana-quote-match.ts\<close>.  The
  program ids of web3.js and spl-token are documented constants of those packages.
\<close>

type_synonym byte = "8 word"

definition nth_opt :: "'a list \<Rightarrow> nat \<Rightarrow> 'a option" where
  "nth_opt xs i = (if i < length xs then Some (xs ! i) else None)"

lemma nth_opt_Some: "nth_opt xs i = Some x \<longleftrightarrow> i < length xs \<and> xs ! i = x"
  by (auto simp: nth_opt_def)

subsection \<open>The allowlist\<close>

definition SYSTEM_PROGRAM_ID :: string where
  "SYSTEM_PROGRAM_ID = ''11111111111111111111111111111111''"
definition COMPUTE_BUDGET_PROGRAM_ID :: string where
  "COMPUTE_BUDGET_PROGRAM_ID = ''ComputeBudget111111111111111111111111111111''"
definition TOKEN_PROGRAM_ID :: string where
  "TOKEN_PROGRAM_ID = ''TokenkegQfeZyiNwAJbNbGKPFXCWuBvf9Ss623VQ5DA''"
definition TOKEN_2022_PROGRAM_ID :: string where
  "TOKEN_2022_PROGRAM_ID = ''TokenzQdBNbLqP5VEhdkAS6EPFLC1PHnBqCXEpPxuEb''"
definition ATA_PROGRAM_ID :: string where
  "ATA_PROGRAM_ID = ''ATokenGPvbdGVxr1b2hvZbsiqW5xWH25efTNsLJA8knL''"
definition CloseAccount :: byte where "CloseAccount = 9"

definition JUPITER_V6_PROGRAM_ID :: string where
  "JUPITER_V6_PROGRAM_ID = ''JUP6LkbZbjS1jKKwapdHNy74zcZ3tLUZoi5QNyVTaV4''"
definition JUPITER_V6_PROGRAM_ID_SECONDARY :: string where
  "JUPITER_V6_PROGRAM_ID_SECONDARY = ''JUPyiwrYJFskUPiHa7hkeR8VUtAeFoSYbKedZNsDvCN''"

definition JUPITER_PROGRAM_IDS :: "string list" where
  "JUPITER_PROGRAM_IDS = [JUPITER_V6_PROGRAM_ID, JUPITER_V6_PROGRAM_ID_SECONDARY]"

definition ALLOWED_PROGRAM_IDS :: "string list" where
  "ALLOWED_PROGRAM_IDS = [SYSTEM_PROGRAM_ID, COMPUTE_BUDGET_PROGRAM_ID, TOKEN_PROGRAM_ID,
     TOKEN_2022_PROGRAM_ID, ATA_PROGRAM_ID] @ JUPITER_PROGRAM_IDS"

definition TOKEN_PROGRAM_IDS :: "string list" where
  "TOKEN_PROGRAM_IDS = [TOKEN_PROGRAM_ID, TOKEN_2022_PROGRAM_ID]"

definition MAX_ALLOWED_WSOL_CLOSES :: nat where "MAX_ALLOWED_WSOL_CLOSES = 2"

subsection \<open>The guard\<close>

record ResolvedInstruction =
  ri_programId :: string
  ri_data :: "byte list"
  ri_accounts :: "string list"

definition isAtaCreateInstruction :: "ResolvedInstruction \<Rightarrow> bool" where
  "isAtaCreateInstruction ix =
     (ri_programId ix = ATA_PROGRAM_ID \<and> (ri_data ix = [] \<or> ri_data ix = [1]))"

definition is_close :: "ResolvedInstruction \<Rightarrow> bool" where
  "is_close ix = (ri_programId ix \<in> set TOKEN_PROGRAM_IDS \<and> nth_opt (ri_data ix) 0 = Some CloseAccount)"

definition checkCloseAccount ::
    "ResolvedInstruction \<Rightarrow> ResolvedInstruction list \<Rightarrow> string list \<Rightarrow> (string, string) result" where
  "checkCloseAccount ix priorInstructions acceptableCloseDestinations =
     (case (nth_opt (ri_accounts ix) 0, nth_opt (ri_accounts ix) 1) of
        (Some target, Some destination) \<Rightarrow>
          if target = [] \<or> destination = []
          then Err ''Instruction closes a token account with an unresolvable account list''
          else if destination \<notin> set acceptableCloseDestinations
          then Err ''Instruction closes a token account to a foreign destination''
          else (case find (\<lambda>prior. isAtaCreateInstruction prior \<and> nth_opt (ri_accounts prior) 1 = Some target)
                       priorInstructions of
              None \<Rightarrow> Err ''Instruction closes a token account with no matching creation''
            | Some matchingCreate \<Rightarrow>
                if nth_opt (ri_accounts matchingCreate) 3 \<noteq> Some SOLANA_NATIVE_MINT
                then Err ''Instruction closes a token account for a mint other than wrapped SOL''
                else Ok target)
      | _ \<Rightarrow> Err ''Instruction closes a token account with an unresolvable account list'')"

text \<open>The loop: \<open>prior\<close> is \<open>instructions.slice(0, i)\<close>.\<close>

fun guard_loop ::
    "string list \<Rightarrow> ResolvedInstruction list \<Rightarrow> ResolvedInstruction list \<Rightarrow> string list \<Rightarrow> nat
     \<Rightarrow> (string, string list \<times> nat) result" where
  "guard_loop dests prior [] closes jupiterRouteCount = Ok (closes, jupiterRouteCount)"
| "guard_loop dests prior (ix # rest) closes jupiterRouteCount =
     (if ri_programId ix \<notin> set ALLOWED_PROGRAM_IDS
      then Err ''Instruction targets a program not on the allowlist''
      else
        bind_result
          (if is_close ix then
             (if MAX_ALLOWED_WSOL_CLOSES \<le> length closes
              then Err ''Too many token-account closes in one transaction''
              else bind_result (checkCloseAccount ix prior dests) (\<lambda>target. Ok (closes @ [target])))
           else Ok closes)
          (\<lambda>closes'.
            guard_loop dests (prior @ [ix]) rest closes'
              (if ri_programId ix \<in> set JUPITER_PROGRAM_IDS then Suc jupiterRouteCount else jupiterRouteCount)))"

definition validateRelayerInstructions ::
    "ResolvedInstruction list \<Rightarrow> string list \<Rightarrow> (string, string list) result" where
  "validateRelayerInstructions instructions acceptableCloseDestinations =
     (if instructions = [] then Err ''Transaction has no instructions''
      else bind_result (guard_loop acceptableCloseDestinations [] instructions [] 0) (\<lambda>r.
        case r of (closes, jupiterRouteCount) \<Rightarrow>
          if jupiterRouteCount = 0 then Err ''No Jupiter swap instruction found''
          else if 1 < jupiterRouteCount then Err ''Expected exactly one Jupiter route instruction''
          else Ok closes))"

text \<open>A close the guard lets through, at position \<open>i\<close> of the list.\<close>

definition close_paired :: "ResolvedInstruction list \<Rightarrow> nat \<Rightarrow> string list \<Rightarrow> string \<Rightarrow> bool" where
  "close_paired ixs i dests target \<longleftrightarrow>
     nth_opt (ri_accounts (ixs ! i)) 0 = Some target
     \<and> (\<exists>d\<in>set dests. nth_opt (ri_accounts (ixs ! i)) 1 = Some d)
     \<and> (\<exists>j<i. isAtaCreateInstruction (ixs ! j) \<and> nth_opt (ri_accounts (ixs ! j)) 1 = Some target
          \<and> nth_opt (ri_accounts (ixs ! j)) 3 = Some SOLANA_NATIVE_MINT)"

lemma checkCloseAccount_OkD:
  assumes "checkCloseAccount ix prior dests = Ok target"
  shows "close_paired (prior @ ix # rest) (length prior) dests target"
proof -
  from assms obtain create where "create \<in> set prior" "isAtaCreateInstruction create"
    "nth_opt (ri_accounts create) 1 = Some target" "nth_opt (ri_accounts create) 3 = Some SOLANA_NATIVE_MINT"
    and t: "nth_opt (ri_accounts ix) 0 = Some target" "\<exists>d\<in>set dests. nth_opt (ri_accounts ix) 1 = Some d"
    by (auto simp: checkCloseAccount_def split: option.splits if_splits dest!: find_SomeD)
  then obtain j where "j < length prior" "prior ! j = create" by (auto simp: in_set_conv_nth)
  then have "(prior @ ix # rest) ! j = create" by (simp add: nth_append)
  with t \<open>j < length prior\<close> \<open>isAtaCreateInstruction create\<close>
    \<open>nth_opt (ri_accounts create) 1 = Some target\<close> \<open>nth_opt (ri_accounts create) 3 = Some SOLANA_NATIVE_MINT\<close>
  show ?thesis unfolding close_paired_def by (simp, intro exI [of _ j]) simp
qed

lemma guard_loop_sound:
  assumes "guard_loop dests prior ixs closes n = Ok (closes', m)" "length closes \<le> MAX_ALLOWED_WSOL_CLOSES"
  shows "(\<forall>ix\<in>set ixs. ri_programId ix \<in> set ALLOWED_PROGRAM_IDS)
    \<and> m = n + count_where (\<lambda>ix. ri_programId ix \<in> set JUPITER_PROGRAM_IDS) ixs
    \<and> length closes' \<le> MAX_ALLOWED_WSOL_CLOSES \<and> set closes \<subseteq> set closes'
    \<and> length closes' = length closes + count_where is_close ixs
    \<and> (\<forall>i. length prior \<le> i \<and> i < length (prior @ ixs) \<and> is_close ((prior @ ixs) ! i) \<longrightarrow>
          (\<exists>target\<in>set closes'. close_paired (prior @ ixs) i dests target))"
  using assms
proof (induction ixs arbitrary: prior closes n)
  case (Cons ix ixs)
  from Cons.prems obtain closes1 where allowed: "ri_programId ix \<in> set ALLOWED_PROGRAM_IDS"
    and c1: "closes1 = closes \<and> \<not> is_close ix \<or>
        (\<exists>t. is_close ix \<and> checkCloseAccount ix prior dests = Ok t \<and> closes1 = closes @ [t]
           \<and> length closes < MAX_ALLOWED_WSOL_CLOSES)"
    and rec: "guard_loop dests (prior @ [ix]) ixs closes1
        (if ri_programId ix \<in> set JUPITER_PROGRAM_IDS then Suc n else n) = Ok (closes', m)"
    by (auto simp: bind_result_Ok_iff not_le split: if_splits)
  from c1 Cons.prems(2) have len: "length closes1 \<le> MAX_ALLOWED_WSOL_CLOSES"
    "length closes1 = length closes + (if is_close ix then 1 else 0)" "set closes \<subseteq> set closes1" by auto
  note IH = Cons.IH [OF rec len(1)]
  have "\<exists>target\<in>set closes'. close_paired (prior @ ix # ixs) i dests target"
    if "length prior \<le> i" "i < length (prior @ ix # ixs)" "is_close ((prior @ ix # ixs) ! i)" for i
  proof (cases "i = length prior")
    case True
    with that(3) c1 obtain t where "checkCloseAccount ix prior dests = Ok t" "closes1 = closes @ [t]" by auto
    with IH checkCloseAccount_OkD [of ix prior dests t ixs] True show ?thesis by auto
  next
    case False
    with that IH show ?thesis by auto
  qed
  with IH allowed len show ?case by auto
qed auto

text \<open>C18: a transaction the guard accepts touches allowlisted programs only, holds exactly one
  Jupiter instruction, and closes at most two token accounts, each of them created as a wrapped-SOL
  account earlier in the same transaction, reported for the freshness check, and refunded only to
  the fee payer or the caller's wallet.\<close>

theorem guard_accepts_only_safe_shapes:
  assumes "validateRelayerInstructions ixs dests = Ok closes"
  shows "(\<forall>ix\<in>set ixs. ri_programId ix \<in> set ALLOWED_PROGRAM_IDS)
    \<and> count_where (\<lambda>ix. ri_programId ix \<in> set JUPITER_PROGRAM_IDS) ixs = 1
    \<and> count_where is_close ixs = length closes \<and> length closes \<le> MAX_ALLOWED_WSOL_CLOSES
    \<and> (\<forall>i<length ixs. is_close (ixs ! i) \<longrightarrow> (\<exists>target\<in>set closes. close_paired ixs i dests target))"
proof -
  from assms obtain m where run: "guard_loop dests [] ixs [] 0 = Ok (closes, m)" and "m = 1"
    by (auto simp: validateRelayerInstructions_def bind_result_Ok_iff split: if_splits prod.splits)
  from guard_loop_sound [OF run] \<open>m = 1\<close> show ?thesis by auto
qed

text \<open>A wrapped-SOL account opened, used by Jupiter and closed to the user.\<close>

definition wsol_swap :: "ResolvedInstruction list" where
  "wsol_swap =
     [\<lparr>ri_programId = ATA_PROGRAM_ID, ri_data = [1], ri_accounts = [''Relayer'', ''Wsol'', ''User'', SOLANA_NATIVE_MINT]\<rparr>,
      \<lparr>ri_programId = JUPITER_V6_PROGRAM_ID, ri_data = [2], ri_accounts = [''Wsol'']\<rparr>,
      \<lparr>ri_programId = TOKEN_PROGRAM_ID, ri_data = [9], ri_accounts = [''Wsol'', ''User'', ''User'']\<rparr>]"

lemma wsol_swap_accepted: "validateRelayerInstructions wsol_swap [''Relayer'', ''User''] = Ok [''Wsol'']"
  by code_simp

theorem guard_accepts_only_safe_shapes_witness:
  "count_where is_close wsol_swap = 1 \<and> close_paired wsol_swap 2 [''Relayer'', ''User''] ''Wsol''"
proof -
  note g = guard_accepts_only_safe_shapes [OF wsol_swap_accepted]
  have "2 < length wsol_swap" "is_close (wsol_swap ! 2)" by code_simp+
  with g show ?thesis by auto
qed

text \<open>The guard looks inside no System instruction: a transfer out of the fee payer passes it.
  What keeps such a transaction out is the byte-for-byte comparison with the built quote.\<close>

definition system_transfer_from :: "string \<Rightarrow> string \<Rightarrow> ResolvedInstruction" where
  "system_transfer_from payer dest =
     \<lparr>ri_programId = SYSTEM_PROGRAM_ID, ri_data = [2, 0, 0, 0, 0, 202, 154, 59, 0, 0, 0, 0],
      ri_accounts = [payer, dest]\<rparr>"

lemma guard_accepts_fee_payer_transfer:
  "validateRelayerInstructions [system_transfer_from ''Relayer'' ''Thief'',
     \<lparr>ri_programId = JUPITER_V6_PROGRAM_ID, ri_data = [2], ri_accounts = []\<rparr>] [''Relayer'', ''User''] = Ok []"
  by code_simp

subsection \<open>Redirecting the rent of a wrapped-SOL account\<close>

text \<open>Instruction data is base64 in Jupiter's JSON; \<open>ji_data\<close> holds the decoded bytes.\<close>

record account_meta =
  am_pubkey :: string
  am_isSigner :: bool
  am_isWritable :: bool

record JupiterRawInstruction =
  ji_programId :: string
  ji_accounts :: "account_meta list"
  ji_data :: "byte list"

record JupiterSwapInstructionsResult =
  js_computeBudgetInstructions :: "JupiterRawInstruction list"
  js_setupInstructions :: "JupiterRawInstruction list"
  js_swapInstruction :: JupiterRawInstruction
  js_cleanupInstruction :: "JupiterRawInstruction option"

definition account_key :: "JupiterRawInstruction \<Rightarrow> nat \<Rightarrow> string option" where
  "account_key ix i = map_option am_pubkey (nth_opt (ji_accounts ix) i)"

definition as_resolved :: "JupiterRawInstruction \<Rightarrow> ResolvedInstruction" where
  "as_resolved ix = \<lparr>ri_programId = ji_programId ix, ri_data = ji_data ix,
                     ri_accounts = map am_pubkey (ji_accounts ix)\<rparr>"

definition redirectWsolCloseToRelayer ::
    "JupiterRawInstruction \<Rightarrow> JupiterRawInstruction list \<Rightarrow> string \<Rightarrow> JupiterRawInstruction" where
  "redirectWsolCloseToRelayer cleanup setupInstructions relayerPubkey =
     (if ji_programId cleanup \<notin> set TOKEN_PROGRAM_IDS then cleanup
      else if ji_data cleanup \<noteq> [CloseAccount] then cleanup
      else case account_key cleanup 0 of
        None \<Rightarrow> cleanup
      | Some target \<Rightarrow>
          if target = [] then cleanup
          else (case find (\<lambda>ix. isAtaCreateInstruction (as_resolved ix) \<and> account_key ix 1 = Some target)
                       setupInstructions of
              None \<Rightarrow> cleanup
            | Some matchingCreate \<Rightarrow>
                if account_key matchingCreate 3 \<noteq> Some SOLANA_NATIVE_MINT then cleanup
                else cleanup\<lparr>ji_accounts := (case ji_accounts cleanup of
                    a # b # rest \<Rightarrow> a # b\<lparr>am_pubkey := relayerPubkey\<rparr> # rest | short \<Rightarrow> short)\<rparr>))"

definition sponsored_instructions ::
    "string \<Rightarrow> string \<Rightarrow> 'a JupiterSwapInstructionsResult_scheme \<Rightarrow> JupiterRawInstruction list" where
  "sponsored_instructions relayerPubkey outputMint result =
     (let cleanup =
        (case js_cleanupInstruction result of
           None \<Rightarrow> None
         | Some c \<Rightarrow>
             if outputMint \<noteq> SOLANA_NATIVE_MINT
             then Some (redirectWsolCloseToRelayer c (js_setupInstructions result) relayerPubkey) else Some c)
      in js_computeBudgetInstructions result @ js_setupInstructions result @ [js_swapInstruction result]
         @ (case cleanup of None \<Rightarrow> [] | Some c \<Rightarrow> [c]))"

text \<open>The redirect changes nothing but the destination of a close of a wrapped-SOL account that
  the same transaction opened.\<close>

lemma redirect_only_wsol_rent:
  assumes "redirectWsolCloseToRelayer c setup relayer \<noteq> c"
  shows "is_close (as_resolved c) \<and> (\<exists>create\<in>set setup. isAtaCreateInstruction (as_resolved create)
      \<and> account_key create 1 = account_key c 0 \<and> account_key create 3 = Some SOLANA_NATIVE_MINT)
    \<and> account_key (redirectWsolCloseToRelayer c setup relayer) 1 = Some relayer
    \<and> account_key (redirectWsolCloseToRelayer c setup relayer) 0 = account_key c 0
    \<and> ji_data (redirectWsolCloseToRelayer c setup relayer) = ji_data c"
  using assms
  by (auto simp: redirectWsolCloseToRelayer_def is_close_def as_resolved_def account_key_def nth_opt_def
           split: option.splits if_splits list.splits dest!: find_SomeD)


definition sample_jupiter :: JupiterSwapInstructionsResult where
  "sample_jupiter =
     (let m = (\<lambda>k. \<lparr>am_pubkey = k, am_isSigner = False, am_isWritable = True\<rparr>) in
      \<lparr>js_computeBudgetInstructions = [],
       js_setupInstructions = [\<lparr>ji_programId = ATA_PROGRAM_ID,
          ji_accounts = map m [''Relayer'', ''Wsol'', ''User'', SOLANA_NATIVE_MINT], ji_data = [1]\<rparr>],
       js_swapInstruction = \<lparr>ji_programId = JUPITER_V6_PROGRAM_ID, ji_accounts = [m ''Wsol''], ji_data = [2]\<rparr>,
       js_cleanupInstruction = Some \<lparr>ji_programId = TOKEN_PROGRAM_ID,
          ji_accounts = map m [''Wsol'', ''User'', ''User''], ji_data = [9]\<rparr>\<rparr>)"


lemma sample_rent_redirected:
  "account_key (sponsored_instructions ''Relayer'' SOLANA_USDC_MINT sample_jupiter ! 2) 1 = Some ''Relayer''"
  by code_simp

subsection \<open>Relay's deposit instructions\<close>

definition RELAY_SOLANA_DEPOSIT_PROGRAM_ID :: string where
  "RELAY_SOLANA_DEPOSIT_PROGRAM_ID = ''99vQwtBwYtrqqD9YSXbdum3KBdxPAVxYTaQ3cfnJSrN2''"

text \<open>Here the instruction data is a hexadecimal string.\<close>

record RelayInstructionJson =
  rj_programId :: string
  rj_keys :: "account_meta list"
  rj_data :: string

definition deposit_key_ok :: "string \<Rightarrow> string \<Rightarrow> account_meta \<Rightarrow> (js_error, unit) result" where
  "deposit_key_ok userWallet relayer key =
     (if am_pubkey key = relayer
      then Err (Unprocessable ''The move tried to use the Kamby fee account'')
      else if am_isSigner key \<and> am_pubkey key \<noteq> userWallet
      then Err (Unprocessable ''The move asked for another signer'')
      else Ok ())"

fun check_all :: "('a \<Rightarrow> ('e, unit) result) \<Rightarrow> 'a list \<Rightarrow> ('e, unit) result" where
  "check_all f [] = Ok ()"
| "check_all f (x # xs) = bind_result (f x) (\<lambda>_. check_all f xs)"

lemma check_all_Ok: "check_all f xs = Ok () \<longleftrightarrow> (\<forall>x\<in>set xs. f x = Ok ())"
  by (induction xs) (auto simp: bind_result_Ok_iff)

definition deposit_instruction_ok :: "string \<Rightarrow> string \<Rightarrow> RelayInstructionJson \<Rightarrow> (js_error, unit) result" where
  "deposit_instruction_ok userWallet relayer ix =
     (if rj_programId ix \<noteq> RELAY_SOLANA_DEPOSIT_PROGRAM_ID \<and> rj_programId ix \<noteq> COMPUTE_BUDGET_PROGRAM_ID
      then Err (Unprocessable ''The move asked for an unexpected Solana program'')
      else bind_result (check_all (deposit_key_ok userWallet relayer) (rj_keys ix)) (\<lambda>_.
             reject_if (\<not> (\<forall>c\<in>set (rj_data ix). is_hex c)) (Unprocessable ''Could not read the move'')))"

definition toRelayDepositInstructions ::
    "RelayInstructionJson list \<Rightarrow> string \<Rightarrow> string \<Rightarrow> (js_error, RelayInstructionJson list) result" where
  "toRelayDepositInstructions raw userWallet relayer =
     bind_result (check_all (deposit_instruction_ok userWallet relayer) raw) (\<lambda>_.
       let deposits = count_where (\<lambda>ix. rj_programId ix = RELAY_SOLANA_DEPOSIT_PROGRAM_ID) raw in
       if deposits \<noteq> 1 then Err (Unprocessable ''Could not read the move'') else Ok raw)"

lemma relay_deposit_sound:
  assumes "toRelayDepositInstructions raw userWallet relayer = Ok out"
  shows "out = raw \<and> (\<forall>ix\<in>set raw. \<forall>key\<in>set (rj_keys ix).
      am_pubkey key \<noteq> relayer \<and> (am_isSigner key \<longrightarrow> am_pubkey key = userWallet))
    \<and> count_where (\<lambda>ix. rj_programId ix = RELAY_SOLANA_DEPOSIT_PROGRAM_ID) raw = 1"
  using assms
  by (auto simp: toRelayDepositInstructions_def bind_result_Ok_iff check_all_Ok deposit_instruction_ok_def
           deposit_key_ok_def Let_def reject_if_def split: if_splits)

subsection \<open>The new-coin setup charge\<close>

definition ATA_RENT_TOKEN :: int where "ATA_RENT_TOKEN = 2039280"
definition ATA_RENT_TOKEN_2022 :: int where "ATA_RENT_TOKEN_2022 = 2074080"
definition MIN_SETUP_FEE_USDC_RAW :: int where "MIN_SETUP_FEE_USDC_RAW = 100000"
definition FALLBACK_SOL_USD :: jsnum where "FALLBACK_SOL_USD = Fin 250"

definition setupFeeUsdcRaw :: "int \<Rightarrow> jsnum \<Rightarrow> (js_error, int) result" where
  "setupFeeUsdcRaw rentLamports solUsd =
     (let usd = nmul (ndiv (num_of_int rentLamports) (Fin 1000000000)) solUsd in
      bind_result (BigInt_num (nceil (nmul usd (Fin 100)))) (\<lambda>cents.
        let raw = cents * 10000 in
        Ok (if MIN_SETUP_FEE_USDC_RAW < raw then raw else MIN_SETUP_FEE_USDC_RAW)))"

text \<open>The cached SOL price: the last good price and when it was read.  \<open>fetched\<close> is what the price
  service answered, \<open>None\<close> when it failed.\<close>

definition sol_usd_price ::
    "int \<Rightarrow> jsnum option \<Rightarrow> (jsnum \<times> int) option \<Rightarrow> jsnum \<times> (jsnum \<times> int) option" where
  "sol_usd_price now fetched cache =
     (case cache of
        Some (usd, since) \<Rightarrow>
          if now - since < 60000 then (usd, cache)
          else (case fetched of
                  Some p \<Rightarrow> if ngt p (Fin 0) then (p, Some (p, now)) else (usd, cache)
                | None \<Rightarrow> (usd, cache))
      | None \<Rightarrow>
          (case fetched of
             Some p \<Rightarrow> if ngt p (Fin 0) then (p, Some (p, now)) else (FALLBACK_SOL_USD, None)
           | None \<Rightarrow> (FALLBACK_SOL_USD, None)))"

definition resolveNewCoinSetupFee ::
    "bool \<Rightarrow> bool \<Rightarrow> jsnum \<Rightarrow> (js_error, int) result" where
  "resolveNewCoinSetupFee isToken2022 existing solUsd =
     (if existing then Ok 0
      else setupFeeUsdcRaw (if isToken2022 then ATA_RENT_TOKEN_2022 else ATA_RENT_TOKEN) solUsd)"

lemma nceil_ge: "x \<le> of_int \<lceil>x\<rceil>" by (rule le_of_int_ceiling)

text \<open>The setup charge never undercharges: for a finite SOL price it is a whole number of
  cents, at least ten, and at least the dollar value of the rent as the code computes it.\<close>

theorem setup_fee_covers_rent:
  assumes "setupFeeUsdcRaw rent (Fin price) = Ok raw"
    and "nmul (nmul (ndiv (num_of_int rent) (Fin 1000000000)) (Fin price)) (Fin 100) = Fin cents"
  shows "10 * 10000 \<le> raw \<and> raw mod 10000 = 0 \<and> cents * 10000 \<le> of_int raw
     \<and> (100000 < raw \<longrightarrow> of_int raw < (cents + 1) * 10000)"
proof -
  let ?c = "\<lceil>cents\<rceil>"
  have raw: "raw = (if 100000 < ?c * 10000 then ?c * 10000 else 100000)"
    using assms by (simp add: setupFeeUsdcRaw_def MIN_SETUP_FEE_USDC_RAW_def Let_def split: if_splits)
  have "cents \<le> of_int ?c" "of_int ?c < cents + 1" by linarith+
  then have "cents * 10000 \<le> of_int (?c * 10000)" "of_int (?c * 10000) < (cents + 1) * 10000" by simp_all
  moreover have "rat_of_int (?c * 10000) \<le> of_int raw" using raw by (simp split: if_splits)
  ultimately show ?thesis using raw by (auto split: if_splits)
qed

theorem setup_fee_covers_rent_witness:
  "\<exists>raw. setupFeeUsdcRaw ATA_RENT_TOKEN (Fin 150) = Ok raw \<and> 100000 \<le> raw"
proof -
  have s: "setupFeeUsdcRaw ATA_RENT_TOKEN (Fin 150) = Ok 310000" by code_simp
  obtain cents where "nmul (nmul (ndiv (num_of_int ATA_RENT_TOKEN) (Fin 1000000000)) (Fin 150)) (Fin 100) = Fin cents"
  proof -
    have "is_finite (nmul (nmul (ndiv (num_of_int ATA_RENT_TOKEN) (Fin 1000000000)) (Fin 150)) (Fin 100))"
      by code_simp
    then show ?thesis using that by (auto simp: is_finite_iff)
  qed
  from setup_fee_covers_rent [OF s this] s show ?thesis by auto
qed

end
