(* ===== verification/SolanaTx.thy ===== *)
theory SolanaTx
  imports Trading Resilience Paging Consent
begin

section \<open>Solana trade transactions: recording, refreshing, sweeping\<close>

text \<open>
  \<open>apps/api/src/solana/solana-transaction.service.ts\<close> and
  \<open>apps/workers/src/solana/solana-sweep.ts\<close>.  A signature status read is the answer the RPC
  gave: an error, no entry, or an entry.
\<close>

record solana_quote =
  so_id :: string
  so_userId :: string
  so_walletAddress :: string
  so_side :: string
  so_inputMint :: string
  so_outputMint :: string
  so_inputAmount :: string
  so_expectedOutputAmount :: string
  so_platformFeeAmount :: string
  so_unsignedTx :: json
  so_expiresAt :: int

record solana_tx =
  st_id :: string
  st_userId :: string
  st_walletAddress :: string
  st_quoteId :: string
  st_signature :: string
  st_side :: string
  st_inputMint :: string
  st_outputMint :: string
  st_inputAmount :: string
  st_expectedOutputAmount :: string
  st_platformFeeAmount :: string
  st_status :: trade_status
  st_failureReason :: "string option"
  st_sponsoredByRelayer :: bool
  st_relayerFeePayer :: "string option"
  st_submittedAt :: int
  st_confirmedAt :: "int option"
  st_createdAt :: int

record solana_wallet =
  sw_address :: string
  sw_userId :: string
  sw_verifiedAt :: "int option"
  sw_isSolana :: bool

record solana_db =
  sd_quotes :: "solana_quote list"
  sd_txs :: "solana_tx list"
  sd_wallets :: "solana_wallet list"
  sd_next :: nat

definition sol_find_tx :: "solana_db \<Rightarrow> (solana_tx \<Rightarrow> bool) \<Rightarrow> solana_tx option" where
  "sol_find_tx db p = find p (sd_txs db)"

definition sol_update_tx :: "string \<Rightarrow> (solana_tx \<Rightarrow> solana_tx) \<Rightarrow> solana_db \<Rightarrow> solana_db" where
  "sol_update_tx i f db = db\<lparr>sd_txs := update_where (\<lambda>t. st_id t = i) f (sd_txs db)\<rparr>"

text \<open>\<open>create\<close>: unique on the quote and on the signature.\<close>

definition sol_create_tx :: "int \<Rightarrow> solana_tx \<Rightarrow> solana_db \<Rightarrow> (js_error, solana_tx) result \<times> solana_db" where
  "sol_create_tx now t db =
     (if \<exists>r\<in>set (sd_txs db). st_quoteId r = st_quoteId t \<or> st_signature r = st_signature t
      then (Err (UniqueConstraint ''solana_trade_transactions''), db)
      else let t = t\<lparr>st_id := string_of_int (int (sd_next db)), st_submittedAt := now, st_createdAt := now\<rparr>
           in (Ok t, db\<lparr>sd_txs := sd_txs db @ [t], sd_next := Suc (sd_next db)\<rparr>))"

definition sol_tx_of_quote :: "solana_quote \<Rightarrow> string \<Rightarrow> string \<Rightarrow> string \<Rightarrow> string option \<Rightarrow> solana_tx" where
  "sol_tx_of_quote q userId walletAddress signature relayer =
     \<lparr>st_id = [], st_userId = userId, st_walletAddress = walletAddress, st_quoteId = so_id q,
      st_signature = signature, st_side = so_side q, st_inputMint = so_inputMint q,
      st_outputMint = so_outputMint q, st_inputAmount = so_inputAmount q,
      st_expectedOutputAmount = so_expectedOutputAmount q, st_platformFeeAmount = so_platformFeeAmount q,
      st_status = PENDING, st_failureReason = None, st_sponsoredByRelayer = (relayer \<noteq> None),
      st_relayerFeePayer = relayer, st_submittedAt = 0, st_confirmedAt = None, st_createdAt = 0\<rparr>"

definition sol_wallet_verified :: "solana_db \<Rightarrow> string \<Rightarrow> string \<Rightarrow> bool" where
  "sol_wallet_verified db address userId =
     (case find (\<lambda>w. sw_address w = address) (sd_wallets db) of
        None \<Rightarrow> False
      | Some w \<Rightarrow> sw_userId w = userId \<and> sw_verifiedAt w \<noteq> None \<and> sw_isSolana w)"

text \<open>The quote checks shared word for word by the self-paid and the sponsored submission.\<close>

definition sol_quote_checks ::
    "int \<Rightarrow> string \<Rightarrow> string \<Rightarrow> string \<Rightarrow> solana_db \<Rightarrow> (js_error, solana_quote) result" where
  "sol_quote_checks now userId walletAddress quoteId db =
     (case find (\<lambda>q. so_id q = quoteId) (sd_quotes db) of
        None \<Rightarrow> Err (NotFound ''No quote'')
      | Some quote \<Rightarrow>
          bind_result (reject_if (so_userId quote \<noteq> userId) (Forbidden ''This quote does not belong to you'')) (\<lambda>_.
          bind_result (reject_if (so_walletAddress quote \<noteq> walletAddress)
            (Forbidden ''This quote was created for a different wallet'')) (\<lambda>_.
          bind_result (reject_if (so_expiresAt quote \<le> now) (Unprocessable ''This quote has expired'')) (\<lambda>_.
          bind_result (reject_if (\<not> sol_wallet_verified db walletAddress userId)
            (Forbidden ''This wallet is not verified as belonging to your account'')) (\<lambda>_. Ok quote)))))"

definition sol_submitTransaction ::
    "int \<Rightarrow> string \<Rightarrow> string \<Rightarrow> string \<Rightarrow> string \<Rightarrow> solana_db \<Rightarrow> (js_error, solana_tx) result \<times> solana_db" where
  "sol_submitTransaction now userId walletAddress quoteId signature db =
     (case sol_find_tx db (\<lambda>t. st_quoteId t = quoteId) of
        Some existing \<Rightarrow>
          if st_userId existing \<noteq> userId then (Err (Forbidden ''This quote does not belong to you''), db)
          else (Ok existing, db)
      | None \<Rightarrow>
          (case sol_quote_checks now userId walletAddress quoteId db of
             Inl e \<Rightarrow> (Inl e, db)
           | Inr quote \<Rightarrow>
               (case sol_create_tx now (sol_tx_of_quote quote userId walletAddress signature None) db of
                  (Inr created, db1) \<Rightarrow> (Ok created, db1)
                | (Inl e, db1) \<Rightarrow>
                    (case sol_find_tx db1 (\<lambda>t. st_signature t = signature) of
                       Some existing \<Rightarrow>
                         if st_userId existing \<noteq> userId
                         then (Err (Forbidden ''This transaction does not belong to you''), db1)
                         else (Ok existing, db1)
                     | None \<Rightarrow> (Err e, db1)))))"

subsection \<open>Status\<close>

datatype confirmation_status = cs_processed | cs_confirmed | cs_finalized

record signature_status =
  ss_err :: bool
  ss_confirmationStatus :: "confirmation_status option"

definition sol_failed :: "solana_tx \<Rightarrow> solana_tx" where
  "sol_failed t = t\<lparr>st_status := FAILED, st_failureReason := Some ''Transaction failed on-chain''\<rparr>"

definition sol_confirmed :: "int \<Rightarrow> solana_tx \<Rightarrow> solana_tx" where
  "sol_confirmed now t = t\<lparr>st_status := CONFIRMED, st_confirmedAt := Some now\<rparr>"

definition sol_expired :: "solana_tx \<Rightarrow> solana_tx" where
  "sol_expired t = t\<lparr>st_status := EXPIRED,
     st_failureReason := Some ''Dropped by the network before it landed - no funds moved''\<rparr>"

text \<open>\<open>lookup h\<close> is the RPC's answer when asked with \<open>searchTransactionHistory = h\<close>.\<close>

type_synonym status_lookup = "bool \<Rightarrow> (js_error, signature_status option) result"

definition landed :: "signature_status \<Rightarrow> bool" where
  "landed s = (ss_confirmationStatus s = Some cs_confirmed \<or> ss_confirmationStatus s = Some cs_finalized)"

definition sol_refresh_change ::
    "status_lookup \<Rightarrow> int \<Rightarrow> solana_tx \<Rightarrow> (js_error, (solana_tx \<Rightarrow> solana_tx) option) result" where
  "sol_refresh_change lookup now row =
     (let searchTransactionHistory = (60000 < now - st_submittedAt row) in
      bind_result (lookup searchTransactionHistory) (\<lambda>status.
        case status of
          None \<Rightarrow> Ok None
        | Some s \<Rightarrow>
            if ss_err s then Ok (Some sol_failed)
            else if landed s then Ok (Some (sol_confirmed now))
            else Ok None))"

definition sol_age_minutes :: "int \<Rightarrow> solana_tx \<Rightarrow> jsnum" where
  "sol_age_minutes now row = ndiv (num_of_int (now - st_submittedAt row)) (Fin 60000)"

definition sol_sweep_change ::
    "status_lookup \<Rightarrow> int \<Rightarrow> solana_tx \<Rightarrow> (js_error, (solana_tx \<Rightarrow> solana_tx) option) result" where
  "sol_sweep_change lookup now row =
     (let ageMinutes = sol_age_minutes now row in
      bind_result (lookup (ngt ageMinutes (Fin 1))) (\<lambda>status.
        case status of
          None \<Rightarrow>
            if ngt ageMinutes (num_of_int (solanaDroppedTransactionMinutes TRADING_DEFAULTS))
            then Ok (Some sol_expired) else Ok None
        | Some s \<Rightarrow>
            if ss_err s then Ok (Some sol_failed)
            else if landed s then Ok (Some (sol_confirmed now))
            else Ok None))"

text \<open>The worker's read: the primary RPC, then the fallback when one is configured.\<close>

definition getSignatureStatuses :: "status_lookup \<Rightarrow> status_lookup option \<Rightarrow> status_lookup" where
  "getSignatureStatuses primary fallback h =
     (case primary h of
        Inr s \<Rightarrow> Inr s
      | Inl e \<Rightarrow> (case fallback of None \<Rightarrow> Inl e | Some f \<Rightarrow> f h))"

definition sol_write :: "solana_tx \<Rightarrow> (js_error, (solana_tx \<Rightarrow> solana_tx) option) result \<Rightarrow> solana_db \<Rightarrow> solana_db" where
  "sol_write row r db = (case r of Inr (Some f) \<Rightarrow> sol_update_tx (st_id row) f db | _ \<Rightarrow> db)"

definition sol_pending :: "solana_db \<Rightarrow> solana_tx list" where
  "sol_pending db = take 50 (sort_by (\<lambda>a b. st_submittedAt a < st_submittedAt b)
     (filter (\<lambda>t. st_status t = PENDING) (sd_txs db)))"

record SolanaSweepResult =
  sr_checked :: nat
  sr_confirmed :: nat
  sr_failed :: nat
  sr_expired :: nat

definition sol_tally ::
    "solana_tx \<Rightarrow> (js_error, (solana_tx \<Rightarrow> solana_tx) option) result \<Rightarrow> SolanaSweepResult \<Rightarrow> SolanaSweepResult" where
  "sol_tally row r result =
     (let result = result\<lparr>sr_checked := Suc (sr_checked result)\<rparr> in
      case r of
        Inr (Some f) \<Rightarrow>
          (case st_status (f row) of
             CONFIRMED \<Rightarrow> result\<lparr>sr_confirmed := Suc (sr_confirmed result)\<rparr>
           | FAILED \<Rightarrow> result\<lparr>sr_failed := Suc (sr_failed result)\<rparr>
           | EXPIRED \<Rightarrow> result\<lparr>sr_expired := Suc (sr_expired result)\<rparr>
           | _ \<Rightarrow> result)
      | _ \<Rightarrow> result)"

definition sol_sweep_row ::
    "(string \<Rightarrow> status_lookup) \<Rightarrow> (string \<Rightarrow> status_lookup) option \<Rightarrow> int \<Rightarrow> solana_tx
     \<Rightarrow> SolanaSweepResult \<times> solana_db \<Rightarrow> SolanaSweepResult \<times> solana_db" where
  "sol_sweep_row primary fallback now row acc =
     (let r = sol_sweep_change
        (getSignatureStatuses (primary (st_signature row)) (map_option (\<lambda>f. f (st_signature row)) fallback)) now row
      in (sol_tally row r (fst acc), sol_write row r (snd acc)))"

definition sol_sweepPendingTransactions ::
    "(string \<Rightarrow> status_lookup) \<Rightarrow> (string \<Rightarrow> status_lookup) option \<Rightarrow> int \<Rightarrow> solana_db
     \<Rightarrow> SolanaSweepResult \<times> solana_db" where
  "sol_sweepPendingTransactions primary fallback now db =
     fold (sol_sweep_row primary fallback now) (sol_pending db)
       (\<lparr>sr_checked = 0, sr_confirmed = 0, sr_failed = 0, sr_expired = 0\<rparr>, db)"

definition sol_getTransaction ::
    "(string \<Rightarrow> status_lookup) \<Rightarrow> int \<Rightarrow> string \<Rightarrow> string \<Rightarrow> solana_db \<Rightarrow> (js_error, solana_tx) result \<times> solana_db" where
  "sol_getTransaction lookup now userId i db =
     (case sol_find_tx db (\<lambda>t. st_id t = i) of
        None \<Rightarrow> (Err (NotFound ''No transaction''), db)
      | Some row \<Rightarrow>
          if st_userId row \<noteq> userId then (Err (NotFound ''No transaction''), db)
          else if st_status row \<noteq> PENDING then (Ok row, db)
          else (case sol_refresh_change (lookup (st_signature row)) now row of
                  Inl e \<Rightarrow> (Inl e, db)
                | Inr None \<Rightarrow> (Ok row, db)
                | Inr (Some f) \<Rightarrow>
                    let db1 = sol_update_tx i f db in
                    (case sol_find_tx db1 (\<lambda>t. st_id t = i) of
                       Some t \<Rightarrow> (Ok t, db1) | None \<Rightarrow> (Ok row, db1))))"

subsection \<open>History\<close>

definition sol_history_key :: "solana_tx \<Rightarrow> int \<times> string" where
  "sol_history_key t = (st_createdAt t, st_id t)"

definition sol_getHistory ::
    "solana_db \<Rightarrow> string \<Rightarrow> (int \<times> string) option \<Rightarrow> nat \<Rightarrow> solana_tx list \<times> (int \<times> string) option" where
  "sol_getHistory db userId decoded limit =
     (let rows = take (limit + 1) (desc_by sol_history_key
            (filter (\<lambda>t. st_userId t = userId
               \<and> (case decoded of None \<Rightarrow> True
                  | Some (createdAt, i) \<Rightarrow>
                      st_createdAt t < createdAt \<or> (st_createdAt t = createdAt \<and> st_id t < i))) (sd_txs db)));
          hasMore = limit < length rows;
          page = (if hasMore then take limit rows else rows);
          nextCursor = (if hasMore \<and> page \<noteq> [] then Some (sol_history_key (last page)) else None)
      in (page, nextCursor))"

interpretation sol_history: keyset_feed sol_history_key "filter (\<lambda>t. st_userId t = userId) (sd_txs db)" "sol_getHistory db userId"
  for db userId
proof
  fix c :: "(int \<times> string) option" and limit
  have "filter (\<lambda>t. st_userId t = userId
           \<and> (case c of None \<Rightarrow> True
              | Some (createdAt, i) \<Rightarrow> st_createdAt t < createdAt \<or> (st_createdAt t = createdAt \<and> st_id t < i))) (sd_txs db)
      = filter (below_cursor sol_history_key c) (filter (\<lambda>t. st_userId t = userId) (sd_txs db))"
    by (auto simp: below_cursor_def sol_history_key_def less_prod_def' intro!: filter_cong split: option.splits)
  then show "sol_getHistory db userId c limit = keyset_page sol_history_key (filter (\<lambda>t. st_userId t = userId) (sd_txs db)) c limit"
    by (simp add: sol_getHistory_def keyset_page_def Let_def)
qed

subsection \<open>What a status rests on\<close>

lemma minutes_small:
  fixes d :: int
  assumes "0 \<le> d" "d \<le> 2 ^ 53"
  shows "\<bar>rat_of_int d / 60000\<bar> \<le> 2 ^ 1000"
proof -
  have "rat_of_int d / 60000 \<le> rat_of_int d"
    using assms(1) by (simp add: divide_le_eq)
  also have "\<dots> \<le> rat_of_int (2 ^ 53)" using assms(2) by (simp only: of_int_le_iff)
  also have "\<dots> \<le> 2 ^ 1000"
    unfolding of_int_power of_int_numeral by (rule power_increasing) simp_all
  finally have "rat_of_int d / 60000 \<le> 2 ^ 1000" .
  moreover have "0 \<le> rat_of_int d / 60000" using assms(1) by simp
  ultimately show ?thesis by (simp only: abs_of_nonneg)
qed

lemma fl_above_int:
  fixes m :: int
  assumes "0 \<le> m" "m \<le> 2 ^ 30" "rat_of_int m + 1 / 65536 \<le> x"
  shows "rat_of_int m < fl x"
proof -
  have bound: "\<bar>m * 65536 + 1\<bar> \<le> 2 ^ 53" using assms(1,2) by simp
  have half: "(2::rat) powi (- 16) = 1 / 65536" by (simp add: power_int_def power_divide)
  have "fl (rat_of_int (m * 65536 + 1) * 2 powi (- 16)) = rat_of_int (m * 65536 + 1) * 2 powi (- 16)"
    using bound by (rule fl_representable) simp
  moreover have "rat_of_int (m * 65536 + 1) * 2 powi (- 16) = rat_of_int m + 1 / 65536"
    unfolding half by (simp add: add_divide_distrib)
  ultimately have e: "fl (rat_of_int m + 1 / 65536) = rat_of_int m + 1 / 65536" by (simp only:)
  have "fl (rat_of_int m + 1 / 65536) \<le> fl x" using assms(3) by (rule fl_mono)
  with e show ?thesis by simp
qed

lemma age_over:
  assumes "0 \<le> now - st_submittedAt row" "now - st_submittedAt row \<le> 2 ^ 53" "0 \<le> m" "m \<le> 2 ^ 30"
  shows "ngt (sol_age_minutes now row) (Fin (of_int m)) \<longleftrightarrow> m * 60000 < now - st_submittedAt row"
proof -
  define d where "d = now - st_submittedAt row"
  have dd: "0 \<le> d" "d \<le> 2 ^ 53" using assms(1,2) by (simp_all add: d_def)
  have n: "num_of_int d = Fin (of_int d)" using dd by (intro num_of_int_small) simp
  have age: "sol_age_minutes now row = Fin (fl (rat_of_int d / 60000))"
    using minutes_small [OF dd] n by (simp add: sol_age_minutes_def to_num_small flip: d_def)
  have m: "fl (of_int m) = of_int m" using assms(3,4) by (intro fl_of_int) simp
  have "rat_of_int m < fl (rat_of_int d / 60000)" if "m * 60000 < d"
  proof -
    have "m * 60000 + 1 \<le> d" using that by simp
    then have "rat_of_int (m * 60000 + 1) \<le> rat_of_int d" by (simp only: of_int_le_iff)
    then have "rat_of_int m + 1 / 65536 \<le> rat_of_int d / 60000" by (simp add: field_simps)
    with assms(3,4) show ?thesis by (rule fl_above_int)
  qed
  moreover have "fl (rat_of_int d / 60000) \<le> rat_of_int m" if "\<not> m * 60000 < d"
  proof -
    have "rat_of_int d \<le> rat_of_int (m * 60000)" using that by (simp only: of_int_le_iff not_less)
    then have "rat_of_int d / 60000 \<le> of_int m" by (simp add: field_simps)
    then show ?thesis using fl_mono m by metis
  qed
  ultimately have "rat_of_int m < fl (rat_of_int d / 60000) \<longleftrightarrow> m * 60000 < d"
    by (metis not_less)
  then show ?thesis unfolding age d_def [symmetric] by (simp add: ngt_def)
qed


definition sample_solana_row :: solana_tx where
  "sample_solana_row = sol_tx_of_quote
     \<lparr>so_id = ''q1'', so_userId = ''u1'', so_walletAddress = ''W1'', so_side = ''BUY'', so_inputMint = ''USDC'',
      so_outputMint = ''MINT'', so_inputAmount = ''1000000'', so_expectedOutputAmount = ''5'',
      so_platformFeeAmount = ''2500'', so_unsignedTx = JNull, so_expiresAt = 0\<rparr> ''u1'' ''W1'' ''sig1'' None"


end
