(* ===== verification/SolanaRelay.thy ===== *)
theory SolanaRelay
  imports SolanaGuard SolanaTx EvmRelay
begin

section \<open>Solana gas relayer: co-signing and broadcasting\<close>

text \<open>
  \<open>apps/api/src/solana/gas-relayer.service.ts\<close> and \<open>solana-quote-match.ts\<close>.  The web3.js
  codec (\<open>web3_codec\<close>) and the RPC connection (\<open>solana_rpc\<close>) are parameters.  A public key is its
  base58 text.  \<open>Promise.all\<close> over lookup tables is modelled as the reads one after the other.
\<close>

record compiled_instruction =
  ci_programIdIndex :: nat
  ci_accountKeyIndexes :: "nat list"
  ci_data :: "byte list"

record tx_message =
  tm_numRequiredSignatures :: nat
  tm_staticAccountKeys :: "string list"
  tm_recentBlockhash :: string
  tm_compiledInstructions :: "compiled_instruction list"
  tm_addressTableLookups :: "(string \<times> nat list \<times> nat list) list"

record VersionedTransaction =
  vt_message :: tx_message
  vt_signatures :: "byte list list"

record lookup_table =
  lt_key :: string
  lt_addresses :: "string list"

record transfer_checked =
  tc_source :: string
  tc_mint :: string
  tc_destination :: string
  tc_owner :: string
  tc_amount :: int
  tc_decimals :: nat

datatype web3_instruction =
    JupiterIx JupiterRawInstruction
  | RelayIx RelayInstructionJson
  | TransferCheckedIx transfer_checked

record web3_codec =
  wc_deserialize :: "string \<Rightarrow> VersionedTransaction option"
  wc_serializeMessage :: "tx_message \<Rightarrow> byte list"
  wc_serialize :: "VersionedTransaction \<Rightarrow> (js_error, byte list) result"
  wc_toBase64 :: "byte list \<Rightarrow> string"
  wc_getAccountKeys :: "tx_message \<Rightarrow> lookup_table list \<Rightarrow> string list"
  wc_sign :: "VersionedTransaction \<Rightarrow> string \<Rightarrow> VersionedTransaction"
  wc_compileToV0Message :: "string \<Rightarrow> string \<Rightarrow> web3_instruction list \<Rightarrow> lookup_table list \<Rightarrow> tx_message"
  wc_associatedTokenAddress :: "string \<Rightarrow> string \<Rightarrow> string"

record 'w solana_rpc =
  sr_getAddressLookupTable :: "string \<Rightarrow> ('w, lookup_table option) remote"
  sr_accountExists :: "string \<Rightarrow> ('w, bool) remote"
  sr_accountsExist :: "string list \<Rightarrow> ('w, bool list) remote"
  sr_simulateTransaction :: "VersionedTransaction \<Rightarrow> bool \<Rightarrow> ('w, string option) remote"
  sr_getFeeForMessage :: "tx_message \<Rightarrow> ('w, int option) remote"
  sr_getLatestBlockhash :: "('w, string) remote"
  sr_sendTransaction :: "VersionedTransaction \<Rightarrow> ('w, string) remote"

record 'w gas_relayer =
  gr_connection :: "'w solana_rpc option"
  gr_feePayer :: "string option"
  gr_maxLamportsCeiling :: int
  gr_testWalletAddresses :: "string set option"
  gr_codec :: web3_codec

definition ATA_RENT_LAMPORTS :: int where "ATA_RENT_LAMPORTS = 2039280"
definition RELAY_DEPOSIT_MAX_FEE_LAMPORTS :: int where "RELAY_DEPOSIT_MAX_FEE_LAMPORTS = 200000"

subsection \<open>Matching a quote\<close>

definition parseSolanaUnsignedTx :: "json \<Rightarrow> string option" where
  "parseSolanaUnsignedTx j =
     (case json_field j ''base64'' of
        Some (JStr base64) \<Rightarrow> if base64 \<noteq> [] then Some base64 else None
      | _ \<Rightarrow> None)"

definition solanaTransactionMatchesQuote :: "web3_codec \<Rightarrow> VersionedTransaction \<Rightarrow> string \<Rightarrow> bool" where
  "solanaTransactionMatchesQuote codec actual expectedUnsignedTxBase64 =
     (case wc_deserialize codec expectedUnsignedTxBase64 of
        None \<Rightarrow> False
      | Some expected \<Rightarrow> wc_serializeMessage codec (vt_message actual) = wc_serializeMessage codec (vt_message expected))"

subsection \<open>Reading the transaction\<close>

definition deserializeOrThrow :: "web3_codec \<Rightarrow> string \<Rightarrow> (js_error, VersionedTransaction) result" where
  "deserializeOrThrow codec base64 =
     (case wc_deserialize codec base64 of
        None \<Rightarrow> Err (Unprocessable ''Malformed transaction bytes'') | Some tx \<Rightarrow> Ok tx)"

fun read_tables :: "('w solana_rpc) \<Rightarrow> js_error \<Rightarrow> string list \<Rightarrow> ('w, lookup_table list) remote" where
  "read_tables rpc missing [] = return_remote (Ok [])"
| "read_tables rpc missing (k # ks) =
     then_remote (sr_getAddressLookupTable rpc k) (\<lambda>value.
       case value of
         None \<Rightarrow> return_remote (Err missing)
       | Some t \<Rightarrow> then_remote (read_tables rpc missing ks) (\<lambda>ts. return_remote (Ok (t # ts))))"

definition resolveLookupTables :: "('w solana_rpc) \<Rightarrow> VersionedTransaction \<Rightarrow> ('w, lookup_table list) remote" where
  "resolveLookupTables rpc transaction =
     read_tables rpc (Unprocessable ''Referenced address lookup table could not be resolved'')
       (map fst (tm_addressTableLookups (vt_message transaction)))"

definition assertUserAlreadySigned ::
    "VersionedTransaction \<Rightarrow> string \<Rightarrow> string list \<Rightarrow> (js_error, unit) result" where
  "assertUserAlreadySigned transaction userWalletAddress accountKeys =
     (case find (\<lambda>i. nth_opt accountKeys i = Some userWalletAddress)
             [0 ..< tm_numRequiredSignatures (vt_message transaction)] of
        None \<Rightarrow> Err (Forbidden ''This transaction does not require the wallet to sign it'')
      | Some userSignerIndex \<Rightarrow>
          reject_if (case nth_opt (vt_signatures transaction) userSignerIndex of
              None \<Rightarrow> True | Some signature \<Rightarrow> list_all (\<lambda>byte. byte = 0) signature)
            (Forbidden ''This transaction has not actually been signed by the wallet yet''))"

fun resolve_accounts :: "string list \<Rightarrow> nat list \<Rightarrow> (js_error, string list) result" where
  "resolve_accounts accountKeys [] = Ok []"
| "resolve_accounts accountKeys (i # is) =
     (case nth_opt accountKeys i of
        None \<Rightarrow> Err (Unprocessable ''Transaction references an unresolvable account'')
      | Some k \<Rightarrow> bind_result (resolve_accounts accountKeys is) (\<lambda>ks. Ok (k # ks)))"

fun resolve_instructions ::
    "string list \<Rightarrow> compiled_instruction list \<Rightarrow> (js_error, ResolvedInstruction list) result" where
  "resolve_instructions accountKeys [] = Ok []"
| "resolve_instructions accountKeys (ix # ixs) =
     (case nth_opt accountKeys (ci_programIdIndex ix) of
        None \<Rightarrow> Err (Unprocessable ''Transaction references an unresolvable program account'')
      | Some programId \<Rightarrow>
          bind_result (resolve_accounts accountKeys (ci_accountKeyIndexes ix)) (\<lambda>accounts.
          bind_result (resolve_instructions accountKeys ixs) (\<lambda>rest.
            Ok (\<lparr>ri_programId = programId, ri_data = ci_data ix, ri_accounts = accounts\<rparr> # rest))))"

subsection \<open>Co-signing a swap\<close>

fun check_fresh :: "'w solana_rpc \<Rightarrow> string list \<Rightarrow> ('w, unit) remote" where
  "check_fresh rpc [] = return_remote (Ok ())"
| "check_fresh rpc (target # targets) =
     then_remote (sr_accountExists rpc target) (\<lambda>known.
       if known then return_remote (Err (Forbidden ''This transaction closes a token account that was not created fresh''))
       else check_fresh rpc targets)"

definition simulation_error :: "string \<Rightarrow> js_error" where
  "simulation_error errText =
     Unprocessable
       (if contains_str ''\"Custom\":6001'' errText then ''Price moved more than your slippage allows''
        else if contains_str ''\"Custom\":6024'' errText then ''Not enough balance on Solana for this trade and its fee''
        else ''This trade would fail right now - nothing was sent. Please try again.'')"

text \<open>The number of associated accounts the transaction may have to open: those that do not exist
  yet, or all of them when they cannot be read (a missing account index throws inside the
  \<open>try\<close> as well).\<close>

definition ata_create_count :: "'w solana_rpc \<Rightarrow> ResolvedInstruction list \<Rightarrow> ('w, nat) remote" where
  "ata_create_count rpc instructions w =
     (let ataCreates = filter (\<lambda>ix. ri_programId ix = ATA_PROGRAM_ID) instructions in
      if ataCreates = [] then (Ok 0, w)
      else if list_ex (\<lambda>ix. nth_opt (ri_accounts ix) 1 = None) ataCreates then (Ok (length ataCreates), w)
      else (case sr_accountsExist rpc (map (\<lambda>ix. ri_accounts ix ! 1) ataCreates) w of
              (Inr existing, w1) \<Rightarrow> (Ok (length (filter Not existing)), w1)
            | (Inl e, w1) \<Rightarrow> (Ok (length ataCreates), w1)))"

text \<open>Everything before the signature (steps 3 to 8).\<close>

definition coSign_checks ::
    "'w gas_relayer \<Rightarrow> 'w solana_rpc \<Rightarrow> string \<Rightarrow> VersionedTransaction \<Rightarrow> string \<Rightarrow> ('w, unit) remote" where
  "coSign_checks gr rpc feePayer transaction walletAddress =
     then_remote (resolveLookupTables rpc transaction) (\<lambda>lookups.
       let accountKeys = wc_getAccountKeys (gr_codec gr) (vt_message transaction) lookups in
       then_remote (return_remote
          (bind_result (reject_if (nth_opt accountKeys 0 \<noteq> Some feePayer)
             (Forbidden ''The fee payer of this transaction is not this relayer'')) (\<lambda>_.
           bind_result (assertUserAlreadySigned transaction walletAddress accountKeys) (\<lambda>_.
           bind_result (resolve_instructions accountKeys (tm_compiledInstructions (vt_message transaction))) (\<lambda>ixs.
             case validateRelayerInstructions ixs [feePayer, walletAddress] of
               Inl reason \<Rightarrow> Err (Forbidden reason)
             | Inr closes \<Rightarrow> Ok (ixs, closes)))))) (\<lambda>(ixs, closes).
       then_remote (check_fresh rpc closes) (\<lambda>_.
       then_remote (sr_simulateTransaction rpc transaction True) (\<lambda>err.
         case err of
           Some errText \<Rightarrow> return_remote (Err (simulation_error errText))
         | None \<Rightarrow>
             then_remote (sr_getFeeForMessage rpc (vt_message transaction)) (\<lambda>feeResult.
             then_remote (ata_create_count rpc ixs) (\<lambda>ataCreateCount.
               let signatureFeeLamports = (case feeResult of None \<Rightarrow> 0 | Some f \<Rightarrow> f);
                   worstCaseLamports = signatureFeeLamports + int ataCreateCount * ATA_RENT_LAMPORTS
               in return_remote (reject_if (gr_maxLamportsCeiling gr < worstCaseLamports)
                    (Forbidden ''This transaction could cost more than this relayer is willing to sponsor'')))))))) "

definition coSignAndSend ::
    "'w gas_relayer \<Rightarrow> 'w solana_rpc \<Rightarrow> string \<Rightarrow> VersionedTransaction \<Rightarrow> string \<Rightarrow> ('w, string) remote" where
  "coSignAndSend gr rpc feePayer transaction walletAddress =
     then_remote (coSign_checks gr rpc feePayer transaction walletAddress) (\<lambda>_.
       sr_sendTransaction rpc (wc_sign (gr_codec gr) transaction feePayer))"

definition test_wallet_refused :: "'w gas_relayer \<Rightarrow> string \<Rightarrow> bool" where
  "test_wallet_refused gr walletAddress =
     (case gr_testWalletAddresses gr of None \<Rightarrow> False | Some ws \<Rightarrow> walletAddress \<notin> ws)"

definition relayer_configured :: "'w gas_relayer \<Rightarrow> (js_error, 'w solana_rpc \<times> string) result" where
  "relayer_configured gr =
     (case (gr_connection gr, gr_feePayer gr) of
        (Some rpc, Some feePayer) \<Rightarrow> Ok (rpc, feePayer)
      | _ \<Rightarrow> Err (Unprocessable ''The gas relayer is not configured on this deployment''))"

record GasRelayerSubmitParams =
  gs_userId :: string
  gs_walletAddress :: string
  gs_quoteId :: string
  gs_partiallySignedTxBase64 :: string

text \<open>The checks before \<open>coSignAndSend\<close> (steps 1 to 2b).\<close>

definition sponsored_checks ::
    "'w gas_relayer \<Rightarrow> int \<Rightarrow> GasRelayerSubmitParams \<Rightarrow> solana_db
     \<Rightarrow> (js_error, 'w solana_rpc \<times> string \<times> VersionedTransaction \<times> solana_quote) result" where
  "sponsored_checks gr now p db =
     bind_result (relayer_configured gr) (\<lambda>(rpc, feePayer).
     bind_result (reject_if (test_wallet_refused gr (gs_walletAddress p))
       (Unprocessable ''The gas relayer is not configured on this deployment'')) (\<lambda>_.
     bind_result (deserializeOrThrow (gr_codec gr) (gs_partiallySignedTxBase64 p)) (\<lambda>transaction.
     bind_result (sol_quote_checks now (gs_userId p) (gs_walletAddress p) (gs_quoteId p) db) (\<lambda>quote.
     bind_result (reject_if (case parseSolanaUnsignedTx (so_unsignedTx quote) of
           None \<Rightarrow> True
         | Some expected \<Rightarrow> \<not> solanaTransactionMatchesQuote (gr_codec gr) transaction expected)
       (Forbidden ''This transaction does not match the trade you were quoted'')) (\<lambda>_.
       Ok (rpc, feePayer, transaction, quote))))))"

definition persistSponsoredTransaction ::
    "int \<Rightarrow> GasRelayerSubmitParams \<Rightarrow> solana_quote \<Rightarrow> string \<Rightarrow> string \<Rightarrow> solana_db
     \<Rightarrow> (js_error, solana_tx) result \<times> solana_db" where
  "persistSponsoredTransaction now p quote signature relayerFeePayer db =
     (case sol_create_tx now (sol_tx_of_quote quote (gs_userId p) (gs_walletAddress p) signature
              (Some relayerFeePayer)) db of
        (Inr created, db1) \<Rightarrow> (Ok created, db1)
      | (Inl e, db1) \<Rightarrow>
          (case sol_find_tx db1 (\<lambda>t. st_signature t = signature) of
             Some existing \<Rightarrow> (Ok existing, db1) | None \<Rightarrow> (Err e, db1)))"

definition submitSponsoredTransaction ::
    "'w gas_relayer \<Rightarrow> int \<Rightarrow> GasRelayerSubmitParams \<Rightarrow> solana_db \<Rightarrow> 'w
     \<Rightarrow> (js_error, solana_tx) result \<times> solana_db \<times> 'w" where
  "submitSponsoredTransaction gr now p db w =
     (case sol_find_tx db (\<lambda>t. st_quoteId t = gs_quoteId p) of
        Some existing \<Rightarrow>
          if st_userId existing \<noteq> gs_userId p
          then (Err (Forbidden ''This quote does not belong to you''), db, w) else (Ok existing, db, w)
      | None \<Rightarrow>
          (case sponsored_checks gr now p db of
             Inl e \<Rightarrow> (Err e, db, w)
           | Inr (rpc, feePayer, transaction, quote) \<Rightarrow>
               (case coSignAndSend gr rpc feePayer transaction (gs_walletAddress p) w of
                  (Inl e, w1) \<Rightarrow> (Err e, db, w1)
                | (Inr signature, w1) \<Rightarrow>
                    (let (r, db1) = persistSponsoredTransaction now p quote signature feePayer db in (r, db1, w1)))))"

definition submitSponsoredLaunchFunding ::
    "'w gas_relayer \<Rightarrow> string \<Rightarrow> string \<Rightarrow> string \<Rightarrow> string \<Rightarrow> solana_db \<Rightarrow> ('w, string) remote" where
  "submitSponsoredLaunchFunding gr userId walletAddress expectedUnsignedTxBase64 partiallySignedTxBase64 db =
     then_remote (return_remote
       (bind_result (relayer_configured gr) (\<lambda>(rpc, feePayer).
        bind_result (deserializeOrThrow (gr_codec gr) partiallySignedTxBase64) (\<lambda>transaction.
        bind_result (reject_if (\<not> solanaTransactionMatchesQuote (gr_codec gr) transaction expectedUnsignedTxBase64)
          (Forbidden ''This transaction does not match the launch you prepared'')) (\<lambda>_.
        bind_result (reject_if (\<not> sol_wallet_verified db walletAddress userId)
          (Forbidden ''This wallet is not verified as belonging to your account'')) (\<lambda>_.
          Ok (rpc, feePayer, transaction)))))))
       (\<lambda>(rpc, feePayer, transaction). coSignAndSend gr rpc feePayer transaction walletAddress)"

subsection \<open>Fee-only co-signing: moves out of Solana and tips\<close>

definition uses_account :: "string list \<Rightarrow> string \<Rightarrow> compiled_instruction \<Rightarrow> bool" where
  "uses_account accountKeys k ix = list_ex (\<lambda>i. nth_opt accountKeys i = Some k) (ci_accountKeyIndexes ix)"

definition feeOnly_checks ::
    "'w gas_relayer \<Rightarrow> 'w solana_rpc \<Rightarrow> string \<Rightarrow> VersionedTransaction \<Rightarrow> string \<Rightarrow> ('w, unit) remote" where
  "feeOnly_checks gr rpc relayer transaction userWallet =
     then_remote (resolveLookupTables rpc transaction) (\<lambda>lookups.
       let accountKeys = wc_getAccountKeys (gr_codec gr) (vt_message transaction) lookups in
       then_remote (return_remote
          (bind_result (reject_if (nth_opt accountKeys 0 \<noteq> Some relayer)
             (Forbidden ''The fee payer of this transaction is not this relayer'')) (\<lambda>_.
           bind_result (reject_if (list_ex (uses_account accountKeys relayer)
               (tm_compiledInstructions (vt_message transaction)))
             (Forbidden ''This transaction uses the relayer beyond paying its fee'')) (\<lambda>_.
           assertUserAlreadySigned transaction userWallet accountKeys)))) (\<lambda>_.
       then_remote (sr_simulateTransaction rpc transaction False) (\<lambda>err.
         case err of
           Some errText \<Rightarrow> return_remote (Err (Unprocessable ''This would fail right now - nothing was sent''))
         | None \<Rightarrow>
             then_remote (sr_getFeeForMessage rpc (vt_message transaction)) (\<lambda>fee.
               return_remote (reject_if (RELAY_DEPOSIT_MAX_FEE_LAMPORTS < (case fee of None \<Rightarrow> 0 | Some f \<Rightarrow> f))
                 (Forbidden ''This would cost the relayer more than a normal fee''))))))"

definition coSignFeeOnly ::
    "'w gas_relayer \<Rightarrow> string \<Rightarrow> string \<Rightarrow> string \<Rightarrow> ('w, string) remote" where
  "coSignFeeOnly gr userWallet expectedUnsignedTxBase64 partiallySignedTxBase64 =
     then_remote (return_remote
       (bind_result (relayer_configured gr) (\<lambda>(rpc, relayer).
        bind_result (deserializeOrThrow (gr_codec gr) partiallySignedTxBase64) (\<lambda>transaction.
        bind_result (reject_if (\<not> solanaTransactionMatchesQuote (gr_codec gr) transaction expectedUnsignedTxBase64)
          (Forbidden ''This transaction does not match what was prepared'')) (\<lambda>_.
          Ok (rpc, relayer, transaction))))))
       (\<lambda>(rpc, relayer, transaction).
          then_remote (feeOnly_checks gr rpc relayer transaction userWallet) (\<lambda>_.
            sr_sendTransaction rpc (wc_sign (gr_codec gr) transaction relayer)))"

text \<open>\<open>new VersionedTransaction(message)\<close>: every signature slot is an all-zero placeholder.\<close>

definition new_transaction :: "tx_message \<Rightarrow> VersionedTransaction" where
  "new_transaction message =
     \<lparr>vt_message = message, vt_signatures = replicate (tm_numRequiredSignatures message) (replicate 64 0)\<rparr>"

definition unsigned_base64 :: "web3_codec \<Rightarrow> tx_message \<Rightarrow> (js_error, string) result" where
  "unsigned_base64 codec message =
     bind_result (wc_serialize codec (new_transaction message)) (\<lambda>bytes. Ok (wc_toBase64 codec bytes))"

definition buildSponsoredRelayDeposit ::
    "'w gas_relayer \<Rightarrow> string \<Rightarrow> RelayInstructionJson list \<Rightarrow> string list \<Rightarrow> ('w, string) remote" where
  "buildSponsoredRelayDeposit gr userWallet instructions lookupTableAddresses =
     then_remote (return_remote
       (bind_result (relayer_configured gr) (\<lambda>(rpc, relayer).
        bind_result (reject_if (test_wallet_refused gr userWallet)
          (Unprocessable ''The gas relayer is not configured on this deployment'')) (\<lambda>_.
        bind_result (toRelayDepositInstructions instructions userWallet relayer) (\<lambda>ixs.
          Ok (rpc, relayer, ixs))))))
       (\<lambda>(rpc, relayer, ixs).
          then_remote (read_tables rpc (Unprocessable ''Could not prepare the move - try again'') lookupTableAddresses) (\<lambda>lookups.
          then_remote (sr_getLatestBlockhash rpc) (\<lambda>blockhash.
            return_remote (unsigned_base64 (gr_codec gr)
              (wc_compileToV0Message (gr_codec gr) relayer blockhash (map RelayIx ixs) lookups)))))"

definition usdc_transfers :: "web3_codec \<Rightarrow> string \<Rightarrow> (string \<times> int) list \<Rightarrow> web3_instruction list" where
  "usdc_transfers codec userWallet transfers =
     map (\<lambda>(to, amountRaw). TransferCheckedIx
       \<lparr>tc_source = wc_associatedTokenAddress codec SOLANA_USDC_MINT userWallet, tc_mint = SOLANA_USDC_MINT,
        tc_destination = to, tc_owner = userWallet, tc_amount = amountRaw, tc_decimals = 6\<rparr>) transfers"

definition buildSponsoredUsdcTransfers ::
    "'w gas_relayer \<Rightarrow> string \<Rightarrow> (string \<times> int) list \<Rightarrow> ('w, string) remote" where
  "buildSponsoredUsdcTransfers gr userWallet transfers =
     then_remote (return_remote
       (bind_result (relayer_configured gr) (\<lambda>(rpc, relayer).
        bind_result (reject_if (test_wallet_refused gr userWallet)
          (Unprocessable ''The gas relayer is not configured on this deployment'')) (\<lambda>_. Ok (rpc, relayer)))))
       (\<lambda>(rpc, relayer).
          then_remote (sr_accountsExist rpc (map fst transfers)) (\<lambda>existing.
          then_remote (return_remote (reject_if (\<not> list_all (\<lambda>b. b) existing)
            (Unprocessable ''They cannot get USDC on Solana yet - pick another network''))) (\<lambda>_.
          then_remote (sr_getLatestBlockhash rpc) (\<lambda>blockhash.
            return_remote (unsigned_base64 (gr_codec gr)
              (wc_compileToV0Message (gr_codec gr) relayer blockhash
                (usdc_transfers (gr_codec gr) userWallet transfers) []))))))"

subsection \<open>Rebroadcasting\<close>

text \<open>One tick every two seconds; a read or a send that throws is swallowed, and no send is made in
  a tick whose status read throws.\<close>

fun rebroadcastUntilLanded ::
    "('w, signature_status option) remote \<Rightarrow> ('w, string) remote \<Rightarrow> nat \<Rightarrow> 'w \<Rightarrow> 'w" where
  "rebroadcastUntilLanded getSignatureStatus sendRaw 0 w = w"
| "rebroadcastUntilLanded getSignatureStatus sendRaw (Suc left) w =
     (case getSignatureStatus w of
        (Inl e, w1) \<Rightarrow> rebroadcastUntilLanded getSignatureStatus sendRaw left w1
      | (Inr status, w1) \<Rightarrow>
          if (case status of None \<Rightarrow> False | Some s \<Rightarrow> ss_err s \<or> landed s) then w1
          else rebroadcastUntilLanded getSignatureStatus sendRaw left (snd (sendRaw w1)))"

lemma rebroadcast_sends_at_most_attempts:
  fixes sends :: "'w \<Rightarrow> nat"
  assumes "\<And>w r w1. status w = (r, w1) \<Longrightarrow> sends w1 = sends w"
    and "\<And>w. sends (snd (send w)) = Suc (sends w)"
  shows "sends (rebroadcastUntilLanded status send n w) \<le> sends w + n"
proof (induction n arbitrary: w)
  case (Suc n)
  obtain r w1 where r: "status w = (r, w1)" by fastforce
  have "sends w1 = sends w" using assms(1) r by blast
  moreover have "sends (snd (send w1)) = Suc (sends w1)" by (rule assms(2))
  ultimately show ?case using r Suc.IH [of w1] Suc.IH [of "snd (send w1)"] by (auto split: sum.splits)
qed simp

subsection \<open>What the relayer signs\<close>

lemma read_tables_send [simp]:
  "read_tables (rpc\<lparr>sr_sendTransaction := s\<rparr>) m ks = read_tables rpc m ks"
  by (induction ks) (simp_all cong: option.case_cong)

lemma check_fresh_send [simp]:
  "check_fresh (rpc\<lparr>sr_sendTransaction := s\<rparr>) ts = check_fresh rpc ts"
  by (induction ts) (simp_all cong: if_cong)

lemma ata_create_count_send [simp]:
  "ata_create_count (rpc\<lparr>sr_sendTransaction := s\<rparr>) ixs = ata_create_count rpc ixs"
  by (simp add: ata_create_count_def fun_eq_iff Let_def cong: if_cong)

lemma coSign_checks_send [simp]:
  "coSign_checks gr (rpc\<lparr>sr_sendTransaction := s\<rparr>) f tx a = coSign_checks gr rpc f tx a"
  by (simp add: coSign_checks_def resolveLookupTables_def)

lemma feeOnly_checks_send [simp]:
  "feeOnly_checks gr (rpc\<lparr>sr_sendTransaction := s\<rparr>) f tx a = feeOnly_checks gr rpc f tx a"
  by (simp add: feeOnly_checks_def resolveLookupTables_def)

lemma checks_codec_only:
  "coSign_checks (gr\<lparr>gr_connection := c\<rparr>) rpc f tx a = coSign_checks gr rpc f tx a"
  "feeOnly_checks (gr\<lparr>gr_connection := c\<rparr>) rpc f tx a = feeOnly_checks gr rpc f tx a"
  by (simp_all add: coSign_checks_def feeOnly_checks_def)

definition signed_by :: "VersionedTransaction \<Rightarrow> string list \<Rightarrow> string \<Rightarrow> bool" where
  "signed_by tx accountKeys wallet \<longleftrightarrow>
     (\<exists>i < tm_numRequiredSignatures (vt_message tx). nth_opt accountKeys i = Some wallet
        \<and> (\<exists>sig. nth_opt (vt_signatures tx) i = Some sig \<and> (\<exists>b\<in>set sig. b \<noteq> 0)))"

lemma assertUserAlreadySigned_OkD:
  "assertUserAlreadySigned tx wallet keys = Ok u \<Longrightarrow> signed_by tx keys wallet"
  unfolding assertUserAlreadySigned_def signed_by_def
  by (auto simp: reject_if_def list_all_iff split: option.splits if_splits dest!: find_SomeD)
    blast

text \<open>A transaction \<open>coSignAndSend\<close> may sign: the relayer pays, the wallet has signed, the guard
  accepts the resolved instructions, every account it closes did not exist, the simulation is
  clean, and the fee plus the rent of the accounts it opens is within the ceiling.\<close>

definition cosignable ::
    "'w gas_relayer \<Rightarrow> 'w solana_rpc \<Rightarrow> string \<Rightarrow> VersionedTransaction \<Rightarrow> string \<Rightarrow> bool" where
  "cosignable gr rpc feePayer tx wallet \<longleftrightarrow>
     (\<exists>lookups ixs closes fee n.
        (let keys = wc_getAccountKeys (gr_codec gr) (vt_message tx) lookups in
           nth_opt keys 0 = Some feePayer \<and> signed_by tx keys wallet
           \<and> resolve_instructions keys (tm_compiledInstructions (vt_message tx)) = Ok ixs
           \<and> validateRelayerInstructions ixs [feePayer, wallet] = Ok closes)
        \<and> (\<forall>t\<in>set closes. \<exists>w1 w2. sr_accountExists rpc t w1 = (Ok False, w2))
        \<and> (\<exists>w1 w2. sr_simulateTransaction rpc tx True w1 = (Ok None, w2))
        \<and> (\<exists>w1 w2. sr_getFeeForMessage rpc (vt_message tx) w1 = (Ok fee, w2))
        \<and> (\<exists>w1 w2. ata_create_count rpc ixs w1 = (Ok n, w2))
        \<and> (case fee of None \<Rightarrow> 0 | Some f \<Rightarrow> f) + int n * ATA_RENT_LAMPORTS \<le> gr_maxLamportsCeiling gr)"

lemma check_fresh_OkD:
  "check_fresh rpc ts w = (Ok u, w') \<Longrightarrow> \<forall>t\<in>set ts. \<exists>w1 w2. sr_accountExists rpc t w1 = (Ok False, w2)"
proof (induction ts arbitrary: w)
  case (Cons t ts)
  then obtain w1 where "sr_accountExists rpc t w = (Ok False, w1)" "check_fresh rpc ts w1 = (Ok u, w')"
    by (auto simp: then_remote_Ok split: if_splits)
  with Cons.IH show ?case by auto
qed simp

lemma coSign_checks_OkD:
  assumes "coSign_checks gr rpc feePayer tx wallet w = (Ok u, w')"
  shows "cosignable gr rpc feePayer tx wallet"
proof -
  from assms obtain lookups w1 ixs closes w2 w3 w4 fee w5 n where
    "nth_opt (wc_getAccountKeys (gr_codec gr) (vt_message tx) lookups) 0 = Some feePayer"
    "assertUserAlreadySigned tx wallet (wc_getAccountKeys (gr_codec gr) (vt_message tx) lookups) = Ok ()"
    "resolve_instructions (wc_getAccountKeys (gr_codec gr) (vt_message tx) lookups)
       (tm_compiledInstructions (vt_message tx)) = Ok ixs"
    "validateRelayerInstructions ixs [feePayer, wallet] = Ok closes"
    "check_fresh rpc closes w1 = (Ok (), w2)" "sr_simulateTransaction rpc tx True w2 = (Ok None, w3)"
    "sr_getFeeForMessage rpc (vt_message tx) w3 = (Ok fee, w4)" "ata_create_count rpc ixs w4 = (Ok n, w5)"
    "\<not> gr_maxLamportsCeiling gr < (case fee of None \<Rightarrow> 0 | Some f \<Rightarrow> f) + int n * ATA_RENT_LAMPORTS"
    unfolding coSign_checks_def Let_def
    by (auto simp: then_remote_Ok bind_result_Ok_iff reject_if_def split: if_splits option.splits sum.splits)
  then show ?thesis
    unfolding cosignable_def Let_def
    by (metis assertUserAlreadySigned_OkD check_fresh_OkD not_less)
qed

lemma coSignAndSend_send:
  assumes "coSignAndSend gr rpc feePayer tx wallet w
      \<noteq> coSignAndSend gr (rpc\<lparr>sr_sendTransaction := s\<rparr>) feePayer tx wallet w"
  shows "cosignable gr rpc feePayer tx wallet"
proof -
  obtain r w1 where r: "coSign_checks gr rpc feePayer tx wallet w = (r, w1)" by fastforce
  with assms have "\<exists>u. r = Ok u" by (cases r) (simp_all add: coSignAndSend_def then_remote_def)
  with r coSign_checks_OkD show ?thesis by fast
qed

definition with_send :: "(VersionedTransaction \<Rightarrow> ('w, string) remote) \<Rightarrow> 'w gas_relayer \<Rightarrow> 'w gas_relayer" where
  "with_send s gr = gr\<lparr>gr_connection := map_option (\<lambda>rpc. rpc\<lparr>sr_sendTransaction := s\<rparr>) (gr_connection gr)\<rparr>"

text \<open>The trade a sponsored submission may send: the caller's own unexpired quote for their own
  verified wallet, and a transaction whose message bytes are the quoted ones.\<close>

definition reviewed :: "'w gas_relayer \<Rightarrow> int \<Rightarrow> GasRelayerSubmitParams \<Rightarrow> solana_db \<Rightarrow> VersionedTransaction \<Rightarrow> bool" where
  "reviewed gr now p db tx \<longleftrightarrow>
     (\<exists>q b64 expected. q \<in> set (sd_quotes db) \<and> so_id q = gs_quoteId p \<and> so_userId q = gs_userId p
        \<and> so_walletAddress q = gs_walletAddress p \<and> now < so_expiresAt q
        \<and> sol_wallet_verified db (gs_walletAddress p) (gs_userId p)
        \<and> wc_deserialize (gr_codec gr) (gs_partiallySignedTxBase64 p) = Some tx
        \<and> parseSolanaUnsignedTx (so_unsignedTx q) = Some b64
        \<and> wc_deserialize (gr_codec gr) b64 = Some expected
        \<and> wc_serializeMessage (gr_codec gr) (vt_message tx) = wc_serializeMessage (gr_codec gr) (vt_message expected))"

lemma sol_quote_checks_OkD:
  "sol_quote_checks now userId wallet quoteId db = Ok q \<Longrightarrow>
     q \<in> set (sd_quotes db) \<and> so_id q = quoteId \<and> so_userId q = userId \<and> so_walletAddress q = wallet
     \<and> now < so_expiresAt q \<and> sol_wallet_verified db wallet userId"
  by (auto simp: sol_quote_checks_def split: option.splits if_splits dest!: find_SomeD)

lemma sponsored_checks_OkD:
  assumes "sponsored_checks gr now p db = Ok (rpc, feePayer, tx, q)"
  shows "gr_connection gr = Some rpc" "gr_feePayer gr = Some feePayer" "reviewed gr now p db tx"
proof -
  show "gr_connection gr = Some rpc" "gr_feePayer gr = Some feePayer"
    using assms by (auto simp: sponsored_checks_def bind_result_Ok_iff relayer_configured_def
        split: option.splits if_splits)
  from assms show "reviewed gr now p db tx"
    unfolding reviewed_def sponsored_checks_def
    by (auto simp: bind_result_Ok_iff deserializeOrThrow_def reject_if_def solanaTransactionMatchesQuote_def
        dest!: sol_quote_checks_OkD split: option.splits if_splits)
qed

lemma with_send_checks:
  "sponsored_checks (with_send s gr) now p db =
     bind_result (sponsored_checks gr now p db) (\<lambda>(rpc, feePayer, tx, q).
       Ok (rpc\<lparr>sr_sendTransaction := s\<rparr>, feePayer, tx, q))"
  by (auto simp: sponsored_checks_def with_send_def relayer_configured_def test_wallet_refused_def
      bind_result_def split: option.splits sum.splits)

lemma with_send_coSign:
  "coSignAndSend (with_send s gr) rpc = coSignAndSend gr rpc"
  by (simp add: coSignAndSend_def with_send_def checks_codec_only fun_eq_iff)

text \<open>C21: the relayer's key is used only on a reviewed trade.  If what \<open>sendTransaction\<close> does can
  make any difference to a sponsored submission (its answer, the stored rows or the world), then
  the quote is the caller's own, unexpired and for their own verified wallet, the message bytes
  are the quoted ones, and the transaction passed every check: the relayer pays, the wallet has
  signed, the guard and the simulation accept it and its worst case cost is within the ceiling.\<close>

theorem sponsored_send_only_reviewed:
  assumes "submitSponsoredTransaction gr now p db w \<noteq> submitSponsoredTransaction (with_send s gr) now p db w"
  shows "\<exists>rpc feePayer tx. gr_connection gr = Some rpc \<and> gr_feePayer gr = Some feePayer
     \<and> reviewed gr now p db tx \<and> cosignable gr rpc feePayer tx (gs_walletAddress p)"
proof -
  have none: "sol_find_tx db (\<lambda>t. st_quoteId t = gs_quoteId p) = None"
    using assms by (auto simp: submitSponsoredTransaction_def split: option.splits)
  obtain rpc feePayer tx q where ok: "sponsored_checks gr now p db = Ok (rpc, feePayer, tx, q)"
    using assms none
    by (cases "sponsored_checks gr now p db") (auto simp: submitSponsoredTransaction_def with_send_checks)
  have "coSignAndSend gr rpc feePayer tx (gs_walletAddress p) w
      \<noteq> coSignAndSend gr (rpc\<lparr>sr_sendTransaction := s\<rparr>) feePayer tx (gs_walletAddress p) w"
    using assms none ok
    by (auto simp: submitSponsoredTransaction_def with_send_checks with_send_coSign)
  then have "cosignable gr rpc feePayer tx (gs_walletAddress p)" by (rule coSignAndSend_send)
  with sponsored_checks_OkD [OF ok] show ?thesis by blast
qed

text \<open>A deployment with a codec whose base64 texts name two transactions: the quoted one, unsigned
  and signed by the user.\<close>

definition sample_message :: tx_message where
  "sample_message = \<lparr>tm_numRequiredSignatures = 2,
     tm_staticAccountKeys = [''Relayer'', ''User'', JUPITER_V6_PROGRAM_ID], tm_recentBlockhash = ''bh'',
     tm_compiledInstructions = [\<lparr>ci_programIdIndex = 2, ci_accountKeyIndexes = [1], ci_data = [2]\<rparr>],
     tm_addressTableLookups = []\<rparr>"

definition sample_codec :: web3_codec where
  "sample_codec = \<lparr>
     wc_deserialize = (\<lambda>b. if b = ''unsigned'' then Some \<lparr>vt_message = sample_message, vt_signatures = [[0], [0]]\<rparr>
                          else if b = ''signed'' then Some \<lparr>vt_message = sample_message, vt_signatures = [[0], [7]]\<rparr>
                          else None),
     wc_serializeMessage = (\<lambda>m. concat (map ci_data (tm_compiledInstructions m))),
     wc_serialize = (\<lambda>t. Ok (concat (vt_signatures t))), wc_toBase64 = (\<lambda>b. ''unsigned''),
     wc_getAccountKeys = (\<lambda>m ts. tm_staticAccountKeys m @ concat (map lt_addresses ts)),
     wc_sign = (\<lambda>t k. t\<lparr>vt_signatures := [1] # tl (vt_signatures t)\<rparr>),
     wc_compileToV0Message = (\<lambda>payer bh ixs ts. sample_message),
     wc_associatedTokenAddress = (\<lambda>m a. a)\<rparr>"

definition sample_rpc :: "nat solana_rpc" where
  "sample_rpc = \<lparr>sr_getAddressLookupTable = (\<lambda>k w. (Ok None, w)), sr_accountExists = (\<lambda>k w. (Ok True, w)),
     sr_accountsExist = (\<lambda>ks w. (Ok (map (\<lambda>k. True) ks), w)), sr_simulateTransaction = (\<lambda>t b w. (Ok None, w)),
     sr_getFeeForMessage = (\<lambda>m w. (Ok (Some 10000), w)), sr_getLatestBlockhash = (\<lambda>w. (Ok ''bh'', w)),
     sr_sendTransaction = (\<lambda>t w. (Ok ''sig'', Suc w))\<rparr>"

definition sample_relayer :: "nat gas_relayer" where
  "sample_relayer = \<lparr>gr_connection = Some sample_rpc, gr_feePayer = Some ''Relayer'',
     gr_maxLamportsCeiling = 3000000, gr_testWalletAddresses = None, gr_codec = sample_codec\<rparr>"

definition sample_solana_db :: solana_db where
  "sample_solana_db = \<lparr>sd_quotes = [\<lparr>so_id = ''q1'', so_userId = ''u1'', so_walletAddress = ''User'', so_side = ''BUY'',
      so_inputMint = ''USDC'', so_outputMint = ''MINT'', so_inputAmount = ''1000000'', so_expectedOutputAmount = ''5'',
      so_platformFeeAmount = ''2500'', so_unsignedTx = JObj [(''base64'', JStr ''unsigned'')], so_expiresAt = 1000\<rparr>],
     sd_txs = [], sd_wallets = [\<lparr>sw_address = ''User'', sw_userId = ''u1'', sw_verifiedAt = Some 1, sw_isSolana = True\<rparr>],
     sd_next = 0\<rparr>"

definition sample_submit :: GasRelayerSubmitParams where
  "sample_submit = \<lparr>gs_userId = ''u1'', gs_walletAddress = ''User'', gs_quoteId = ''q1'',
                    gs_partiallySignedTxBase64 = ''signed''\<rparr>"

lemma sample_submit_sends:
  "snd (snd (submitSponsoredTransaction sample_relayer 500 sample_submit sample_solana_db 7)) = 8"
  "snd (snd (submitSponsoredTransaction (with_send (\<lambda>t w. (Err TypeError, w)) sample_relayer) 500 sample_submit
      sample_solana_db 7)) = 7"
  by code_simp+

lemma sponsored_send_only_reviewed_witness:
  "\<exists>tx. reviewed sample_relayer 500 sample_submit sample_solana_db tx
      \<and> cosignable sample_relayer sample_rpc ''Relayer'' tx ''User''"
proof -
  have "submitSponsoredTransaction sample_relayer 500 sample_submit sample_solana_db 7
      \<noteq> submitSponsoredTransaction (with_send (\<lambda>t w. (Err TypeError, w)) sample_relayer) 500 sample_submit
           sample_solana_db 7" (is "?a \<noteq> ?b")
  proof
    assume "?a = ?b"
    then have "snd (snd ?a) = snd (snd ?b)" by (rule arg_cong)
    then show False unfolding sample_submit_sends by simp
  qed
  from sponsored_send_only_reviewed [OF this] obtain rpc feePayer tx where
    r: "gr_connection sample_relayer = Some rpc" "gr_feePayer sample_relayer = Some feePayer"
      "reviewed sample_relayer 500 sample_submit sample_solana_db tx"
      "cosignable sample_relayer rpc feePayer tx (gs_walletAddress sample_submit)" by blast
  have "rpc = sample_rpc" "feePayer = ''Relayer''" using r(1,2) unfolding sample_relayer_def by simp_all
  moreover have "gs_walletAddress sample_submit = ''User''" unfolding sample_submit_def by simp
  ultimately show ?thesis using r(3,4) by metis
qed

text \<open>What a fee-only signature rests on.\<close>

definition fee_only ::
    "'w gas_relayer \<Rightarrow> 'w solana_rpc \<Rightarrow> string \<Rightarrow> VersionedTransaction \<Rightarrow> string \<Rightarrow> bool" where
  "fee_only gr rpc relayer tx wallet \<longleftrightarrow>
     (\<exists>lookups fee.
        (let keys = wc_getAccountKeys (gr_codec gr) (vt_message tx) lookups in
           nth_opt keys 0 = Some relayer \<and> signed_by tx keys wallet
           \<and> (\<forall>ix\<in>set (tm_compiledInstructions (vt_message tx)).
                \<forall>i\<in>set (ci_accountKeyIndexes ix). nth_opt keys i \<noteq> Some relayer))
        \<and> (\<exists>w1 w2. sr_simulateTransaction rpc tx False w1 = (Ok None, w2))
        \<and> (\<exists>w1 w2. sr_getFeeForMessage rpc (vt_message tx) w1 = (Ok fee, w2))
        \<and> (case fee of None \<Rightarrow> 0 | Some f \<Rightarrow> f) \<le> RELAY_DEPOSIT_MAX_FEE_LAMPORTS)"

lemma feeOnly_checks_OkD:
  assumes "feeOnly_checks gr rpc relayer tx wallet w = (Ok u, w')"
  shows "fee_only gr rpc relayer tx wallet"
proof -
  from assms obtain lookups w1 w2 w3 fee where
    "nth_opt (wc_getAccountKeys (gr_codec gr) (vt_message tx) lookups) 0 = Some relayer"
    "assertUserAlreadySigned tx wallet (wc_getAccountKeys (gr_codec gr) (vt_message tx) lookups) = Ok ()"
    "\<not> list_ex (uses_account (wc_getAccountKeys (gr_codec gr) (vt_message tx) lookups) relayer)
       (tm_compiledInstructions (vt_message tx))"
    "sr_simulateTransaction rpc tx False w1 = (Ok None, w2)" "sr_getFeeForMessage rpc (vt_message tx) w2 = (Ok fee, w3)"
    "\<not> RELAY_DEPOSIT_MAX_FEE_LAMPORTS < (case fee of None \<Rightarrow> 0 | Some f \<Rightarrow> f)"
    unfolding feeOnly_checks_def Let_def
    by (auto simp: then_remote_Ok bind_result_Ok_iff reject_if_def split: if_splits option.splits)
  then show ?thesis
    unfolding fee_only_def Let_def uses_account_def list_ex_iff
    by (metis assertUserAlreadySigned_OkD not_less)
qed

text \<open>C22: on the fee-only path (moves out of Solana and tips) the relayer can lose nothing but a
  normal fee.  If what \<open>sendTransaction\<close> does can make any difference to the call, then the
  message is the one built, the wallet has signed, the relayer is the fee payer and appears in no
  instruction, the simulation is clean, and the fee is at most 200000 lamports.\<close>

theorem fee_only_spends_only_the_fee:
  assumes "coSignFeeOnly gr wallet expected signedTx w \<noteq> coSignFeeOnly (with_send s gr) wallet expected signedTx w"
  shows "\<exists>rpc relayer tx. gr_connection gr = Some rpc \<and> gr_feePayer gr = Some relayer
     \<and> wc_deserialize (gr_codec gr) signedTx = Some tx
     \<and> solanaTransactionMatchesQuote (gr_codec gr) tx expected \<and> fee_only gr rpc relayer tx wallet"
proof -
  obtain rpc relayer tx where c: "gr_connection gr = Some rpc" "gr_feePayer gr = Some relayer"
    "wc_deserialize (gr_codec gr) signedTx = Some tx" "solanaTransactionMatchesQuote (gr_codec gr) tx expected"
    using assms
    by (auto simp: coSignFeeOnly_def then_remote_def return_remote_def with_send_def relayer_configured_def
        deserializeOrThrow_def bind_result_def reject_if_def split: option.splits if_splits)
  obtain r w1 where r: "feeOnly_checks gr rpc relayer tx wallet w = (r, w1)" by fastforce
  with assms c have "\<exists>u. r = Ok u"
    by (cases r) (simp_all add: coSignFeeOnly_def with_send_def relayer_configured_def deserializeOrThrow_def
        checks_codec_only then_remote_def return_remote_def)
  with r feeOnly_checks_OkD have "fee_only gr rpc relayer tx wallet" by fast
  with c show ?thesis by blast
qed

lemma sample_tip_sends:
  "snd (coSignFeeOnly sample_relayer ''User'' ''unsigned'' ''signed'' 7) = 8"
  "snd (coSignFeeOnly (with_send (\<lambda>t w. (Err TypeError, w)) sample_relayer) ''User'' ''unsigned'' ''signed'' 7) = 7"
  by code_simp+

lemma fee_only_spends_only_the_fee_witness:
  "\<exists>rpc tx. fee_only sample_relayer rpc ''Relayer'' tx ''User''"
proof -
  have "coSignFeeOnly sample_relayer ''User'' ''unsigned'' ''signed'' 7
      \<noteq> coSignFeeOnly (with_send (\<lambda>t w. (Err TypeError, w)) sample_relayer) ''User'' ''unsigned'' ''signed'' 7"
    (is "?a \<noteq> ?b")
  proof
    assume "?a = ?b"
    then have "snd ?a = snd ?b" by (rule arg_cong)
    then show False unfolding sample_tip_sends by simp
  qed
  from fee_only_spends_only_the_fee [OF this] obtain rpc relayer tx where
    "gr_feePayer sample_relayer = Some relayer" "fee_only sample_relayer rpc relayer tx ''User''" by blast
  moreover have "gr_feePayer sample_relayer = Some ''Relayer''" unfolding sample_relayer_def by simp
  ultimately show ?thesis by auto
qed

end
