(* ===== verification/JSNumber.thy ===== *)
theory JSNumber
  imports JSText
begin

section \<open>Number(text)\<close>

text \<open>
  JavaScript's \<open>Number\<close> on a string: surrounding white space is ignored, the empty text is 0, the
  radix prefixes take no sign, a decimal literal may have a fraction and an exponent and is
  rounded to the nearest double, anything else is \<open>NaN\<close>.
\<close>

definition exponent_part :: "string \<Rightarrow> int option" where
  "exponent_part s =
     (case s of
        [] \<Rightarrow> Some 0
      | c # r \<Rightarrow>
          if lower_char c \<noteq> CHR ''e'' then None
          else (case r of
                  [] \<Rightarrow> None
                | d # ds \<Rightarrow>
                    if d = CHR ''-'' then map_option uminus (decimal_literal ds)
                    else if d = CHR ''+'' then decimal_literal ds
                    else decimal_literal r))"

definition unsigned_decimal :: "string \<Rightarrow> rat option" where
  "unsigned_decimal s =
     (let i = takeWhile is_digit s; r = dropWhile is_digit s;
          (f, r2) = (case r of [] \<Rightarrow> ([], r)
                     | c # r' \<Rightarrow> if c = CHR ''.'' then (takeWhile is_digit r', dropWhile is_digit r') else ([], r))
      in if i @ f = [] then None
         else map_option (\<lambda>e. of_int (radix_value 10 (i @ f)) * 10 powi (e - int (length f))) (exponent_part r2))"

definition unsigned_number :: "string \<Rightarrow> jsnum" where
  "unsigned_number u =
     (if u = ''Infinity'' then Infty False
      else case unsigned_decimal u of None \<Rightarrow> NaN | Some q \<Rightarrow> to_num q)"

definition js_Number :: "string \<Rightarrow> jsnum" where
  "js_Number s =
     (case trim s of
        [] \<Rightarrow> Fin 0
      | c # t \<Rightarrow>
          if c = CHR ''-'' then nneg (unsigned_number t)
          else if c = CHR ''+'' then unsigned_number t
          else (case t of
                  [] \<Rightarrow> unsigned_number (c # t)
                | p # ds \<Rightarrow>
                    if c = CHR ''0'' \<and> lower_char p \<in> {CHR ''x'', CHR ''o'', CHR ''b''}
                    then (case prefixed_literal p ds of None \<Rightarrow> NaN | Some i \<Rightarrow> num_of_int i)
                    else unsigned_number (c # t)))"

lemma unsigned_decimal_digits:
  "all_digits s \<Longrightarrow> unsigned_decimal s = Some (of_int (radix_value 10 s))"
proof -
  assume a: "all_digits s"
  then have "list_all is_digit s" "s \<noteq> []" by (simp_all add: all_digits_def)
  then have d: "takeWhile is_digit s = s" "dropWhile is_digit s = []"
    by (simp_all add: list_all_iff takeWhile_eq_all_conv)
  show ?thesis
    unfolding unsigned_decimal_def Let_def d exponent_part_def using \<open>s \<noteq> []\<close> by simp
qed

lemma js_Number_samples:
  "js_Number ''0.0012'' = to_num (12 / 10000)" "js_Number ''  1500000 '' = Fin 1500000"
  "js_Number '''' = Fin 0" "js_Number ''1e3'' = Fin 1000" "js_Number ''12px'' = NaN" "js_Number ''-2.5'' = Fin (- 5 / 2)"
  by code_simp+

end
