(* ===== verification/Jupiter.thy ===== *)
theory Jupiter
  imports SolanaRelay JSNumber
begin

section \<open>Jupiter quotes\<close>

text \<open>
  \<open>apps/api/src/solana/jupiter-quote.service.ts\<close>.  The HTTP endpoints are parameters: what a
  request is answered with, as functions of the outside world.  The service's own state is its
  rate limiter; both travel together as the state of the calls.
\<close>

record 'b http_response =
  hr_status :: int
  hr_retryAfter :: "string option"
  hr_json :: "'b option"

definition response_ok :: "'b http_response \<Rightarrow> bool" where
  "response_ok r = (200 \<le> hr_status r \<and> hr_status r \<le> 299)"

record quote_request =
  qr_inputMint :: string
  qr_outputMint :: string
  qr_amount :: string
  qr_slippageBps :: jsnum
  qr_platformFeeBps :: "jsnum option"
  qr_maxAccounts :: "nat option"

record JupiterQuoteResponse =
  jq_inAmount :: string
  jq_outAmount :: string
  jq_otherAmountThreshold :: string
  jq_priceImpactPct :: "string option"
  jq_platformFeeAmount :: "string option"

record swap_request =
  wr_quote :: JupiterQuoteResponse
  wr_userPublicKey :: string
  wr_payer :: "string option"
  wr_feeAccount :: "string option"
  wr_jitoTipLamports :: "jsnum option"
  wr_priorityFeeMax :: "jsnum option"

record instructions_body =
  ib_computeBudgetInstructions :: "JupiterRawInstruction list"
  ib_setupInstructions :: "JupiterRawInstruction list"
  ib_swapInstruction :: JupiterRawInstruction
  ib_cleanupInstruction :: "JupiterRawInstruction option"
  ib_addressLookupTableAddresses :: "string list"

record JupiterSwapInstructions = JupiterSwapInstructionsResult +
  js_inputAmountRaw :: string
  js_outputAmountRaw :: string
  js_minOutputAmountRaw :: string
  js_priceImpactBps :: "jsnum option"
  js_platformFeeAmountRaw :: "string option"
  js_addressLookupTableAddresses :: "string list"

text \<open>\<open>ht_now\<close>, \<open>ht_sleep\<close> and \<open>ht_random\<close> are the clock, the timer and \<open>Math.random\<close>.\<close>

record 'w jupiter_http =
  ht_quote :: "quote_request \<Rightarrow> ('w, JupiterQuoteResponse http_response) remote"
  ht_swap :: "swap_request \<Rightarrow> ('w, string http_response) remote"
  ht_swapInstructions :: "swap_request \<Rightarrow> ('w, instructions_body http_response) remote"
  ht_now :: "'w \<Rightarrow> jsnum"
  ht_sleep :: "jsnum \<Rightarrow> 'w \<Rightarrow> 'w"
  ht_random :: "'w \<Rightarrow> jsnum"

record 'w jupiter_service =
  jp_http :: "'w jupiter_http"
  jp_apiKey :: "string option"
  jp_priorityFeeMax :: jsnum

type_synonym ('w, 'a) jupiter_call = "JupiterRateLimiter \<times> 'w \<Rightarrow> (js_error, 'a) result \<times> JupiterRateLimiter \<times> 'w"

definition MAX_RETRY_ATTEMPTS :: nat where "MAX_RETRY_ATTEMPTS = 3"
definition BASE_RETRY_DELAY_MS :: jsnum where "BASE_RETRY_DELAY_MS = Fin 400"

definition priority_fee_max :: "string option \<Rightarrow> jsnum" where
  "priority_fee_max setting =
     (case setting of
        None \<Rightarrow> Fin 100000
      | Some s \<Rightarrow> if is_finite (js_Number s) then nmax (Fin 0) (nfloor (js_Number s)) else Fin 100000)"

subsection \<open>Retries on 429\<close>

definition retry_delay :: "nat \<Rightarrow> string option \<Rightarrow> jsnum \<Rightarrow> jsnum" where
  "retry_delay attempt retryAfterHeader random =
     (let retryAfterSeconds = (case retryAfterHeader of None \<Rightarrow> NaN | Some h \<Rightarrow> js_Number h) in
      if is_finite retryAfterSeconds \<and> ngt retryAfterSeconds (Fin 0)
      then nmul retryAfterSeconds (Fin 1000)
      else nadd (nmul BASE_RETRY_DELAY_MS (Fin (2 ^ attempt))) (nmul random (Fin 250)))"

text \<open>The loop after the first answer; \<open>fuel\<close> is the number of retries left.\<close>

fun retry429 ::
    "'w jupiter_http \<Rightarrow> ('w, 'b http_response) remote \<Rightarrow> nat \<Rightarrow> nat \<Rightarrow> 'b http_response
     \<Rightarrow> ('w, 'b http_response) jupiter_call" where
  "retry429 http fetch 0 attempt response s = (Ok response, s)"
| "retry429 http fetch (Suc left) attempt response (l, w) =
     (if hr_status response \<noteq> 429 then (Ok response, (l, w))
      else
        let w1 = ht_sleep http (retry_delay attempt (hr_retryAfter response) (ht_random http w)) w;
            l1 = limiter_note (ht_now http w1) l
        in (case fetch w1 of
              (Inl e, w2) \<Rightarrow> (Inl e, (l1, w2))
            | (Inr response', w2) \<Rightarrow> retry429 http fetch left (Suc attempt) response' (l1, w2)))"

text \<open>\<open>JupiterBusyError\<close> is the limiter's \<open>TooManyRequests\<close>.\<close>

definition fetchWithRetry ::
    "'w jupiter_http \<Rightarrow> ('w, 'b http_response) remote \<Rightarrow> ('w, 'b http_response) jupiter_call" where
  "fetchWithRetry http fetch s =
     (case s of (l, w) \<Rightarrow>
        (case limiter_take (ht_now http w) l of
           (Inl e, l1) \<Rightarrow> (Inl e, (l1, w))
         | (Inr slot, l1) \<Rightarrow>
             let waitMs = nsub slot (ht_now http w);
                 w1 = (if ngt waitMs (Fin 0) then ht_sleep http waitMs w else w)
             in (case fetch w1 of
                   (Inl e, w2) \<Rightarrow> (Inl e, (l1, w2))
                 | (Inr response, w2) \<Rightarrow> retry429 http fetch MAX_RETRY_ATTEMPTS 0 response (l1, w2))))"

text \<open>What the three endpoint methods make of an answer: busy is a 503, any other failure is
  null.\<close>

definition is_busy :: "js_error \<Rightarrow> bool" where
  "is_busy e = (case e of TooManyRequests _ \<Rightarrow> True | _ \<Rightarrow> False)"

datatype 'b answer = Body 'b | NoRoute | NoAnswer

definition request_answer ::
    "'w jupiter_http \<Rightarrow> ('w, 'b http_response) remote \<Rightarrow> ('w, 'b answer) jupiter_call" where
  "request_answer http fetch s =
     (case fetchWithRetry http fetch s of
        (Inl e, s1) \<Rightarrow>
          if is_busy e then (Err (ServiceUnavailable (error_message e)), s1) else (Ok NoAnswer, s1)
      | (Inr response, s1) \<Rightarrow>
          if \<not> response_ok response then (Ok (if hr_status response = 400 then NoRoute else NoAnswer), s1)
          else (case hr_json response of None \<Rightarrow> (Ok NoAnswer, s1) | Some b \<Rightarrow> (Ok (Body b), s1)))"

definition requestQuote ::
    "'w jupiter_http \<Rightarrow> quote_request \<Rightarrow> ('w, JupiterQuoteResponse answer) jupiter_call" where
  "requestQuote http q = request_answer http (ht_quote http q)"

definition answer_body :: "'b answer \<Rightarrow> 'b option" where
  "answer_body a = (case a of Body b \<Rightarrow> Some b | _ \<Rightarrow> None)"

definition fetchQuote ::
    "'w jupiter_http \<Rightarrow> string \<Rightarrow> string \<Rightarrow> string \<Rightarrow> jsnum \<Rightarrow> jsnum \<Rightarrow> nat option
     \<Rightarrow> ('w, JupiterQuoteResponse option) jupiter_call" where
  "fetchQuote http inputMint outputMint amountRaw slippage feeBps' maxAccounts =
     (let query = (\<lambda>m. \<lparr>qr_inputMint = inputMint, qr_outputMint = outputMint, qr_amount = amountRaw,
            qr_slippageBps = slippage,
            qr_platformFeeBps = (if ngt feeBps' (Fin 0) then Some feeBps' else None),
            qr_maxAccounts = m\<rparr>)
      in case maxAccounts of
           Some m \<Rightarrow> then_remote (requestQuote http (query (Some m))) (\<lambda>a. return_remote (Ok (answer_body a)))
         | None \<Rightarrow>
             then_remote (requestQuote http (query (Some 50))) (\<lambda>bounded.
               case bounded of
                 NoRoute \<Rightarrow> then_remote (requestQuote http (query None)) (\<lambda>u. return_remote (Ok (answer_body u)))
               | _ \<Rightarrow> return_remote (Ok (answer_body bounded))))"

definition parsePriceImpactBps :: "string option \<Rightarrow> jsnum option" where
  "parsePriceImpactBps raw =
     (case raw of
        None \<Rightarrow> None
      | Some r \<Rightarrow>
          let pct = js_Number r in
          if \<not> is_finite pct then None else Some (nround (nmul pct (Fin 10000))))"

subsection \<open>The service\<close>

record JupiterQuoteParams =
  jp_inputMint :: string
  jp_outputMint :: string
  jp_amountRaw :: string
  jp_slippageBps :: jsnum
  jp_userPublicKey :: string
  jp_platformFeeBps :: jsnum
  jp_feeAccount :: string
  jp_jitoTipLamports :: "jsnum option"

record JupiterQuoteResult =
  jr_inputMint :: string
  jr_outputMint :: string
  jr_inputAmountRaw :: string
  jr_outputAmountRaw :: string
  jr_minOutputAmountRaw :: string
  jr_priceImpactBps :: "jsnum option"
  jr_platformFeeBps :: jsnum
  jr_platformFeeAmountRaw :: "string option"
  jr_unsignedTxBase64 :: string

definition fetchSwapTransaction ::
    "'w jupiter_http \<Rightarrow> JupiterQuoteResponse \<Rightarrow> JupiterQuoteParams \<Rightarrow> ('w, string option) jupiter_call" where
  "fetchSwapTransaction http quote p =
     then_remote (request_answer http (ht_swap http
         \<lparr>wr_quote = quote, wr_userPublicKey = jp_userPublicKey p, wr_payer = None,
          wr_feeAccount = (if ngt (jp_platformFeeBps p) (Fin 0) then Some (jp_feeAccount p) else None),
          wr_jitoTipLamports = (case jp_jitoTipLamports p of
             None \<Rightarrow> None | Some t \<Rightarrow> if t = NaN \<or> t = Fin 0 then None else Some t),
          wr_priorityFeeMax = None\<rparr>))
       (\<lambda>a. return_remote (Ok (answer_body a)))"

definition getQuote ::
    "'w jupiter_service \<Rightarrow> JupiterQuoteParams \<Rightarrow> ('w, JupiterQuoteResult option) jupiter_call" where
  "getQuote jup p =
     (case jp_apiKey jup of
        None \<Rightarrow> return_remote (Ok None)
      | Some key \<Rightarrow>
          then_remote (fetchQuote (jp_http jup) (jp_inputMint p) (jp_outputMint p) (jp_amountRaw p)
              (jp_slippageBps p) (jp_platformFeeBps p) None) (\<lambda>q.
            case q of
              None \<Rightarrow> return_remote (Ok None)
            | Some quote \<Rightarrow>
                then_remote (fetchSwapTransaction (jp_http jup) quote p) (\<lambda>swap.
                  case swap of
                    None \<Rightarrow> return_remote (Ok None)
                  | Some swapTransaction \<Rightarrow> return_remote (Ok (Some
                      \<lparr>jr_inputMint = jp_inputMint p, jr_outputMint = jp_outputMint p,
                       jr_inputAmountRaw = jq_inAmount quote, jr_outputAmountRaw = jq_outAmount quote,
                       jr_minOutputAmountRaw = jq_otherAmountThreshold quote,
                       jr_priceImpactBps = parsePriceImpactBps (jq_priceImpactPct quote),
                       jr_platformFeeBps = jp_platformFeeBps p,
                       jr_platformFeeAmountRaw = jq_platformFeeAmount quote,
                       jr_unsignedTxBase64 = swapTransaction\<rparr>)))))"

record JupiterSwapInstructionsParams =
  ji_inputMint :: string
  ji_outputMint :: string
  ji_amountRaw :: string
  ji_slippageBps :: jsnum
  ji_userPublicKey :: string
  ji_platformFeeBps :: jsnum
  ji_feeAccount :: string
  ji_payer :: string
  ji_maxAccounts :: "nat option"

definition getSwapInstructions ::
    "'w jupiter_service \<Rightarrow> JupiterSwapInstructionsParams \<Rightarrow> ('w, JupiterSwapInstructions option) jupiter_call" where
  "getSwapInstructions jup p =
     (case jp_apiKey jup of
        None \<Rightarrow> return_remote (Ok None)
      | Some key \<Rightarrow>
          then_remote (fetchQuote (jp_http jup) (ji_inputMint p) (ji_outputMint p) (ji_amountRaw p)
              (ji_slippageBps p) (ji_platformFeeBps p) (ji_maxAccounts p)) (\<lambda>q.
            case q of
              None \<Rightarrow> return_remote (Ok None)
            | Some quote \<Rightarrow>
                then_remote (request_answer (jp_http jup) (ht_swapInstructions (jp_http jup)
                    \<lparr>wr_quote = quote, wr_userPublicKey = ji_userPublicKey p, wr_payer = Some (ji_payer p),
                     wr_feeAccount = (if ngt (ji_platformFeeBps p) (Fin 0) then Some (ji_feeAccount p) else None),
                     wr_jitoTipLamports = None,
                     wr_priorityFeeMax = (if ngt (jp_priorityFeeMax jup) (Fin 0) then Some (jp_priorityFeeMax jup) else None)\<rparr>))
                  (\<lambda>a. return_remote (Ok (case answer_body a of
                      None \<Rightarrow> None
                    | Some body \<Rightarrow> Some
                        \<lparr>js_computeBudgetInstructions = ib_computeBudgetInstructions body,
                         js_setupInstructions = ib_setupInstructions body,
                         js_swapInstruction = ib_swapInstruction body,
                         js_cleanupInstruction = ib_cleanupInstruction body,
                         js_inputAmountRaw = jq_inAmount quote, js_outputAmountRaw = jq_outAmount quote,
                         js_minOutputAmountRaw = jq_otherAmountThreshold quote,
                         js_priceImpactBps = parsePriceImpactBps (jq_priceImpactPct quote),
                         js_platformFeeAmountRaw = jq_platformFeeAmount quote,
                         js_addressLookupTableAddresses = ib_addressLookupTableAddresses body\<rparr>)))))"

definition getEstimatedOutputRaw ::
    "'w jupiter_service \<Rightarrow> string \<Rightarrow> string \<Rightarrow> string \<Rightarrow> jsnum \<Rightarrow> ('w, string option) jupiter_call" where
  "getEstimatedOutputRaw jup inputMint outputMint amountRaw slippage =
     (case jp_apiKey jup of
        None \<Rightarrow> return_remote (Ok None)
      | Some key \<Rightarrow>
          then_remote (fetchQuote (jp_http jup) inputMint outputMint amountRaw slippage (Fin 0) None) (\<lambda>quote.
            return_remote (Ok (map_option jq_outAmount quote))))"

subsection \<open>Attempts\<close>

lemma retry429_calls:
  assumes "\<And>w r w1. fetch w = (r, w1) \<Longrightarrow> calls w1 = Suc (calls w)"
    and "\<And>d w. calls (ht_sleep http d w) = calls w"
    and "retry429 http fetch n attempt response (l, w) = (r, (l', w'))"
  shows "calls w' \<le> calls w + n
     \<and> (\<forall>resp. r = Ok resp \<longrightarrow> resp = response \<or> (\<exists>w1 w2. fetch w1 = (Ok resp, w2)))
     \<and> (\<forall>e. r = Err e \<longrightarrow> (\<exists>w1 w2. fetch w1 = (Err e, w2)))"
  using assms(3)
proof (induction n arbitrary: attempt response l w)
  case (Suc n)
  show ?case
  proof (cases "hr_status response = 429")
    case True
    define w1 where "w1 = ht_sleep http (retry_delay attempt (hr_retryAfter response) (ht_random http w)) w"
    have c1: "calls w1 = calls w" unfolding w1_def by (rule assms(2))
    obtain q w2 where f: "fetch w1 = (q, w2)" by fastforce
    have c2: "calls w2 = Suc (calls w)" using assms(1) [OF f] c1 by simp
    show ?thesis
    proof (cases q)
      case (Inl e)
      with Suc.prems True f c2 show ?thesis by (auto simp: Let_def simp flip: w1_def)
    next
      case (Inr resp)
      with Suc.prems True f
      have "retry429 http fetch n (Suc attempt) resp (limiter_note (ht_now http w1) l, w2) = (r, (l', w'))"
        by (simp add: Let_def flip: w1_def)
      from Suc.IH [OF this] c2 f Inr show ?thesis by auto
    qed
  qed (use Suc.prems in auto)
qed auto

text \<open>C23: a request to Jupiter makes at most four calls, its body is the body of one successful
  answer, and it fails (with 503) only when the queue is too long, in which case no call was made
  at all.\<close>

theorem jupiter_request_bounded:
  assumes "\<And>w r w1. fetch w = (r, w1) \<Longrightarrow> calls w1 = Suc (calls w)"
    and "\<And>d w. calls (ht_sleep http d w) = calls w"
    and "\<And>w e w1. fetch w = (Err e, w1) \<Longrightarrow> \<not> is_busy e"
    and "request_answer http fetch (l, w) = (r, (l', w'))"
  shows "calls w' \<le> calls w + 4
     \<and> (\<forall>b. r = Ok (Body b) \<longrightarrow>
          (\<exists>w1 resp w2. fetch w1 = (Ok resp, w2) \<and> response_ok resp \<and> hr_json resp = Some b))
     \<and> (\<forall>e. r = Err e \<longrightarrow> calls w' = calls w \<and> (\<exists>m. e = ServiceUnavailable m))"
proof -
  obtain q s1 where q: "fetchWithRetry http fetch (l, w) = (q, s1)" by (metis surj_pair)
  obtain t l1 where t: "limiter_take (ht_now http w) l = (t, l1)" by fastforce
  show ?thesis
  proof (cases t)
    case (Inl e)
    then have "s1 = (l1, w)" "q = Err e" using q t by (simp_all add: fetchWithRetry_def)
    moreover have "is_busy e" using t Inl by (auto simp: limiter_take_def Let_def is_busy_def split: if_splits)
    ultimately show ?thesis using assms(4) q by (auto simp: request_answer_def)
  next
    case (Inr slot)
    define wait where "wait = nsub slot (ht_now http w)"
    define w1 where "w1 = (if ngt wait (Fin 0) then ht_sleep http wait w else w)"
    have w1: "calls w1 = calls w" unfolding w1_def using assms(2) by simp
    obtain resp w2 where f: "fetch w1 = (resp, w2)" by (metis surj_pair)
    have cont: "(case resp of Inl e \<Rightarrow> (Inl e, (l1, w2)) | Inr response \<Rightarrow> retry429 http fetch MAX_RETRY_ATTEMPTS 0 response (l1, w2))
         = (q, s1)"
      using q t Inr f by (simp add: fetchWithRetry_def Let_def flip: wait_def w1_def)
    have c2: "calls w2 = Suc (calls w)" using assms(1) [OF f] w1 by simp
    have "calls (snd s1) \<le> calls w + 4 \<and> (\<forall>rp. q = Ok rp \<longrightarrow> (\<exists>u v. fetch u = (Ok rp, v)))
      \<and> (\<forall>e. q = Err e \<longrightarrow> \<not> is_busy e)"
    proof (cases resp)
      case (Inl e)
      with cont f c2 assms(3) show ?thesis by auto
    next
      case (Inr response)
      obtain l2 w3 where s1: "s1 = (l2, w3)" by fastforce
      from cont Inr s1 have "retry429 http fetch 3 0 response (l1, w2) = (q, (l2, w3))"
        by (simp add: MAX_RETRY_ATTEMPTS_def)
      from retry429_calls [OF assms(1,2) this] c2 f Inr s1 assms(3) show ?thesis by fastforce
    qed
    with assms(4) q show ?thesis
      by (cases q) (auto simp: request_answer_def split: if_splits option.splits)
  qed
qed

text \<open>An endpoint that limits its first two calls; the world counts the calls.\<close>

definition limited_quote :: "nat \<Rightarrow> (js_error, JupiterQuoteResponse http_response) result \<times> nat" where
  "limited_quote w =
     (Ok (if w < 2 then \<lparr>hr_status = 429, hr_retryAfter = Some ''2'', hr_json = None\<rparr>
          else \<lparr>hr_status = 200, hr_retryAfter = None, hr_json = Some \<lparr>jq_inAmount = ''5'', jq_outAmount = ''9'',
                 jq_otherAmountThreshold = ''8'', jq_priceImpactPct = Some ''0.0012'', jq_platformFeeAmount = None\<rparr>\<rparr>),
      Suc w)"

definition counting_http :: "nat jupiter_http" where
  "counting_http = \<lparr>ht_quote = (\<lambda>q. limited_quote), ht_swap = (\<lambda>q w. (Err TypeError, Suc w)),
     ht_swapInstructions = (\<lambda>q w. (Err TypeError, Suc w)), ht_now = (\<lambda>w. Fin 1000), ht_sleep = (\<lambda>d w. w),
     ht_random = (\<lambda>w. Fin 0)\<rparr>"

lemma counting_http_served:
  "fst (request_answer counting_http limited_quote (new_limiter (Fin 1) (Fin 8000), 0))
     = Ok (Body \<lparr>jq_inAmount = ''5'', jq_outAmount = ''9'', jq_otherAmountThreshold = ''8'',
                  jq_priceImpactPct = Some ''0.0012'', jq_platformFeeAmount = None\<rparr>)"
  "snd (snd (request_answer counting_http limited_quote (new_limiter (Fin 1) (Fin 8000), 0))) = 3"
  by code_simp+

lemma jupiter_request_bounded_witness:
  "\<exists>w1 resp w2. limited_quote w1 = (Ok resp, w2) \<and> response_ok resp
     \<and> map_option jq_outAmount (hr_json resp) = Some ''9''"
proof -
  let ?r = "request_answer counting_http limited_quote (new_limiter (Fin 1) (Fin 8000), 0)"
  obtain l' where r: "?r = (Ok (Body \<lparr>jq_inAmount = ''5'', jq_outAmount = ''9'', jq_otherAmountThreshold = ''8'',
      jq_priceImpactPct = Some ''0.0012'', jq_platformFeeAmount = None\<rparr>), (l', 3))"
    using counting_http_served by (metis prod.collapse)
  have calls: "\<And>w r w1. limited_quote w = (r, w1) \<Longrightarrow> id w1 = Suc (id w)"
    "\<And>w e w1. limited_quote w = (Err e, w1) \<Longrightarrow> \<not> is_busy e"
    by (auto simp: limited_quote_def)
  have sleep: "\<And>d w. id (ht_sleep counting_http d w) = id w" by (simp add: counting_http_def)
  from jupiter_request_bounded [OF calls(1) sleep calls(2) r] show ?thesis by fastforce
qed

end
