(* ===== verification/SolanaQuote.thy ===== *)
theory SolanaQuote
  imports Jupiter
begin

section \<open>Solana quotes\<close>

text \<open>
  \<open>apps/api/src/solana/solana-quote.service.ts\<close> and the transaction assembly of
  \<open>gas-relayer-transaction-builder.ts\<close>.  The state is the Jupiter limiter, the resolved wrapped-SOL
  fee account, the cached SOL price and the outside world.
\<close>

datatype wsol_state = WsolUnknown | WsolMissing | WsolKnown string

record 'w quote_state =
  qs_limiter :: JupiterRateLimiter
  qs_treasuryWsolAta :: wsol_state
  qs_wsolOpenTried :: bool
  qs_solPrice :: "(jsnum \<times> int) option"
  qs_world :: 'w

type_synonym ('w, 'a) quote_call = "('w quote_state, 'a) remote"

definition on_world :: "('w, 'a) remote \<Rightarrow> ('w, 'a) quote_call" where
  "on_world m s = (case m (qs_world s) of (r, w) \<Rightarrow> (r, s\<lparr>qs_world := w\<rparr>))"

definition on_jupiter :: "('w, 'a) jupiter_call \<Rightarrow> ('w, 'a) quote_call" where
  "on_jupiter m s =
     (case m (qs_limiter s, qs_world s) of (r, l, w) \<Rightarrow> (r, s\<lparr>qs_limiter := l, qs_world := w\<rparr>))"

text \<open>What the service is configured with and asks of web3.js and the price services.\<close>

record 'w quote_env =
  qe_jupiter :: "'w jupiter_service"
  qe_relayer :: "'w gas_relayer"
  qe_treasuryUsdcAta :: "string option"
  qe_rpcUrl :: "string option"
  qe_isToken2022 :: "string \<Rightarrow> ('w, bool) remote"
  qe_hasTokenAccount :: "string \<Rightarrow> string \<Rightarrow> bool \<Rightarrow> ('w, bool) remote"
  qe_fetchSolUsd :: "('w, jsnum) remote"
  qe_nativeSolUsd :: "('w, jsnum option) remote"
  qe_tokenAccountOwner :: "string \<Rightarrow> ('w, string option) remote"
  qe_accountExists :: "string \<Rightarrow> ('w, bool) remote"
  qe_openTokenAccountFor :: "string \<Rightarrow> 'w \<Rightarrow> 'w"

datatype TradeSide = BUY | SELL

record CreateSolanaQuoteParams =
  cq_userId :: string
  cq_walletAddress :: string
  cq_side :: TradeSide
  cq_tokenMint :: string
  cq_amount :: string
  cq_slippageBps :: jsnum
  cq_jitoTipLamports :: "jsnum option"
  cq_payWithNative :: bool

definition SOLANA_MAX_TRANSACTION_BYTES :: int where "SOLANA_MAX_TRANSACTION_BYTES = 1232"
definition JUPITER_MAX_PLATFORM_FEE_BPS :: jsnum where "JUPITER_MAX_PLATFORM_FEE_BPS = Fin 255"
definition WSOL_MINT :: string where "WSOL_MINT = ''So11111111111111111111111111111111111111112''"

subsection \<open>The platform fee\<close>

definition trade_usd :: "jsnum option \<Rightarrow> jsnum \<Rightarrow> jsnum" where
  "trade_usd solUsd raw =
     (case solUsd of
        Some price \<Rightarrow> nmul (ndiv raw (Fin 1000000000)) price
      | None \<Rightarrow> ndiv raw (Fin 1000000))"

definition tier_for_size :: "jsnum \<Rightarrow> (js_error, jsnum) result" where
  "tier_for_size tradeSizeUsd =
     (if nlt tradeSizeUsd MIN_TRADE_USD then Err (Unprocessable ''Minimum trade size is $2.00'')
      else resolveTierFeeBps tradeSizeUsd PLATFORM_FEE_TIERS)"

definition resolveTierBps ::
    "'w quote_env \<Rightarrow> TradeSide \<Rightarrow> string \<Rightarrow> string \<Rightarrow> string \<Rightarrow> jsnum \<Rightarrow> jsnum option \<Rightarrow> ('w, jsnum) quote_call" where
  "resolveTierBps env side inputMint outputMint amount slippage solUsd =
     (case side of
        BUY \<Rightarrow> return_remote (tier_for_size (trade_usd solUsd (js_Number amount)))
      | SELL \<Rightarrow>
          then_remote (on_jupiter (getEstimatedOutputRaw (qe_jupiter env) inputMint outputMint amount slippage)) (\<lambda>e.
            case e of
              None \<Rightarrow> return_remote (Ok PLATFORM_FEE_FALLBACK_BPS)
            | Some estimatedOutputRaw \<Rightarrow>
                return_remote (tier_for_size (trade_usd solUsd (js_Number estimatedOutputRaw)))))"

definition resolvePlatformFeeBps ::
    "'w quote_env \<Rightarrow> TradeSide \<Rightarrow> string \<Rightarrow> string \<Rightarrow> string \<Rightarrow> jsnum \<Rightarrow> jsnum option \<Rightarrow> ('w, jsnum) quote_call" where
  "resolvePlatformFeeBps env side inputMint outputMint amount slippage solUsd =
     then_remote (resolveTierBps env side inputMint outputMint amount slippage solUsd) (\<lambda>bps.
       return_remote (Ok (nmin JUPITER_MAX_PLATFORM_FEE_BPS bps)))"

subsection \<open>The wrapped-SOL fee account\<close>

text \<open>Every read that throws gives null; opening the account is started once and not awaited.\<close>

definition wsolFeeAccount :: "'w quote_env \<Rightarrow> 'w quote_state \<Rightarrow> string option \<times> 'w quote_state" where
  "wsolFeeAccount env s =
     (case qs_treasuryWsolAta s of
        WsolKnown ata \<Rightarrow> (Some ata, s)
      | _ \<Rightarrow>
          (case (qe_treasuryUsdcAta env, qe_rpcUrl env) of
             (Some usdcAta, Some url) \<Rightarrow>
               (case on_world (qe_tokenAccountOwner env usdcAta) s of
                  (Inr (Some owner), s1) \<Rightarrow>
                    let ata = wc_associatedTokenAddress (gr_codec (qe_relayer env)) WSOL_MINT owner in
                    (case on_world (qe_accountExists env ata) s1 of
                       (Inr True, s2) \<Rightarrow> (Some ata, s2\<lparr>qs_treasuryWsolAta := WsolKnown ata\<rparr>)
                     | (Inr False, s2) \<Rightarrow>
                         let s3 = (if qs_wsolOpenTried s2 then s2
                                   else s2\<lparr>qs_wsolOpenTried := True,
                                           qs_world := qe_openTokenAccountFor env owner (qs_world s2)\<rparr>)
                         in (None, s3\<lparr>qs_treasuryWsolAta := WsolMissing\<rparr>)
                     | (Inl e, s2) \<Rightarrow> (None, s2))
                | (Inr None, s1) \<Rightarrow> (None, s1)
                | (Inl e, s1) \<Rightarrow> (None, s1))
           | _ \<Rightarrow> (None, s)))"

text \<open>The timer that makes the next quote look again.\<close>

definition wsol_timer :: "'w quote_state \<Rightarrow> 'w quote_state" where
  "wsol_timer s = (if qs_treasuryWsolAta s = WsolMissing then s\<lparr>qs_treasuryWsolAta := WsolUnknown\<rparr> else s)"

subsection \<open>Self-paid quotes\<close>

record SolanaQuoteResult = JupiterQuoteResult +
  sq_id :: string
  sq_side :: TradeSide
  sq_setupFeeAmountRaw :: "string option"
  sq_expiresAt :: int

record solana_quote_row = solana_quote +
  qw_minOutputAmount :: string
  qw_priceImpactBps :: "jsnum option"
  qw_slippageBps :: jsnum
  qw_platformFeeBps :: jsnum
  qw_priceUsd :: "jsnum option"

definition side_text :: "TradeSide \<Rightarrow> string" where
  "side_text side = (case side of BUY \<Rightarrow> ''BUY'' | SELL \<Rightarrow> ''SELL'')"

definition assertWalletOwnership :: "solana_db \<Rightarrow> string \<Rightarrow> string \<Rightarrow> (js_error, unit) result" where
  "assertWalletOwnership db userId walletAddress =
     reject_if (\<not> sol_wallet_verified db walletAddress userId)
       (Forbidden ''This wallet is not verified as belonging to your account'')"

definition quote_mints :: "TradeSide \<Rightarrow> string \<Rightarrow> string \<Rightarrow> string \<times> string" where
  "quote_mints side dollarMint tokenMint =
     (case side of BUY \<Rightarrow> (dollarMint, tokenMint) | SELL \<Rightarrow> (tokenMint, dollarMint))"

definition quote_expiry :: "int \<Rightarrow> int" where
  "quote_expiry now = now + quoteTtlSeconds TRADING_DEFAULTS * 1000"

definition quote_row ::
    "CreateSolanaQuoteParams \<Rightarrow> string \<Rightarrow> string \<Rightarrow> string \<Rightarrow> string \<Rightarrow> string \<Rightarrow> jsnum option \<Rightarrow> jsnum
     \<Rightarrow> string \<Rightarrow> jsnum option \<Rightarrow> json \<Rightarrow> int \<Rightarrow> solana_quote_row" where
  "quote_row p inputMint outputMint inputAmount outputAmount minOutput impact bps fee priceUsd unsignedTx expiresAt =
     \<lparr>so_id = [], so_userId = cq_userId p, so_walletAddress = cq_walletAddress p, so_side = side_text (cq_side p),
      so_inputMint = inputMint, so_outputMint = outputMint, so_inputAmount = inputAmount,
      so_expectedOutputAmount = outputAmount, so_platformFeeAmount = fee, so_unsignedTx = unsignedTx,
      so_expiresAt = expiresAt, qw_minOutputAmount = minOutput, qw_priceImpactBps = impact,
      qw_slippageBps = cq_slippageBps p, qw_platformFeeBps = bps, qw_priceUsd = priceUsd\<rparr>"

text \<open>The result and the row that is created.\<close>

definition createQuote ::
    "'w quote_env \<Rightarrow> int \<Rightarrow> CreateSolanaQuoteParams \<Rightarrow> solana_db
     \<Rightarrow> ('w, JupiterQuoteResult \<times> solana_quote_row) quote_call" where
  "createQuote env now p db =
     (case qe_treasuryUsdcAta env of
        None \<Rightarrow> return_remote (Err (Unprocessable ''Solana trading is not enabled on this deployment''))
      | Some usdcAta \<Rightarrow>
          then_remote (return_remote (assertWalletOwnership db (cq_userId p) (cq_walletAddress p))) (\<lambda>_.
          let isNative = cq_payWithNative p;
              dollarMint = (if isNative then WSOL_MINT else SOLANA_USDC_MINT) in
          case quote_mints (cq_side p) dollarMint (cq_tokenMint p) of (inputMint, outputMint) \<Rightarrow>
          then_remote (if isNative then on_world (qe_nativeSolUsd env) else return_remote (Ok None)) (\<lambda>solUsd.
          then_remote (return_remote (reject_if (isNative \<and> solUsd = None)
            (Unprocessable ''Prices are loading - try again in a moment.''))) (\<lambda>_.
          then_remote (if isNative then (\<lambda>s. case wsolFeeAccount env s of (a, s1) \<Rightarrow> (Ok a, s1))
                       else return_remote (Ok (Some usdcAta))) (\<lambda>feeAccount.
          case feeAccount of
            None \<Rightarrow> return_remote (Err (Unprocessable ''Trading with SOL is being set up - try again soon.''))
          | Some account \<Rightarrow>
              then_remote (resolvePlatformFeeBps env (cq_side p) inputMint outputMint (cq_amount p)
                  (cq_slippageBps p) (if isNative then solUsd else None)) (\<lambda>bps.
              then_remote (on_jupiter (getQuote (qe_jupiter env)
                  \<lparr>jp_inputMint = inputMint, jp_outputMint = outputMint, jp_amountRaw = cq_amount p,
                   jp_slippageBps = cq_slippageBps p, jp_userPublicKey = cq_walletAddress p,
                   jp_platformFeeBps = bps, jp_feeAccount = account, jp_jitoTipLamports = cq_jitoTipLamports p\<rparr>)) (\<lambda>q.
              case q of
                None \<Rightarrow> return_remote (Err (Unprocessable ''No live quote is available for this trade right now''))
              | Some quote \<Rightarrow>
                  return_remote (Ok (quote,
                    quote_row p (jr_inputMint quote) (jr_outputMint quote) (jr_inputAmountRaw quote)
                      (jr_outputAmountRaw quote) (jr_minOutputAmountRaw quote) (jr_priceImpactBps quote)
                      (jr_platformFeeBps quote) (case jr_platformFeeAmountRaw quote of None \<Rightarrow> ''0'' | Some a \<Rightarrow> a)
                      solUsd (JObj [(''base64'', JStr (jr_unsignedTxBase64 quote))]) (quote_expiry now)))))))))) "

subsection \<open>Sponsored quotes\<close>

definition buildSponsoredSwapTransaction ::
    "'w gas_relayer \<Rightarrow> 'w solana_rpc \<Rightarrow> string \<Rightarrow> string \<Rightarrow> JupiterSwapInstructions \<Rightarrow> web3_instruction list
     \<Rightarrow> ('w, VersionedTransaction) remote" where
  "buildSponsoredSwapTransaction gr rpc relayerPubkey outputMint result extraInstructions =
     then_remote (read_tables rpc (Error ''Referenced address lookup table could not be resolved'')
         (js_addressLookupTableAddresses result)) (\<lambda>lookupTableAccounts.
     then_remote (sr_getLatestBlockhash rpc) (\<lambda>blockhash.
       return_remote (Ok (new_transaction (wc_compileToV0Message (gr_codec gr) relayerPubkey blockhash
         (map JupiterIx (sponsored_instructions relayerPubkey outputMint result) @ extraInstructions)
         lookupTableAccounts)))))"

definition setupFeeInstruction :: "web3_codec \<Rightarrow> string \<Rightarrow> string \<Rightarrow> int \<Rightarrow> web3_instruction" where
  "setupFeeInstruction codec walletAddress treasuryUsdcAta amountRaw =
     TransferCheckedIx \<lparr>tc_source = wc_associatedTokenAddress codec SOLANA_USDC_MINT walletAddress,
       tc_mint = SOLANA_USDC_MINT, tc_destination = treasuryUsdcAta, tc_owner = walletAddress,
       tc_amount = amountRaw, tc_decimals = 6\<rparr>"

definition solUsd_read :: "'w quote_env \<Rightarrow> int \<Rightarrow> ('w, jsnum) quote_call" where
  "solUsd_read env now s =
     (case qs_solPrice s of
        Some (usd, since) \<Rightarrow>
          if now - since < 60000 then (Ok usd, s)
          else (case on_world (qe_fetchSolUsd env) s of
                  (r, s1) \<Rightarrow> let (usd, cache) = sol_usd_price now (case r of Inr p \<Rightarrow> Some p | Inl e \<Rightarrow> None) (qs_solPrice s1)
                            in (Ok usd, s1\<lparr>qs_solPrice := cache\<rparr>))
      | None \<Rightarrow>
          (case on_world (qe_fetchSolUsd env) s of
             (r, s1) \<Rightarrow> let (usd, cache) = sol_usd_price now (case r of Inr p \<Rightarrow> Some p | Inl e \<Rightarrow> None) (qs_solPrice s1)
                       in (Ok usd, s1\<lparr>qs_solPrice := cache\<rparr>)))"

definition setup_fee_for :: "'w quote_env \<Rightarrow> int \<Rightarrow> string \<Rightarrow> string \<Rightarrow> ('w, int) quote_call" where
  "setup_fee_for env now walletAddress mint =
     then_remote (on_world (qe_isToken2022 env mint)) (\<lambda>isToken2022.
     then_remote (on_world (qe_hasTokenAccount env walletAddress mint isToken2022)) (\<lambda>existing.
       if existing then return_remote (Ok 0)
       else then_remote (solUsd_read env now) (\<lambda>usd.
              return_remote (resolveNewCoinSetupFee isToken2022 False usd))))"

text \<open>\<open>.catch(() => 0n)\<close>: a failed check never blocks the trade.\<close>

definition setup_fee_or_zero :: "'w quote_env \<Rightarrow> int \<Rightarrow> string \<Rightarrow> string \<Rightarrow> ('w, int) quote_call" where
  "setup_fee_or_zero env now walletAddress mint s =
     (case setup_fee_for env now walletAddress mint s of
        (Inr f, s1) \<Rightarrow> (Ok f, s1) | (Inl e, s1) \<Rightarrow> (Ok 0, s1))"

text \<open>One attempt with a route cap: no route, too large, or the serialized transaction.\<close>

datatype route_attempt = NoInstructions | TooLarge | Fits string JupiterSwapInstructions

definition try_route ::
    "'w quote_env \<Rightarrow> 'w solana_rpc \<Rightarrow> string \<Rightarrow> string \<Rightarrow> JupiterSwapInstructionsParams \<Rightarrow> int
     \<Rightarrow> nat option \<Rightarrow> ('w, route_attempt) quote_call" where
  "try_route env rpc relayer treasury req chargeRaw maxAccounts =
     then_remote (on_jupiter (getSwapInstructions (qe_jupiter env) (req\<lparr>ji_maxAccounts := maxAccounts\<rparr>))) (\<lambda>i.
       case i of
         None \<Rightarrow> return_remote (Ok NoInstructions)
       | Some instructions \<Rightarrow>
           then_remote (on_world (buildSponsoredSwapTransaction (qe_relayer env) rpc relayer (ji_outputMint req)
               instructions
               (if 0 < chargeRaw
                then [setupFeeInstruction (gr_codec (qe_relayer env)) (ji_userPublicKey req) treasury chargeRaw]
                else []))) (\<lambda>transaction.
             case wc_serialize (gr_codec (qe_relayer env)) transaction of
               Inr bytes \<Rightarrow>
                 return_remote (Ok (if int (length bytes) \<le> SOLANA_MAX_TRANSACTION_BYTES
                    then Fits (wc_toBase64 (gr_codec (qe_relayer env)) bytes) instructions else TooLarge))
             | Inl e \<Rightarrow> if e = RangeError then return_remote (Ok TooLarge) else return_remote (Err e)))"

fun route_loop ::
    "(nat option \<Rightarrow> ('w, route_attempt) quote_call) \<Rightarrow> nat option list \<Rightarrow> bool
     \<Rightarrow> ('w, string \<times> JupiterSwapInstructions) quote_call" where
  "route_loop attempt [] anyRoute =
     return_remote (Err (Unprocessable
       (if anyRoute then ''This trade route is too complex right now'' else ''No live quote is available for this trade right now'')))"
| "route_loop attempt (m # ms) anyRoute =
     then_remote (attempt m) (\<lambda>a.
       case a of
         NoInstructions \<Rightarrow> route_loop attempt ms anyRoute
       | TooLarge \<Rightarrow> route_loop attempt ms True
       | Fits base64 instructions \<Rightarrow> return_remote (Ok (base64, instructions)))"

definition ROUTE_CAPS :: "nat option list" where
  "ROUTE_CAPS = [None, Some 46, Some 42, Some 38, Some 32]"

definition test_wallet_gate :: "string set option \<Rightarrow> string \<Rightarrow> (js_error, unit) result" where
  "test_wallet_gate allowed walletAddress =
     reject_if (case allowed of None \<Rightarrow> False | Some ws \<Rightarrow> walletAddress \<notin> ws)
       (Unprocessable ''Gas sponsorship is not enabled on this deployment'')"

record sponsored_charges =
  sc_platformFeeBps :: jsnum
  sc_setupFeeRaw :: int
  sc_buyFeeRaw :: int
  sc_swapAmountRaw :: int

definition sponsored_charges_of ::
    "TradeSide \<Rightarrow> string \<Rightarrow> jsnum \<Rightarrow> int \<Rightarrow> (js_error, sponsored_charges) result" where
  "sponsored_charges_of side amount bps setupFeeRaw =
     bind_result (case side of
         BUY \<Rightarrow> bind_result (BigInt amount) (\<lambda>a. bind_result (BigInt_num bps) (\<lambda>b. Ok (bigint_div (a * b) 10000)))
       | SELL \<Rightarrow> Ok 0) (\<lambda>buyFeeRaw.
     bind_result (BigInt amount) (\<lambda>a.
       let swapAmountRaw = a - setupFeeRaw - buyFeeRaw in
       if swapAmountRaw \<le> 0 then Err (Unprocessable ''First buy of this coin needs more (new coin setup)'')
       else Ok \<lparr>sc_platformFeeBps = bps, sc_setupFeeRaw = setupFeeRaw, sc_buyFeeRaw = buyFeeRaw,
                sc_swapAmountRaw = swapAmountRaw\<rparr>))"

definition sponsored_request ::
    "CreateSolanaQuoteParams \<Rightarrow> string \<Rightarrow> string \<Rightarrow> string \<Rightarrow> sponsored_charges \<Rightarrow> JupiterSwapInstructionsParams" where
  "sponsored_request p treasury relayer outputMint c =
     \<lparr>ji_inputMint = (case cq_side p of BUY \<Rightarrow> SOLANA_USDC_MINT | SELL \<Rightarrow> cq_tokenMint p),
      ji_outputMint = outputMint, ji_amountRaw = string_of_int (sc_swapAmountRaw c),
      ji_slippageBps = cq_slippageBps p, ji_userPublicKey = cq_walletAddress p,
      ji_platformFeeBps = (case cq_side p of BUY \<Rightarrow> Fin 0 | SELL \<Rightarrow> sc_platformFeeBps c),
      ji_feeAccount = treasury, ji_payer = relayer, ji_maxAccounts = None\<rparr>"

definition sponsored_row ::
    "CreateSolanaQuoteParams \<Rightarrow> int \<Rightarrow> sponsored_charges \<Rightarrow> string \<times> string \<Rightarrow> string \<Rightarrow> JupiterSwapInstructions
     \<Rightarrow> solana_quote_row" where
  "sponsored_row p now c mints base64 i =
     quote_row p (fst mints) (snd mints) (js_inputAmountRaw i) (js_outputAmountRaw i) (js_minOutputAmountRaw i)
       (js_priceImpactBps i) (sc_platformFeeBps c)
       (case cq_side p of
          BUY \<Rightarrow> string_of_int (sc_buyFeeRaw c)
        | SELL \<Rightarrow> (case js_platformFeeAmountRaw i of None \<Rightarrow> ''0'' | Some a \<Rightarrow> a))
       None
       (JObj (case cq_side p of
          BUY \<Rightarrow> [(''base64'', JStr base64), (''totalPaidRaw'', JStr (cq_amount p))]
        | SELL \<Rightarrow> [(''base64'', JStr base64)]))
       (quote_expiry now)"

definition createSponsoredQuote ::
    "'w quote_env \<Rightarrow> int \<Rightarrow> CreateSolanaQuoteParams \<Rightarrow> solana_db
     \<Rightarrow> ('w, sponsored_charges \<times> string \<times> solana_quote_row) quote_call" where
  "createSponsoredQuote env now p db =
     (case qe_treasuryUsdcAta env of
        None \<Rightarrow> return_remote (Err (Unprocessable ''Solana trading is not enabled on this deployment''))
      | Some treasury \<Rightarrow>
          (case (gr_feePayer (qe_relayer env), gr_connection (qe_relayer env)) of
             (Some relayer, Some rpc) \<Rightarrow>
               then_remote (return_remote
                 (bind_result (test_wallet_gate (gr_testWalletAddresses (qe_relayer env)) (cq_walletAddress p)) (\<lambda>_.
                  assertWalletOwnership db (cq_userId p) (cq_walletAddress p)))) (\<lambda>_.
               let mints = quote_mints (cq_side p) SOLANA_USDC_MINT (cq_tokenMint p) in
               then_remote (resolvePlatformFeeBps env (cq_side p) (fst mints) (snd mints) (cq_amount p)
                   (cq_slippageBps p) None) (\<lambda>bps.
               then_remote (case cq_side p of
                   BUY \<Rightarrow> setup_fee_or_zero env now (cq_walletAddress p) (snd mints)
                 | SELL \<Rightarrow> return_remote (Ok 0)) (\<lambda>setupFeeRaw.
               then_remote (return_remote (sponsored_charges_of (cq_side p) (cq_amount p) bps setupFeeRaw)) (\<lambda>c.
               then_remote (route_loop (try_route env rpc relayer treasury
                   (sponsored_request p treasury relayer (snd mints) c) (sc_setupFeeRaw c + sc_buyFeeRaw c))
                   ROUTE_CAPS False) (\<lambda>(base64, i).
                 return_remote (Ok (c, base64, sponsored_row p now c mints base64 i)))))))
           | _ \<Rightarrow> return_remote (Err (Unprocessable ''Gas sponsorship is not enabled on this deployment''))))"

subsection \<open>What a sponsored buy costs\<close>

lemma on_world_Ok: "on_world m s = (Ok a, s') \<Longrightarrow> \<exists>w1 w2. m w1 = (Ok a, w2)"
  by (auto simp: on_world_def split: prod.splits)

lemma on_jupiter_Ok: "on_jupiter m s = (Ok a, s') \<Longrightarrow> \<exists>u v. m u = (Ok a, v)"
  by (auto simp: on_jupiter_def split: prod.splits)

lemma route_loop_Ok:
  "route_loop attempt ms any s = (Ok (b, i), s') \<Longrightarrow>
     \<exists>m\<in>set ms. \<exists>s1 s2. attempt m s1 = (Ok (Fits b i), s2)"
proof (induction ms arbitrary: any s)
  case (Cons m ms)
  then obtain a s1 where a: "attempt m s = (Ok a, s1)"
    and k: "(case a of NoInstructions \<Rightarrow> route_loop attempt ms any | TooLarge \<Rightarrow> route_loop attempt ms True
       | Fits base64 instructions \<Rightarrow> return_remote (Ok (base64, instructions))) s1 = (Ok (b, i), s')"
    by (auto simp: then_remote_Ok)
  show ?case
  proof (cases a)
    case NoInstructions
    with k have "route_loop attempt ms any s1 = (Ok (b, i), s')" by simp
    from Cons.IH [OF this] show ?thesis by auto
  next
    case TooLarge
    with k have "route_loop attempt ms True s1 = (Ok (b, i), s')" by simp
    from Cons.IH [OF this] show ?thesis by auto
  next
    case (Fits c j)
    with k a show ?thesis by auto
  qed
qed simp

text \<open>A transaction that carries Jupiter's instructions for \<open>req\<close> and the given extra
  instructions, and fits one packet.\<close>

definition carries ::
    "'w quote_env \<Rightarrow> string \<Rightarrow> JupiterSwapInstructionsParams \<Rightarrow> web3_instruction list \<Rightarrow> string \<Rightarrow> JupiterSwapInstructions
     \<Rightarrow> bool" where
  "carries env relayer req extra base64 i \<longleftrightarrow>
     (\<exists>bytes blockhash lookups m u v.
        base64 = wc_toBase64 (gr_codec (qe_relayer env)) bytes \<and> int (length bytes) \<le> SOLANA_MAX_TRANSACTION_BYTES
        \<and> wc_serialize (gr_codec (qe_relayer env)) (new_transaction (wc_compileToV0Message (gr_codec (qe_relayer env))
             relayer blockhash (map JupiterIx (sponsored_instructions relayer (ji_outputMint req) i) @ extra) lookups))
           = Ok bytes
        \<and> getSwapInstructions (qe_jupiter env) (req\<lparr>ji_maxAccounts := m\<rparr>) u = (Ok (Some i), v))"

lemma try_route_Fits:
  assumes "try_route env rpc relayer treasury req charge m s = (Ok (Fits b i), s')"
  shows "carries env relayer req
     (if 0 < charge then [setupFeeInstruction (gr_codec (qe_relayer env)) (ji_userPublicKey req) treasury charge] else []) b i"
proof -
  define extra where "extra = (if 0 < charge
     then [setupFeeInstruction (gr_codec (qe_relayer env)) (ji_userPublicKey req) treasury charge] else [])"
  from assms obtain j s1 tx s2 where
    j0: "on_jupiter (getSwapInstructions (qe_jupiter env) (req\<lparr>ji_maxAccounts := m\<rparr>)) s = (Ok (Some j), s1)"
    and b0: "on_world (buildSponsoredSwapTransaction (qe_relayer env) rpc relayer (ji_outputMint req) j extra) s1
        = (Ok tx, s2)"
    and k: "(case wc_serialize (gr_codec (qe_relayer env)) tx of
         Inr bytes \<Rightarrow> return_remote (Ok (if int (length bytes) \<le> SOLANA_MAX_TRANSACTION_BYTES
              then Fits (wc_toBase64 (gr_codec (qe_relayer env)) bytes) j else TooLarge))
       | Inl e \<Rightarrow> if e = RangeError then return_remote (Ok TooLarge) else return_remote (Err e)) s2
       = (Ok (Fits b i), s')"
    unfolding try_route_def extra_def [symmetric]
    by (auto simp: then_remote_Ok split: option.splits)
  from k have t: "\<exists>bytes. wc_serialize (gr_codec (qe_relayer env)) tx = Ok bytes
        \<and> int (length bytes) \<le> SOLANA_MAX_TRANSACTION_BYTES \<and> b = wc_toBase64 (gr_codec (qe_relayer env)) bytes"
    and "j = i"
    by (cases "wc_serialize (gr_codec (qe_relayer env)) tx"; auto split: if_splits)+
  with j0 b0 have j: "on_jupiter (getSwapInstructions (qe_jupiter env) (req\<lparr>ji_maxAccounts := m\<rparr>)) s = (Ok (Some i), s1)"
    and b: "on_world (buildSponsoredSwapTransaction (qe_relayer env) rpc relayer (ji_outputMint req) i extra) s1
        = (Ok tx, s2)" by simp_all
  from on_world_Ok [OF b] obtain blockhash lookups where
    "tx = new_transaction (wc_compileToV0Message (gr_codec (qe_relayer env)) relayer blockhash
       (map JupiterIx (sponsored_instructions relayer (ji_outputMint req) i) @ extra) lookups)"
    by (auto simp: buildSponsoredSwapTransaction_def then_remote_Ok)
  with t on_jupiter_Ok [OF j] show ?thesis unfolding carries_def extra_def [symmetric] by blast
qed

lemma resolvePlatformFeeBps_capped:
  assumes "resolvePlatformFeeBps env side i m amount slip u s = (Ok bps, s')" "BigInt_num bps = Ok b"
  shows "bps = Fin (of_int b) \<and> b \<le> 255"
proof -
  from assms(1) obtain t where t: "bps = nmin (Fin 255) t"
    by (auto simp: resolvePlatformFeeBps_def then_remote_Ok JUPITER_MAX_PLATFORM_FEE_BPS_def)
  from assms(2) obtain x where x: "bps = Fin x" "x = of_int b"
    by (cases bps) (auto split: if_splits)
  with t have "x \<le> 255" by (cases t) (auto simp: nmin_def split: if_splits)
  with x show ?thesis by simp
qed

lemma sponsored_charges_BUY:
  assumes "sponsored_charges_of BUY amount bps f = Ok c"
  obtains a b where "BigInt amount = Ok a" "BigInt_num bps = Ok b" "sc_platformFeeBps c = bps"
    "sc_setupFeeRaw c = f" "sc_buyFeeRaw c = bigint_div (a * b) 10000"
    "a = sc_swapAmountRaw c + f + sc_buyFeeRaw c" "0 < sc_swapAmountRaw c"
proof -
  from assms obtain a b where ab: "BigInt amount = Ok a" "BigInt_num bps = Ok b"
    by (auto simp: sponsored_charges_of_def bind_result_Ok_iff)
  define x where "x = bigint_div (a * b) 10000"
  have e: "sponsored_charges_of BUY amount bps f =
     (if a - f - x \<le> 0 then Err (Unprocessable ''First buy of this coin needs more (new coin setup)'')
      else Ok \<lparr>sc_platformFeeBps = bps, sc_setupFeeRaw = f, sc_buyFeeRaw = x, sc_swapAmountRaw = a - f - x\<rparr>)"
    unfolding sponsored_charges_of_def x_def Let_def by (simp only: TradeSide.case ab bind_result_simps)
  show ?thesis
  proof (cases "a - f - x \<le> 0")
    case False
    with assms e have c: "c = \<lparr>sc_platformFeeBps = bps, sc_setupFeeRaw = f, sc_buyFeeRaw = x, sc_swapAmountRaw = a - f - x\<rparr>"
      by simp
    show ?thesis by (rule that [OF ab]) (use c False x_def in simp_all)
  qed (use assms e in simp)
qed

text \<open>C24: a sponsored buy spends exactly the amount entered.  The amount splits into the part that
  is swapped, the new-coin setup charge and the platform fee (the floor of its rate, never above
  Jupiter's 255 basis points); the transaction fits one packet, asks Jupiter to swap exactly that
  part with no further fee, and pays setup charge and fee, when there is any, to the treasury in
  one transfer; the stored quote belongs to the caller's verified wallet, lives thirty seconds and
  remembers the full amount.\<close>

theorem sponsored_buy_spends_amount:
  assumes "createSponsoredQuote env now p db s = (Ok (c, base64, row), s')" and "cq_side p = BUY"
  shows "\<exists>a b treasury relayer i.
     BigInt (cq_amount p) = Ok a \<and> a = sc_swapAmountRaw c + sc_setupFeeRaw c + sc_buyFeeRaw c
     \<and> 0 < sc_swapAmountRaw c \<and> b \<le> 255 \<and> sc_platformFeeBps c = Fin (of_int b)
     \<and> sc_buyFeeRaw c = bigint_div (a * b) 10000
     \<and> qe_treasuryUsdcAta env = Some treasury \<and> gr_feePayer (qe_relayer env) = Some relayer
     \<and> carries env relayer (sponsored_request p treasury relayer (cq_tokenMint p) c)
         (if 0 < sc_setupFeeRaw c + sc_buyFeeRaw c
          then [setupFeeInstruction (gr_codec (qe_relayer env)) (cq_walletAddress p) treasury
                 (sc_setupFeeRaw c + sc_buyFeeRaw c)] else []) base64 i
     \<and> ji_amountRaw (sponsored_request p treasury relayer (cq_tokenMint p) c) = string_of_int (sc_swapAmountRaw c)
     \<and> ji_platformFeeBps (sponsored_request p treasury relayer (cq_tokenMint p) c) = Fin 0
     \<and> sol_wallet_verified db (cq_walletAddress p) (cq_userId p)
     \<and> so_expiresAt row = now + 30000 \<and> json_field (so_unsignedTx row) ''totalPaidRaw'' = Some (JStr (cq_amount p))"
proof -
  from assms obtain treasury relayer rpc bps f s1 s2 s3 s4 i where
    t: "qe_treasuryUsdcAta env = Some treasury" "gr_feePayer (qe_relayer env) = Some relayer"
    and own: "assertWalletOwnership db (cq_userId p) (cq_walletAddress p) = Ok ()"
    and bps: "resolvePlatformFeeBps env BUY SOLANA_USDC_MINT (cq_tokenMint p) (cq_amount p) (cq_slippageBps p) None s1
        = (Ok bps, s2)"
    and c: "sponsored_charges_of BUY (cq_amount p) bps f = Ok c"
    and r: "route_loop (try_route env rpc relayer treasury (sponsored_request p treasury relayer (cq_tokenMint p) c)
        (sc_setupFeeRaw c + sc_buyFeeRaw c)) ROUTE_CAPS False s3 = (Ok (base64, i), s4)"
    and row: "row = sponsored_row p now c (SOLANA_USDC_MINT, cq_tokenMint p) base64 i"
    unfolding createSponsoredQuote_def Let_def
    by (auto simp: then_remote_Ok bind_result_Ok_iff quote_mints_def split: option.splits prod.splits)
  from c obtain a b where ab: "BigInt (cq_amount p) = Ok a" "BigInt_num bps = Ok b" "sc_platformFeeBps c = bps"
    "sc_setupFeeRaw c = f" "sc_buyFeeRaw c = bigint_div (a * b) 10000"
    "a = sc_swapAmountRaw c + f + sc_buyFeeRaw c" "0 < sc_swapAmountRaw c"
    by (rule sponsored_charges_BUY)
  note cap = resolvePlatformFeeBps_capped [OF bps ab(2)]
  from route_loop_Ok [OF r] obtain m u v where
    "try_route env rpc relayer treasury (sponsored_request p treasury relayer (cq_tokenMint p) c)
        (sc_setupFeeRaw c + sc_buyFeeRaw c) m u = (Ok (Fits base64 i), v)" by blast
  note fits = try_route_Fits [OF this]
  have user: "ji_userPublicKey (sponsored_request p treasury relayer (cq_tokenMint p) c) = cq_walletAddress p"
    by (simp add: sponsored_request_def)
  have car: "carries env relayer (sponsored_request p treasury relayer (cq_tokenMint p) c)
     (if 0 < sc_setupFeeRaw c + sc_buyFeeRaw c
      then [setupFeeInstruction (gr_codec (qe_relayer env)) (cq_walletAddress p) treasury
             (sc_setupFeeRaw c + sc_buyFeeRaw c)] else []) base64 i"
    using fits unfolding user .
  have "sol_wallet_verified db (cq_walletAddress p) (cq_userId p)"
    using own by (simp add: assertWalletOwnership_def reject_if_def split: if_splits)
  moreover have "so_expiresAt row = now + 30000"
    "json_field (so_unsignedTx row) ''totalPaidRaw'' = Some (JStr (cq_amount p))"
    unfolding row using assms(2)
    by (simp_all add: sponsored_row_def quote_row_def quote_expiry_def TRADING_DEFAULTS_def)
  moreover have "ji_amountRaw (sponsored_request p treasury relayer (cq_tokenMint p) c) = string_of_int (sc_swapAmountRaw c)"
    "ji_platformFeeBps (sponsored_request p treasury relayer (cq_tokenMint p) c) = Fin 0"
    using assms(2) by (simp_all add: sponsored_request_def)
  ultimately show ?thesis using t ab cap car by blast
qed

text \<open>A five dollar first buy of a coin.\<close>

definition served_http :: "nat jupiter_http" where
  "served_http = counting_http\<lparr>
     ht_quote := (\<lambda>q w. (Ok \<lparr>hr_status = 200, hr_retryAfter = None, hr_json = Some
        \<lparr>jq_inAmount = qr_amount q, jq_outAmount = ''9'', jq_otherAmountThreshold = ''8'', jq_priceImpactPct = None,
         jq_platformFeeAmount = None\<rparr>\<rparr>, Suc w)),
     ht_swapInstructions := (\<lambda>q w. (Ok \<lparr>hr_status = 200, hr_retryAfter = None, hr_json = Some
        \<lparr>ib_computeBudgetInstructions = [], ib_setupInstructions = js_setupInstructions sample_jupiter,
         ib_swapInstruction = js_swapInstruction sample_jupiter, ib_cleanupInstruction = None,
         ib_addressLookupTableAddresses = []\<rparr>\<rparr>, Suc w))\<rparr>"

definition sample_quote_env :: "nat quote_env" where
  "sample_quote_env = \<lparr>qe_jupiter = \<lparr>jp_http = served_http, jp_apiKey = Some ''key'', jp_priorityFeeMax = Fin 100000\<rparr>,
     qe_relayer = sample_relayer, qe_treasuryUsdcAta = Some ''Treasury'', qe_rpcUrl = None,
     qe_isToken2022 = (\<lambda>m w. (Ok False, w)), qe_hasTokenAccount = (\<lambda>a m t w. (Ok False, w)),
     qe_fetchSolUsd = (\<lambda>w. (Ok (Fin 150), w)), qe_nativeSolUsd = (\<lambda>w. (Ok None, w)),
     qe_tokenAccountOwner = (\<lambda>a w. (Ok None, w)), qe_accountExists = (\<lambda>a w. (Ok False, w)),
     qe_openTokenAccountFor = (\<lambda>owner w. w)\<rparr>"

definition sample_quote_params :: CreateSolanaQuoteParams where
  "sample_quote_params = \<lparr>cq_userId = ''u1'', cq_walletAddress = ''User'', cq_side = BUY, cq_tokenMint = ''MINT'',
     cq_amount = ''5000000'', cq_slippageBps = Fin 100, cq_jitoTipLamports = None, cq_payWithNative = False\<rparr>"

definition sample_quote_state :: "nat quote_state" where
  "sample_quote_state = \<lparr>qs_limiter = new_limiter (Fin 1) (Fin 8000), qs_treasuryWsolAta = WsolUnknown,
     qs_wsolOpenTried = False, qs_solPrice = None, qs_world = 0\<rparr>"

definition sample_charges :: sponsored_charges where
  "sample_charges = \<lparr>sc_platformFeeBps = Fin 255, sc_setupFeeRaw = 310000, sc_buyFeeRaw = 127500,
                     sc_swapAmountRaw = 4562500\<rparr>"

lemma sample_sponsored_quote:
  "map_sum id fst (fst (createSponsoredQuote sample_quote_env 1000 sample_quote_params sample_solana_db sample_quote_state))
     = Ok sample_charges"
  by code_simp

lemma sponsored_buy_spends_amount_witness:
  "\<exists>i base64. sc_swapAmountRaw sample_charges + sc_setupFeeRaw sample_charges + sc_buyFeeRaw sample_charges = 5000000
     \<and> carries sample_quote_env ''Relayer'' (sponsored_request sample_quote_params ''Treasury'' ''Relayer'' ''MINT'' sample_charges)
         [setupFeeInstruction sample_codec ''User'' ''Treasury'' 437500] base64 i"
proof -
  let ?q = "createSponsoredQuote sample_quote_env 1000 sample_quote_params sample_solana_db sample_quote_state"
  from sample_sponsored_quote obtain base64 row s' where "?q = (Ok (sample_charges, base64, row), s')"
    by (cases ?q; cases "fst ?q") auto
  from sponsored_buy_spends_amount [OF this] obtain a treasury relayer i where
    r: "BigInt (cq_amount sample_quote_params) = Ok a"
      "a = sc_swapAmountRaw sample_charges + sc_setupFeeRaw sample_charges + sc_buyFeeRaw sample_charges"
      "qe_treasuryUsdcAta sample_quote_env = Some treasury" "gr_feePayer (qe_relayer sample_quote_env) = Some relayer"
      "carries sample_quote_env relayer
         (sponsored_request sample_quote_params treasury relayer (cq_tokenMint sample_quote_params) sample_charges)
         (if 0 < sc_setupFeeRaw sample_charges + sc_buyFeeRaw sample_charges
          then [setupFeeInstruction (gr_codec (qe_relayer sample_quote_env)) (cq_walletAddress sample_quote_params)
                 treasury (sc_setupFeeRaw sample_charges + sc_buyFeeRaw sample_charges)] else []) base64 i"
    by (auto simp: sample_quote_params_def)
  have "BigInt (cq_amount sample_quote_params) = Ok 5000000" by code_simp
  moreover have "treasury = ''Treasury''" "relayer = ''Relayer''" "cq_tokenMint sample_quote_params = ''MINT''"
    "cq_walletAddress sample_quote_params = ''User''" "gr_codec (qe_relayer sample_quote_env) = sample_codec"
    using r(3,4) by (simp_all add: sample_quote_env_def sample_relayer_def sample_quote_params_def)
  moreover have "sc_setupFeeRaw sample_charges + sc_buyFeeRaw sample_charges = 437500"
    by (simp add: sample_charges_def)
  ultimately show ?thesis using r(1,2,5) by auto
qed

text \<open>The fallback rate for a sale whose size could not be read is not the most expensive tier.\<close>

lemma fallback_not_most_expensive:
  "\<exists>t\<in>set PLATFORM_FEE_TIERS. nlt PLATFORM_FEE_FALLBACK_BPS (feeBps t)"
  by (simp add: PLATFORM_FEE_TIERS_def PLATFORM_FEE_FALLBACK_BPS_def)

end
