(* ===== verification/EvmQuote.thy ===== *)
theory EvmQuote
  imports Trading Consent EvmRelay JSNumber
begin

section \<open>EVM quotes\<close>

text \<open>
  \<open>apps/api/src/trading/quote.service.ts\<close>, \<open>safety.service.ts\<close>, \<open>market/primary-market.ts\<close>,
  \<open>erc20-transfer.ts\<close> and \<open>router/multi-chain-swap-router.service.ts\<close>.  The swap providers, the
  gas top-up service, the native price service and viem's unit conversion are parameters; a raw
  amount is an unbounded integer, a dollar value a double.
\<close>

record token_row =
  tk_contractAddress :: string
  tk_symbol :: "string option"
  tk_decimals :: "nat option"
  tk_chainDbId :: nat

record TradableMarket =
  tm_id :: string
  tm_chainDbId :: nat
  tm_chainIdentifier :: string
  tm_pairAddress :: string
  tm_token :: token_row
  tm_quoteToken :: token_row
  tm_priceUsd :: "jsnum option"
  tm_liquidityUsd :: "jsnum option"
  tm_lastPriceUpdateAt :: "int option"

record market_db =
  md_markets :: "TradableMarket list"
  md_tokens :: "token_row list"
  md_seedPools :: "((string \<times> string) \<times> string) list"
  md_wallets :: "(string \<times> string \<times> int option) list"

definition maxStalenessMinutes :: int where "maxStalenessMinutes = 30"

definition isPriceStale :: "int option \<Rightarrow> int \<Rightarrow> bool" where
  "isPriceStale lastPriceUpdateAt now =
     (case lastPriceUpdateAt of
        None \<Rightarrow> True
      | Some lastAt \<Rightarrow>
          let ageMinutes = ndiv (num_of_int (now - lastAt)) (Fin 60000) in
          if nlt ageMinutes (Fin 0) then True else ngt ageMinutes (Fin (of_int maxStalenessMinutes)))"

subsection \<open>The tradable market of a token\<close>

text \<open>\<open>orderBy: liquidityUsd desc\<close>: in PostgreSQL the rows without a liquidity come first.\<close>

definition liquidity_before :: "TradableMarket \<Rightarrow> TradableMarket \<Rightarrow> bool" where
  "liquidity_before a b =
     (case (tm_liquidityUsd a, tm_liquidityUsd b) of
        (None, Some _) \<Rightarrow> True
      | (Some x, Some y) \<Rightarrow> ngt x y
      | _ \<Rightarrow> False)"

definition find_market :: "market_db \<Rightarrow> (TradableMarket \<Rightarrow> bool) \<Rightarrow> TradableMarket option" where
  "find_market db p = (case sort_by liquidity_before (filter p (md_markets db)) of [] \<Rightarrow> None | m # _ \<Rightarrow> Some m)"

definition seedPoolFor :: "market_db \<Rightarrow> string \<Rightarrow> string \<Rightarrow> string option" where
  "seedPoolFor db chainIdentifier tokenAddress = map_of (md_seedPools db) (chainIdentifier, to_lower tokenAddress)"

definition findPrimaryMarket :: "market_db \<Rightarrow> string \<Rightarrow> string \<Rightarrow> TradableMarket option" where
  "findPrimaryMarket db chainIdentifier tokenAddress =
     (let by_token = find_market db (\<lambda>m. tm_chainIdentifier m = chainIdentifier
            \<and> to_lower (tk_contractAddress (tm_token m)) = to_lower tokenAddress)
      in case seedPoolFor db chainIdentifier tokenAddress of
           None \<Rightarrow> by_token
         | Some seedPool \<Rightarrow>
             if seedPool = [] then by_token
             else (case find_market db (\<lambda>m. tm_chainIdentifier m = chainIdentifier
                        \<and> to_lower (tm_pairAddress m) = to_lower seedPool) of
                     Some seeded \<Rightarrow> Some seeded
                   | None \<Rightarrow> by_token))"

definition assertTradable :: "market_db \<Rightarrow> int \<Rightarrow> string \<Rightarrow> int \<Rightarrow> (js_error, TradableMarket) result" where
  "assertTradable db now tokenAddress chainId =
     (case identifierForChainId chainId of
        None \<Rightarrow> Err (NotFound ''not a chain Kamby trades on'')
      | Some identifier \<Rightarrow>
          (case findPrimaryMarket db identifier (normalizeEvmAddress tokenAddress) of
             None \<Rightarrow> Err (NotFound ''not a tracked, tradable market'')
           | Some market \<Rightarrow>
               if tk_decimals (tm_token market) = None \<or> tk_decimals (tm_quoteToken market) = None
               then Err (Unprocessable ''Token decimals unknown'')
               else if (case tm_liquidityUsd market of None \<Rightarrow> True | Some l \<Rightarrow> \<not> ngt l (Fin 0))
               then Err (Unprocessable ''This market has no tracked liquidity to trade'')
               else if isPriceStale (tm_lastPriceUpdateAt market) now
               then Err (Unprocessable ''Price data for this market is stale - try again shortly'')
               else Ok market))"

subsection \<open>Routers\<close>

datatype fee_side = FeeInput | FeeOutput

record SwapRouterQuoteRequest =
  sq_chainId :: int
  sq_sellToken :: string
  sq_buyToken :: string
  sq_sellAmountRaw :: string
  sq_taker :: string
  sq_slippageBps :: jsnum
  sq_feeRecipient :: "string option"
  sq_feeBps :: jsnum
  sq_feeChargedIn :: "fee_side option"

record SwapRouterQuote =
  rq_provider :: string
  rq_providerQuoteId :: "string option"
  rq_buyAmountRaw :: string
  rq_sellAmountRaw :: string
  rq_minBuyAmountRaw :: string
  rq_priceImpactBps :: "jsnum option"
  rq_feeAmountRaw :: "string option"
  rq_feeEmbedded :: bool
  rq_requiresApproval :: bool
  rq_approvalSpender :: "string option"
  rq_unsignedTx :: unsigned_tx

type_synonym 'w router = "SwapRouterQuoteRequest \<Rightarrow> ('w, SwapRouterQuote option) remote"

record 'w velora =
  ve_supports :: "int \<Rightarrow> bool"
  ve_price :: "SwapRouterQuoteRequest \<Rightarrow> ('w, (string \<times> string) option) remote"
  ve_needsApproval :: "SwapRouterQuoteRequest \<Rightarrow> string \<Rightarrow> ('w, bool option) remote"
  ve_build :: "SwapRouterQuoteRequest \<Rightarrow> string \<Rightarrow> ('w, SwapRouterQuote option) remote"

datatype execution_provider = Kyberswap | Openocean

definition CHAIN_ID_TO_PROVIDER :: "int \<Rightarrow> execution_provider option" where
  "CHAIN_ID_TO_PROVIDER chainId =
     map_of [(8453, Kyberswap), (42161, Kyberswap), (56, Kyberswap), (4663, Kyberswap), (1, Kyberswap)] chainId"

definition catch_none :: "('w, 'a option) remote \<Rightarrow> ('w, 'a option) remote" where
  "catch_none m w = (case m w of (Inl e, w1) \<Rightarrow> (Ok None, w1) | (Inr a, w1) \<Rightarrow> (Ok a, w1))"

definition multi_chain_getQuote :: "'w router \<Rightarrow> 'w router \<Rightarrow> 'w velora option \<Rightarrow> 'w router" where
  "multi_chain_getQuote kyberswap openocean velora request =
     (case CHAIN_ID_TO_PROVIDER (sq_chainId request) of
        None \<Rightarrow> return_remote (Ok None)
      | Some Openocean \<Rightarrow> openocean request
      | Some Kyberswap \<Rightarrow>
          (case velora of
             None \<Rightarrow> kyberswap request
           | Some v \<Rightarrow>
               if \<not> (sq_feeBps request = Fin 0 \<and> ve_supports v (sq_chainId request)) then kyberswap request
               else
                 then_remote (kyberswap request) (\<lambda>kyber.
                 then_remote (catch_none (ve_price v request)) (\<lambda>price.
                 case price of
                   None \<Rightarrow> return_remote (Ok kyber)
                 | Some (veloraBuy, spender) \<Rightarrow>
                     (case kyber of
                        None \<Rightarrow> ve_build v request veloraBuy
                      | Some k \<Rightarrow>
                          then_remote (return_remote (bind_result (BigInt (rq_buyAmountRaw k)) (\<lambda>kyberOut.
                            bind_result (BigInt veloraBuy) (\<lambda>veloraOut. Ok (kyberOut, veloraOut))))) (\<lambda>(kyberOut, veloraOut).
                          if veloraOut * 10000 < kyberOut * (10000 + 30) then return_remote (Ok (Some k))
                          else then_remote (ve_needsApproval v request spender) (\<lambda>needs.
                            case needs of
                              None \<Rightarrow> return_remote (Ok (Some k))
                            | Some needsApproval \<Rightarrow>
                                if needsApproval \<and> \<not> rq_requiresApproval k \<and> veloraOut * 10000 < kyberOut * (10000 + 100)
                                then return_remote (Ok (Some k))
                                else then_remote (ve_build v request veloraBuy) (\<lambda>built.
                                  return_remote (Ok (case built of None \<Rightarrow> Some k | Some b \<Rightarrow> Some b)))))))) ))"

subsection \<open>The quote service\<close>

datatype quote_side = Buy | Sell

record CreateQuoteParams =
  qp_userId :: string
  qp_walletAddress :: string
  qp_tokenAddress :: string
  qp_chainId :: int
  qp_side :: quote_side
  qp_amount :: string
  qp_slippageBps :: jsnum
  qp_payWithNative :: bool

text \<open>\<open>ensureGas\<close> answers whether the wallet is stranded.\<close>

record 'w gas_topup_api =
  gt_usdcBalance :: "int \<Rightarrow> string \<Rightarrow> string \<Rightarrow> ('w, int option) remote"
  gt_nativeBalance :: "int \<Rightarrow> string \<Rightarrow> ('w, int option) remote"
  gt_ensureGas :: "int \<Rightarrow> string \<Rightarrow> string \<Rightarrow> nat \<Rightarrow> ('w, bool) remote"

record 'w quote_service =
  ev_chains :: "(int \<times> string) list"
  ev_feeRecipient :: string
  ev_router :: "'w router"
  ev_gasTopup :: "'w gas_topup_api option"
  ev_nativeUsd :: "int \<Rightarrow> ('w, jsnum option) remote"
  ev_parseUnits :: "string \<Rightarrow> nat \<Rightarrow> int option"
  ev_formatUnits :: "int \<Rightarrow> nat \<Rightarrow> string"
  ev_transferData :: "string \<Rightarrow> int \<Rightarrow> string"

definition NATIVE_TOKEN_ADDRESS :: string where
  "NATIVE_TOKEN_ADDRESS = ''0xEeeeeEeeeEeEeeEeEeEeeEEEeeeeEeeeeeeeEEeE''"

definition NATIVE_SYMBOL_BY_CHAIN_ID :: "int \<Rightarrow> string option" where
  "NATIVE_SYMBOL_BY_CHAIN_ID chainId = map_of [(8453, ''ETH''), (56, ''BNB''), (4663, ''ETH'')] chainId"

definition decimals_of :: "token_row \<Rightarrow> nat" where
  "decimals_of t = (case tk_decimals t of None \<Rightarrow> 0 | Some d \<Rightarrow> d)"

definition is_decimal_amount :: "string \<Rightarrow> bool" where
  "is_decimal_amount s =
     (let r = dropWhile is_digit s in
      takeWhile is_digit s \<noteq> [] \<and> (r = [] \<or> hd r = CHR ''.'' \<and> all_digits (tl r)))"

definition parseInputAmount :: "'w quote_service \<Rightarrow> string \<Rightarrow> nat \<Rightarrow> (js_error, int) result" where
  "parseInputAmount ev amount decimals =
     (if \<not> is_decimal_amount amount then Err (Unprocessable ''amount must be a positive decimal number'')
      else case ev_parseUnits ev amount decimals of
             None \<Rightarrow> Err (Unprocessable ''amount could not be parsed'')
           | Some raw \<Rightarrow> if raw \<le> 0 then Err (Unprocessable ''amount must be greater than zero'') else Ok raw)"

definition resolveTokens :: "TradableMarket \<Rightarrow> quote_side \<Rightarrow> token_row \<times> token_row" where
  "resolveTokens market side =
     (case side of Buy \<Rightarrow> (tm_quoteToken market, tm_token market) | Sell \<Rightarrow> (tm_token market, tm_quoteToken market))"

definition buildErc20TransferTx :: "'w quote_service \<Rightarrow> string \<Rightarrow> string \<Rightarrow> int \<Rightarrow> unsigned_tx" where
  "buildErc20TransferTx ev tokenAddress to amountRaw =
     \<lparr>tx_to = tokenAddress, tx_data = ev_transferData ev to amountRaw, tx_value = ''0'', tx_gas = None,
      tx_maxFeePerGas = None, tx_maxPriorityFeePerGas = None\<rparr>"

definition units :: "'w quote_service \<Rightarrow> int \<Rightarrow> token_row \<Rightarrow> jsnum" where
  "units ev raw t = js_Number (ev_formatUnits ev raw (decimals_of t))"

text \<open>What a priced trade amounts to, whichever way the fee is taken.\<close>

record priced_trade =
  pt_routerQuote :: SwapRouterQuote
  pt_appliedFeeBps :: jsnum
  pt_platformFeeAmountRaw :: int
  pt_netBuyAmountRaw :: int
  pt_netMinOutputRaw :: int
  pt_feeUnsignedTx :: "unsigned_tx option"

definition router_request ::
    "CreateQuoteParams \<Rightarrow> token_row \<Rightarrow> token_row \<Rightarrow> int \<Rightarrow> string option \<Rightarrow> jsnum \<Rightarrow> fee_side option
     \<Rightarrow> SwapRouterQuoteRequest" where
  "router_request p inputToken outputToken sellRaw recipient feeBps' charged =
     \<lparr>sq_chainId = qp_chainId p, sq_sellToken = tk_contractAddress inputToken,
      sq_buyToken = tk_contractAddress outputToken, sq_sellAmountRaw = string_of_int sellRaw,
      sq_taker = normalizeEvmAddress (qp_walletAddress p), sq_slippageBps = qp_slippageBps p,
      sq_feeRecipient = recipient, sq_feeBps = feeBps', sq_feeChargedIn = charged\<rparr>"

definition resolveAggregatorTierFeeBps ::
    "'w quote_service \<Rightarrow> CreateQuoteParams \<Rightarrow> TradableMarket \<Rightarrow> token_row \<Rightarrow> token_row \<Rightarrow> int \<Rightarrow> ('w, jsnum) remote" where
  "resolveAggregatorTierFeeBps ev p market inputToken outputToken inputAmountRaw =
     (case tm_priceUsd market of
        None \<Rightarrow> return_remote (Ok PLATFORM_FEE_FALLBACK_BPS)
      | Some basePriceUsd \<Rightarrow>
          (case qp_side p of
             Sell \<Rightarrow> return_remote (resolveTierFeeBps (nmul (units ev inputAmountRaw inputToken) basePriceUsd) PLATFORM_FEE_TIERS)
           | Buy \<Rightarrow>
               then_remote (ev_router ev (router_request p inputToken outputToken inputAmountRaw None (Fin 0) None)) (\<lambda>q.
                 case q of
                   None \<Rightarrow> return_remote (Ok PLATFORM_FEE_FALLBACK_BPS)
                 | Some preQuote \<Rightarrow>
                     return_remote (bind_result (BigInt (rq_buyAmountRaw preQuote)) (\<lambda>out.
                       resolveTierFeeBps (nmul (units ev out outputToken) basePriceUsd) PLATFORM_FEE_TIERS)))))"

text \<open>The fee inside the swap; \<open>None\<close> when the router did not embed it.  A sale is first priced at
  an estimated tier and asked once more when its real size lies in another one.\<close>

definition embedded :: "SwapRouterQuote option \<Rightarrow> SwapRouterQuote option" where
  "embedded q = (case q of None \<Rightarrow> None | Some r \<Rightarrow> if rq_feeEmbedded r then Some r else None)"

definition grossOf :: "int \<Rightarrow> jsnum \<Rightarrow> (js_error, int) result" where
  "grossOf net bps =
     bind_result (BigInt_num (nsub (Fin 10000) bps)) (\<lambda>d.
       if d = 0 then Err RangeError else Ok (bigint_div (net * 10000) d))"

definition sell_priced :: "SwapRouterQuote \<Rightarrow> jsnum \<Rightarrow> int \<Rightarrow> (js_error, priced_trade) result" where
  "sell_priced q bps gross =
     bind_result (BigInt (rq_buyAmountRaw q)) (\<lambda>net.
     bind_result (BigInt (rq_minBuyAmountRaw q)) (\<lambda>min.
       Ok \<lparr>pt_routerQuote = q, pt_appliedFeeBps = bps, pt_platformFeeAmountRaw = gross - net,
           pt_netBuyAmountRaw = net, pt_netMinOutputRaw = min, pt_feeUnsignedTx = None\<rparr>))"

text \<open>The quote to use: the first one when its size confirms the tier, else the second one.\<close>

definition requote_sell ::
    "(jsnum \<Rightarrow> ('w, SwapRouterQuote option) remote) \<Rightarrow> (int \<Rightarrow> jsnum) \<Rightarrow> SwapRouterQuote \<Rightarrow> jsnum
     \<Rightarrow> ('w, (SwapRouterQuote \<times> jsnum \<times> int) option) remote" where
  "requote_sell ask quoteUsd q bps =
     then_remote (return_remote (bind_result (BigInt (rq_buyAmountRaw q)) (\<lambda>net.
         bind_result (grossOf net bps) (\<lambda>gross.
         bind_result (resolveTierFeeBps (quoteUsd gross) PLATFORM_FEE_TIERS) (\<lambda>realBps. Ok (gross, realBps))))))
       (\<lambda>(gross, realBps).
         if neq realBps bps then return_remote (Ok (Some (q, bps, gross)))
         else then_remote (ask realBps) (\<lambda>again.
           case embedded again of
             None \<Rightarrow> return_remote (Ok None)
           | Some q2 \<Rightarrow> return_remote (bind_result (BigInt (rq_buyAmountRaw q2)) (\<lambda>net2.
               bind_result (grossOf net2 realBps) (\<lambda>gross2. Ok (Some (q2, realBps, gross2)))))))"

definition finish_sell ::
    "(int \<Rightarrow> jsnum) \<Rightarrow> (SwapRouterQuote \<times> jsnum \<times> int) option \<Rightarrow> (js_error, priced_trade option) result" where
  "finish_sell quoteUsd final =
     (case final of
        None \<Rightarrow> Ok None
      | Some (q, bps, gross) \<Rightarrow>
          if nlt (quoteUsd gross) MIN_TRADE_USD then Err (Unprocessable ''Minimum trade size is $2.00'')
          else bind_result (sell_priced q bps gross) (\<lambda>t. Ok (Some t)))"

definition buy_priced :: "int \<Rightarrow> SwapRouterQuote \<Rightarrow> jsnum \<Rightarrow> (js_error, priced_trade) result" where
  "buy_priced inputAmountRaw q bps =
     bind_result (BigInt (rq_buyAmountRaw q)) (\<lambda>net.
     bind_result (calculateFeeAmount inputAmountRaw bps) (\<lambda>fee.
     bind_result (BigInt (rq_minBuyAmountRaw q)) (\<lambda>min.
       Ok \<lparr>pt_routerQuote = q, pt_appliedFeeBps = bps, pt_platformFeeAmountRaw = fee,
           pt_netBuyAmountRaw = net, pt_netMinOutputRaw = min, pt_feeUnsignedTx = None\<rparr>)))"

definition first_tier ::
    "'w quote_service \<Rightarrow> CreateQuoteParams \<Rightarrow> TradableMarket \<Rightarrow> token_row \<Rightarrow> int \<Rightarrow> (int \<Rightarrow> jsnum) \<Rightarrow> (js_error, jsnum) result" where
  "first_tier ev p market inputToken inputAmountRaw quoteUsd =
     (case qp_side p of
        Buy \<Rightarrow> resolveTierFeeBps (quoteUsd inputAmountRaw) PLATFORM_FEE_TIERS
      | Sell \<Rightarrow>
          (case tm_priceUsd market of
             None \<Rightarrow> Ok PLATFORM_FEE_FALLBACK_BPS
           | Some price \<Rightarrow> resolveTierFeeBps (nmul (units ev inputAmountRaw inputToken) price) PLATFORM_FEE_TIERS))"

definition fee_side_of :: "quote_side \<Rightarrow> fee_side" where
  "fee_side_of side = (case side of Buy \<Rightarrow> FeeInput | Sell \<Rightarrow> FeeOutput)"

definition quoteWithFeeInSwap ::
    "'w quote_service \<Rightarrow> CreateQuoteParams \<Rightarrow> TradableMarket \<Rightarrow> token_row \<Rightarrow> token_row \<Rightarrow> int
     \<Rightarrow> (int \<Rightarrow> jsnum) \<Rightarrow> ('w, priced_trade option) remote" where
  "quoteWithFeeInSwap ev p market inputToken outputToken inputAmountRaw quoteUsd =
     (let ask = (\<lambda>bps. ev_router ev (router_request p inputToken outputToken inputAmountRaw
            (Some (ev_feeRecipient ev)) bps (Some (fee_side_of (qp_side p)))))
      in then_remote (return_remote (first_tier ev p market inputToken inputAmountRaw quoteUsd)) (\<lambda>bps.
         then_remote (ask bps) (\<lambda>answer.
         case embedded answer of
           None \<Rightarrow> return_remote (Ok None)
         | Some q \<Rightarrow>
             (case qp_side p of
                Buy \<Rightarrow> return_remote (bind_result (buy_priced inputAmountRaw q bps) (\<lambda>t. Ok (Some t)))
              | Sell \<Rightarrow> then_remote (requote_sell ask quoteUsd q bps) (\<lambda>final. return_remote (finish_sell quoteUsd final))))))"

text \<open>The fee as a separate transfer (or the aggregator's own, when the market is not in the
  chain's USDC).\<close>

definition provider_floor ::
    "SwapRouterQuote \<Rightarrow> jsnum \<Rightarrow> (js_error, int \<times> int) result" where
  "provider_floor q slip =
     bind_result (BigInt (rq_buyAmountRaw q)) (\<lambda>gross.
     bind_result (BigInt (rq_minBuyAmountRaw q)) (\<lambda>providerMin.
     bind_result (calculateMinOutputAmount gross slip) (\<lambda>ourMin.
       if providerMin < ourMin
       then Err (Unprocessable ''The quote returned did not honor the requested slippage tolerance'')
       else Ok (gross, providerMin))))"

text \<open>What the router's answer amounts to: the floor is checked, the sale's own tier found, the
  fee taken off the proceeds or read from the answer.\<close>

definition separate_fee_amount :: "SwapRouterQuote \<Rightarrow> bool \<Rightarrow> int \<Rightarrow> int \<Rightarrow> jsnum \<Rightarrow> int \<Rightarrow> (js_error, int) result" where
  "separate_fee_amount q usesGuaranteedUsdcFee pre post applied gross =
     (if usesGuaranteedUsdcFee then Ok (pre + post)
      else case rq_feeAmountRaw q of
             Some f \<Rightarrow> if f \<noteq> [] then BigInt f else calculateFeeAmount gross applied
           | None \<Rightarrow> calculateFeeAmount gross applied)"

definition sale_tier :: "bool \<Rightarrow> jsnum \<Rightarrow> jsnum \<Rightarrow> (js_error, jsnum) result" where
  "sale_tier usdcSell grossUsd preRouterFeeBps =
     (if usdcSell then
        if nlt grossUsd MIN_TRADE_USD then Err (Unprocessable ''Minimum trade size is $2.00'')
        else resolveTierFeeBps grossUsd PLATFORM_FEE_TIERS
      else Ok preRouterFeeBps)"

definition settle_separate ::
    "'w quote_service \<Rightarrow> CreateQuoteParams \<Rightarrow> TradableMarket \<Rightarrow> bool \<Rightarrow> jsnum \<Rightarrow> int \<Rightarrow> SwapRouterQuote
     \<Rightarrow> (js_error, priced_trade) result" where
  "settle_separate ev p market usesGuaranteedUsdcFee preRouterFeeBps preSwapFeeAmountRaw q =
     bind_result (provider_floor q (qp_slippageBps p)) (\<lambda>(gross, providerMin).
       let usdcSell = (usesGuaranteedUsdcFee \<and> qp_side p = Sell) in
       bind_result (sale_tier usdcSell (units ev gross (tm_quoteToken market)) preRouterFeeBps) (\<lambda>applied.
       bind_result (if usdcSell then calculateFeeAmount gross applied else Ok 0) (\<lambda>postSwapFeeAmountRaw.
       bind_result (separate_fee_amount q usesGuaranteedUsdcFee preSwapFeeAmountRaw postSwapFeeAmountRaw applied gross) (\<lambda>fee.
         Ok \<lparr>pt_routerQuote = q, pt_appliedFeeBps = applied, pt_platformFeeAmountRaw = fee,
             pt_netBuyAmountRaw = gross - postSwapFeeAmountRaw,
             pt_netMinOutputRaw = providerMin - postSwapFeeAmountRaw,
             pt_feeUnsignedTx = (if usesGuaranteedUsdcFee
                then Some (buildErc20TransferTx ev (tk_contractAddress (tm_quoteToken market)) (ev_feeRecipient ev) fee)
                else None)\<rparr>))))"

definition separateFee ::
    "'w quote_service \<Rightarrow> CreateQuoteParams \<Rightarrow> TradableMarket \<Rightarrow> token_row \<Rightarrow> token_row \<Rightarrow> int \<Rightarrow> bool
     \<Rightarrow> ('w, priced_trade) remote" where
  "separateFee ev p market inputToken outputToken inputAmountRaw usesGuaranteedUsdcFee =
     then_remote (if usesGuaranteedUsdcFee
         then return_remote (case qp_side p of
            Buy \<Rightarrow> resolveTierFeeBps (units ev inputAmountRaw inputToken) PLATFORM_FEE_TIERS | Sell \<Rightarrow> Ok (Fin 0))
         else resolveAggregatorTierFeeBps ev p market inputToken outputToken inputAmountRaw) (\<lambda>preRouterFeeBps.
     then_remote (return_remote (if usesGuaranteedUsdcFee \<and> qp_side p = Buy
         then calculateFeeAmount inputAmountRaw preRouterFeeBps else Ok 0)) (\<lambda>preSwapFeeAmountRaw.
     then_remote (ev_router ev (router_request p inputToken outputToken (inputAmountRaw - preSwapFeeAmountRaw)
         (if usesGuaranteedUsdcFee then None else Some (ev_feeRecipient ev))
         (if usesGuaranteedUsdcFee then Fin 0 else preRouterFeeBps) None)) (\<lambda>answer.
     case answer of
       None \<Rightarrow> return_remote (Err (Unprocessable ''No live quote is available for this trade right now''))
     | Some q \<Rightarrow> return_remote (settle_separate ev p market usesGuaranteedUsdcFee preRouterFeeBps preSwapFeeAmountRaw q))))"

definition evm_wallet_owned :: "market_db \<Rightarrow> string \<Rightarrow> string \<Rightarrow> (js_error, unit) result" where
  "evm_wallet_owned db userId walletAddress =
     reject_if (case find (\<lambda>w. fst w = walletAddress) (md_wallets db) of
          None \<Rightarrow> True | Some (a, u, verifiedAt) \<Rightarrow> u \<noteq> userId \<or> verifiedAt = None)
       (Forbidden ''This wallet is not verified as belonging to your account'')"

definition resolveChain :: "'w quote_service \<Rightarrow> int \<Rightarrow> (js_error, string) result" where
  "resolveChain ev chainId =
     (case map_of (ev_chains ev) chainId of
        None \<Rightarrow> Err (Unprocessable ''Chain is not configured on this deployment'') | Some usdc \<Rightarrow> Ok usdc)"

definition chainUsdcToken :: "market_db \<Rightarrow> nat \<Rightarrow> string \<Rightarrow> token_row option" where
  "chainUsdcToken db chainDbId usdcAddress =
     find (\<lambda>t. tk_chainDbId t = chainDbId \<and> to_lower (tk_contractAddress t) = to_lower usdcAddress) (md_tokens db)"

text \<open>The market as it is quoted: against the chain's own coin, against its USDC, or against the
  pool's own pair token when the USDC row is missing (or is the token itself).\<close>

definition quoted_market :: "TradableMarket \<Rightarrow> string option \<Rightarrow> token_row option \<Rightarrow> TradableMarket" where
  "quoted_market listed nativeSymbol usdc =
     (case nativeSymbol of
        Some coin \<Rightarrow> listed\<lparr>tm_quoteToken := (tm_quoteToken listed)\<lparr>tk_contractAddress := NATIVE_TOKEN_ADDRESS,
                       tk_symbol := Some coin, tk_decimals := Some 18\<rparr>\<rparr>
      | None \<Rightarrow>
          (case usdc of
             Some u \<Rightarrow>
               if normalizeEvmAddress (tk_contractAddress (tm_token listed)) \<noteq> normalizeEvmAddress (tk_contractAddress u)
               then listed\<lparr>tm_quoteToken := u\<rparr> else listed
           | None \<Rightarrow> listed))"

text \<open>The checks on the amount and the wallet's balances, before anything is priced.\<close>

definition native_buy_checks ::
    "'w quote_service \<Rightarrow> CreateQuoteParams \<Rightarrow> string \<Rightarrow> (int \<Rightarrow> jsnum) \<Rightarrow> ('w, unit) remote" where
  "native_buy_checks ev p walletAddress quoteUsd =
     then_remote (return_remote (bind_result (parseInputAmount ev (qp_amount p) 18) (\<lambda>spend.
         bind_result (reject_if (nlt (quoteUsd spend) MIN_TRADE_USD) (Unprocessable ''Minimum trade size is $2.00''))
           (\<lambda>_. Ok spend)))) (\<lambda>spend.
     then_remote (case ev_gasTopup ev of
         None \<Rightarrow> return_remote (Ok None)
       | Some g \<Rightarrow> gt_nativeBalance g (qp_chainId p) walletAddress) (\<lambda>have.
       return_remote (reject_if (case have of None \<Rightarrow> False | Some h \<Rightarrow> h < spend)
         (Unprocessable ''Not enough of the native coin''))))"

definition usdc_buy_checks ::
    "'w quote_service \<Rightarrow> CreateQuoteParams \<Rightarrow> string \<Rightarrow> token_row option \<Rightarrow> ('w, unit) remote" where
  "usdc_buy_checks ev p walletAddress usdc =
     (case usdc of
        None \<Rightarrow> return_remote (Ok ())
      | Some u \<Rightarrow>
          if qp_side p = Sell then return_remote (Ok ())
          else then_remote (return_remote (reject_if (nlt (js_Number (qp_amount p)) MIN_TRADE_USD)
                 (Unprocessable ''Minimum trade size is $2.00''))) (\<lambda>_.
               case ev_gasTopup ev of
                 None \<Rightarrow> return_remote (Ok ())
               | Some g \<Rightarrow>
                   then_remote (gt_usdcBalance g (qp_chainId p) walletAddress (tk_contractAddress u)) (\<lambda>balanceRaw.
                     return_remote (bind_result (parseInputAmount ev (qp_amount p) (decimals_of u)) (\<lambda>neededRaw.
                       reject_if (case balanceRaw of None \<Rightarrow> False | Some b \<Rightarrow> b < neededRaw)
                         (Unprocessable ''Not enough USDC''))))))"

definition gas_check ::
    "'w quote_service \<Rightarrow> CreateQuoteParams \<Rightarrow> string \<Rightarrow> token_row option \<Rightarrow> ('w, unit) remote" where
  "gas_check ev p walletAddress usdc =
     (case (usdc, ev_gasTopup ev) of
        (Some u, Some g) \<Rightarrow>
          then_remote (gt_ensureGas g (qp_chainId p) walletAddress (tk_contractAddress u) (decimals_of u)) (\<lambda>stranded.
            return_remote (reject_if stranded (Unprocessable ''Trading is getting ready - try again in a few minutes'')))
      | _ \<Rightarrow> return_remote (Ok ()))"

record trade_quote_row =
  qr_userId :: string
  qr_walletAddress :: string
  qr_chainId :: int
  qr_side :: quote_side
  qr_tokenMarketId :: string
  qr_inputToken :: string
  qr_outputToken :: string
  qr_inputAmount :: string
  qr_expectedOutputAmount :: string
  qr_minOutputAmount :: string
  qr_platformFeeBps :: jsnum
  qr_platformFeeAmount :: string
  qr_unsignedTx :: json
  qr_feeUnsignedTx :: "json option"
  qr_expiresAt :: int

definition usdc_quoted :: "TradableMarket \<Rightarrow> string \<Rightarrow> bool" where
  "usdc_quoted market usdcAddress =
     (normalizeEvmAddress (tk_contractAddress (tm_quoteToken market)) = normalizeEvmAddress usdcAddress)"

definition price_trade ::
    "'w quote_service \<Rightarrow> CreateQuoteParams \<Rightarrow> TradableMarket \<Rightarrow> string \<Rightarrow> int \<Rightarrow> (int \<Rightarrow> jsnum) \<Rightarrow> ('w, priced_trade) remote" where
  "price_trade ev p market usdcAddress inputAmountRaw quoteUsd =
     (let (inputToken, outputToken) = resolveTokens market (qp_side p);
          usesGuaranteedUsdcFee = usdc_quoted market usdcAddress in
      then_remote (if (usesGuaranteedUsdcFee \<or> qp_payWithNative p) \<and> ev_feeRecipient ev \<noteq> []
          then quoteWithFeeInSwap ev p market inputToken outputToken inputAmountRaw quoteUsd
          else return_remote (Ok None)) (\<lambda>inSwap.
      case inSwap of
        Some t \<Rightarrow> return_remote (Ok t)
      | None \<Rightarrow> separateFee ev p market inputToken outputToken inputAmountRaw usesGuaranteedUsdcFee))"

definition quote_row_of ::
    "int \<Rightarrow> CreateQuoteParams \<Rightarrow> TradableMarket \<Rightarrow> int \<Rightarrow> priced_trade \<Rightarrow> trade_quote_row" where
  "quote_row_of now p market inputAmountRaw t =
     (let (inputToken, outputToken) = resolveTokens market (qp_side p) in
      \<lparr>qr_userId = qp_userId p, qr_walletAddress = normalizeEvmAddress (qp_walletAddress p),
       qr_chainId = qp_chainId p, qr_side = qp_side p, qr_tokenMarketId = tm_id market,
       qr_inputToken = tk_contractAddress inputToken, qr_outputToken = tk_contractAddress outputToken,
       qr_inputAmount = string_of_int inputAmountRaw,
       qr_expectedOutputAmount = string_of_int (pt_netBuyAmountRaw t),
       qr_minOutputAmount = string_of_int (pt_netMinOutputRaw t), qr_platformFeeBps = pt_appliedFeeBps t,
       qr_platformFeeAmount = string_of_int (pt_platformFeeAmountRaw t),
       qr_unsignedTx = unsigned_tx_json (rq_unsignedTx (pt_routerQuote t)),
       qr_feeUnsignedTx = map_option unsigned_tx_json (pt_feeUnsignedTx t),
       qr_expiresAt = now + quoteTtlSeconds TRADING_DEFAULTS * 1000\<rparr>)"

definition evm_createQuote ::
    "'w quote_service \<Rightarrow> int \<Rightarrow> CreateQuoteParams \<Rightarrow> market_db
     \<Rightarrow> ('w, TradableMarket \<times> int \<times> priced_trade \<times> trade_quote_row) remote" where
  "evm_createQuote ev now p db =
     (let walletAddress = normalizeEvmAddress (qp_walletAddress p) in
      then_remote (return_remote (bind_result (evm_wallet_owned db (qp_userId p) walletAddress) (\<lambda>_.
        bind_result (resolveChain ev (qp_chainId p)) (\<lambda>usdcAddress.
        bind_result (assertTradable db now (qp_tokenAddress p) (qp_chainId p)) (\<lambda>listed.
          Ok (usdcAddress, listed)))))) (\<lambda>(usdcAddress, listed).
      then_remote (if qp_payWithNative p then ev_nativeUsd ev (qp_chainId p) else return_remote (Ok None)) (\<lambda>nativeUsd.
      let nativeSymbol = (if qp_payWithNative p then NATIVE_SYMBOL_BY_CHAIN_ID (qp_chainId p) else None) in
      then_remote (return_remote (reject_if (qp_payWithNative p \<and> (nativeSymbol = None \<or> nativeUsd = None))
        (Unprocessable ''Prices are loading - try again in a moment.''))) (\<lambda>_.
      let usdc = (if qp_payWithNative p then None else chainUsdcToken db (tm_chainDbId listed) usdcAddress);
          market = quoted_market listed nativeSymbol usdc;
          quoteUsd = (\<lambda>raw. nmul (units ev raw (tm_quoteToken market))
             (case nativeUsd of Some n \<Rightarrow> n | None \<Rightarrow> Fin 1)) in
      then_remote (if qp_payWithNative p \<and> qp_side p = Buy then native_buy_checks ev p walletAddress quoteUsd
                   else return_remote (Ok ())) (\<lambda>_.
      then_remote (usdc_buy_checks ev p walletAddress usdc) (\<lambda>_.
      then_remote (gas_check ev p walletAddress usdc) (\<lambda>_.
      then_remote (return_remote (parseInputAmount ev (qp_amount p)
          (decimals_of (fst (resolveTokens market (qp_side p)))))) (\<lambda>inputAmountRaw.
      then_remote (price_trade ev p market usdcAddress inputAmountRaw quoteUsd) (\<lambda>t.
        return_remote (Ok (market, inputAmountRaw, t, quote_row_of now p market inputAmountRaw t)))))))))))"

subsection \<open>The fee is charged once\<close>

definition asked :: "'w quote_service \<Rightarrow> SwapRouterQuoteRequest \<Rightarrow> SwapRouterQuote \<Rightarrow> bool" where
  "asked ev req q \<longleftrightarrow> (\<exists>w1 w2. ev_router ev req w1 = (Ok (Some q), w2))"

definition fee_in_swap :: "'w quote_service \<Rightarrow> CreateQuoteParams \<Rightarrow> token_row \<Rightarrow> token_row \<Rightarrow> int \<Rightarrow> priced_trade \<Rightarrow> bool" where
  "fee_in_swap ev p i o' input t \<longleftrightarrow>
     asked ev (router_request p i o' input (Some (ev_feeRecipient ev)) (pt_appliedFeeBps t) (Some (fee_side_of (qp_side p))))
       (pt_routerQuote t)
     \<and> rq_feeEmbedded (pt_routerQuote t) \<and> pt_feeUnsignedTx t = None
     \<and> BigInt (rq_buyAmountRaw (pt_routerQuote t)) = Ok (pt_netBuyAmountRaw t)
     \<and> (qp_side p = Buy \<longrightarrow> calculateFeeAmount input (pt_appliedFeeBps t) = Ok (pt_platformFeeAmountRaw t))
     \<and> (qp_side p = Sell \<longrightarrow>
          grossOf (pt_netBuyAmountRaw t) (pt_appliedFeeBps t) = Ok (pt_netBuyAmountRaw t + pt_platformFeeAmountRaw t))"

lemma embedded_Some: "embedded a = Some q \<longleftrightarrow> a = Some q \<and> rq_feeEmbedded q"
  by (auto simp: embedded_def split: option.splits)

lemma buy_priced_Ok:
  "buy_priced input q bps = Ok t \<Longrightarrow>
     pt_routerQuote t = q \<and> pt_appliedFeeBps t = bps \<and> pt_feeUnsignedTx t = None
     \<and> BigInt (rq_buyAmountRaw q) = Ok (pt_netBuyAmountRaw t)
     \<and> calculateFeeAmount input bps = Ok (pt_platformFeeAmountRaw t)"
  by (auto simp: buy_priced_def bind_result_Ok_iff)

lemma sell_priced_Ok:
  "sell_priced q bps gross = Ok t \<Longrightarrow>
     pt_routerQuote t = q \<and> pt_appliedFeeBps t = bps \<and> pt_feeUnsignedTx t = None
     \<and> BigInt (rq_buyAmountRaw q) = Ok (pt_netBuyAmountRaw t) \<and> gross = pt_netBuyAmountRaw t + pt_platformFeeAmountRaw t"
  by (auto simp: sell_priced_def bind_result_Ok_iff)

lemma requote_sell_Ok:
  assumes "requote_sell ask usd q bps w = (Ok (Some (q', bps', gross)), w')"
  shows "(\<exists>net. BigInt (rq_buyAmountRaw q') = Ok net \<and> grossOf net bps' = Ok gross)
     \<and> (q' = q \<and> bps' = bps \<or> rq_feeEmbedded q' \<and> (\<exists>w1 w2. ask bps' w1 = (Ok (Some q'), w2)))"
proof -
  from assms obtain net gross0 real w1 where
    n: "BigInt (rq_buyAmountRaw q) = Ok net" "grossOf net bps = Ok gross0"
    and k: "(if neq real bps then return_remote (Ok (Some (q, bps, gross0)))
         else then_remote (ask real) (\<lambda>again.
           case embedded again of
             None \<Rightarrow> return_remote (Ok None)
           | Some q2 \<Rightarrow> return_remote (bind_result (BigInt (rq_buyAmountRaw q2)) (\<lambda>net2.
               bind_result (grossOf net2 real) (\<lambda>gross2. Ok (Some (q2, real, gross2))))))) w1
       = (Ok (Some (q', bps', gross)), w')"
    by (auto simp: requote_sell_def then_remote_Ok bind_result_Ok_iff)
  show ?thesis
  proof (cases "neq real bps")
    case False
    with k obtain again w2 where r: "ask real w1 = (Ok again, w2)"
      and c: "(case embedded again of None \<Rightarrow> return_remote (Ok None)
        | Some q2 \<Rightarrow> return_remote (bind_result (BigInt (rq_buyAmountRaw q2)) (\<lambda>net2.
            bind_result (grossOf net2 real) (\<lambda>gross2. Ok (Some (q2, real, gross2)))))) w2
        = (Ok (Some (q', bps', gross)), w')"
      by (auto simp: then_remote_Ok)
    from c obtain q2 where q2: "embedded again = Some q2" by (auto split: option.splits)
    with c have "q' = q2" "bps' = real" "\<exists>net. BigInt (rq_buyAmountRaw q2) = Ok net \<and> grossOf net real = Ok gross"
      by (auto simp: bind_result_Ok_iff)
    with r q2 show ?thesis by (auto simp: embedded_Some)
  qed (use k n in auto)
qed

lemma in_swap_Ok:
  assumes "quoteWithFeeInSwap ev p market i o' input usd w = (Ok (Some t), w')"
  shows "fee_in_swap ev p i o' input t"
proof -
  define ask where "ask = (\<lambda>bps. ev_router ev (router_request p i o' input (Some (ev_feeRecipient ev)) bps
      (Some (fee_side_of (qp_side p)))))"
  from assms obtain bps answer w1 w2 where a: "ask bps w1 = (Ok answer, w2)"
    and k: "(case embedded answer of None \<Rightarrow> return_remote (Ok None)
         | Some q \<Rightarrow> (case qp_side p of
              Buy \<Rightarrow> return_remote (bind_result (buy_priced input q bps) (\<lambda>t. Ok (Some t)))
            | Sell \<Rightarrow> then_remote (requote_sell ask usd q bps) (\<lambda>final. return_remote (finish_sell usd final)))) w2
        = (Ok (Some t), w')"
    unfolding quoteWithFeeInSwap_def Let_def ask_def [symmetric] by (auto simp: then_remote_Ok)
  from k obtain q where q: "embedded answer = Some q" by (auto split: option.splits)
  show ?thesis
  proof (cases "qp_side p")
    case Buy
    with k q have "buy_priced input q bps = Ok t" by (auto simp: bind_result_Ok_iff)
    from buy_priced_Ok [OF this] a q Buy show ?thesis
      unfolding fee_in_swap_def asked_def ask_def by (auto simp: embedded_Some)
  next
    case Sell
    with k q obtain final w3 where f: "requote_sell ask usd q bps w2 = (Ok final, w3)" "finish_sell usd final = Ok (Some t)"
      by (auto simp: then_remote_Ok)
    then obtain q' bps' gross where final: "final = Some (q', bps', gross)" and t: "sell_priced q' bps' gross = Ok t"
      by (auto simp: finish_sell_def bind_result_Ok_iff split: option.splits prod.splits if_splits)
    from requote_sell_Ok [OF f(1) [unfolded final]] sell_priced_Ok [OF t] a q Sell show ?thesis
      unfolding fee_in_swap_def asked_def ask_def by (auto simp: embedded_Some)
  qed
qed

definition fee_apart ::
    "'w quote_service \<Rightarrow> CreateQuoteParams \<Rightarrow> TradableMarket \<Rightarrow> token_row \<Rightarrow> token_row \<Rightarrow> int \<Rightarrow> priced_trade \<Rightarrow> bool" where
  "fee_apart ev p market i o' input t \<longleftrightarrow>
     (\<exists>sold gross floor.
        asked ev (router_request p i o' sold None (Fin 0) None) (pt_routerQuote t)
        \<and> BigInt (rq_buyAmountRaw (pt_routerQuote t)) = Ok gross
        \<and> calculateMinOutputAmount gross (qp_slippageBps p) = Ok floor
        \<and> pt_feeUnsignedTx t = Some (buildErc20TransferTx ev (tk_contractAddress (tm_quoteToken market))
             (ev_feeRecipient ev) (pt_platformFeeAmountRaw t))
        \<and> (qp_side p = Buy \<longrightarrow> sold + pt_platformFeeAmountRaw t = input \<and> pt_netBuyAmountRaw t = gross
             \<and> calculateFeeAmount input (pt_appliedFeeBps t) = Ok (pt_platformFeeAmountRaw t)
             \<and> floor \<le> pt_netMinOutputRaw t)
        \<and> (qp_side p = Sell \<longrightarrow> sold = input \<and> pt_netBuyAmountRaw t + pt_platformFeeAmountRaw t = gross
             \<and> calculateFeeAmount gross (pt_appliedFeeBps t) = Ok (pt_platformFeeAmountRaw t)
             \<and> floor \<le> pt_netMinOutputRaw t + pt_platformFeeAmountRaw t))"

definition fee_by_aggregator ::
    "'w quote_service \<Rightarrow> CreateQuoteParams \<Rightarrow> token_row \<Rightarrow> token_row \<Rightarrow> int \<Rightarrow> priced_trade \<Rightarrow> bool" where
  "fee_by_aggregator ev p i o' input t \<longleftrightarrow>
     asked ev (router_request p i o' input (Some (ev_feeRecipient ev)) (pt_appliedFeeBps t) None) (pt_routerQuote t)
     \<and> pt_feeUnsignedTx t = None
     \<and> BigInt (rq_buyAmountRaw (pt_routerQuote t)) = Ok (pt_netBuyAmountRaw t)
     \<and> (\<exists>floor. calculateMinOutputAmount (pt_netBuyAmountRaw t) (qp_slippageBps p) = Ok floor
          \<and> floor \<le> pt_netMinOutputRaw t)"

lemma provider_floor_Ok:
  "provider_floor q slip = Ok (gross, pmin) \<Longrightarrow>
     BigInt (rq_buyAmountRaw q) = Ok gross \<and> (\<exists>floor. calculateMinOutputAmount gross slip = Ok floor \<and> floor \<le> pmin)"
  by (auto simp: provider_floor_def bind_result_Ok_iff split: if_splits)

text \<open>The settlement of a separately charged trade, once the router has answered.\<close>

lemma settle_separate_Ok:
  assumes "settle_separate ev p market g pre f q = Ok t"
  obtains gross pmin applied post fee where
    "provider_floor q (qp_slippageBps p) = Ok (gross, pmin)"
    "sale_tier (g \<and> qp_side p = Sell) (units ev gross (tm_quoteToken market)) pre = Ok applied"
    "(if g \<and> qp_side p = Sell then calculateFeeAmount gross applied else Ok 0) = Ok post"
    "separate_fee_amount q g f post applied gross = Ok fee"
    "t = \<lparr>pt_routerQuote = q, pt_appliedFeeBps = applied, pt_platformFeeAmountRaw = fee,
       pt_netBuyAmountRaw = gross - post, pt_netMinOutputRaw = pmin - post,
       pt_feeUnsignedTx = (if g then Some (buildErc20TransferTx ev (tk_contractAddress (tm_quoteToken market))
          (ev_feeRecipient ev) fee) else None)\<rparr>"
  using assms unfolding settle_separate_def Let_def bind_result_Ok_iff case_prod_beta
  by (metis (no_types, lifting) prod.collapse sum.inject(2))

lemma separateFee_Ok:
  assumes "separateFee ev p market i o' input g w = (Ok t, w')"
  shows "if g then fee_apart ev p market i o' input t else fee_by_aggregator ev p i o' input t"
proof -
  from assms obtain pre w1 where k1: "then_remote (return_remote (if g \<and> qp_side p = Buy
         then calculateFeeAmount input pre else Ok 0)) (\<lambda>f.
     then_remote (ev_router ev (router_request p i o' (input - f)
         (if g then None else Some (ev_feeRecipient ev)) (if g then Fin 0 else pre) None)) (\<lambda>answer.
     case answer of
       None \<Rightarrow> return_remote (Err (Unprocessable ''No live quote is available for this trade right now''))
     | Some q \<Rightarrow> return_remote (settle_separate ev p market g pre f q))) w1 = (Ok t, w')"
    unfolding separateFee_def by (subst (asm) then_remote_Ok) blast
  then obtain f w2 answer where f: "(if g \<and> qp_side p = Buy then calculateFeeAmount input pre else Ok 0) = Ok f"
    and a': "ev_router ev (router_request p i o' (input - f) (if g then None else Some (ev_feeRecipient ev))
        (if g then Fin 0 else pre) None) w1 = (Ok answer, w2)"
    and k2: "(case answer of None \<Rightarrow> return_remote (Err (Unprocessable ''No live quote is available for this trade right now''))
     | Some q \<Rightarrow> return_remote (settle_separate ev p market g pre f q)) w2 = (Ok t, w')"
    unfolding then_remote_Ok return_remote_Ok by blast
  from k2 obtain q where q: "answer = Some q" and s: "settle_separate ev p market g pre f q = Ok t"
    by (auto split: option.splits)
  note a = a' [unfolded q]
  from s obtain gross pmin applied post fee where
    fl: "provider_floor q (qp_slippageBps p) = Ok (gross, pmin)"
    and ap: "sale_tier (g \<and> qp_side p = Sell) (units ev gross (tm_quoteToken market)) pre = Ok applied"
    and po: "(if g \<and> qp_side p = Sell then calculateFeeAmount gross applied else Ok 0) = Ok post"
    and fe: "separate_fee_amount q g f post applied gross = Ok fee"
    and t: "t = \<lparr>pt_routerQuote = q, pt_appliedFeeBps = applied, pt_platformFeeAmountRaw = fee,
       pt_netBuyAmountRaw = gross - post, pt_netMinOutputRaw = pmin - post,
       pt_feeUnsignedTx = (if g then Some (buildErc20TransferTx ev (tk_contractAddress (tm_quoteToken market))
          (ev_feeRecipient ev) fee) else None)\<rparr>"
    by (rule settle_separate_Ok)
  obtain floor where fl: "BigInt (rq_buyAmountRaw q) = Ok gross"
      "calculateMinOutputAmount gross (qp_slippageBps p) = Ok floor" "floor \<le> pmin"
    using provider_floor_Ok [OF fl] by blast
  show ?thesis
  proof (cases g)
    case False
    with f ap po have "f = 0" "post = 0" "applied = pre" by (simp_all add: sale_tier_def)
    with False a fl t show ?thesis by (auto simp: fee_by_aggregator_def asked_def)
  next
    case True
    show ?thesis
    proof (cases "qp_side p")
      case Buy
      with True f ap po fe [unfolded separate_fee_amount_def] have "fee = f" "post = 0" "applied = pre" "calculateFeeAmount input pre = Ok f"
        by (simp_all add: sale_tier_def)
      with True Buy a fl t have "fee_apart ev p market i o' input t"
        unfolding fee_apart_def asked_def
        by (intro exI [of _ "input - f"] exI [of _ gross] exI [of _ floor]) auto
      with True show ?thesis by simp
    next
      case Sell
      with True f po fe have "f = 0" "fee = post" "calculateFeeAmount gross applied = Ok post"
        by (simp_all add: separate_fee_amount_def)
      with True Sell a fl t have "fee_apart ev p market i o' input t"
        unfolding fee_apart_def asked_def
        by (intro exI [of _ input] exI [of _ gross] exI [of _ floor]) auto
      with True show ?thesis by simp
    qed
  qed
qed


text \<open>A five dollar buy on Base through a router that embeds the fee.\<close>

definition sample_usdc :: token_row where
  "sample_usdc = \<lparr>tk_contractAddress = ''0x833589fcd6edb6e08f4c7c32d4f71b54bda02913'', tk_symbol = Some ''USDC'',
     tk_decimals = Some 6, tk_chainDbId = 1\<rparr>"

definition sample_coin :: token_row where
  "sample_coin = \<lparr>tk_contractAddress = ''0x1111111111111111111111111111111111111111'', tk_symbol = Some ''COIN'',
     tk_decimals = Some 18, tk_chainDbId = 1\<rparr>"

definition sample_market :: TradableMarket where
  "sample_market = \<lparr>tm_id = ''m1'', tm_chainDbId = 1, tm_chainIdentifier = ''eip155:8453'', tm_pairAddress = ''0xpool'',
     tm_token = sample_coin, tm_quoteToken = sample_usdc, tm_priceUsd = Some (Fin 2),
     tm_liquidityUsd = Some (Fin 90000), tm_lastPriceUpdateAt = Some 0\<rparr>"

definition sample_market_db :: market_db where
  "sample_market_db = \<lparr>md_markets = [sample_market], md_tokens = [sample_usdc, sample_coin], md_seedPools = [],
     md_wallets = [(''0x2222222222222222222222222222222222222222'', ''u1'', Some 0)]\<rparr>"

definition sample_evm_params :: CreateQuoteParams where
  "sample_evm_params = \<lparr>qp_userId = ''u1'', qp_walletAddress = ''0x2222222222222222222222222222222222222222'',
     qp_tokenAddress = ''0x1111111111111111111111111111111111111111'', qp_chainId = 8453, qp_side = Buy,
     qp_amount = ''5'', qp_slippageBps = Fin 100, qp_payWithNative = False\<rparr>"

definition sample_router_answer :: "SwapRouterQuoteRequest \<Rightarrow> SwapRouterQuote" where
  "sample_router_answer req =
     \<lparr>rq_provider = ''kyberswap'', rq_providerQuoteId = None, rq_buyAmountRaw = ''1000'',
      rq_sellAmountRaw = sq_sellAmountRaw req, rq_minBuyAmountRaw = ''500'', rq_priceImpactBps = None,
      rq_feeAmountRaw = None, rq_feeEmbedded = True, rq_requiresApproval = False, rq_approvalSpender = None,
      rq_unsignedTx = \<lparr>tx_to = ''0xrouter'', tx_data = ''0x'', tx_value = ''0'', tx_gas = None,
        tx_maxFeePerGas = None, tx_maxPriorityFeePerGas = None\<rparr>\<rparr>"

definition sample_quote_service :: "unit quote_service" where
  "sample_quote_service = \<lparr>ev_chains = [(8453, ''0x833589fcd6edb6e08f4c7c32d4f71b54bda02913'')], ev_feeRecipient = ''0xfee'',
     ev_router = (\<lambda>req w. (Ok (Some (sample_router_answer req)), w)), ev_gasTopup = None,
     ev_nativeUsd = (\<lambda>c w. (Ok None, w)),
     ev_parseUnits = (\<lambda>s d. if s = ''5'' then Some 5000000 else None),
     ev_formatUnits = (\<lambda>raw d. if raw = 5000000 then ''5'' else ''0''), ev_transferData = (\<lambda>to a. ''0x'')\<rparr>"

lemma sample_evm_quote:
  "(case evm_createQuote sample_quote_service 60000 sample_evm_params sample_market_db () of
      (Inl e, w) \<Rightarrow> False
    | (Inr (market, input, t, row), w) \<Rightarrow>
        input = 5000000 \<and> pt_platformFeeAmountRaw t = 200000 \<and> pt_netMinOutputRaw t = 500)"
  by code_simp


subsection \<open>What the checks leave open\<close>

text \<open>A market whose liquidity is not known hides the liquid one of the same token.\<close>

lemma unknown_liquidity_hides_market:
  "is_ok (assertTradable sample_market_db 60000 (tk_contractAddress sample_coin) 8453)"
  "\<not> is_ok (assertTradable (sample_market_db\<lparr>md_markets := md_markets sample_market_db
       @ [sample_market\<lparr>tm_id := ''m2'', tm_liquidityUsd := None\<rparr>]\<rparr>) 60000 (tk_contractAddress sample_coin) 8453)"
  by code_simp+

text \<open>With the fee in the swap the provider's minimum is stored as it came: here half of the
  expected output, for a requested slippage of one percent.\<close>

lemma in_swap_minimum_not_checked:
  "provider_floor (sample_router_answer req) (qp_slippageBps sample_evm_params)
     = Err (Unprocessable ''The quote returned did not honor the requested slippage tolerance'')"
  by (simp add: sample_router_answer_def sample_evm_params_def provider_floor_def) code_simp

end
