(* ===== verification/GasTopup.thy ===== *)
theory GasTopup
  imports EvmRelay
begin

section \<open>Gas top-ups\<close>

text \<open>
  \<open>apps/api/src/trading/evm-gas-topup.service.ts\<close>.  A top-up is a sequence of Redis commands,
  chain reads and one transfer, each atomic; calls of several processes interleave, Redis commands
  fail and keys expire at any moment.  The transfers of one process on one chain run one after
  another.
\<close>

subsection \<open>The configuration\<close>

record topup_setting =
  dripWei :: int
  minWei :: int

definition GAS_TOPUP_BY_CHAIN_ID :: "int \<Rightarrow> topup_setting option" where
  "GAS_TOPUP_BY_CHAIN_ID chainId =
     map_of [(8453, \<lparr>dripWei = 30000000000000, minWei = 10000000000000\<rparr>),
             (56, \<lparr>dripWei = 150000000000000, minWei = 50000000000000\<rparr>),
             (4663, \<lparr>dripWei = 50000000000000, minWei = 20000000000000\<rparr>)] chainId"

definition needsTopup :: "int \<Rightarrow> int \<Rightarrow> nat \<Rightarrow> int \<Rightarrow> bool" where
  "needsTopup nativeWei usdcRaw usdcDecimals minWei' = (nativeWei < minWei' \<and> 10 ^ usdcDecimals \<le> usdcRaw)"

record topup_config =
  tg_enabled :: bool
  tg_chains :: "int list"
  tg_dailyCap :: int
  tg_perWalletDaily :: int

definition topup_client :: "topup_config \<Rightarrow> int \<Rightarrow> topup_setting option" where
  "topup_client cfg chainId =
     (if tg_enabled cfg \<and> chainId \<in> set (tg_chains cfg) then GAS_TOPUP_BY_CHAIN_ID chainId else None)"

text \<open>A balance that cannot be read is \<open>None\<close>; \<open>read\<close> is the chain's answer.\<close>

definition readBalance :: "topup_config \<Rightarrow> (int \<Rightarrow> ('w, int) remote) \<Rightarrow> int \<Rightarrow> ('w, int option) remote" where
  "readBalance cfg read chainId w =
     (case topup_client cfg chainId of
        None \<Rightarrow> (Ok None, w)
      | Some _ \<Rightarrow> (case read chainId w of (Inl e, w1) \<Rightarrow> (Ok None, w1) | (Inr b, w1) \<Rightarrow> (Ok (Some b), w1)))"

subsection \<open>Calls and the shared state\<close>

datatype topup_answer = GasOk | GasStranded

text \<open>What became of the transfer: not sent, sent, or sent without a receipt in time.\<close>

datatype drip = NoDrip | Dripped | DripLate

datatype topup_phase =
    CheckCache
  | ReadBalances
  | StoreOk
  | TakeLock
  | CountWallet
  | CountedWallet int
  | CountChain
  | CountedChain int
  | Release
  | Waiting
  | Confirming
  | Refunding bool bool bool bool
  | Unlocking
  | Finished topup_answer drip

fun drip_of :: "topup_phase \<Rightarrow> drip" where
  "drip_of Confirming = Dripped"
| "drip_of Unlocking = Dripped"
| "drip_of (Refunding late _ _ _) = (if late then DripLate else NoDrip)"
| "drip_of (Finished _ d) = d"
| "drip_of _ = NoDrip"

record topup_call =
  tc_process :: nat
  tc_chain :: int
  tc_wallet :: string
  tc_decimals :: nat
  tc_native :: "int option"
  tc_day :: string
  tc_phase :: topup_phase

record topup_state =
  ts_calls :: "topup_call list"
  ts_today :: string
  ts_gasOk :: "(int \<times> string) list"
  ts_inFlight :: "(int \<times> string) list"
  ts_walletCount :: "(int \<times> string \<times> string) \<Rightarrow> int"
  ts_count :: "(int \<times> string) \<Rightarrow> int"
  ts_queue :: "(nat \<times> int) \<Rightarrow> nat list"

definition wallet_key :: "topup_call \<Rightarrow> int \<times> string \<times> string" where
  "wallet_key c = (tc_chain c, tc_wallet c, tc_day c)"

definition chain_key :: "topup_call \<Rightarrow> int \<times> string" where "chain_key c = (tc_chain c, tc_day c)"
definition lock_key :: "topup_call \<Rightarrow> int \<times> string" where "lock_key c = (tc_chain c, tc_wallet c)"
definition queue_key :: "topup_call \<Rightarrow> nat \<times> int" where "queue_key c = (tc_process c, tc_chain c)"

definition answer_on_error :: "topup_call \<Rightarrow> topup_answer" where
  "answer_on_error c = (if tc_native c = Some 0 then GasStranded else GasOk)"

definition finish :: "topup_answer \<Rightarrow> topup_call \<Rightarrow> topup_call" where
  "finish a c = c\<lparr>tc_phase := Finished a (drip_of (tc_phase c))\<rparr>"

text \<open>The next Redis command of a call, when it succeeds.\<close>

definition redis_step :: "topup_config \<Rightarrow> nat \<Rightarrow> topup_call \<Rightarrow> topup_state \<Rightarrow> (topup_call \<times> topup_state) option" where
  "redis_step cfg i c s =
     (case tc_phase c of
        CheckCache \<Rightarrow> Some (if lock_key c \<in> set (ts_gasOk s) then finish GasOk c else c\<lparr>tc_phase := ReadBalances\<rparr>, s)
      | StoreOk \<Rightarrow> Some (finish GasOk c, s\<lparr>ts_gasOk := lock_key c # ts_gasOk s\<rparr>)
      | TakeLock \<Rightarrow>
          if lock_key c \<in> set (ts_inFlight s) then Some (finish GasOk c, s)
          else Some (c\<lparr>tc_phase := CountWallet, tc_day := ts_today s\<rparr>, s\<lparr>ts_inFlight := lock_key c # ts_inFlight s\<rparr>)
      | CountWallet \<Rightarrow>
          let n = ts_walletCount s (wallet_key c) + 1 in
          Some (c\<lparr>tc_phase := CountedWallet n\<rparr>, s\<lparr>ts_walletCount := (ts_walletCount s)(wallet_key c := n)\<rparr>)
      | CountedWallet n \<Rightarrow> Some (c\<lparr>tc_phase := if tg_perWalletDaily cfg < n then Release else CountChain\<rparr>, s)
      | CountChain \<Rightarrow>
          let n = ts_count s (chain_key c) + 1 in
          Some (c\<lparr>tc_phase := CountedChain n\<rparr>, s\<lparr>ts_count := (ts_count s)(chain_key c := n)\<rparr>)
      | CountedChain n \<Rightarrow>
          if tg_dailyCap cfg < n then Some (c\<lparr>tc_phase := Release\<rparr>, s)
          else Some (c\<lparr>tc_phase := Waiting\<rparr>, s\<lparr>ts_queue := (ts_queue s)(queue_key c := ts_queue s (queue_key c) @ [i])\<rparr>)
      | Release \<Rightarrow> Some (finish GasOk c, s\<lparr>ts_inFlight := removeAll (lock_key c) (ts_inFlight s)\<rparr>)
      | Unlocking \<Rightarrow> Some (finish GasOk c, s\<lparr>ts_inFlight := removeAll (lock_key c) (ts_inFlight s)\<rparr>)
      | Refunding _ False False False \<Rightarrow> Some (finish (answer_on_error c) c, s)
      | _ \<Rightarrow> None)"

text \<open>A failing command ends the call; \<open>expire\<close> is only sent for the first count of a day.\<close>

definition redis_fails :: "topup_call \<Rightarrow> topup_call option" where
  "redis_fails c =
     (case tc_phase c of
        CountedWallet n \<Rightarrow> if n = 1 then Some (finish (answer_on_error c) c) else None
      | CountedChain n \<Rightarrow> if n = 1 then Some (finish (answer_on_error c) c) else None
      | CheckCache \<Rightarrow> Some (finish (answer_on_error c) c)
      | StoreOk \<Rightarrow> Some (finish (answer_on_error c) c)
      | TakeLock \<Rightarrow> Some (finish (answer_on_error c) c)
      | CountWallet \<Rightarrow> Some (finish (answer_on_error c) c)
      | CountChain \<Rightarrow> Some (finish (answer_on_error c) c)
      | Release \<Rightarrow> Some (finish (answer_on_error c) c)
      | Unlocking \<Rightarrow> Some (finish (answer_on_error c) c)
      | _ \<Rightarrow> None)"

definition balances_step :: "topup_config \<Rightarrow> (int \<times> int) option \<Rightarrow> topup_call \<Rightarrow> topup_call option" where
  "balances_step cfg answer c =
     (case (tc_phase c, topup_client cfg (tc_chain c)) of
        (ReadBalances, Some client) \<Rightarrow>
          (case answer of
             None \<Rightarrow> Some (finish (answer_on_error c) c)
           | Some (native, usdcRaw) \<Rightarrow>
               let c = c\<lparr>tc_native := Some native\<rparr> in
               if needsTopup native usdcRaw (tc_decimals c) (minWei client) then Some (c\<lparr>tc_phase := TakeLock\<rparr>)
               else if minWei client \<le> native then Some (c\<lparr>tc_phase := StoreOk\<rparr>)
               else Some (finish GasOk c))
      | _ \<Rightarrow> None)"

definition leave_queue :: "topup_call \<Rightarrow> topup_state \<Rightarrow> topup_state" where
  "leave_queue c s = s\<lparr>ts_queue := (ts_queue s)(queue_key c := tl (ts_queue s (queue_key c)))\<rparr>"

text \<open>The transfer and its receipt, in the order of the process's queue for the chain.\<close>

definition send_step :: "bool \<Rightarrow> nat \<Rightarrow> topup_call \<Rightarrow> topup_state \<Rightarrow> (topup_call \<times> topup_state) option" where
  "send_step accepted i c s =
     (case (tc_phase c, ts_queue s (queue_key c)) of
        (Waiting, j # rest) \<Rightarrow>
          if j \<noteq> i then None
          else if accepted then Some (c\<lparr>tc_phase := Confirming\<rparr>, s)
          else Some (c\<lparr>tc_phase := Refunding False True True True\<rparr>, leave_queue c s)
      | _ \<Rightarrow> None)"

definition receipt_step :: "bool \<Rightarrow> topup_call \<Rightarrow> topup_state \<Rightarrow> (topup_call \<times> topup_state) option" where
  "receipt_step arrived c s =
     (case tc_phase c of
        Confirming \<Rightarrow>
          Some (if arrived then c\<lparr>tc_phase := Unlocking\<rparr>
                else c\<lparr>tc_phase := Refunding True True True True\<rparr>, leave_queue c s)
      | _ \<Rightarrow> None)"

text \<open>The three commands of a refund are sent together: they land in any order, each or not.\<close>

datatype refund_command = RefundWallet | RefundCount | RefundLock

definition refund_step ::
    "refund_command \<Rightarrow> bool \<Rightarrow> topup_call \<Rightarrow> topup_state \<Rightarrow> (topup_call \<times> topup_state) option" where
  "refund_step cmd lands c s =
     (case tc_phase c of
        Refunding late w n l \<Rightarrow>
          (case cmd of
             RefundWallet \<Rightarrow>
               if w then Some (c\<lparr>tc_phase := Refunding late False n l\<rparr>,
                 if lands then s\<lparr>ts_walletCount := (ts_walletCount s)(wallet_key c := ts_walletCount s (wallet_key c) - 1)\<rparr> else s)
               else None
           | RefundCount \<Rightarrow>
               if n then Some (c\<lparr>tc_phase := Refunding late w False l\<rparr>,
                 if lands then s\<lparr>ts_count := (ts_count s)(chain_key c := ts_count s (chain_key c) - 1)\<rparr> else s)
               else None
           | RefundLock \<Rightarrow>
               if l then Some (c\<lparr>tc_phase := Refunding late w n False\<rparr>,
                 if lands then s\<lparr>ts_inFlight := removeAll (lock_key c) (ts_inFlight s)\<rparr> else s)
               else None)
      | _ \<Rightarrow> None)"

subsection \<open>Events\<close>

datatype topup_event =
    Ask nat int string nat
  | Redis nat
  | RedisFails nat
  | Balances nat "(int \<times> int) option"
  | Send nat bool
  | Receipt nat bool
  | Refund nat refund_command bool
  | ExpireLock int string
  | ExpireOk int string
  | NewDay string

definition new_call :: "topup_config \<Rightarrow> nat \<Rightarrow> int \<Rightarrow> string \<Rightarrow> nat \<Rightarrow> topup_call" where
  "new_call cfg process chainId wallet decimals =
     \<lparr>tc_process = process, tc_chain = chainId, tc_wallet = to_lower wallet, tc_decimals = decimals, tc_native = None,
      tc_day = [], tc_phase = (if topup_client cfg chainId = None then Finished GasOk NoDrip else CheckCache)\<rparr>"

definition of_call ::
    "nat \<Rightarrow> topup_state \<Rightarrow> (topup_call \<Rightarrow> (topup_call \<times> topup_state) option) \<Rightarrow> topup_state option" where
  "of_call i s f =
     (if i < length (ts_calls s)
      then (case f (ts_calls s ! i) of None \<Rightarrow> None | Some (c, s') \<Rightarrow> Some (s'\<lparr>ts_calls := (ts_calls s)[i := c]\<rparr>))
      else None)"

definition topup_event :: "topup_config \<Rightarrow> topup_event \<Rightarrow> topup_state \<Rightarrow> topup_state option" where
  "topup_event cfg e s =
     (case e of
        Ask process chainId wallet decimals \<Rightarrow> Some (s\<lparr>ts_calls := ts_calls s @ [new_call cfg process chainId wallet decimals]\<rparr>)
      | Redis i \<Rightarrow> of_call i s (\<lambda>c. redis_step cfg i c s)
      | RedisFails i \<Rightarrow> of_call i s (\<lambda>c. map_option (\<lambda>c. (c, s)) (redis_fails c))
      | Balances i answer \<Rightarrow> of_call i s (\<lambda>c. map_option (\<lambda>c. (c, s)) (balances_step cfg answer c))
      | Send i accepted \<Rightarrow> of_call i s (\<lambda>c. send_step accepted i c s)
      | Receipt i arrived \<Rightarrow> of_call i s (\<lambda>c. receipt_step arrived c s)
      | Refund i cmd lands \<Rightarrow> of_call i s (\<lambda>c. refund_step cmd lands c s)
      | ExpireLock chainId wallet \<Rightarrow> Some (s\<lparr>ts_inFlight := removeAll (chainId, wallet) (ts_inFlight s)\<rparr>)
      | ExpireOk chainId wallet \<Rightarrow> Some (s\<lparr>ts_gasOk := removeAll (chainId, wallet) (ts_gasOk s)\<rparr>)
      | NewDay day \<Rightarrow> Some (s\<lparr>ts_today := day\<rparr>))"

definition topup_start :: "string \<Rightarrow> topup_state" where
  "topup_start day = \<lparr>ts_calls = [], ts_today = day, ts_gasOk = [], ts_inFlight = [], ts_walletCount = (\<lambda>_. 0),
     ts_count = (\<lambda>_. 0), ts_queue = (\<lambda>_. [])\<rparr>"

fun run_topups :: "topup_config \<Rightarrow> topup_event list \<Rightarrow> topup_state \<Rightarrow> topup_state option" where
  "run_topups cfg [] s = Some s"
| "run_topups cfg (e # es) s = (case topup_event cfg e s of None \<Rightarrow> None | Some s' \<Rightarrow> run_topups cfg es s')"


subsection \<open>One step of one call\<close>

inductive call_step :: "topup_config \<Rightarrow> nat \<Rightarrow> topup_call \<Rightarrow> topup_state \<Rightarrow> topup_call \<Rightarrow> topup_state \<Rightarrow> bool"
  for cfg where
  redis: "redis_step cfg i c s = Some (c', s') \<Longrightarrow> call_step cfg i c s c' s'"
| fails: "redis_fails c = Some c' \<Longrightarrow> call_step cfg i c s c' s"
| reads: "balances_step cfg answer c = Some c' \<Longrightarrow> call_step cfg i c s c' s"
| sends: "send_step accepted i c s = Some (c', s') \<Longrightarrow> call_step cfg i c s c' s'"
| receives: "receipt_step arrived c s = Some (c', s') \<Longrightarrow> call_step cfg i c s c' s'"
| refunds: "refund_step cmd lands c s = Some (c', s') \<Longrightarrow> call_step cfg i c s c' s'"

lemma of_call_SomeD:
  "of_call i s f = Some s' \<Longrightarrow> \<exists>c s1. i < length (ts_calls s) \<and> f (ts_calls s ! i) = Some (c, s1)
     \<and> s' = s1\<lparr>ts_calls := (ts_calls s)[i := c]\<rparr>"
  by (auto simp: of_call_def split: if_splits option.splits)

lemma topup_event_cases:
  assumes "topup_event cfg e s = Some s'"
  obtains (asked) p ch w d where "s' = s\<lparr>ts_calls := ts_calls s @ [new_call cfg p ch w d]\<rparr>"
  | (expired) ch w where "e = ExpireLock ch w" "s' = s\<lparr>ts_inFlight := removeAll (ch, w) (ts_inFlight s)\<rparr>"
  | (other) day ok where "s' = s\<lparr>ts_today := day, ts_gasOk := ok\<rparr>"
  | (call) i c' s1 where "i < length (ts_calls s)" "call_step cfg i (ts_calls s ! i) s c' s1"
      "s' = s1\<lparr>ts_calls := (ts_calls s)[i := c']\<rparr>"
proof (cases e)
  case (ExpireOk ch w)
  with assms show ?thesis by (intro other [where day = "ts_today s" and ok = "removeAll (ch, w) (ts_gasOk s)"]) (simp add: topup_event_def)
next
  case (NewDay day)
  with assms show ?thesis
    by (intro other [where day = day and ok = "ts_gasOk s"]) (cases s, auto simp: topup_event_def)
qed (use assms in \<open>auto simp: topup_event_def dest!: of_call_SomeD intro: asked expired call call_step.intros\<close>)

lemma run_topups_invariant:
  assumes "run_topups cfg es s = Some s'" "P s" "\<And>e s s'. e \<in> set es \<Longrightarrow> P s \<Longrightarrow> topup_event cfg e s = Some s' \<Longrightarrow> P s'"
  shows "P s'"
  using assms
proof (induction es arbitrary: s)
  case (Cons e es)
  from Cons.prems(1) obtain s1 where "topup_event cfg e s = Some s1" "run_topups cfg es s1 = Some s'"
    by (auto split: option.splits)
  with Cons.IH [of s1] Cons.prems(2,3) show ?case by (meson list.set_intros)
qed simp

subsection \<open>Counting calls\<close>

definition tally :: "(topup_call \<Rightarrow> bool) \<Rightarrow> topup_state \<Rightarrow> int" where
  "tally p s = int (length (filter p (ts_calls s)))"

lemma length_filter_list_update:
  "i < length xs \<Longrightarrow> int (length (filter p (xs[i := y])))
     = int (length (filter p xs)) - of_bool (p (xs ! i)) + of_bool (p y)"
proof (induction xs arbitrary: i)
  case (Cons x xs)
  then show ?case using Cons.IH [of "i - 1"] by (cases i) auto
qed simp

lemma tally_update:
  "i < length (ts_calls s) \<Longrightarrow> tally p (s1\<lparr>ts_calls := (ts_calls s)[i := c]\<rparr>)
     = tally p s - of_bool (p (ts_calls s ! i)) + of_bool (p c)"
  by (simp add: tally_def length_filter_list_update)

lemma tally_append: "tally p (s\<lparr>ts_calls := ts_calls s @ [c]\<rparr>) = tally p s + of_bool (p c)"
  by (simp add: tally_def)

lemma tally_same [simp]:
  "tally p (s\<lparr>ts_inFlight := l\<rparr>) = tally p s" "tally p (s\<lparr>ts_today := d, ts_gasOk := g\<rparr>) = tally p s"
  "tally p (topup_start day) = 0" "0 \<le> tally p s"
  by (simp_all add: tally_def topup_start_def)

text \<open>An allowance: a counter in Redis, the calls that hold one unit of it, and those among them
  that were granted a transfer.  A unit is taken by an increment that stays within the cap and
  given back by a decrement.\<close>

locale allowance =
  fixes cfg :: topup_config and cap :: int
    and counter :: "topup_state \<Rightarrow> 'k \<Rightarrow> int"
    and holds :: "'k \<Rightarrow> topup_call \<Rightarrow> bool" and granted :: "'k \<Rightarrow> topup_call \<Rightarrow> bool"
  assumes cap_positive: "0 \<le> cap"
    and granted_holds: "granted k c \<Longrightarrow> holds k c"
    and fresh: "\<not> holds k (new_call cfg p ch w d)"
    and zero: "counter (topup_start day) k = 0"
    and frame: "counter (s\<lparr>ts_calls := cs\<rparr>) k = counter s k" "counter (s\<lparr>ts_inFlight := l\<rparr>) k = counter s k"
      "counter (s\<lparr>ts_today := day, ts_gasOk := g\<rparr>) k = counter s k"
    and change: "call_step cfg i c s c' s' \<Longrightarrow>
        counter s' k = counter s k \<and> (holds k c' \<longrightarrow> holds k c) \<and> (granted k c' \<longrightarrow> granted k c)
      \<or> counter s' k = counter s k + 1 \<and> \<not> holds k c \<and> (holds k c' \<longrightarrow> counter s' k \<le> cap)
      \<or> counter s' k = counter s k - 1 \<and> holds k c \<and> \<not> holds k c'"
begin

definition kept :: "topup_state \<Rightarrow> bool" where
  "kept s \<longleftrightarrow> (\<forall>k. tally (holds k) s \<le> counter s k \<and> tally (granted k) s \<le> cap)"

lemma granted_le_holds: "tally (granted k) s \<le> tally (holds k) s"
proof -
  have "length (filter (granted k) xs) \<le> length (filter (holds k) xs)" for xs
    by (induction xs) (auto dest: granted_holds)
  then show ?thesis by (simp add: tally_def)
qed

lemma kept_step:
  assumes "topup_event cfg e s = Some s'" "kept s"
  shows "kept s'"
  using assms(1)
proof (cases rule: topup_event_cases)
  case (asked p ch w d)
  then show ?thesis
    using assms(2) fresh [of _ p ch w d] granted_holds [of _ "new_call cfg p ch w d"]
    unfolding kept_def asked tally_append frame by fastforce
next
  case (call i c' s1)
  have "tally (holds k) s' \<le> counter s' k \<and> tally (granted k) s' \<le> cap" for k
  proof -
    let ?c = "ts_calls s ! i"
    have le: "tally (holds k) s \<le> counter s k" "tally (granted k) s \<le> cap"
      using assms(2) by (auto simp: kept_def)
    note g = granted_le_holds [of k s] granted_holds [of k ?c] granted_holds [of k c']
    have h: "tally (holds k) s' = tally (holds k) s - of_bool (holds k ?c) + of_bool (holds k c')"
      "tally (granted k) s' = tally (granted k) s - of_bool (granted k ?c) + of_bool (granted k c')"
      "counter s' k = counter s1 k"
      using call(1) by (simp_all add: call(3) tally_update frame)
    from change [OF call(2), of k] show ?thesis
      unfolding h using le g by (auto split: if_splits)
  qed
  then show ?thesis by (simp add: kept_def)
qed (use assms(2) in \<open>auto simp: kept_def frame\<close>)

lemma granted_within_cap:
  assumes "run_topups cfg es (topup_start day) = Some s"
  shows "tally (granted k) s \<le> cap"
proof -
  have "kept (topup_start day)" by (simp add: kept_def zero cap_positive)
  from run_topups_invariant [OF assms, of kept, OF this] have "kept s" using kept_step by blast
  then show ?thesis by (simp add: kept_def)
qed

end


text \<open>The two allowances: of a wallet and of a chain, each for one day.\<close>

fun wallet_unit :: "topup_config \<Rightarrow> topup_phase \<Rightarrow> bool" where
  "wallet_unit cfg (CountedWallet n) \<longleftrightarrow> n \<le> tg_perWalletDaily cfg"
| "wallet_unit cfg CountChain \<longleftrightarrow> True"
| "wallet_unit cfg (CountedChain n) \<longleftrightarrow> True"
| "wallet_unit cfg Waiting \<longleftrightarrow> True"
| "wallet_unit cfg (Refunding late w n l) \<longleftrightarrow> w"
| "wallet_unit cfg p \<longleftrightarrow> drip_of p = Dripped"

fun chain_unit :: "topup_config \<Rightarrow> topup_phase \<Rightarrow> bool" where
  "chain_unit cfg (CountedChain n) \<longleftrightarrow> n \<le> tg_dailyCap cfg"
| "chain_unit cfg Waiting \<longleftrightarrow> True"
| "chain_unit cfg (Refunding late w n l) \<longleftrightarrow> n"
| "chain_unit cfg p \<longleftrightarrow> drip_of p = Dripped"

fun refunding :: "topup_phase \<Rightarrow> bool" where
  "refunding (Refunding late w n l) = True"
| "refunding _ = False"

lemmas call_step_defs = redis_step_def redis_fails_def balances_step_def send_step_def receipt_step_def refund_step_def
  leave_queue_def finish_def wallet_key_def chain_key_def lock_key_def queue_key_def

text \<open>Each step as a change of one allowance; \<open>v\<close>, \<open>h\<close>, \<open>g\<close> are the counter, whether the call
  holds a unit and whether it is granted, before and after.\<close>

definition allowance_change :: "int \<Rightarrow> int \<Rightarrow> int \<Rightarrow> bool \<Rightarrow> bool \<Rightarrow> bool \<Rightarrow> bool \<Rightarrow> bool" where
  "allowance_change cap v v' h h' g g' \<longleftrightarrow>
     v' = v \<and> (h' \<longrightarrow> h) \<and> (g' \<longrightarrow> g) \<or> v' = v + 1 \<and> \<not> h \<and> (h' \<longrightarrow> v' \<le> cap) \<or> v' = v - 1 \<and> h \<and> \<not> h'"

definition wallet_change :: "topup_config \<Rightarrow> int \<times> string \<times> string \<Rightarrow> topup_call \<Rightarrow> topup_state \<Rightarrow> topup_call \<Rightarrow> topup_state \<Rightarrow> bool" where
  "wallet_change cfg k c s c' s' = allowance_change (tg_perWalletDaily cfg) (ts_walletCount s k) (ts_walletCount s' k)
     (wallet_key c = k \<and> wallet_unit cfg (tc_phase c)) (wallet_key c' = k \<and> wallet_unit cfg (tc_phase c'))
     (wallet_key c = k \<and> wallet_unit cfg (tc_phase c) \<and> \<not> refunding (tc_phase c))
     (wallet_key c' = k \<and> wallet_unit cfg (tc_phase c') \<and> \<not> refunding (tc_phase c'))"

definition chain_change :: "topup_config \<Rightarrow> int \<times> string \<Rightarrow> topup_call \<Rightarrow> topup_state \<Rightarrow> topup_call \<Rightarrow> topup_state \<Rightarrow> bool" where
  "chain_change cfg k c s c' s' = allowance_change (tg_dailyCap cfg) (ts_count s k) (ts_count s' k)
     (chain_key c = k \<and> chain_unit cfg (tc_phase c)) (chain_key c' = k \<and> chain_unit cfg (tc_phase c'))
     (chain_key c = k \<and> chain_unit cfg (tc_phase c) \<and> \<not> refunding (tc_phase c))
     (chain_key c' = k \<and> chain_unit cfg (tc_phase c') \<and> \<not> refunding (tc_phase c'))"

text \<open>Most steps leave the counters alone and take no unit.\<close>

definition quiet ::
    "(topup_phase \<Rightarrow> bool) \<Rightarrow> (topup_call \<Rightarrow> 'k) \<Rightarrow> topup_call \<Rightarrow> topup_call \<Rightarrow> bool" where
  "quiet holds key c c' \<longleftrightarrow>
     (holds (tc_phase c') \<longrightarrow> key c' = key c \<and> holds (tc_phase c) \<and> (refunding (tc_phase c) \<longrightarrow> refunding (tc_phase c')))"

lemma quiet_change:
  "quiet (wallet_unit cfg) wallet_key c c' \<Longrightarrow> ts_walletCount s' = ts_walletCount s \<Longrightarrow> wallet_change cfg k c s c' s'"
  "quiet (chain_unit cfg) chain_key c c' \<Longrightarrow> ts_count s' = ts_count s \<Longrightarrow> chain_change cfg k' c s c' s'"
  by (auto simp: quiet_def wallet_change_def chain_change_def allowance_change_def)

lemma taking_change:
  "tc_phase c = CountWallet \<Longrightarrow> tc_phase c' = CountedWallet (ts_walletCount s (wallet_key c) + 1) \<Longrightarrow> wallet_key c' = wallet_key c
    \<Longrightarrow> ts_walletCount s' = (ts_walletCount s)(wallet_key c := ts_walletCount s (wallet_key c) + 1)
    \<Longrightarrow> wallet_change cfg k c s c' s'"
  "tc_phase c = CountChain \<Longrightarrow> tc_phase c' = CountedChain (ts_count s (chain_key c) + 1) \<Longrightarrow> chain_key c' = chain_key c
    \<Longrightarrow> ts_count s' = (ts_count s)(chain_key c := ts_count s (chain_key c) + 1) \<Longrightarrow> chain_change cfg k' c s c' s'"
  by (auto simp: wallet_change_def chain_change_def allowance_change_def)

lemma giving_change:
  "tc_phase c = Refunding late True n l \<Longrightarrow> tc_phase c' = Refunding late False n l \<Longrightarrow> wallet_key c' = wallet_key c
    \<Longrightarrow> ts_walletCount s' = (ts_walletCount s)(wallet_key c := ts_walletCount s (wallet_key c) - 1)
    \<Longrightarrow> wallet_change cfg k c s c' s'"
  "tc_phase c = Refunding late w True l \<Longrightarrow> tc_phase c' = Refunding late w False l \<Longrightarrow> chain_key c' = chain_key c
    \<Longrightarrow> ts_count s' = (ts_count s)(chain_key c := ts_count s (chain_key c) - 1) \<Longrightarrow> chain_change cfg k' c s c' s'"
  by (auto simp: wallet_change_def chain_change_def allowance_change_def)

lemmas quiet_simps = quiet_def wallet_key_def chain_key_def finish_def

lemma redis_change:
  assumes "redis_step cfg i c s = Some (c', s')"
  shows "wallet_change cfg k c s c' s'" "chain_change cfg k' c s c' s'"
proof -
  have "wallet_change cfg k c s c' s' \<and> chain_change cfg k' c s c' s'"
  proof (cases "tc_phase c")
    case CountWallet
    with assms have c': "c' = c\<lparr>tc_phase := CountedWallet (ts_walletCount s (wallet_key c) + 1)\<rparr>"
      "ts_walletCount s' = (ts_walletCount s)(wallet_key c := ts_walletCount s (wallet_key c) + 1)" "ts_count s' = ts_count s"
      by (auto simp: redis_step_def Let_def)
    with CountWallet show ?thesis
      by (intro conjI taking_change(1) quiet_change(2)) (simp_all add: quiet_simps)
  next
    case CountChain
    with assms have c': "c' = c\<lparr>tc_phase := CountedChain (ts_count s (chain_key c) + 1)\<rparr>"
      "ts_count s' = (ts_count s)(chain_key c := ts_count s (chain_key c) + 1)" "ts_walletCount s' = ts_walletCount s"
      by (auto simp: redis_step_def Let_def)
    with CountChain show ?thesis
      by (intro conjI taking_change(2) quiet_change(1)) (simp_all add: quiet_simps)
  qed (use assms in \<open>auto simp: redis_step_def quiet_simps intro!: quiet_change split: if_splits bool.splits\<close>)
  then show "wallet_change cfg k c s c' s'" "chain_change cfg k' c s c' s'" by auto
qed

lemma fails_change:
  assumes "redis_fails c = Some c'"
  shows "wallet_change cfg k c s c' s" "chain_change cfg k' c s c' s"
  using assms unfolding redis_fails_def
  by (intro quiet_change; cases "tc_phase c"; simp add: quiet_simps split: if_splits; fastforce)+

lemma reads_change:
  assumes "balances_step cfg answer c = Some c'"
  shows "wallet_change cfg k c s c' s" "chain_change cfg k' c s c' s"
  using assms unfolding balances_step_def
  by (intro quiet_change; cases "tc_phase c"; auto simp: quiet_simps Let_def split: if_splits option.splits)+

lemma sends_change:
  assumes "send_step accepted i c s = Some (c', s')"
  shows "wallet_change cfg k c s c' s'" "chain_change cfg k' c s c' s'"
  using assms unfolding send_step_def
  by (intro quiet_change; cases "tc_phase c"; auto simp: quiet_simps leave_queue_def split: if_splits list.splits)+

lemma receives_change:
  assumes "receipt_step arrived c s = Some (c', s')"
  shows "wallet_change cfg k c s c' s'" "chain_change cfg k' c s c' s'"
  using assms unfolding receipt_step_def
  by (intro quiet_change; cases "tc_phase c"; auto simp: quiet_simps leave_queue_def split: if_splits)+

lemma refunds_change:
  assumes "refund_step cmd lands c s = Some (c', s')"
  shows "wallet_change cfg k c s c' s'" "chain_change cfg k' c s c' s'"
proof -
  from assms obtain late w n l where p: "tc_phase c = Refunding late w n l"
    by (auto simp: refund_step_def split: topup_phase.splits)
  show "wallet_change cfg k c s c' s'"
  proof (cases "cmd = RefundWallet \<and> lands")
    case True
    with assms p show ?thesis
      by (intro giving_change(1) [of c late n l]) (auto simp: refund_step_def wallet_key_def split: if_splits)
  qed (use assms p in \<open>cases cmd; auto simp: refund_step_def quiet_simps intro!: quiet_change split: if_splits\<close>)
  show "chain_change cfg k' c s c' s'"
  proof (cases "cmd = RefundCount \<and> lands")
    case True
    with assms p show ?thesis
      by (intro giving_change(2) [of c late w l]) (auto simp: refund_step_def chain_key_def split: if_splits)
  qed (use assms p in \<open>cases cmd; auto simp: refund_step_def quiet_simps intro!: quiet_change split: if_splits\<close>)
qed

lemma call_step_change:
  assumes "call_step cfg i c s c' s'"
  shows "wallet_change cfg k c s c' s'" "chain_change cfg k' c s c' s'"
  using assms
  by (cases rule: call_step.cases; auto intro: redis_change fails_change reads_change sends_change receives_change refunds_change)+

interpretation wallet_day: allowance cfg "max 0 (tg_perWalletDaily cfg)" ts_walletCount
    "\<lambda>k c. wallet_key c = k \<and> wallet_unit cfg (tc_phase c)"
    "\<lambda>k c. wallet_key c = k \<and> wallet_unit cfg (tc_phase c) \<and> \<not> refunding (tc_phase c)" for cfg
  by unfold_locales
    (auto simp: new_call_def topup_start_def
      dest!: call_step_change(1) [unfolded wallet_change_def allowance_change_def])

interpretation chain_day: allowance cfg "max 0 (tg_dailyCap cfg)" ts_count
    "\<lambda>k c. chain_key c = k \<and> chain_unit cfg (tc_phase c)"
    "\<lambda>k c. chain_key c = k \<and> chain_unit cfg (tc_phase c) \<and> \<not> refunding (tc_phase c)" for cfg
  by unfold_locales
    (auto simp: new_call_def topup_start_def
      dest!: call_step_change(2) [unfolded chain_change_def allowance_change_def])


subsection \<open>The caps\<close>

lemma tally_mono: "(\<And>c. p c \<Longrightarrow> q c) \<Longrightarrow> tally p s \<le> tally q s"
proof -
  assume "\<And>c. p c \<Longrightarrow> q c"
  then have "length (filter p xs) \<le> length (filter q xs)" for xs
    by (induction xs) auto
  then show ?thesis by (simp add: tally_def)
qed

lemma tally_split: "(\<And>c. p c \<longleftrightarrow> q c \<or> r c) \<Longrightarrow> tally p s \<le> tally q s + tally r s"
proof -
  assume "\<And>c. p c \<longleftrightarrow> q c \<or> r c"
  then have "length (filter p xs) \<le> length (filter q xs) + length (filter r xs)" for xs
    by (induction xs) auto
  then show ?thesis unfolding tally_def by (metis of_nat_add of_nat_le_iff)
qed

lemma dripped_unit:
  "drip_of p = Dripped \<Longrightarrow> wallet_unit cfg p \<and> chain_unit cfg p \<and> \<not> refunding p"
  by (cases p) (auto split: if_splits)

definition chain_drips :: "(drip \<Rightarrow> bool) \<Rightarrow> int \<Rightarrow> string \<Rightarrow> topup_state \<Rightarrow> int" where
  "chain_drips which chainId day = tally (\<lambda>c. chain_key c = (chainId, day) \<and> which (drip_of (tc_phase c)))"

definition wallet_drips :: "(drip \<Rightarrow> bool) \<Rightarrow> int \<Rightarrow> string \<Rightarrow> string \<Rightarrow> topup_state \<Rightarrow> int" where
  "wallet_drips which chainId wallet day =
     tally (\<lambda>c. wallet_key c = (chainId, wallet, day) \<and> which (drip_of (tc_phase c)))"

text \<open>C26: however the calls of all processes interleave, whichever Redis commands fail and keys
  expire, the transfers sent on a chain in a day are at most the daily cap plus those whose receipt
  did not come in time, and likewise for a wallet and its own daily limit.\<close>

theorem topups_within_caps:
  assumes "run_topups cfg es (topup_start day) = Some s"
  shows "chain_drips (\<lambda>d. d \<noteq> NoDrip) ch today s \<le> max 0 (tg_dailyCap cfg) + chain_drips (\<lambda>d. d = DripLate) ch today s
     \<and> wallet_drips (\<lambda>d. d \<noteq> NoDrip) ch w today s
         \<le> max 0 (tg_perWalletDaily cfg) + wallet_drips (\<lambda>d. d = DripLate) ch w today s"
proof
  have split: "(d \<noteq> NoDrip) = (d = Dripped \<or> d = DripLate)" for d by (cases d) auto
  have "chain_drips (\<lambda>d. d = Dripped) ch today s \<le> max 0 (tg_dailyCap cfg)"
    unfolding chain_drips_def
    by (rule order_trans [OF _ chain_day.granted_within_cap [OF assms, of "(ch, today)"]], rule tally_mono)
      (simp add: dripped_unit)
  moreover have "chain_drips (\<lambda>d. d \<noteq> NoDrip) ch today s
      \<le> chain_drips (\<lambda>d. d = Dripped) ch today s + chain_drips (\<lambda>d. d = DripLate) ch today s"
    unfolding chain_drips_def split by (rule tally_split) auto
  ultimately show "chain_drips (\<lambda>d. d \<noteq> NoDrip) ch today s
      \<le> max 0 (tg_dailyCap cfg) + chain_drips (\<lambda>d. d = DripLate) ch today s" by simp
  have "wallet_drips (\<lambda>d. d = Dripped) ch w today s \<le> max 0 (tg_perWalletDaily cfg)"
    unfolding wallet_drips_def
    by (rule order_trans [OF _ wallet_day.granted_within_cap [OF assms, of "(ch, w, today)"]], rule tally_mono)
      (simp add: dripped_unit)
  moreover have "wallet_drips (\<lambda>d. d \<noteq> NoDrip) ch w today s
      \<le> wallet_drips (\<lambda>d. d = Dripped) ch w today s + wallet_drips (\<lambda>d. d = DripLate) ch w today s"
    unfolding wallet_drips_def split by (rule tally_split) auto
  ultimately show "wallet_drips (\<lambda>d. d \<noteq> NoDrip) ch w today s
      \<le> max 0 (tg_perWalletDaily cfg) + wallet_drips (\<lambda>d. d = DripLate) ch w today s" by simp
qed

definition sample_topups :: topup_config where
  "sample_topups = \<lparr>tg_enabled = True, tg_chains = [8453], tg_dailyCap = 1, tg_perWalletDaily = 1\<rparr>"

text \<open>A wallet without gas asks, and its call runs up to the transfer.\<close>

definition up_to_send :: "nat \<Rightarrow> topup_event list" where
  "up_to_send i = [Ask 0 8453 ''0xA'' 6, Redis i, Balances i (Some (0, 5000000)), Redis i, Redis i, Redis i, Redis i, Redis i,
     Send i True]"

definition late_receipt_run :: "topup_event list" where
  "late_receipt_run = up_to_send 0 @ [Receipt 0 False, Refund 0 RefundWallet True, Refund 0 RefundCount True,
     Refund 0 RefundLock True, Redis 0] @ up_to_send 1 @ [Receipt 1 True, Redis 1]"

lemma topups_within_caps_witness:
  "\<exists>s. run_topups sample_topups late_receipt_run (topup_start ''d'') = Some s
     \<and> chain_drips (\<lambda>d. d \<noteq> NoDrip) 8453 ''d'' s \<le> 1 + chain_drips (\<lambda>d. d = DripLate) 8453 ''d'' s"
proof -
  have "run_topups sample_topups late_receipt_run (topup_start ''d'') \<noteq> None" by code_simp
  then obtain s where "run_topups sample_topups late_receipt_run (topup_start ''d'') = Some s" by auto
  with topups_within_caps [OF this, of 8453 "''d''" "''0xa''"] show ?thesis
    by (auto simp: sample_topups_def)
qed

text \<open>The transfer whose receipt came late was sent all the same: the refund lets the next one
  through, two on a day whose cap is one, for a single wallet; the first caller is told it is stranded.\<close>

lemma late_receipt_exceeds_cap:
  "map_option (\<lambda>s. (chain_drips (\<lambda>d. d \<noteq> NoDrip) 8453 ''d'' s, wallet_drips (\<lambda>d. d \<noteq> NoDrip) 8453 ''0xa'' ''d'' s,
       map tc_phase (ts_calls s)))
     (run_topups sample_topups late_receipt_run (topup_start ''d''))
   = Some (2, 2, [Finished GasStranded DripLate, Finished GasOk Dripped])"
  by code_simp

subsection \<open>One top-up in flight\<close>

fun in_flight :: "topup_phase \<Rightarrow> bool" where
  "in_flight CountWallet = True"
| "in_flight (CountedWallet n) = True"
| "in_flight CountChain = True"
| "in_flight (CountedChain n) = True"
| "in_flight Release = True"
| "in_flight Waiting = True"
| "in_flight Confirming = True"
| "in_flight Unlocking = True"
| "in_flight (Refunding late w n l) = l"
| "in_flight _ = False"

definition holds_lock :: "int \<times> string \<Rightarrow> topup_call \<Rightarrow> bool" where
  "holds_lock k c = (lock_key c = k \<and> in_flight (tc_phase c))"

definition lock_change :: "int \<times> string \<Rightarrow> topup_call \<Rightarrow> topup_state \<Rightarrow> topup_call \<Rightarrow> topup_state \<Rightarrow> bool" where
  "lock_change k c s c' s' \<longleftrightarrow>
     (k \<in> set (ts_inFlight s') \<longleftrightarrow> k \<in> set (ts_inFlight s)) \<and> (holds_lock k c' \<longrightarrow> holds_lock k c)
   \<or> k \<notin> set (ts_inFlight s) \<and> k \<in> set (ts_inFlight s')
   \<or> holds_lock k c \<and> \<not> holds_lock k c'"

lemma holds_lock_finish [simp]: "\<not> holds_lock k (finish a c)"
  by (simp add: holds_lock_def finish_def)

lemma redis_lock:
  assumes "redis_step cfg i c s = Some (c', s')"
  shows "lock_change k c s c' s'"
  using assms unfolding redis_step_def
  by (cases "tc_phase c")
    (auto simp: lock_change_def holds_lock_def lock_key_def finish_def Let_def split: if_splits bool.splits)

lemma call_step_lock:
  assumes "call_step cfg i c s c' s'"
  shows "lock_change k c s c' s'"
  using assms
proof (cases rule: call_step.cases)
  case redis
  then show ?thesis by (rule redis_lock)
next
  case fails
  then show ?thesis
    by (cases "tc_phase c") (auto simp: redis_fails_def lock_change_def split: if_splits)
next
  case (reads answer)
  then show ?thesis
    by (cases "tc_phase c")
      (auto simp: balances_step_def lock_change_def holds_lock_def finish_def Let_def split: option.splits if_splits)
next
  case (sends accepted)
  then show ?thesis
    by (cases "tc_phase c")
      (auto simp: send_step_def leave_queue_def lock_change_def holds_lock_def lock_key_def split: list.splits if_splits)
next
  case (receives arrived)
  then show ?thesis
    by (cases "tc_phase c")
      (auto simp: receipt_step_def leave_queue_def lock_change_def holds_lock_def lock_key_def split: if_splits)
next
  case (refunds cmd lands)
  then show ?thesis
    by (cases "tc_phase c"; cases cmd)
      (auto simp: refund_step_def lock_change_def holds_lock_def lock_key_def split: if_splits)
qed

definition lock_inv :: "topup_state \<Rightarrow> bool" where
  "lock_inv s \<longleftrightarrow> (\<forall>k. tally (holds_lock k) s \<le> of_bool (k \<in> set (ts_inFlight s)))"

lemma lock_inv_step:
  assumes "topup_event cfg e s = Some s'" "lock_inv s" "\<forall>ch w. e \<noteq> ExpireLock ch w"
  shows "lock_inv s'"
  using assms(1)
proof (cases rule: topup_event_cases)
  case (asked p ch w d)
  then show ?thesis
    using assms(2) by (auto simp: lock_inv_def tally_append holds_lock_def new_call_def)
next
  case (call i c' s1)
  have "tally (holds_lock k) s' \<le> of_bool (k \<in> set (ts_inFlight s'))" for k
  proof -
    have le: "tally (holds_lock k) s \<le> of_bool (k \<in> set (ts_inFlight s))"
      using assms(2) unfolding lock_inv_def by blast
    then have le1: "tally (holds_lock k) s \<le> 1" by (rule order_trans) simp
    have h: "tally (holds_lock k) s' = tally (holds_lock k) s - of_bool (holds_lock k (ts_calls s ! i))
        + of_bool (holds_lock k c')" "ts_inFlight s' = ts_inFlight s1"
      using call(1) by (simp_all add: call(3) tally_update)
    from call_step_lock [OF call(2), of k] le le1 show ?thesis
      unfolding h lock_change_def by (auto split: if_splits)
  qed
  then show ?thesis by (simp add: lock_inv_def)
qed (use assms(2,3) in \<open>auto simp: lock_inv_def\<close>)

text \<open>C27: as long as no in-flight key expires, a wallet has at most one top-up in flight on a
  chain, over all processes, from taking the key to giving it back.\<close>

theorem one_topup_in_flight:
  assumes "run_topups cfg es (topup_start day) = Some s" "\<forall>e\<in>set es. \<forall>ch w. e \<noteq> ExpireLock ch w"
  shows "tally (\<lambda>c. lock_key c = (chainId, wallet) \<and> in_flight (tc_phase c)) s \<le> 1"
proof -
  have "lock_inv (topup_start day)" by (simp add: lock_inv_def)
  then have "lock_inv s"
    by (rule run_topups_invariant [OF assms(1)]) (use assms(2) lock_inv_step in blast)
  then have "tally (holds_lock (chainId, wallet)) s \<le> of_bool ((chainId, wallet) \<in> set (ts_inFlight s))"
    unfolding lock_inv_def by blast
  also have "\<dots> \<le> (1 :: int)" by simp
  finally show ?thesis by (simp add: holds_lock_def [abs_def])
qed

definition two_callers :: "topup_event list" where
  "two_callers = [Ask 0 8453 ''0xA'' 6, Ask 1 8453 ''0xa'' 6, Redis 0, Redis 1, Balances 0 (Some (0, 5000000)),
     Balances 1 (Some (0, 5000000)), Redis 0, Redis 1]"

lemma one_topup_in_flight_witness:
  "\<exists>s. run_topups sample_topups two_callers (topup_start ''d'') = Some s
     \<and> tally (\<lambda>c. lock_key c = (8453, ''0xa'') \<and> in_flight (tc_phase c)) s \<le> 1"
proof -
  have "run_topups sample_topups two_callers (topup_start ''d'') \<noteq> None" by code_simp
  then obtain s where "run_topups sample_topups two_callers (topup_start ''d'') = Some s" by auto
  with one_topup_in_flight [OF this, of 8453 "''0xa''"] show ?thesis
    by (auto simp: two_callers_def)
qed

text \<open>The key lives a minute, also while its call waits behind others or for a receipt: when it
  expires, a second call of the wallet sends too.\<close>

lemma expired_lock_sends_twice:
  "map_option (\<lambda>s. wallet_drips (\<lambda>d. d = Dripped) 8453 ''0xa'' ''d'' s)
     (run_topups (sample_topups\<lparr>tg_dailyCap := 300, tg_perWalletDaily := 15\<rparr>)
        (up_to_send 0 @ [ExpireLock 8453 ''0xa''] @ butlast (up_to_send 1) @ [Receipt 0 True, Send 1 True]) (topup_start ''d''))
   = Some 2"
  by code_simp

end
