(* ===== verification/WithdrawGas.thy ===== *)
theory WithdrawGas
  imports EvmRelay SolanaTx
begin

section \<open>Withdrawal gas on Solana\<close>

text \<open>
  \<open>apps/api/src/solana/solana-topup.service.ts\<close>: the SOL a wallet gets right before a withdrawal.
  The RPC pool, the derivation of token accounts and the transfer are parameters; the Redis counter
  per wallet is part of the state, its expiry after thirty days an event.
\<close>

definition WITHDRAW_GAS_MIN_USDC_RAW :: int where "WITHDRAW_GAS_MIN_USDC_RAW = 1000000"
definition WALLET_RENT_MIN_LAMPORTS :: int where "WALLET_RENT_MIN_LAMPORTS = 890880"
definition WITHDRAW_FEE_LAMPORTS :: int where "WITHDRAW_FEE_LAMPORTS = 20000"
definition RECIPIENT_ACCOUNT_RENT_LAMPORTS :: int where "RECIPIENT_ACCOUNT_RENT_LAMPORTS = 2100000"
definition WITHDRAW_GAS_MAX_PER_WALLET :: int where "WITHDRAW_GAS_MAX_PER_WALLET = 3"

record TopupResult =
  tr_toppedUp :: bool
  tr_signature :: "string option"

definition not_topped_up :: TopupResult where
  "not_topped_up = \<lparr>tr_toppedUp = False, tr_signature = None\<rparr>"

record withdraw_params =
  wp_userId :: string
  wp_address :: string
  wp_destination :: "string option"
  wp_mint :: "string option"

record 'w topup_rpc =
  tr_enabled :: bool
  tr_validKey :: "string \<Rightarrow> bool"
  tr_usdcBalance :: "string \<Rightarrow> ('w, string) remote"
  tr_mintOwner :: "string \<Rightarrow> ('w, string option) remote"
  tr_ata :: "string \<Rightarrow> string \<Rightarrow> string option \<Rightarrow> string"
  tr_accountExists :: "string \<Rightarrow> ('w, bool) remote"
  tr_balance :: "string \<Rightarrow> ('w, int) remote"
  tr_redis :: "('w, unit) remote option"
  tr_transfer :: "string \<Rightarrow> int \<Rightarrow> ('w, string) remote"

text \<open>The outside world, the counters, and every transfer handed to the network.\<close>

record 'w topup_world =
  tw_outside :: 'w
  tw_count :: "string \<Rightarrow> int"
  tw_transfers :: "(string \<times> int) list"

definition outside :: "('w, 'a) remote \<Rightarrow> ('w topup_world, 'a) remote" where
  "outside m s = (case m (tw_outside s) of (r, w) \<Rightarrow> (r, s\<lparr>tw_outside := w\<rparr>))"

definition or_else :: "'a \<Rightarrow> ('w, 'a) remote \<Rightarrow> ('w, 'a) remote" where
  "or_else d m w = (case m w of (Inl e, w1) \<Rightarrow> (Ok d, w1) | (Inr a, w1) \<Rightarrow> (Ok a, w1))"

definition usdc_raw :: "'w topup_rpc \<Rightarrow> string \<Rightarrow> ('w, int) remote" where
  "usdc_raw rpc address = or_else 0 (then_remote (tr_usdcBalance rpc address) (\<lambda>amount. return_remote (BigInt amount)))"

text \<open>A JavaScript string is truthy when it is there and not empty.\<close>

definition truthy :: "string option \<Rightarrow> string option" where
  "truthy s = (case s of Some [] \<Rightarrow> None | _ \<Rightarrow> s)"

definition needs_recipient_account :: "'w topup_rpc \<Rightarrow> withdraw_params \<Rightarrow> ('w, bool) remote" where
  "needs_recipient_account rpc p =
     (case (truthy (wp_mint p), truthy (wp_destination p)) of
        (Some mint, Some destination) \<Rightarrow>
          then_remote (return_remote (reject_if (\<not> tr_validKey rpc mint) (Error ''Invalid public key input''))) (\<lambda>_.
          then_remote (or_else None (tr_mintOwner rpc mint)) (\<lambda>program.
          then_remote (return_remote (reject_if (\<not> tr_validKey rpc destination) (Error ''Invalid public key input''))) (\<lambda>_.
          then_remote (or_else False (tr_accountExists rpc (tr_ata rpc mint destination program))) (\<lambda>there.
            return_remote (Ok (\<not> there))))))
      | _ \<Rightarrow> return_remote (Ok False))"

definition lamports_needed :: "bool \<Rightarrow> int" where
  "lamports_needed needsRecipientAccount =
     WALLET_RENT_MIN_LAMPORTS + WITHDRAW_FEE_LAMPORTS + (if needsRecipientAccount then RECIPIENT_ACCOUNT_RENT_LAMPORTS else 0)"

definition count_withdrawal :: "'w topup_rpc \<Rightarrow> string \<Rightarrow> ('w topup_world, unit) remote" where
  "count_withdrawal rpc address =
     (case tr_redis rpc of
        None \<Rightarrow> return_remote (Ok ())
      | Some reached \<Rightarrow>
          then_remote (outside reached) (\<lambda>_ s.
            let count = tw_count s address + 1 in
            (reject_if (WITHDRAW_GAS_MAX_PER_WALLET < count) (Unprocessable ''Withdrawal gas limit reached for this wallet''),
             s\<lparr>tw_count := (tw_count s)(address := count)\<rparr>)))"

definition sendLamports :: "'w topup_rpc \<Rightarrow> string \<Rightarrow> int \<Rightarrow> ('w topup_world, TopupResult) remote" where
  "sendLamports rpc address lamports s =
     (case outside (tr_transfer rpc address lamports) (s\<lparr>tw_transfers := tw_transfers s @ [(address, lamports)]\<rparr>) of
        (Inl e, s1) \<Rightarrow> (Ok not_topped_up, s1)
      | (Inr signature, s1) \<Rightarrow> (Ok \<lparr>tr_toppedUp = True, tr_signature = Some signature\<rparr>, s1))"

text \<open>What a withdrawal lacks: \<open>None\<close> when the wallet is too poor, unreadable or already funded.\<close>

definition withdrawal_shortfall ::
    "'w topup_rpc \<Rightarrow> withdraw_params \<Rightarrow> ('w, int option) remote" where
  "withdrawal_shortfall rpc p =
     then_remote (return_remote (reject_if (\<not> tr_validKey rpc (wp_address p)) (Error ''Invalid public key input''))) (\<lambda>_.
     then_remote (usdc_raw rpc (wp_address p)) (\<lambda>usdcRaw.
     if usdcRaw < WITHDRAW_GAS_MIN_USDC_RAW then return_remote (Ok None)
     else then_remote (needs_recipient_account rpc p) (\<lambda>needsRecipientAccount.
     then_remote (or_else None (then_remote (tr_balance rpc (wp_address p)) (\<lambda>b. return_remote (Ok (Some b))))) (\<lambda>balance.
       return_remote (Ok (case balance of
          None \<Rightarrow> None
        | Some b \<Rightarrow> if lamports_needed needsRecipientAccount \<le> b then None
                    else Some (lamports_needed needsRecipientAccount - b)))))))"

definition fundWithdrawal ::
    "'w topup_rpc \<Rightarrow> solana_db \<Rightarrow> withdraw_params \<Rightarrow> ('w topup_world, TopupResult) remote" where
  "fundWithdrawal rpc db p =
     then_remote (return_remote (bind_result
         (reject_if (\<not> tr_enabled rpc) (Unprocessable ''Solana trading is not enabled on this deployment'')) (\<lambda>_.
          reject_if (\<not> sol_wallet_verified db (wp_address p) (wp_userId p))
            (Forbidden ''This wallet is not verified as belonging to your account'')))) (\<lambda>_.
     then_remote (outside (withdrawal_shortfall rpc p)) (\<lambda>shortfall.
       case shortfall of
         None \<Rightarrow> return_remote (Ok not_topped_up)
       | Some lamports \<Rightarrow>
           then_remote (count_withdrawal rpc (wp_address p)) (\<lambda>_. sendLamports rpc (wp_address p) lamports)))"

text \<open>The old signup gift, kept for its tests.\<close>

definition ensureFunded :: "'w topup_rpc \<Rightarrow> int \<Rightarrow> string \<Rightarrow> ('w topup_world, TopupResult) remote" where
  "ensureFunded rpc topupLamports address =
     then_remote (return_remote (bind_result
         (reject_if (\<not> tr_enabled rpc) (Unprocessable ''Solana trading is not enabled on this deployment'')) (\<lambda>_.
          reject_if (\<not> tr_validKey rpc address) (Error ''Invalid public key input'')))) (\<lambda>_.
     then_remote (outside (or_else None (then_remote (tr_balance rpc address) (\<lambda>b. return_remote (Ok (Some b)))))) (\<lambda>balance.
       if (case balance of None \<Rightarrow> False | Some b \<Rightarrow> topupLamports \<le> b) then return_remote (Ok not_topped_up)
       else sendLamports rpc address topupLamports))"

subsection \<open>At most three sends\<close>

fun run_withdrawals :: "'w topup_rpc \<Rightarrow> (solana_db \<times> withdraw_params) list \<Rightarrow> 'w topup_world \<Rightarrow> 'w topup_world" where
  "run_withdrawals rpc [] s = s"
| "run_withdrawals rpc ((db, p) # ps) s = run_withdrawals rpc ps (snd (fundWithdrawal rpc db p s))"

definition sends_to :: "string \<Rightarrow> 'w topup_world \<Rightarrow> int list" where
  "sends_to address s = map snd (filter (\<lambda>t. fst t = address) (tw_transfers s))"

definition balances_nonnegative :: "'w topup_rpc \<Rightarrow> bool" where
  "balances_nonnegative rpc \<longleftrightarrow> (\<forall>a w b w'. tr_balance rpc a w = (Ok b, w') \<longrightarrow> 0 \<le> b)"

lemma or_else_Some:
  "or_else None (then_remote m (\<lambda>b. return_remote (Ok (Some b)))) w = (Ok (Some b), w') \<Longrightarrow> m w = (Ok b, w')"
  by (auto simp: or_else_def then_remote_def return_remote_def split: prod.splits sum.splits)

lemma withdrawal_shortfall_bounds:
  assumes "withdrawal_shortfall rpc p w = (Ok (Some n), w')" "balances_nonnegative rpc"
  shows "0 < n \<and> n \<le> lamports_needed True"
proof -
  from assms(1) obtain needs b w1 w2 where
    b: "or_else None (then_remote (tr_balance rpc (wp_address p)) (\<lambda>b. return_remote (Ok (Some b)))) w1 = (Ok (Some b), w2)"
    and n: "b < lamports_needed needs" "n = lamports_needed needs - b"
    by (auto simp: withdrawal_shortfall_def then_remote_Ok split: if_splits option.splits)
  from or_else_Some [OF b] assms(2) have "0 \<le> b" by (auto simp: balances_nonnegative_def)
  with n show ?thesis by (auto simp: lamports_needed_def RECIPIENT_ACCOUNT_RENT_LAMPORTS_def)
qed

lemma outside_frame:
  "outside m s = (r, s') \<Longrightarrow> tw_count s' = tw_count s \<and> tw_transfers s' = tw_transfers s"
  by (auto simp: outside_def split: prod.splits)

lemma outside_Ok: "outside m s = (Ok a, s') \<Longrightarrow> \<exists>w. m (tw_outside s) = (Ok a, w)"
  by (auto simp: outside_def split: prod.splits)

lemma sendLamports_frame:
  "tw_transfers (snd (sendLamports rpc address n s)) = tw_transfers s @ [(address, n)]
   \<and> tw_count (snd (sendLamports rpc address n s)) = tw_count s"
  by (auto simp: sendLamports_def outside_def split: prod.splits sum.splits)

lemma count_withdrawal_cases:
  assumes "count_withdrawal rpc address s = (r, s')" "tr_redis rpc \<noteq> None"
  obtains (refused) e where "r = Err e" "tw_transfers s' = tw_transfers s"
      "tw_count s' = tw_count s \<or> tw_count s' = (tw_count s)(address := tw_count s address + 1)"
  | (counted) "r = Ok ()" "tw_transfers s' = tw_transfers s"
      "tw_count s' = (tw_count s)(address := tw_count s address + 1)" "tw_count s address + 1 \<le> WITHDRAW_GAS_MAX_PER_WALLET"
proof -
  from assms(2) obtain reached where "tr_redis rpc = Some reached" by auto
  with assms(1) show thesis
    by (cases "outside reached s"; cases "fst (outside reached s)")
      (auto simp: count_withdrawal_def then_remote_def Let_def reject_if_def split: if_splits
        dest!: outside_frame intro: refused counted)
qed

text \<open>One call: nothing is sent, or one transfer of a shortfall within the counted limit.\<close>

lemma fundWithdrawal_cases:
  assumes "fundWithdrawal rpc db p s = (r, s')" "tr_redis rpc \<noteq> None"
  obtains (nothing) "tw_transfers s' = tw_transfers s"
      "tw_count s' = tw_count s \<or> tw_count s' = (tw_count s)(wp_address p := tw_count s (wp_address p) + 1)"
  | (sent) n w w' where "withdrawal_shortfall rpc p w = (Ok (Some n), w')"
      "tw_transfers s' = tw_transfers s @ [(wp_address p, n)]"
      "tw_count s' = (tw_count s)(wp_address p := tw_count s (wp_address p) + 1)"
      "tw_count s (wp_address p) + 1 \<le> WITHDRAW_GAS_MAX_PER_WALLET"
proof (cases "\<not> tr_enabled rpc \<or> \<not> sol_wallet_verified db (wp_address p) (wp_userId p)")
  case True
  with assms(1) have "s' = s"
    by (auto simp: fundWithdrawal_def then_remote_def return_remote_def reject_if_def split: if_splits)
  show thesis by (rule nothing) (simp_all add: \<open>s' = s\<close>)
next
  case False
  obtain a s1 where o1: "outside (withdrawal_shortfall rpc p) s = (a, s1)" by fastforce
  note f1 = outside_frame [OF o1]
  from False assms(1) o1 have k: "then_remote (\<lambda>_. (a, s1)) (\<lambda>shortfall.
       case shortfall of
         None \<Rightarrow> return_remote (Ok not_topped_up)
       | Some lamports \<Rightarrow>
           then_remote (count_withdrawal rpc (wp_address p)) (\<lambda>_. sendLamports rpc (wp_address p) lamports)) s = (r, s')"
    by (simp add: fundWithdrawal_def then_remote_def return_remote_def reject_if_def)
  show thesis
  proof (cases "\<exists>n. a = Ok (Some n)")
    case True
    then obtain n where a: "a = Ok (Some n)" by blast
    from outside_Ok [OF o1 [unfolded a]] obtain w' where sh: "withdrawal_shortfall rpc p (tw_outside s) = (Ok (Some n), w')" by blast
    obtain c s2 where c: "count_withdrawal rpc (wp_address p) s1 = (c, s2)" by fastforce
    from c assms(2) show thesis
    proof (cases rule: count_withdrawal_cases)
      case (refused e)
      with k a c f1 have "tw_transfers s' = tw_transfers s"
        "tw_count s' = tw_count s \<or> tw_count s' = (tw_count s)(wp_address p := tw_count s (wp_address p) + 1)"
        by (auto simp: then_remote_def)
      then show thesis by (rule nothing)
    next
      case counted
      with k a c have "s' = snd (sendLamports rpc (wp_address p) n s2)" by (simp add: then_remote_def)
      with sendLamports_frame [of rpc "wp_address p" n s2] counted f1 sh show thesis by (intro sent) auto
    qed
  next
    case False
    with k have "s' = s1"
      by (cases a) (auto simp: then_remote_def return_remote_def split: option.splits)
    show thesis by (rule nothing) (simp_all add: f1 \<open>s' = s1\<close>)
  qed
qed

definition withdrawals_inv :: "string \<Rightarrow> 'w topup_world \<Rightarrow> bool" where
  "withdrawals_inv a s \<longleftrightarrow> int (length (sends_to a s)) \<le> tw_count s a
     \<and> length (sends_to a s) \<le> 3 \<and> (\<forall>n\<in>set (sends_to a s). 0 < n \<and> n \<le> lamports_needed True)"

lemma withdrawals_inv_step:
  assumes "withdrawals_inv a s" "fundWithdrawal rpc db p s = (r, s')" "tr_redis rpc \<noteq> None" "balances_nonnegative rpc"
  shows "withdrawals_inv a s'"
  using assms(2,3)
proof (cases rule: fundWithdrawal_cases)
  case nothing
  with assms(1) show ?thesis by (auto simp: withdrawals_inv_def sends_to_def)
next
  case (sent n w w')
  from withdrawal_shortfall_bounds [OF sent(1) assms(4)] sent(2-4) assms(1) show ?thesis
    by (cases "wp_address p = a") (auto simp: withdrawals_inv_def sends_to_def WITHDRAW_GAS_MAX_PER_WALLET_def)
qed

lemma sum_list_le_length: "\<forall>n\<in>set xs. n \<le> b \<Longrightarrow> sum_list xs \<le> int (length xs) * (b :: int)"
  by (induction xs) (auto simp: algebra_simps)



definition sample_topup_rpc :: "unit topup_rpc" where
  "sample_topup_rpc = \<lparr>tr_enabled = True, tr_validKey = (\<lambda>_. True), tr_usdcBalance = (\<lambda>a w. (Ok ''2000000'', w)),
     tr_mintOwner = (\<lambda>m w. (Ok None, w)), tr_ata = (\<lambda>m d program. d @ m), tr_accountExists = (\<lambda>a w. (Ok False, w)),
     tr_balance = (\<lambda>a w. (Ok 880, w)), tr_redis = Some (\<lambda>w. (Ok (), w)), tr_transfer = (\<lambda>a n w. (Ok ''sig'', w))\<rparr>"

definition sample_owner_db :: solana_db where
  "sample_owner_db = \<lparr>sd_quotes = [], sd_txs = [],
     sd_wallets = [\<lparr>sw_address = ''User'', sw_userId = ''u1'', sw_verifiedAt = Some 1, sw_isSolana = True\<rparr>], sd_next = 0\<rparr>"

definition sample_withdraw :: withdraw_params where
  "sample_withdraw = \<lparr>wp_userId = ''u1'', wp_address = ''User'', wp_destination = Some ''Dest'', wp_mint = Some ''MINT''\<rparr>"

definition no_transfers :: "unit topup_world" where
  "no_transfers = \<lparr>tw_outside = (), tw_count = (\<lambda>_. 0), tw_transfers = []\<rparr>"


end
