(* ===== verification/PoolMath.thy ===== *)
theory PoolMath
  imports Trading
begin

section \<open>Pool arithmetic\<close>

text \<open>
  \<open>packages/chain-adapters/src/uniswap-v3-math.ts\<close> and \<open>apps/workers/src/market/clamp-pct.ts\<close>.
  Raw amounts are unbounded integers, prices and dollar values doubles.  \<open>pow10\<close> is JavaScript's
  \<open>10 ** n\<close>, which the language leaves to the engine.
\<close>

definition Q96 :: jsnum where "Q96 = Fin (2 ^ 96)"

definition priceFromSqrtPriceX96 :: "(jsnum \<Rightarrow> jsnum) \<Rightarrow> int \<Rightarrow> jsnum \<Rightarrow> jsnum \<Rightarrow> jsnum option" where
  "priceFromSqrtPriceX96 pow10 sqrtPriceX96 token0Decimals token1Decimals =
     (if sqrtPriceX96 \<le> 0 then None
      else if \<not> is_integer token0Decimals \<or> \<not> is_integer token1Decimals then None
      else if nlt token0Decimals (Fin 0) \<or> ngt token0Decimals (Fin 255)
            \<or> nlt token1Decimals (Fin 0) \<or> ngt token1Decimals (Fin 255) then None
      else
        let sqrtPrice = ndiv (num_of_int sqrtPriceX96) Q96 in
        if \<not> is_finite sqrtPrice \<or> nle sqrtPrice (Fin 0) then None
        else
          let rawRatio = nmul sqrtPrice sqrtPrice;
              price = nmul rawRatio (pow10 (nsub token0Decimals token1Decimals)) in
          if is_finite price \<and> ngt price (Fin 0) then Some price else None)"

datatype anchor_side = Token0 | Token1

definition rawAmountToDecimal :: "(jsnum \<Rightarrow> jsnum) \<Rightarrow> int \<Rightarrow> jsnum \<Rightarrow> jsnum" where
  "rawAmountToDecimal pow10 amountRaw decimals = ndiv (num_of_int amountRaw) (pow10 decimals)"

definition computePoolLiquidityUsd ::
    "(jsnum \<Rightarrow> jsnum) \<Rightarrow> int \<Rightarrow> jsnum \<Rightarrow> jsnum option \<Rightarrow> int \<Rightarrow> jsnum \<Rightarrow> jsnum option \<Rightarrow> anchor_side option \<Rightarrow> jsnum option" where
  "computePoolLiquidityUsd pow10 balance0Raw decimals0 price0Usd balance1Raw decimals1 price1Usd anchor =
     (case (price0Usd, price1Usd) of
        (Some p0, Some p1) \<Rightarrow>
          let value0 = nmul (ndiv (num_of_int balance0Raw) (pow10 decimals0)) p0;
              value1 = nmul (ndiv (num_of_int balance1Raw) (pow10 decimals1)) p1;
              sum = nadd value0 value1;
              amount = (case anchor of
                 None \<Rightarrow> sum
               | Some side \<Rightarrow> nmin sum (nmul (Fin 2) (case side of Token0 \<Rightarrow> value0 | Token1 \<Rightarrow> value1))) in
          if is_finite amount \<and> nge amount (Fin 0) then Some amount else None
      | _ \<Rightarrow> None)"

definition computeFullyDilutedMarketCapUsd :: "(jsnum \<Rightarrow> jsnum) \<Rightarrow> int \<Rightarrow> jsnum \<Rightarrow> jsnum option \<Rightarrow> jsnum option" where
  "computeFullyDilutedMarketCapUsd pow10 totalSupplyRaw decimals priceUsd =
     (case priceUsd of
        None \<Rightarrow> None
      | Some p \<Rightarrow>
          let supply = ndiv (num_of_int totalSupplyRaw) (pow10 decimals);
              cap = nmul supply p in
          if is_finite cap \<and> nge cap (Fin 0) then Some cap else None)"

definition MAX_PCT :: jsnum where "MAX_PCT = Fin 99999999"

definition clampPct :: "jsnum option \<Rightarrow> jsnum option" where
  "clampPct value =
     (case value of
        None \<Rightarrow> None
      | Some v \<Rightarrow> if \<not> is_finite v then None else Some (nmax (nneg MAX_PCT) (nmin MAX_PCT v)))"

subsection \<open>Bounds\<close>

lemma finite_Fin: "is_finite x \<longleftrightarrow> (\<exists>r. x = Fin r)"
  by (cases x) auto

lemma nmin_finite:
  "is_finite (nmin x y) \<Longrightarrow> \<not> nlt y (nmin x y)"
  by (cases x; cases y) (auto simp: nmin_def split: if_splits)

text \<open>The liquidity of a pool, when there is one, is a finite non-negative number, and with an
  anchored side it never exceeds twice the value of that side: whoever sets the other side's price
  cannot raise it.\<close>

lemma pool_liquidity_capped:
  assumes "computePoolLiquidityUsd pow10 b0 d0 (Some p0) b1 d1 (Some p1) (Some side) = Some l"
  shows "is_finite l \<and> nle (Fin 0) l
     \<and> \<not> ngt l (nmul (Fin 2) (case side of
          Token0 \<Rightarrow> nmul (rawAmountToDecimal pow10 b0 d0) p0
        | Token1 \<Rightarrow> nmul (rawAmountToDecimal pow10 b1 d1) p1))"
proof -
  obtain s v where l: "l = nmin s v" "is_finite l" "nle (Fin 0) l"
    and v: "v = nmul (Fin 2) (case side of
          Token0 \<Rightarrow> nmul (rawAmountToDecimal pow10 b0 d0) p0
        | Token1 \<Rightarrow> nmul (rawAmountToDecimal pow10 b1 d1) p1)"
    using assms
    by (cases side) (auto simp: computePoolLiquidityUsd_def rawAmountToDecimal_def Let_def nge_def cong: if_cong split: if_splits)
  from nmin_finite [of s v] l v show ?thesis by (simp add: ngt_def)
qed

lemma clampPct_bounds: "clampPct v = Some p \<Longrightarrow> nle (nneg MAX_PCT) p \<and> nle p MAX_PCT"
  by (auto simp: clampPct_def finite_Fin MAX_PCT_def nmax_def nmin_def split: option.splits if_splits)

lemma price_positive: "priceFromSqrtPriceX96 pow10 s d0 d1 = Some p \<Longrightarrow> is_finite p \<and> nlt (Fin 0) p"
  by (auto simp: priceFromSqrtPriceX96_def Let_def ngt_def cong: if_cong split: if_splits)

end
