(* ===== verification/Candles.thy ===== *)
theory Candles
  imports PoolMath "HOL-Library.AList"
begin

section \<open>Candles and the 24-hour rollup\<close>

text \<open>
  The last part of \<open>apps/workers/src/market/ingestion.ts\<close>: \<open>upsertCandlesFromSwaps\<close> and
  \<open>recomputeRollups\<close>, and the rows of \<open>packages/db/prisma/schema.prisma\<close> they read.  A swap's price
  and volume are database decimals, hence rationals; times are milliseconds.  Among swaps of one
  time the query leaves the order open; the model takes the order of the table.
\<close>

record swap_row =
  sw_market :: string
  sw_txHash :: string
  sw_logIndex :: nat
  sw_blockNumber :: int
  sw_time :: int
  sw_amount0Raw :: int
  sw_amount1Raw :: int
  sw_priceUsd :: rat
  sw_volumeUsd :: rat
  sw_isSell :: bool
  sw_trader :: "string option"
  sw_sender :: "string option"

record candle =
  cd_open :: rat
  cd_high :: rat
  cd_low :: rat
  cd_close :: rat
  cd_volumeUsd :: rat

type_synonym candles = "((string \<times> int) \<times> candle) list"

definition BUCKET_MS :: int where "BUCKET_MS = 5 * 60000"

definition time_bucket :: "int \<Rightarrow> int" where "time_bucket t = t div BUCKET_MS * BUCKET_MS"

definition earlier :: "swap_row \<Rightarrow> swap_row \<Rightarrow> bool" where "earlier a b = (sw_time a < sw_time b)"
definition later :: "swap_row \<Rightarrow> swap_row \<Rightarrow> bool" where "later a b = (sw_time b < sw_time a)"

definition candle_of :: "swap_row list \<Rightarrow> candle" where
  "candle_of rows =
     \<lparr>cd_open = sw_priceUsd (hd (sort_by earlier rows)), cd_high = fold (\<lambda>r m. max m (sw_priceUsd r)) (tl rows) (sw_priceUsd (hd rows)),
      cd_low = fold (\<lambda>r m. min m (sw_priceUsd r)) (tl rows) (sw_priceUsd (hd rows)),
      cd_close = sw_priceUsd (hd (sort_by later rows)), cd_volumeUsd = sum_list (map sw_volumeUsd rows)\<rparr>"

definition in_bucket :: "string \<Rightarrow> int \<Rightarrow> swap_row \<Rightarrow> bool" where
  "in_bucket market bucket r = (sw_market r = market \<and> time_bucket (sw_time r) = bucket)"

definition padded_from :: "int \<Rightarrow> int" where "padded_from fromTs = fromTs - BUCKET_MS"

definition selected :: "string \<Rightarrow> int \<Rightarrow> int \<Rightarrow> swap_row \<Rightarrow> bool" where
  "selected market fromTs toTs r = (sw_market r = market \<and> padded_from fromTs \<le> sw_time r \<and> sw_time r \<le> toTs)"

text \<open>\<open>GROUP BY\<close> bucket over the selected swaps, then \<open>ON CONFLICT DO UPDATE\<close> on the key.\<close>

definition upsertCandlesFromSwaps :: "swap_row list \<Rightarrow> string \<Rightarrow> int \<Rightarrow> int \<Rightarrow> candles \<Rightarrow> candles" where
  "upsertCandlesFromSwaps swaps market fromTs toTs cs =
     (let rows = filter (selected market fromTs toTs) swaps in
      fold (\<lambda>b. AList.update (market, b) (candle_of (filter (in_bucket market b) rows)))
        (remdups (map (time_bucket \<circ> sw_time) rows)) cs)"

text \<open>The candle a bucket should have: over all its swaps.\<close>

definition true_candle :: "swap_row list \<Rightarrow> string \<Rightarrow> int \<Rightarrow> candle option" where
  "true_candle swaps market bucket =
     (case filter (in_bucket market bucket) swaps of [] \<Rightarrow> None | r # rs \<Rightarrow> Some (candle_of (r # rs)))"

lemma time_bucket_le: "time_bucket t \<le> t" "t < time_bucket t + BUCKET_MS"
  unfolding time_bucket_def BUCKET_MS_def by presburger+

lemma time_bucket_eq: "time_bucket x = b \<Longrightarrow> b \<le> y \<Longrightarrow> y < b + BUCKET_MS \<Longrightarrow> time_bucket y = b"
  unfolding time_bucket_def BUCKET_MS_def
  using int_div_pos_eq [of y "5 * 60000" "x div (5 * 60000)" "y - b"] by auto

lemma in_bucketD: "in_bucket m b r \<Longrightarrow> sw_market r = m \<and> b \<le> sw_time r \<and> sw_time r < b + BUCKET_MS"
  using time_bucket_le [of "sw_time r"] by (simp add: in_bucket_def)

lemma map_of_fold_update:
  "map_of (fold (\<lambda>b. AList.update (m, b) (f b)) bs cs) (m', b)
     = (if m' = m \<and> b \<in> set bs then Some (f b) else map_of cs (m', b))"
  by (induction bs arbitrary: cs) (auto simp: update_conv)

lemma map_of_upsert:
  "map_of (upsertCandlesFromSwaps swaps market fromTs toTs cs) (m, b) =
     (if m = market \<and> (\<exists>r\<in>set swaps. selected market fromTs toTs r \<and> in_bucket market b r)
      then Some (candle_of (filter (\<lambda>r. selected market fromTs toTs r \<and> in_bucket market b r) swaps))
      else map_of cs (m, b))"
proof -
  have "b \<in> set (map (time_bucket \<circ> sw_time) (filter (selected market fromTs toTs) swaps))
      \<longleftrightarrow> (\<exists>r\<in>set swaps. selected market fromTs toTs r \<and> in_bucket market b r)"
    by (auto simp: selected_def in_bucket_def)
  moreover have "filter (in_bucket market b) (filter (selected market fromTs toTs) swaps)
      = filter (\<lambda>r. selected market fromTs toTs r \<and> in_bucket market b r) swaps" by (simp add: conj_commute)
  ultimately show ?thesis
    by (auto simp: upsertCandlesFromSwaps_def Let_def map_of_fold_update simp del: set_map filter_filter)
qed

text \<open>From the padded start on, a bucket that begins inside the range is recomputed over all of it.\<close>

lemma upsert_whole:
  assumes "\<And>r. r \<in> set swaps \<Longrightarrow> in_bucket market b r \<Longrightarrow> selected market fromTs toTs r"
    "\<exists>r\<in>set swaps. in_bucket market b r"
  shows "map_of (upsertCandlesFromSwaps swaps market fromTs toTs cs) (market, b) = true_candle swaps market b"
proof -
  have "selected market fromTs toTs r \<and> in_bucket market b r \<longleftrightarrow> in_bucket market b r" if "r \<in> set swaps" for r
    using assms(1) that by blast
  with assms(2) show ?thesis
    by (auto simp: map_of_upsert true_candle_def filter_empty_conv cong: filter_cong split: list.splits)
qed

lemma upsert_inside:
  assumes "padded_from fromTs \<le> b" "\<forall>r\<in>set swaps. sw_market r = market \<longrightarrow> sw_time r \<le> toTs"
    "\<exists>r\<in>set swaps. in_bucket market b r"
  shows "map_of (upsertCandlesFromSwaps swaps market fromTs toTs cs) (market, b) = true_candle swaps market b"
  using assms by (intro upsert_whole) (fastforce simp: selected_def dest: in_bucketD)+

lemma upsert_outside:
  "(\<And>r. r \<in> set swaps \<Longrightarrow> in_bucket m b r \<Longrightarrow> \<not> selected market fromTs toTs r)
     \<Longrightarrow> map_of (upsertCandlesFromSwaps swaps market fromTs toTs cs) (m, b) = map_of cs (m, b)"
  by (auto simp: map_of_upsert)

lemma upsert_before:
  "b + BUCKET_MS \<le> padded_from fromTs \<Longrightarrow> map_of (upsertCandlesFromSwaps swaps market fromTs toTs cs) (m, b) = map_of cs (m, b)"
  by (intro upsert_outside) (auto simp: selected_def dest: in_bucketD)

lemma upsert_other_market:
  "m \<noteq> market \<Longrightarrow> map_of (upsertCandlesFromSwaps swaps market fromTs toTs cs) (m, b) = map_of cs (m, b)"
  by (intro upsert_outside) (auto simp: selected_def dest: in_bucketD)

lemma true_candle_None: "(\<And>r. r \<in> set swaps \<Longrightarrow> \<not> in_bucket m b r) \<Longrightarrow> true_candle swaps m b = None"
  by (auto simp: true_candle_def)

lemma true_candle_append:
  "(\<And>r. r \<in> set new \<Longrightarrow> \<not> in_bucket m b r) \<Longrightarrow> true_candle (old @ new) m b = true_candle old m b"
  by (auto simp: true_candle_def filter_empty_conv)


definition sample_swap :: "int \<Rightarrow> rat \<Rightarrow> rat \<Rightarrow> swap_row" where
  "sample_swap t price volume = \<lparr>sw_market = ''m'', sw_txHash = ''0x'', sw_logIndex = nat t, sw_blockNumber = t, sw_time = t,
     sw_amount0Raw = 1, sw_amount1Raw = - 1, sw_priceUsd = price, sw_volumeUsd = volume, sw_isSell = True,
     sw_trader = None, sw_sender = None\<rparr>"

definition earlier_swaps :: "swap_row list" where
  "earlier_swaps = [sample_swap 10000 5 100, sample_swap 200000 7 50]"

definition earlier_candles :: candles where
  "earlier_candles = upsertCandlesFromSwaps earlier_swaps ''m'' 10000 200000 []"

lemma earlier_candles_true: "map_of earlier_candles (''m'', b) = true_candle earlier_swaps ''m'' b"
proof (cases "\<exists>r\<in>set earlier_swaps. in_bucket ''m'' b r")
  case True
  then show ?thesis unfolding earlier_candles_def
    by (intro upsert_whole) (auto simp: earlier_swaps_def sample_swap_def selected_def padded_from_def BUCKET_MS_def)
next
  case False
  then show ?thesis unfolding earlier_candles_def
    by (subst upsert_outside) (auto simp: true_candle_None)
qed


text \<open>The excepted bucket really loses swaps: after one swap seven minutes in, the candle of the
  first five minutes forgets the swap before the padded start, its open, low and volume with it.\<close>

lemma padding_truncates_candle:
  "true_candle (earlier_swaps @ [sample_swap 420000 9 10]) ''m'' 0
     = Some \<lparr>cd_open = 5, cd_high = 7, cd_low = 5, cd_close = 7, cd_volumeUsd = 150\<rparr>"
  "map_of (upsertCandlesFromSwaps (earlier_swaps @ [sample_swap 420000 9 10]) ''m'' 420000 420000 earlier_candles) (''m'', 0)
     = Some \<lparr>cd_open = 7, cd_high = 7, cd_low = 7, cd_close = 7, cd_volumeUsd = 50\<rparr>"
  by (simp_all add: true_candle_def upsertCandlesFromSwaps_def selected_def padded_from_def earlier_swaps_def sample_swap_def
    in_bucket_def time_bucket_def BUCKET_MS_def candle_of_def earlier_def later_def update_conv)

subsection \<open>The rollup\<close>

text \<open>What \<open>tokenMarket.update\<close> writes; \<open>None\<close> in an outer position is \<open>undefined\<close>, a column left
  alone.\<close>

record rollup =
  ru_volume24hUsd :: "rat option"
  ru_priceChange24hPct :: "jsnum option"
  ru_tradeCount24h :: "nat option"
  ru_uniqueTraders24h :: "nat option"

definition DAY_MS :: int where "DAY_MS = 24 * 60 * 60000"

text \<open>The candles of a market as the table has them, and \<open>findFirst\<close> by bucket start.\<close>

definition latest_candle :: "(int \<times> candle) list \<Rightarrow> (int \<times> candle) option" where
  "latest_candle cs = (case sort_by (\<lambda>a b. fst b < fst a) cs of [] \<Rightarrow> None | c # _ \<Rightarrow> Some c)"

definition oldest_candle :: "(int \<times> candle) list \<Rightarrow> (int \<times> candle) option" where
  "oldest_candle cs = (case sort_by (\<lambda>a b. fst a < fst b) cs of [] \<Rightarrow> None | c # _ \<Rightarrow> Some c)"

definition priceChange24h :: "(rat \<Rightarrow> jsnum) \<Rightarrow> int \<Rightarrow> (int \<times> candle) list \<Rightarrow> rat option \<Rightarrow> jsnum option" where
  "priceChange24h num since24h cs currentPrice =
     (let oldestRelevant = latest_candle (filter (\<lambda>c. fst c \<le> since24h) cs);
          oldestOverall = oldest_candle cs;
          reference = (case oldestRelevant of Some c \<Rightarrow> Some c | None \<Rightarrow> oldestOverall);
          haveFullDay = (case oldestOverall of None \<Rightarrow> False | Some c \<Rightarrow> fst c \<le> since24h)
      in case (reference, currentPrice) of
           (Some c, Some price) \<Rightarrow>
             let oldPrice = num (cd_close (snd c)) in
             if haveFullDay \<and> ngt oldPrice (Fin 0)
             then clampPct (Some (nmul (ndiv (nsub (num price) oldPrice) oldPrice) (Fin 100)))
             else None
         | _ \<Rightarrow> None)"

definition recomputeRollups :: "(rat \<Rightarrow> jsnum) \<Rightarrow> int \<Rightarrow> swap_row list \<Rightarrow> (int \<times> candle) list \<Rightarrow> rat option \<Rightarrow> rollup" where
  "recomputeRollups num now swaps cs currentPrice =
     (let since24h = now - DAY_MS;
          recent = filter (\<lambda>r. since24h \<le> sw_time r) swaps;
          everTraded = (oldest_candle cs \<noteq> None)
      in \<lparr>ru_volume24hUsd = (if everTraded
            then Some (sum_list (map (cd_volumeUsd \<circ> snd) (filter (\<lambda>c. since24h \<le> fst c) cs))) else None),
          ru_priceChange24hPct = priceChange24h num since24h cs currentPrice,
          ru_tradeCount24h = (if everTraded then Some (length recent) else None),
          ru_uniqueTraders24h = (if everTraded then Some (length (remdups (List.map_filter sw_trader recent))) else None)\<rparr>)"

lemma oldest_candle_None [simp]: "oldest_candle cs = None \<longleftrightarrow> cs = []"
  by (auto simp: oldest_candle_def split: list.splits) (metis length_0_conv length_sort_by)

text \<open>Old activity ages out: a market that traded, but not in the last day, reads zero.\<close>

lemma rollup_decays:
  assumes "cs \<noteq> []" "\<forall>c\<in>set cs. fst c < now - DAY_MS" "\<forall>r\<in>set swaps. sw_time r < now - DAY_MS"
  shows "ru_volume24hUsd (recomputeRollups num now swaps cs p) = Some 0"
    "ru_tradeCount24h (recomputeRollups num now swaps cs p) = Some 0"
    "ru_uniqueTraders24h (recomputeRollups num now swaps cs p) = Some 0"
proof -
  have "filter (\<lambda>c. now - DAY_MS \<le> fst c) cs = []" "filter (\<lambda>r. now - DAY_MS \<le> sw_time r) swaps = []"
    using assms(2,3) by (fastforce simp: filter_empty_conv)+
  then show "ru_volume24hUsd (recomputeRollups num now swaps cs p) = Some 0"
    "ru_tradeCount24h (recomputeRollups num now swaps cs p) = Some 0"
    "ru_uniqueTraders24h (recomputeRollups num now swaps cs p) = Some 0"
    using assms(1,3) by (auto simp: recomputeRollups_def Let_def List.map_filter_def filter_empty_conv)
qed

end
