(* ===== verification/Ingestion.thy ===== *)
theory Ingestion
  imports Candles EvmRelay
begin

section \<open>Swap ingestion\<close>

text \<open>
  \<open>apps/workers/src/market/ingestion.ts\<close>, with the reads of
  \<open>packages/chain-adapters/src/uniswap-v3.ts\<close>.  The chain is a parameter: a read answers or gives
  \<open>null\<close>.  Every database write may commit, commit without telling, or fail.  Publishing and
  notifying never fail the tick and change nothing here, so they are left out, as are the pauses.
\<close>

definition MAX_BLOCKS_PER_TICK :: int where "MAX_BLOCKS_PER_TICK = 2000"
definition MAX_LAG_BLOCKS :: int where "MAX_LAG_BLOCKS = 20000"
definition LOG_CHUNK_BLOCKS :: int where "LOG_CHUNK_BLOCKS = MAX_BLOCKS_PER_TICK"
definition MAX_RESOLUTION_PASSES :: nat where "MAX_RESOLUTION_PASSES = 5"
definition MARKET_HEAD_LAG_BLOCKS :: int where "MARKET_HEAD_LAG_BLOCKS = 10"
definition MAX_PLAUSIBLE_PRICE_USD :: jsnum where "MAX_PLAUSIBLE_PRICE_USD = Fin 1000000000000000"
definition MAX_PLAUSIBLE_SWAP_VOLUME_USD :: jsnum where "MAX_PLAUSIBLE_SWAP_VOLUME_USD = Fin 100000000000"
definition DORMANT_REFRESH_EVERY_N_TICKS :: nat where "DORMANT_REFRESH_EVERY_N_TICKS = 10"
definition minLiquidityUsd :: jsnum where "minLiquidityUsd = Fin 10000"

definition isPlausibleUsd :: "jsnum \<Rightarrow> jsnum \<Rightarrow> bool" where
  "isPlausibleUsd value bound = (is_finite value \<and> nge value (Fin 0) \<and> nlt value bound)"

definition bigintMin :: "int \<Rightarrow> int \<Rightarrow> int" where "bigintMin a b = (if a < b then a else b)"

subsection \<open>The chain and the markets\<close>

record pool_event =
  pe_txHash :: string
  pe_logIndex :: nat
  pe_blockNumber :: int
  pe_amount0 :: int
  pe_amount1 :: int
  pe_sqrtPriceX96 :: int
  pe_sender :: "string option"
  pe_recipient :: "string option"

record PoolState =
  ps_token0 :: string
  ps_token1 :: string
  ps_sqrtPriceX96 :: int

record market_token =
  mt_contractAddress :: string
  mt_decimals :: "nat option"

record tracked_market =
  tm_marketId :: string
  tm_pair :: string
  tm_base :: market_token
  tm_quote :: market_token

type_synonym ('w, 'a) reading = "'w \<Rightarrow> 'a \<times> 'w"

record 'w pool_reader =
  pr_poolState :: "string \<Rightarrow> ('w, PoolState option) reading"
  pr_head :: "('w, int) remote"
  pr_swapEvents :: "string \<Rightarrow> int \<Rightarrow> int \<Rightarrow> ('w, pool_event list option) reading"
  pr_blockTimestamp :: "int \<Rightarrow> ('w, int option) reading"
  pr_tokenBalance :: "string \<Rightarrow> string \<Rightarrow> ('w, int option) reading"
  pr_totalSupply :: "string \<Rightarrow> ('w, int option) reading"

datatype commit = Committed | LostReply | NotCommitted

record 'w ingest_env =
  ie_reader :: "'w pool_reader"
  ie_pow10 :: "jsnum \<Rightarrow> jsnum"
  ie_decimal :: "jsnum \<Rightarrow> rat"
  ie_commit :: "('w, commit) reading"
  ie_now :: "('w, int) reading"

text \<open>The tables of one chain's ingestion, the columns of its markets by market id, and
  \<open>is_skipped\<close>, the log of ranges given up.\<close>

record 'w ingest_state =
  is_world :: 'w
  is_swaps :: "swap_row list"
  is_wallets :: "(string \<times> int) list"
  is_cursor :: "string \<Rightarrow> int option"
  is_candles :: candles
  is_prices :: "string \<Rightarrow> rat option"
  is_liquidity :: "string \<Rightarrow> rat option"
  is_marketCap :: "string \<Rightarrow> rat option"
  is_priceAt :: "string \<Rightarrow> int option"
  is_rollups :: "string \<Rightarrow> rollup option"
  is_skipped :: "(string \<times> int \<times> int) list"

definition observing :: "('w, 'a) reading \<Rightarrow> ('w ingest_state, 'a) remote" where
  "observing m s = (case m (is_world s) of (a, w) \<Rightarrow> (Ok a, s\<lparr>is_world := w\<rparr>))"

definition asking :: "('w, 'a) remote \<Rightarrow> ('w ingest_state, 'a) remote" where
  "asking m s = (case m (is_world s) of (r, w) \<Rightarrow> (r, s\<lparr>is_world := w\<rparr>))"

definition writing :: "'w ingest_env \<Rightarrow> ('w ingest_state \<Rightarrow> 'w ingest_state) \<Rightarrow> ('w ingest_state, unit) remote" where
  "writing env f s =
     (case ie_commit env (is_world s) of
        (Committed, w) \<Rightarrow> (Ok (), f (s\<lparr>is_world := w\<rparr>))
      | (LostReply, w) \<Rightarrow> (Err (Error ''database''), f (s\<lparr>is_world := w\<rparr>))
      | (NotCommitted, w) \<Rightarrow> (Err (Error ''database''), s\<lparr>is_world := w\<rparr>))"

definition getLatestBlockNumber :: "'w ingest_env \<Rightarrow> ('w, int) remote" where
  "getLatestBlockNumber env =
     then_remote (pr_head (ie_reader env)) (\<lambda>head. return_remote (Ok (if head > MARKET_HEAD_LAG_BLOCKS then head - MARKET_HEAD_LAG_BLOCKS else 0)))"

subsection \<open>One swap\<close>

definition num_decimals :: "market_token \<Rightarrow> jsnum" where
  "num_decimals t = (case mt_decimals t of None \<Rightarrow> NaN | Some d \<Rightarrow> num_of_int (int d))"

definition base_is_token0 :: "tracked_market \<Rightarrow> PoolState \<Rightarrow> bool" where
  "base_is_token0 m p = (to_lower (ps_token0 p) = to_lower (mt_contractAddress (tm_base m)))"

definition pool_decimals :: "tracked_market \<Rightarrow> bool \<Rightarrow> jsnum \<times> jsnum" where
  "pool_decimals m baseIsToken0 =
     (if baseIsToken0 then (num_decimals (tm_base m), num_decimals (tm_quote m))
      else (num_decimals (tm_quote m), num_decimals (tm_base m)))"

definition event_price :: "'w ingest_env \<Rightarrow> tracked_market \<Rightarrow> bool \<Rightarrow> int \<Rightarrow> jsnum option" where
  "event_price env m baseIsToken0 sqrtPriceX96 =
     (let (d0, d1) = pool_decimals m baseIsToken0 in
      map_option (\<lambda>raw. if baseIsToken0 then raw else ndiv (Fin 1) raw)
        (priceFromSqrtPriceX96 (ie_pow10 env) sqrtPriceX96 d0 d1))"

definition truthy_address :: "string option \<Rightarrow> string option" where
  "truthy_address a = (case a of None \<Rightarrow> None | Some x \<Rightarrow> if x = [] then None else Some (normalizeEvmAddress x))"

text \<open>The row of an event, or \<open>None\<close>: no price, or an implausible dollar value.\<close>

definition swap_row_of :: "'w ingest_env \<Rightarrow> tracked_market \<Rightarrow> bool \<Rightarrow> jsnum \<Rightarrow> pool_event \<Rightarrow> int \<Rightarrow> swap_row option" where
  "swap_row_of env m baseIsToken0 quoteUsdPrice e blockTimestamp =
     (case event_price env m baseIsToken0 (pe_sqrtPriceX96 e) of
        None \<Rightarrow> None
      | Some priceInQuote \<Rightarrow>
          let baseAmount = rawAmountToDecimal (ie_pow10 env) (if baseIsToken0 then pe_amount0 e else pe_amount1 e)
                (num_decimals (tm_base m));
              priceUsd = nmul priceInQuote quoteUsdPrice;
              volumeUsd = nmul (nabs baseAmount) priceUsd in
          if \<not> isPlausibleUsd priceUsd MAX_PLAUSIBLE_PRICE_USD \<or> \<not> isPlausibleUsd volumeUsd MAX_PLAUSIBLE_SWAP_VOLUME_USD
          then None
          else Some \<lparr>sw_market = tm_marketId m, sw_txHash = pe_txHash e, sw_logIndex = pe_logIndex e,
            sw_blockNumber = pe_blockNumber e, sw_time = blockTimestamp, sw_amount0Raw = pe_amount0 e,
            sw_amount1Raw = pe_amount1 e, sw_priceUsd = ie_decimal env priceUsd, sw_volumeUsd = ie_decimal env volumeUsd,
            sw_isSell = ngt baseAmount (Fin 0), sw_trader = truthy_address (pe_recipient e),
            sw_sender = truthy_address (pe_sender e)\<rparr>)"

text \<open>The time of a block: cached, interpolated between the chunk's first and last block, or read.
  \<open>new Date\<close> drops the fraction of a millisecond.\<close>

fun date_ms :: "jsnum \<Rightarrow> int" where
  "date_ms (Fin x) = (if x < 0 then \<lceil>x\<rceil> else \<lfloor>x\<rfloor>)"
| "date_ms x = 0"

definition interpolate :: "int option \<times> int option \<Rightarrow> int \<Rightarrow> int \<Rightarrow> int \<Rightarrow> int option" where
  "interpolate anchors first chunkEnd blockNumber =
     (case anchors of
        (Some start, Some end') \<Rightarrow>
          let span = num_of_int (chunkEnd - first) in
          if nle span (Fin 0) then Some start
          else let offset = num_of_int (blockNumber - first) in
               Some (date_ms (nadd (num_of_int start) (ndiv (nmul (num_of_int (end' - start)) offset) span)))
      | _ \<Rightarrow> None)"

type_synonym block_times = "(int \<times> int) list"

definition block_time ::
    "'w ingest_env \<Rightarrow> int option \<times> int option \<Rightarrow> int \<Rightarrow> int \<Rightarrow> block_times \<Rightarrow> int \<Rightarrow> ('w, int option \<times> block_times) reading" where
  "block_time env anchors first chunkEnd cache b w =
     (case map_of cache b of
        Some t \<Rightarrow> ((Some t, cache), w)
      | None \<Rightarrow>
          (case interpolate anchors first chunkEnd b of
             Some t \<Rightarrow> ((Some t, cache), w)
           | None \<Rightarrow>
               (case pr_blockTimestamp (ie_reader env) b w of
                  (None, w1) \<Rightarrow> ((None, cache), w1)
                | (Some t, w1) \<Rightarrow> ((Some t, (b, t) # cache), w1))))"

fun place_events ::
    "'w ingest_env \<Rightarrow> tracked_market \<Rightarrow> bool \<Rightarrow> jsnum \<Rightarrow> int option \<times> int option \<Rightarrow> int \<Rightarrow> int \<Rightarrow> pool_event list
     \<Rightarrow> block_times \<Rightarrow> ('w, swap_row list \<times> block_times) reading" where
  "place_events env m base0 q anchors first chunkEnd [] cache w = (([], cache), w)"
| "place_events env m base0 q anchors first chunkEnd (e # es) cache w =
     (case block_time env anchors first chunkEnd cache (pe_blockNumber e) w of
        ((t, cache1), w1) \<Rightarrow>
          (case place_events env m base0 q anchors first chunkEnd es cache1 w1 of
             ((rows, cache2), w2) \<Rightarrow>
               ((case t of
                   None \<Rightarrow> rows
                 | Some ts \<Rightarrow> (case swap_row_of env m base0 q e ts of None \<Rightarrow> rows | Some r \<Rightarrow> r # rows), cache2), w2)))"

subsection \<open>Tables\<close>

definition swap_key :: "swap_row \<Rightarrow> string \<times> nat" where "swap_key r = (sw_txHash r, sw_logIndex r)"

text \<open>\<open>createMany\<close> with \<open>skipDuplicates\<close>, on the unique keys of the two tables.\<close>

fun insert_swaps :: "swap_row list \<Rightarrow> swap_row list \<Rightarrow> swap_row list" where
  "insert_swaps [] swaps = swaps"
| "insert_swaps (r # rs) swaps =
     insert_swaps rs (if swap_key r \<in> set (map swap_key swaps) then swaps else swaps @ [r])"

fun insert_wallets :: "(string \<times> int) list \<Rightarrow> (string \<times> int) list \<Rightarrow> (string \<times> int) list" where
  "insert_wallets [] wallets = wallets"
| "insert_wallets (x # xs) wallets =
     insert_wallets xs (if fst x \<in> set (map fst wallets) then wallets else wallets @ [x])"

text \<open>\<open>walletFirstSeen\<close>: the earliest time per trader, in order of first appearance.\<close>

fun see_wallet :: "string \<Rightarrow> int \<Rightarrow> (string \<times> int) list \<Rightarrow> (string \<times> int) list" where
  "see_wallet a t [] = [(a, t)]"
| "see_wallet a t ((b, u) # seen) = (if b = a then (b, if t < u then t else u) # seen else (b, u) # see_wallet a t seen)"

definition walletFirstSeen :: "swap_row list \<Rightarrow> (string \<times> int) list" where
  "walletFirstSeen rows =
     fold (\<lambda>r seen. case sw_trader r of None \<Rightarrow> seen | Some a \<Rightarrow> see_wallet a (sw_time r) seen) rows []"

subsection \<open>One market\<close>

text \<open>What a tick carries from chunk to chunk.\<close>

record tick_progress =
  tp_cache :: block_times
  tp_minTs :: "int option"
  tp_maxTs :: "int option"
  tp_total :: nat

definition widen :: "swap_row \<Rightarrow> tick_progress \<Rightarrow> tick_progress" where
  "widen r tp =
     tp\<lparr>tp_minTs := (case tp_minTs tp of None \<Rightarrow> Some (sw_time r) | Some t \<Rightarrow> Some (if sw_time r < t then sw_time r else t)),
        tp_maxTs := (case tp_maxTs tp of None \<Rightarrow> Some (sw_time r) | Some t \<Rightarrow> Some (if sw_time r > t then sw_time r else t))\<rparr>"

definition store_rows :: "'w ingest_env \<Rightarrow> swap_row list \<Rightarrow> ('w ingest_state, unit) remote" where
  "store_rows env rows =
     (if rows = [] then return_remote (Ok ())
      else then_remote
        (if walletFirstSeen rows = [] then return_remote (Ok ())
         else writing env (\<lambda>s. s\<lparr>is_wallets := insert_wallets (walletFirstSeen rows) (is_wallets s)\<rparr>)) (\<lambda>_.
        writing env (\<lambda>s. s\<lparr>is_swaps := insert_swaps rows (is_swaps s)\<rparr>)))"

text \<open>The times of the chunk's first and last block, read only when there are events.\<close>

definition chunk_anchors :: "'w ingest_env \<Rightarrow> int \<Rightarrow> int \<Rightarrow> pool_event list \<Rightarrow> ('w, int option \<times> int option) reading" where
  "chunk_anchors env first chunkEnd es w =
     (if es = [] then ((None, None), w)
      else case pr_blockTimestamp (ie_reader env) first w of
             (start, w1) \<Rightarrow> (case pr_blockTimestamp (ie_reader env) chunkEnd w1 of (end', w2) \<Rightarrow> ((start, end'), w2)))"

text \<open>Rows first, the cursor only once they are stored.\<close>

definition store_chunk :: "'w ingest_env \<Rightarrow> tracked_market \<Rightarrow> swap_row list \<Rightarrow> int \<Rightarrow> ('w ingest_state, unit) remote" where
  "store_chunk env m rows chunkEnd =
     then_remote (store_rows env rows) (\<lambda>_.
       writing env (\<lambda>s. s\<lparr>is_cursor := (is_cursor s)(tm_marketId m := Some chunkEnd)\<rparr>))"

text \<open>One chunk; \<open>None\<close> when the events could not be read: the cursor stays.\<close>

definition ingest_chunk ::
    "'w ingest_env \<Rightarrow> tracked_market \<Rightarrow> bool \<Rightarrow> jsnum \<Rightarrow> int \<Rightarrow> int \<Rightarrow> tick_progress
     \<Rightarrow> ('w ingest_state, tick_progress option) remote" where
  "ingest_chunk env m base0 q cursor chunkEnd tp =
     then_remote (observing (pr_swapEvents (ie_reader env) (tm_pair m) (cursor + 1) chunkEnd)) (\<lambda>events.
     case events of
       None \<Rightarrow> return_remote (Ok None)
     | Some es \<Rightarrow>
         then_remote (observing (chunk_anchors env (cursor + 1) chunkEnd es)) (\<lambda>anchors.
         then_remote (observing (place_events env m base0 q anchors (cursor + 1) chunkEnd es (tp_cache tp))) (\<lambda>(rows, cache).
         then_remote (store_chunk env m rows chunkEnd) (\<lambda>_.
           return_remote (Ok (Some (fold widen rows (tp\<lparr>tp_cache := cache, tp_total := tp_total tp + length rows\<rparr>))))))))"

function ingest_chunks ::
    "'w ingest_env \<Rightarrow> tracked_market \<Rightarrow> bool \<Rightarrow> jsnum \<Rightarrow> int \<Rightarrow> int \<Rightarrow> tick_progress
     \<Rightarrow> ('w ingest_state, tick_progress) remote" where
  "ingest_chunks env m base0 q cursor target tp s =
     (if target \<le> cursor then (Ok tp, s)
      else case ingest_chunk env m base0 q cursor (bigintMin target (cursor + LOG_CHUNK_BLOCKS)) tp s of
             (Inl e, s1) \<Rightarrow> (Inl e, s1)
           | (Inr None, s1) \<Rightarrow> (Ok tp, s1)
           | (Inr (Some tp1), s1) \<Rightarrow> ingest_chunks env m base0 q (bigintMin target (cursor + LOG_CHUNK_BLOCKS)) target tp1 s1)"
  by pat_completeness auto
termination
  by (relation "measure (\<lambda>(env, m, base0, q, cursor, target, tp, s). nat (target - cursor))")
    (auto simp: bigintMin_def LOG_CHUNK_BLOCKS_def MAX_BLOCKS_PER_TICK_def)

declare ingest_chunks.simps [simp del]

text \<open>Where the scan starts: far behind the head, the range in between is given up and logged.\<close>

definition resume_from :: "tracked_market \<Rightarrow> int \<Rightarrow> int \<Rightarrow> ('w ingest_state, int) remote" where
  "resume_from m latestBlock cursorBlock s =
     (if latestBlock - cursorBlock > MAX_LAG_BLOCKS
      then (Ok (latestBlock - MAX_BLOCKS_PER_TICK),
            s\<lparr>is_skipped := is_skipped s @ [(tm_marketId m, cursorBlock, latestBlock - MAX_BLOCKS_PER_TICK)]\<rparr>)
      else (Ok cursorBlock, s))"

definition store_candles :: "'w ingest_env \<Rightarrow> tracked_market \<Rightarrow> tick_progress \<Rightarrow> ('w ingest_state, unit) remote" where
  "store_candles env m tp =
     (case (tp_minTs tp, tp_maxTs tp) of
        (Some minTs, Some maxTs) \<Rightarrow>
          if tp_total tp = 0 then return_remote (Ok ())
          else writing env (\<lambda>s. s\<lparr>is_candles := upsertCandlesFromSwaps (is_swaps s) (tm_marketId m) minTs maxTs (is_candles s)\<rparr>)
      | _ \<Rightarrow> return_remote (Ok ()))"

definition market_rollup :: "int \<Rightarrow> tracked_market \<Rightarrow> 'w ingest_state \<Rightarrow> rollup" where
  "market_rollup now m s =
     recomputeRollups to_num now (filter (\<lambda>r. sw_market r = tm_marketId m) (is_swaps s))
       (map (\<lambda>c. (snd (fst c), snd c)) (filter (\<lambda>c. fst (fst c) = tm_marketId m) (is_candles s))) (is_prices s (tm_marketId m))"

text \<open>The bounded scan of a tick, and the candles of what it stored.\<close>

definition scan_market ::
    "'w ingest_env \<Rightarrow> tracked_market \<Rightarrow> bool \<Rightarrow> jsnum \<Rightarrow> int \<Rightarrow> int \<Rightarrow> ('w ingest_state, unit) remote" where
  "scan_market env m base0 quoteUsdPrice latestBlock start =
     (if latestBlock \<le> start then return_remote (Ok ())
      else then_remote (ingest_chunks env m base0 quoteUsdPrice start (bigintMin latestBlock (start + MAX_BLOCKS_PER_TICK))
             \<lparr>tp_cache = [], tp_minTs = None, tp_maxTs = None, tp_total = 0\<rparr>) (store_candles env m))"

definition ingestSwapsForMarket ::
    "'w ingest_env \<Rightarrow> tracked_market \<Rightarrow> int \<Rightarrow> jsnum \<Rightarrow> ('w ingest_state, unit) remote" where
  "ingestSwapsForMarket env m cursorBlock quoteUsdPrice =
     (if mt_decimals (tm_base m) = None \<or> mt_decimals (tm_quote m) = None then return_remote (Ok ())
      else then_remote (observing (pr_poolState (ie_reader env) (tm_pair m))) (\<lambda>pool.
      case pool of
        None \<Rightarrow> return_remote (Ok ())
      | Some ps \<Rightarrow>
          then_remote (asking (getLatestBlockNumber env)) (\<lambda>latestBlock.
          then_remote (resume_from m latestBlock cursorBlock) (\<lambda>start.
          then_remote (scan_market env m (base_is_token0 m ps) quoteUsdPrice latestBlock start) (\<lambda>_.
          then_remote (observing (ie_now env)) (\<lambda>now.
            writing env (\<lambda>s. s\<lparr>is_rollups := (is_rollups s)(tm_marketId m := Some (market_rollup now m s))\<rparr>)))))))"

subsection \<open>What a write can do\<close>

abbreviation swap_keys :: "'w ingest_state \<Rightarrow> (string \<times> nat) list" where
  "swap_keys s \<equiv> map swap_key (is_swaps s)"

text \<open>Nothing indexed or logged is ever lost, and no key is stored twice.\<close>

definition grows :: "'w ingest_state \<Rightarrow> 'w ingest_state \<Rightarrow> bool" where
  "grows s s' \<longleftrightarrow> set (swap_keys s) \<subseteq> set (swap_keys s') \<and> set (is_skipped s) \<subseteq> set (is_skipped s')
     \<and> (distinct (swap_keys s) \<longrightarrow> distinct (swap_keys s'))"

lemma grows_refl [simp]: "grows s s" by (simp add: grows_def)

lemma grows_trans [trans]: "grows s s1 \<Longrightarrow> grows s1 s2 \<Longrightarrow> grows s s2"
  by (auto simp: grows_def)

lemma keys_insert_swaps [simp]:
  "set (map swap_key (insert_swaps rs swaps)) = set (map swap_key swaps) \<union> set (map swap_key rs)"
  by (induction rs swaps rule: insert_swaps.induct) auto

lemma distinct_insert_swaps:
  "distinct (map swap_key swaps) \<Longrightarrow> distinct (map swap_key (insert_swaps rs swaps))"
  by (induction rs swaps rule: insert_swaps.induct) auto

lemma writing_cases:
  assumes "writing env f s = (r, s')"
  obtains (written) w where "s' = f (s\<lparr>is_world := w\<rparr>)" | (failed) w e where "r = Err e" "s' = s\<lparr>is_world := w\<rparr>"
  using assms by (auto simp: writing_def split: prod.splits commit.splits)

lemma writing_Ok: "writing env f s = (Ok u, s') \<Longrightarrow> \<exists>w. s' = f (s\<lparr>is_world := w\<rparr>)"
  by (auto simp: writing_def split: prod.splits commit.splits)

lemma observing_frame: "observing m s = (r, s') \<Longrightarrow> \<exists>a w. r = Ok a \<and> m (is_world s) = (a, w) \<and> s' = s\<lparr>is_world := w\<rparr>"
  by (auto simp: observing_def split: prod.splits)

lemma then_remote_cases:
  assumes "then_remote m f s = (r, s')"
  obtains (stops) e where "m s = (Err e, s')" "r = Err e" | (goes) a s1 where "m s = (Ok a, s1)" "f a s1 = (r, s')"
  using assms by (auto simp: then_remote_def split: prod.splits sum.splits)

text \<open>Storing rows touches the swaps and the wallets only.\<close>

definition only_rows :: "swap_row list \<Rightarrow> 'w ingest_state \<Rightarrow> 'w ingest_state \<Rightarrow> bool" where
  "only_rows rows s s' \<longleftrightarrow> is_cursor s' = is_cursor s \<and> is_skipped s' = is_skipped s
     \<and> (is_swaps s' = is_swaps s \<or> is_swaps s' = insert_swaps rows (is_swaps s))"

lemma only_rows_grows: "only_rows rows s s' \<Longrightarrow> grows s s'"
  by (auto simp: only_rows_def grows_def distinct_insert_swaps simp del: set_map) 

lemma store_rows_frame:
  assumes "store_rows env rows s = (r, s')"
  shows "only_rows rows s s' \<and> (r = Ok () \<longrightarrow> is_swaps s' = insert_swaps rows (is_swaps s))"
proof (cases "rows = []")
  case True
  with assms show ?thesis by (simp add: store_rows_def only_rows_def return_remote_def)
next
  case False
  with assms have "then_remote
        (if walletFirstSeen rows = [] then return_remote (Ok ())
         else writing env (\<lambda>s. s\<lparr>is_wallets := insert_wallets (walletFirstSeen rows) (is_wallets s)\<rparr>)) (\<lambda>_.
        writing env (\<lambda>s. s\<lparr>is_swaps := insert_swaps rows (is_swaps s)\<rparr>)) s = (r, s')"
    by (simp add: store_rows_def)
  then show ?thesis
  proof (cases rule: then_remote_cases)
    case (stops e)
    then show ?thesis
      by (auto simp: only_rows_def return_remote_def split: if_splits elim!: writing_cases)
  next
    case (goes a s1)
    from goes(1) have "is_swaps s1 = is_swaps s" "is_cursor s1 = is_cursor s" "is_skipped s1 = is_skipped s"
      by (auto simp: return_remote_def split: if_splits elim!: writing_cases)
    with goes(2) show ?thesis
      by (auto simp: only_rows_def elim!: writing_cases)
  qed
qed

subsection \<open>No swap is lost\<close>

definition event_key :: "pool_event \<Rightarrow> string \<times> nat" where "event_key e = (pe_txHash e, pe_logIndex e)"

definition unreadable :: "'w ingest_env \<Rightarrow> int \<Rightarrow> bool" where
  "unreadable env b \<longleftrightarrow> (\<exists>w w'. pr_blockTimestamp (ie_reader env) b w = (None, w'))"

definition unpriced :: "'w ingest_env \<Rightarrow> tracked_market \<Rightarrow> bool \<Rightarrow> jsnum \<Rightarrow> pool_event \<Rightarrow> bool" where
  "unpriced env m base0 q e \<longleftrightarrow> swap_row_of env m base0 q e 0 = None"

lemma swap_row_of_cases:
  "unpriced env m base0 q e \<or> (\<exists>r. swap_row_of env m base0 q e t = Some r \<and> swap_key r = event_key e)"
  by (auto simp: unpriced_def swap_row_of_def Let_def event_key_def swap_key_def split: option.splits if_splits)

lemma block_time_None:
  "block_time env anchors first chunkEnd cache b w = ((None, cache'), w') \<Longrightarrow> unreadable env b"
  by (auto simp: block_time_def unreadable_def split: option.splits prod.splits)

lemma place_events_complete:
  assumes "place_events env m base0 q anchors first chunkEnd es cache w = ((rows, cache'), w')" "e \<in> set es"
  shows "event_key e \<in> set (map swap_key rows) \<or> unreadable env (pe_blockNumber e) \<or> unpriced env m base0 q e"
  using assms
proof (induction env m base0 q anchors first chunkEnd es cache w arbitrary: rows cache' w' rule: place_events.induct)
  case (2 env m base0 q anchors first chunkEnd e0 es cache w)
  obtain t cache1 w1 where t: "block_time env anchors first chunkEnd cache (pe_blockNumber e0) w = ((t, cache1), w1)"
    by (metis surj_pair)
  obtain rows1 cache2 w2 where r: "place_events env m base0 q anchors first chunkEnd es cache1 w1 = ((rows1, cache2), w2)"
    by (metis surj_pair)
  from 2(2) t r have rows: "rows = (case t of None \<Rightarrow> rows1
      | Some ts \<Rightarrow> (case swap_row_of env m base0 q e0 ts of None \<Rightarrow> rows1 | Some r \<Rightarrow> r # rows1))"
    by auto
  have sub: "set (map swap_key rows1) \<subseteq> set (map swap_key rows)"
    unfolding rows by (auto split: option.splits)
  show ?case
  proof (cases "e = e0")
    case True
    show ?thesis
    proof (cases t)
      case None
      with block_time_None [of env anchors first chunkEnd cache "pe_blockNumber e0" w cache1 w1] t True
      show ?thesis by simp
    next
      case (Some ts)
      show ?thesis
      proof (cases "unpriced env m base0 q e0")
        case False
        with swap_row_of_cases [of env m base0 q e0 ts]
        obtain r where "swap_row_of env m base0 q e0 ts = Some r" "swap_key r = event_key e0" by blast
        with True Some rows show ?thesis by simp
      qed (use True in simp)
    qed
  next
    case False
    with 2(3) have "e \<in> set es" by simp
    from 2(1) [OF t [symmetric] refl r this] sub show ?thesis by blast
  qed
qed simp

text \<open>The events of a range as the node has them: a read fails or gives exactly these.\<close>

definition faithful_reader :: "'w ingest_env \<Rightarrow> tracked_market \<Rightarrow> (int \<Rightarrow> pool_event list) \<Rightarrow> bool" where
  "faithful_reader env m events \<longleftrightarrow>
     (\<forall>a b w es w'. pr_swapEvents (ie_reader env) (tm_pair m) a b w = (Some es, w')
        \<longrightarrow> set es = (\<Union>i\<in>{a..b}. set (events i)))
     \<and> (\<forall>i. \<forall>e\<in>set (events i). pe_blockNumber e = i)"

text \<open>What may have become of an event: indexed, or its block has no readable time, or it has no
  plausible dollar value at a quote price that was used, or its range was given up and logged.\<close>

definition accounted ::
    "'w ingest_env \<Rightarrow> tracked_market \<Rightarrow> bool \<Rightarrow> jsnum set \<Rightarrow> 'w ingest_state \<Rightarrow> pool_event \<Rightarrow> bool" where
  "accounted env m base0 qs s e \<longleftrightarrow>
     event_key e \<in> set (swap_keys s) \<or> unreadable env (pe_blockNumber e)
     \<or> (\<exists>q\<in>qs. unpriced env m base0 q e)
     \<or> (\<exists>(market, a, b)\<in>set (is_skipped s). market = tm_marketId m \<and> a < pe_blockNumber e \<and> pe_blockNumber e \<le> b)"

lemma accounted_grows: "accounted env m base0 qs s e \<Longrightarrow> grows s s' \<Longrightarrow> accounted env m base0 qs s' e"
  by (auto simp: accounted_def grows_def)

definition covered ::
    "'w ingest_env \<Rightarrow> tracked_market \<Rightarrow> bool \<Rightarrow> jsnum set \<Rightarrow> (int \<Rightarrow> pool_event list) \<Rightarrow> int \<Rightarrow> int \<Rightarrow> 'w ingest_state \<Rightarrow> bool" where
  "covered env m base0 qs events lo hi s \<longleftrightarrow>
     (\<forall>b. lo < b \<and> b \<le> hi \<longrightarrow> (\<forall>e\<in>set (events b). accounted env m base0 qs s e))"

lemma covered_grows: "covered env m base0 qs events lo hi s \<Longrightarrow> grows s s' \<Longrightarrow> covered env m base0 qs events lo hi s'"
  by (auto simp: covered_def intro: accounted_grows)

lemma covered_join:
  "covered env m base0 qs events lo mid s \<Longrightarrow> covered env m base0 qs events mid hi s \<Longrightarrow> covered env m base0 qs events lo hi s"
  by (auto simp: covered_def) (meson linorder_le_less_linear)

lemma store_chunk_step:
  assumes "store_chunk env m rows chunkEnd s = (r, s')"
  shows "grows s s' \<and> is_skipped s' = is_skipped s
     \<and> (is_cursor s' = is_cursor s \<and> r \<noteq> Ok ()
        \<or> is_cursor s' = (is_cursor s)(tm_marketId m := Some chunkEnd) \<and> set (map swap_key rows) \<subseteq> set (swap_keys s'))"
  using assms unfolding store_chunk_def
proof (cases rule: then_remote_cases)
  case (stops e)
  from store_rows_frame [OF stops(1)] have "only_rows rows s s'" by simp
  with only_rows_grows [OF this] stops(2) show ?thesis by (simp add: only_rows_def)
next
  case (goes u s1)
  from store_rows_frame [OF goes(1)] have o1: "only_rows rows s s1" "is_swaps s1 = insert_swaps rows (is_swaps s)" by auto
  have "set (map swap_key rows) \<subseteq> set (swap_keys s1)" unfolding o1(2) keys_insert_swaps by blast
  with goes(2) only_rows_grows [OF o1(1)] o1(1) show ?thesis
    by (auto simp: only_rows_def grows_def elim!: writing_cases)
qed

text \<open>A chunk leaves the cursor, or moves it to its end with every event of the range accounted for.\<close>

lemma ingest_chunk_step:
  assumes "ingest_chunk env m base0 q cursor chunkEnd tp s = (r, s')" "faithful_reader env m events" "q \<in> qs"
  shows "grows s s' \<and> is_skipped s' = is_skipped s
     \<and> (is_cursor s' = is_cursor s \<and> (\<forall>t. r \<noteq> Ok (Some t))
        \<or> is_cursor s' = (is_cursor s)(tm_marketId m := Some chunkEnd) \<and> covered env m base0 qs events cursor chunkEnd s')"
proof -
  obtain ev w1 where ev: "pr_swapEvents (ie_reader env) (tm_pair m) (cursor + 1) chunkEnd (is_world s) = (ev, w1)"
    by (metis surj_pair)
  show ?thesis
  proof (cases ev)
    case None
    with assms(1) ev show ?thesis
      by (auto simp: ingest_chunk_def then_remote_def observing_def return_remote_def grows_def)
  next
    case (Some es)
    obtain anchors w2 where an: "chunk_anchors env (cursor + 1) chunkEnd es w1 = (anchors, w2)" by (metis surj_pair)
    obtain rows cache w3 where pl: "place_events env m base0 q anchors (cursor + 1) chunkEnd es (tp_cache tp) w2 = ((rows, cache), w3)"
      by (metis surj_pair)
    from assms(1) have k: "then_remote (store_chunk env m rows chunkEnd) (\<lambda>_.
           return_remote (Ok (Some (fold widen rows (tp\<lparr>tp_cache := cache, tp_total := tp_total tp + length rows\<rparr>)))))
        (s\<lparr>is_world := w3\<rparr>) = (r, s')"
      by (simp add: ingest_chunk_def then_remote_def [of "observing _"] observing_def ev Some an pl)
    obtain u s1 where st: "store_chunk env m rows chunkEnd (s\<lparr>is_world := w3\<rparr>) = (u, s1)" by (metis surj_pair)
    note step = store_chunk_step [OF st]
    from k st have s': "s' = s1" "(\<exists>t. r = Ok (Some t)) \<Longrightarrow> u = Ok ()"
      by (auto simp: then_remote_def return_remote_def split: sum.splits)
    have g: "grows s s'" using step s' by (auto simp: grows_def)
    have c: "covered env m base0 qs events cursor chunkEnd s'" if "set (map swap_key rows) \<subseteq> set (swap_keys s')"
      unfolding covered_def
    proof (intro allI impI ballI)
      fix b e assume b: "cursor < b \<and> b \<le> chunkEnd" and e: "e \<in> set (events b)"
      have "e \<in> set es"
        using assms(2) ev Some b e unfolding faithful_reader_def by force
      from place_events_complete [OF pl this] that assms(3) show "accounted env m base0 qs s' e"
        unfolding accounted_def by blast
    qed
    from step s' g c show ?thesis by auto
  qed
qed

text \<open>A run of chunks from a covered position keeps the stored cursor covered.\<close>

lemma ingest_chunks_step:
  assumes "ingest_chunks env m base0 q cursor target tp s = (r, s')" "faithful_reader env m events" "q \<in> qs"
    and "is_cursor s (tm_marketId m) = Some p" "p \<le> cursor" "covered env m base0 qs events lo cursor s"
  shows "grows s s' \<and> (\<exists>p'\<ge>p. is_cursor s' (tm_marketId m) = Some p' \<and> covered env m base0 qs events lo p' s')"
  using assms
proof (induction env m base0 q cursor target tp s arbitrary: r s' p rule: ingest_chunks.induct)
  case (1 env m base0 q cursor target tp s)
  let ?stop = "bigintMin target (cursor + LOG_CHUNK_BLOCKS)"
  have covp: "covered env m base0 qs events lo p s" using "1.prems"(5,6) by (auto simp: covered_def)
  show ?case
  proof (cases "target \<le> cursor")
    case True
    with "1.prems"(1) have "s' = s" by (simp add: ingest_chunks.simps)
    with covp "1.prems"(4) show ?thesis by auto
  next
    case False
    then have end_gt: "cursor < ?stop" by (simp add: bigintMin_def LOG_CHUNK_BLOCKS_def MAX_BLOCKS_PER_TICK_def)
    obtain c s1 where ch: "ingest_chunk env m base0 q cursor ?stop tp s = (c, s1)" by (metis surj_pair)
    note step = ingest_chunk_step [OF ch "1.prems"(2,3)]
    have cov1: "is_cursor s1 (tm_marketId m) = Some ?stop \<Longrightarrow> covered env m base0 qs events lo ?stop s1"
      if "is_cursor s1 = (is_cursor s)(tm_marketId m := Some ?stop) \<and> covered env m base0 qs events cursor ?stop s1"
      using covered_join covered_grows [OF "1.prems"(6)] step that by blast
    have stored: "\<exists>p'\<ge>p. is_cursor s1 (tm_marketId m) = Some p' \<and> covered env m base0 qs events lo p' s1"
      using step cov1 covered_grows [OF covp] "1.prems"(4,5) end_gt by (auto intro: exI [of _ ?stop])
    show ?thesis
    proof (cases "\<exists>t. c = Ok (Some t)")
      case True
      then obtain tp1 where c: "c = Ok (Some tp1)" by blast
      with step have s1: "is_cursor s1 (tm_marketId m) = Some ?stop" "covered env m base0 qs events lo ?stop s1"
        using cov1 by auto
      from "1.prems"(1) False ch c have run: "ingest_chunks env m base0 q ?stop target tp1 s1 = (r, s')"
        by (simp add: ingest_chunks.simps)
      from "1.IH" [OF False ch [symmetric] c refl run "1.prems"(2,3) s1(1) order_refl s1(2)] step end_gt "1.prems"(5)
      show ?thesis by (meson grows_trans order_trans less_imp_le)
    next
      case False
      with "1.prems"(1) \<open>\<not> target \<le> cursor\<close> ch have "s' = s1"
        by (auto simp: ingest_chunks.simps split: sum.splits option.splits)
      with stored step show ?thesis by blast
    qed
  qed
qed

definition fixed_orientation :: "'w ingest_env \<Rightarrow> tracked_market \<Rightarrow> bool \<Rightarrow> bool" where
  "fixed_orientation env m base0 \<longleftrightarrow>
     (\<forall>w ps w'. pr_poolState (ie_reader env) (tm_pair m) w = (Some ps, w') \<longrightarrow> base_is_token0 m ps = base0)"

definition sound_at ::
    "'w ingest_env \<Rightarrow> tracked_market \<Rightarrow> bool \<Rightarrow> jsnum set \<Rightarrow> (int \<Rightarrow> pool_event list) \<Rightarrow> int \<Rightarrow> int \<Rightarrow> 'w ingest_state \<Rightarrow> 'w ingest_state \<Rightarrow> bool" where
  "sound_at env m base0 qs events lo p s s' \<longleftrightarrow>
     grows s s' \<and> (\<exists>p'\<ge>p. is_cursor s' (tm_marketId m) = Some p' \<and> covered env m base0 qs events lo p' s')"

lemma sound_at_frame:
  "sound_at env m base0 qs events lo p s s1 \<Longrightarrow> is_cursor s2 = is_cursor s1 \<Longrightarrow> is_swaps s2 = is_swaps s1
    \<Longrightarrow> is_skipped s2 = is_skipped s1 \<Longrightarrow> sound_at env m base0 qs events lo p s s2"
  by (auto simp: sound_at_def grows_def covered_def accounted_def)

lemma resume_from_covered:
  assumes "resume_from m latest p s = (Ok start, s')" "covered env m base0 qs events lo p s"
    "faithful_reader env m events"
  shows "p \<le> start \<and> grows s s' \<and> is_cursor s' = is_cursor s \<and> covered env m base0 qs events lo start s'"
proof (cases "latest - p > MAX_LAG_BLOCKS")
  case True
  with assms(1) have s': "start = latest - MAX_BLOCKS_PER_TICK" "s' = s\<lparr>is_skipped := is_skipped s @ [(tm_marketId m, p, start)]\<rparr>"
    by (auto simp: resume_from_def)
  have g: "grows s s'" by (auto simp: s'(2) grows_def)
  have "covered env m base0 qs events p start s'"
    using assms(3) by (fastforce simp: covered_def accounted_def s'(2) faithful_reader_def)
  with covered_join covered_grows [OF assms(2) g] have "covered env m base0 qs events lo start s'" by blast
  with True g show ?thesis by (simp add: s' MAX_LAG_BLOCKS_def MAX_BLOCKS_PER_TICK_def)
next
  case False
  with assms show ?thesis by (auto simp: resume_from_def)
qed

lemma store_candles_frame:
  assumes "store_candles env m tp s = (r, s')"
  shows "is_cursor s' = is_cursor s \<and> is_swaps s' = is_swaps s \<and> is_skipped s' = is_skipped s"
  using assms
  by (auto simp: store_candles_def return_remote_def split: option.splits if_splits elim!: writing_cases)

lemma scan_market_step:
  assumes "scan_market env m base0 q latest start s1 = (r, s2)" "faithful_reader env m events" "q \<in> qs"
    "sound_at env m base0 qs events lo p s s1" "is_cursor s1 (tm_marketId m) = Some p" "p \<le> start"
    "covered env m base0 qs events lo start s1"
  shows "sound_at env m base0 qs events lo p s s2"
proof (cases "latest \<le> start")
  case True
  with assms(1,4) show ?thesis by (simp add: scan_market_def return_remote_def)
next
  case False
  let ?scan = "ingest_chunks env m base0 q start (bigintMin latest (start + MAX_BLOCKS_PER_TICK))
             \<lparr>tp_cache = [], tp_minTs = None, tp_maxTs = None, tp_total = 0\<rparr>"
  have sound: "?scan s1 = (x, s3) \<Longrightarrow> sound_at env m base0 qs events lo p s s3" for x s3
    using ingest_chunks_step [OF _ assms(2,3,5,6,7)] assms(4) grows_trans by (fastforce simp: sound_at_def)
  from False assms(1) have "then_remote ?scan (store_candles env m) s1 = (r, s2)" by (simp add: scan_market_def)
  then show ?thesis
  proof (cases rule: then_remote_cases)
    case (stops e)
    then show ?thesis by (intro sound)
  next
    case (goes tp s3)
    from sound_at_frame [OF sound [OF goes(1)]] store_candles_frame [OF goes(2)] show ?thesis by simp
  qed
qed

lemma ingest_market_step:
  assumes "ingestSwapsForMarket env m p q s = (r, s')" "faithful_reader env m events" "q \<in> qs"
    "fixed_orientation env m base0" "is_cursor s (tm_marketId m) = Some p" "covered env m base0 qs events lo p s"
  shows "sound_at env m base0 qs events lo p s s'"
proof -
  have self: "sound_at env m base0 qs events lo p s s" using assms(5,6) by (auto simp: sound_at_def)
  show ?thesis
  proof (cases "mt_decimals (tm_base m) = None \<or> mt_decimals (tm_quote m) = None")
    case True
    with assms(1) self show ?thesis by (simp add: ingestSwapsForMarket_def return_remote_def)
  next
    case known: False
    obtain pool w1 where po: "pr_poolState (ie_reader env) (tm_pair m) (is_world s) = (pool, w1)" by (metis surj_pair)
    obtain head w2 where he: "getLatestBlockNumber env w1 = (head, w2)" by (metis surj_pair)
    show ?thesis
    proof (cases "\<exists>ps latest. pool = Some ps \<and> head = Ok latest")
      case False
      with assms(1) known po he have "\<exists>w. s' = s\<lparr>is_world := w\<rparr>"
        by (cases pool; cases head)
          (auto simp: ingestSwapsForMarket_def then_remote_def observing_def asking_def return_remote_def)
      with self show ?thesis by (auto intro: sound_at_frame)
    next
      case True
      then obtain ps latest where pl: "pool = Some ps" "head = Ok latest" by blast
      let ?s = "s\<lparr>is_world := w2\<rparr>"
      obtain start s1 where re: "resume_from m latest p ?s = (Ok start, s1)" by (fastforce simp: resume_from_def)
      have covs: "covered env m base0 qs events lo p ?s" using assms(6) by (auto simp: covered_def accounted_def)
      note rc = resume_from_covered [OF re covs assms(2)]
      have base0: "base_is_token0 m ps = base0" using assms(4) po pl by (auto simp: fixed_orientation_def)
      let ?roll = "then_remote (observing (ie_now env)) (\<lambda>now.
            writing env (\<lambda>s. s\<lparr>is_rollups := (is_rollups s)(tm_marketId m := Some (market_rollup now m s))\<rparr>))"
      from assms(1) known po he pl re base0 have k: "then_remote (scan_market env m base0 q latest start) (\<lambda>_. ?roll) s1 = (r, s')"
        by (simp add: ingestSwapsForMarket_def then_remote_def [of "observing _"] then_remote_def [of "asking _"]
          then_remote_def [of "resume_from _ _ _"] observing_def asking_def)
      have c1: "is_cursor s1 (tm_marketId m) = Some p" using rc assms(5) by simp
      have "covered env m base0 qs events lo p s1" using rc by (auto simp: covered_def)
      with rc c1 have "sound_at env m base0 qs events lo p s s1" by (auto simp: sound_at_def grows_def)
      note scan = scan_market_step [OF _ assms(2,3) this c1 rc [THEN conjunct1]]
      from k show ?thesis
      proof (cases rule: then_remote_cases)
        case (stops e)
        from scan [OF stops(1)] rc show ?thesis by simp
      next
        case (goes u s2)
        from scan [OF goes(1)] rc have "sound_at env m base0 qs events lo p s s2" by simp
        with goes(2) show ?thesis
          by (auto elim!: writing_cases then_remote_cases dest!: observing_frame intro: sound_at_frame)
      qed
    qed
  qed
qed

subsection \<open>Markets do not disturb each other\<close>

definition local_to :: "tracked_market \<Rightarrow> 'w ingest_state \<Rightarrow> 'w ingest_state \<Rightarrow> bool" where
  "local_to m s s' \<longleftrightarrow> grows s s' \<and> (\<forall>k. k \<noteq> tm_marketId m \<longrightarrow> is_cursor s' k = is_cursor s k)"

lemma local_to_trans: "local_to m s s1 \<Longrightarrow> local_to m s1 s2 \<Longrightarrow> local_to m s s2"
  by (auto simp: local_to_def intro: grows_trans)

text \<open>Programs that only make changes of one kind: a relation between the states before and after
  that allows any change of the outside world and composes.\<close>

definition keeps :: "('w ingest_state \<Rightarrow> 'w ingest_state \<Rightarrow> bool) \<Rightarrow> ('w ingest_state, 'a) remote \<Rightarrow> bool" where
  "keeps P p \<longleftrightarrow> (\<forall>s r s'. p s = (r, s') \<longrightarrow> P s s')"

lemma keepsD: "keeps P p \<Longrightarrow> p s = (r, s') \<Longrightarrow> P s s'"
  by (auto simp: keeps_def)

locale write_frame =
  fixes P :: "'w ingest_state \<Rightarrow> 'w ingest_state \<Rightarrow> bool"
  assumes world: "P s (s\<lparr>is_world := w\<rparr>)"
    and compose: "P s s1 \<Longrightarrow> P s1 s2 \<Longrightarrow> P s s2"
begin

lemma same: "P s s"
  using world [of s "is_world s"] by simp

lemma keeps_then: "keeps P p \<Longrightarrow> (\<And>a. keeps P (f a)) \<Longrightarrow> keeps P (then_remote p f)"
  unfolding keeps_def by (meson then_remote_cases compose)

lemma keeps_return: "keeps P (return_remote r)"
  by (simp add: keeps_def return_remote_def same)

lemma keeps_observing: "keeps P (observing x)"
  by (auto simp: keeps_def observing_def world split: prod.splits)

lemma keeps_asking: "keeps P (asking y)"
  by (auto simp: keeps_def asking_def world split: prod.splits)

lemma keeps_writing:
  assumes "\<And>s. P s (f s)"
  shows "keeps P (writing env f)"
proof -
  have "P s (f (s\<lparr>is_world := w\<rparr>))" for s w using world assms by (rule compose)
  with world show ?thesis unfolding keeps_def by (auto elim!: writing_cases)
qed

lemma keeps_if: "keeps P p \<Longrightarrow> keeps P p' \<Longrightarrow> keeps P (if b then p else p')"
  by simp

lemmas keeps_intros = keeps_then keeps_return keeps_observing keeps_asking keeps_writing keeps_if

end

interpretation market_frame: write_frame "local_to m" for m
  by unfold_locales (auto simp: local_to_def grows_def)

lemma keeps_store_rows: "keeps (local_to m) (store_rows env rows)"
  using store_rows_frame only_rows_grows by (fastforce simp: keeps_def local_to_def only_rows_def)

lemma keeps_chunk: "keeps (local_to m) (ingest_chunk env m base0 q cursor chunkEnd tp)"
  unfolding ingest_chunk_def store_chunk_def
  by (intro market_frame.keeps_intros)
    (auto intro!: market_frame.keeps_intros keeps_store_rows simp: local_to_def grows_def split: option.splits)

lemma keeps_chunks: "keeps (local_to m) (ingest_chunks env m base0 q cursor target tp)"
  unfolding keeps_def
proof (intro allI impI)
  fix s r s'
  show "ingest_chunks env m base0 q cursor target tp s = (r, s') \<Longrightarrow> local_to m s s'"
  proof (induction env m base0 q cursor target tp s arbitrary: r s' rule: ingest_chunks.induct)
    case (1 env m base0 q cursor target tp s)
    let ?stop = "bigintMin target (cursor + LOG_CHUNK_BLOCKS)"
    obtain c s1 where ch: "ingest_chunk env m base0 q cursor ?stop tp s = (c, s1)" by (metis surj_pair)
    then have l: "local_to m s s1" by (rule keepsD [OF keeps_chunk])
    show ?case
    proof (cases "target \<le> cursor \<or> (\<forall>t. c \<noteq> Ok (Some t))")
      case True
      with "1.prems" ch l show ?thesis
        by (auto simp: ingest_chunks.simps market_frame.same split: if_splits sum.splits option.splits)
    next
      case False
      then obtain t where t: "c = Ok (Some t)" "\<not> target \<le> cursor" by blast
      with "1.prems" ch have "ingest_chunks env m base0 q ?stop target t s1 = (r, s')" by (simp add: ingest_chunks.simps)
      from "1.IH" [OF t(2) ch [symmetric] t(1) refl this] l show ?thesis by (rule local_to_trans [rotated])
    qed
  qed
qed

lemma keeps_market: "keeps (local_to m) (ingestSwapsForMarket env m c q)"
proof -
  have "keeps (local_to m) (store_candles env m tp)" for tp
    by (auto simp: store_candles_def local_to_def grows_def intro!: market_frame.keeps_intros split: option.splits)
  moreover have "keeps (local_to m) (resume_from m latest c)" for latest c
    by (auto simp: keeps_def resume_from_def local_to_def grows_def split: if_splits)
  ultimately show ?thesis unfolding ingestSwapsForMarket_def scan_market_def
    by (intro market_frame.keeps_intros)
      (auto intro!: market_frame.keeps_intros keeps_chunks simp: local_to_def grows_def split: option.splits)
qed

subsection \<open>A small chain\<close>

definition sample_event :: pool_event where
  "sample_event = \<lparr>pe_txHash = ''0xaa'', pe_logIndex = 7, pe_blockNumber = 5, pe_amount0 = 3, pe_amount1 = - 3,
     pe_sqrtPriceX96 = 79228162514264337593543950336, pe_sender = None, pe_recipient = None\<rparr>"

definition sample_events :: "int \<Rightarrow> pool_event list" where
  "sample_events i = (if i = 5 then [sample_event] else [])"

definition sample_pool :: tracked_market where
  "sample_pool = \<lparr>tm_marketId = ''m'', tm_pair = ''0xpool'', tm_base = \<lparr>mt_contractAddress = ''0xa'', mt_decimals = Some 0\<rparr>,
     tm_quote = \<lparr>mt_contractAddress = ''0xb'', mt_decimals = Some 0\<rparr>\<rparr>"

text \<open>The outside world counts the writes; \<open>bad\<close> is the one that fails, \<open>timed\<close> whether block times
  can be read.\<close>

definition sample_ingest :: "nat option \<Rightarrow> bool \<Rightarrow> nat ingest_env" where
  "sample_ingest bad timed = \<lparr>ie_reader = \<lparr>
       pr_poolState = (\<lambda>p w. (Some \<lparr>ps_token0 = ''0xa'', ps_token1 = ''0xb'', ps_sqrtPriceX96 = 79228162514264337593543950336\<rparr>, w)),
       pr_head = (\<lambda>w. (Ok 30, w)), pr_swapEvents = (\<lambda>p a b w. (Some (if a \<le> 5 \<and> 5 \<le> b then [sample_event] else []), w)),
       pr_blockTimestamp = (\<lambda>b w. (if timed then Some (b * 2000) else None, w)),
       pr_tokenBalance = (\<lambda>t h w. (None, w)), pr_totalSupply = (\<lambda>t w. (None, w))\<rparr>,
     ie_pow10 = (\<lambda>_. Fin 1), ie_decimal = (\<lambda>x. case x of Fin r \<Rightarrow> r | _ \<Rightarrow> 0),
     ie_commit = (\<lambda>w. (if Some w = bad then NotCommitted else Committed, Suc w)), ie_now = (\<lambda>w. (0, w))\<rparr>"

definition sample_ingest_state :: "nat ingest_state" where
  "sample_ingest_state = \<lparr>is_world = 0, is_swaps = [], is_wallets = [], is_cursor = (\<lambda>_. Some 0), is_candles = [],
     is_prices = (\<lambda>_. None), is_liquidity = (\<lambda>_. None), is_marketCap = (\<lambda>_. None), is_priceAt = (\<lambda>_. None), is_rollups = (\<lambda>_. None), is_skipped = []\<rparr>"

end
