(* ===== verification/MarketTick.thy ===== *)
theory MarketTick
  imports Ingestion
begin

section \<open>A tick over all markets\<close>

text \<open>
  \<open>apps/workers/src/market/ingestion.ts\<close>: the refresh of prices and liquidity in dependency order,
  and the scan of every market.  \<open>forEachLimited\<close> is modelled with one market in flight: markets touch
  disjoint columns and only add rows, so their order does not matter to what is proved.
\<close>

record market_service =
  ms_quoteUsdcAddress :: string
  ms_seeds :: "(string \<times> string) list"

text \<open>What the service keeps in memory from tick to tick; \<open>sm_scans\<close> is the history of scans, with the
  quote price each one used, for the statements below.\<close>

record service_memory =
  sm_tickCount :: nat
  sm_priceDoneAt :: "string \<Rightarrow> int option"
  sm_swapsDoneAt :: "string \<Rightarrow> int option"
  sm_scans :: "(string \<times> jsnum) list"

definition STAGE_BUDGET_MS :: int where "STAGE_BUDGET_MS = 40000"

definition isShadowOfSeed :: "market_service \<Rightarrow> tracked_market \<Rightarrow> bool" where
  "isShadowOfSeed sv m =
     (case map_of (rev (map (\<lambda>(token, pool). (to_lower token, to_lower pool)) (ms_seeds sv)))
             (to_lower (mt_contractAddress (tm_base m))) of
        None \<Rightarrow> False
      | Some seedPool \<Rightarrow> seedPool \<noteq> to_lower (tm_pair m))"

definition isDormant :: "market_service \<Rightarrow> 'w ingest_state \<Rightarrow> tracked_market \<Rightarrow> bool" where
  "isDormant sv s m =
     (if to_lower (mt_contractAddress (tm_base m)) \<in> set (map (to_lower \<circ> fst) (ms_seeds sv)) then False
      else (case is_liquidity s (tm_marketId m) of None \<Rightarrow> False | Some l \<Rightarrow> nlt (to_num l) minLiquidityUsd))"

definition isFullTick :: "service_memory \<Rightarrow> bool" where
  "isFullTick mem = (sm_tickCount mem mod DORMANT_REFRESH_EVERY_N_TICKS = 1)"

definition fairOrder :: "(string \<Rightarrow> int option) \<Rightarrow> 'w ingest_state \<Rightarrow> tracked_market list \<Rightarrow> tracked_market list" where
  "fairOrder lastDone s =
     sort_by (\<lambda>a b.
       let doneAt = (\<lambda>m. case lastDone (tm_marketId m) of None \<Rightarrow> 0 | Some t \<Rightarrow> t);
           depth = (\<lambda>m. case is_liquidity s (tm_marketId m) of None \<Rightarrow> Fin 0 | Some l \<Rightarrow> to_num l)
       in doneAt a < doneAt b \<or> doneAt a = doneAt b \<and> ngt (depth a) (depth b))"

subsection \<open>Prices\<close>

type_synonym resolved = "(string \<times> jsnum) list"

definition quote_usd :: "resolved \<Rightarrow> tracked_market \<Rightarrow> jsnum option" where
  "quote_usd prices m = map_of prices (to_lower (mt_contractAddress (tm_quote m)))"

text \<open>The base token's dollar price, or \<open>None\<close> when the market is skipped.\<close>

definition base_usd :: "'w ingest_env \<Rightarrow> tracked_market \<Rightarrow> resolved \<Rightarrow> PoolState \<Rightarrow> jsnum option" where
  "base_usd env m prices ps =
     (case (event_price env m (base_is_token0 m ps) (ps_sqrtPriceX96 ps), quote_usd prices m) of
        (Some quotePerBase, Some quoteUsd) \<Rightarrow>
          let baseUsd = nmul quotePerBase quoteUsd in
          if isPlausibleUsd baseUsd MAX_PLAUSIBLE_PRICE_USD then Some baseUsd else None
      | _ \<Rightarrow> None)"

definition pool_liquidity ::
    "'w ingest_env \<Rightarrow> tracked_market \<Rightarrow> bool \<Rightarrow> jsnum \<Rightarrow> jsnum \<Rightarrow> int option \<Rightarrow> int option \<Rightarrow> jsnum option" where
  "pool_liquidity env m base0 baseUsd quoteUsd balance0 balance1 =
     (case (balance0, balance1) of
        (Some b0, Some b1) \<Rightarrow>
          let (d0, d1) = pool_decimals m base0 in
          computePoolLiquidityUsd (ie_pow10 env) b0 d0 (Some (if base0 then baseUsd else quoteUsd))
            b1 d1 (Some (if base0 then quoteUsd else baseUsd)) (Some (if base0 then Token1 else Token0))
      | _ \<Rightarrow> None)"

text \<open>\<open>?? undefined\<close>: a value that could not be computed leaves its column alone.\<close>

definition keep_or :: "rat option \<Rightarrow> jsnum option \<Rightarrow> (jsnum \<Rightarrow> rat) \<Rightarrow> rat option" where
  "keep_or old new dec = (case new of None \<Rightarrow> old | Some v \<Rightarrow> Some (dec v))"

definition write_price ::
    "'w ingest_env \<Rightarrow> int \<Rightarrow> tracked_market \<Rightarrow> jsnum \<Rightarrow> jsnum option \<Rightarrow> jsnum option \<Rightarrow> 'w ingest_state \<Rightarrow> 'w ingest_state" where
  "write_price env now m baseUsd liquidityUsd marketCapUsd s =
     s\<lparr>is_prices := (is_prices s)(tm_marketId m := Some (ie_decimal env baseUsd)),
       is_liquidity := (is_liquidity s)(tm_marketId m := keep_or (is_liquidity s (tm_marketId m)) liquidityUsd (ie_decimal env)),
       is_marketCap := (is_marketCap s)(tm_marketId m := keep_or (is_marketCap s (tm_marketId m)) marketCapUsd (ie_decimal env)),
       is_priceAt := (is_priceAt s)(tm_marketId m := Some now)\<rparr>"

text \<open>The reads of a priced market and the write of its columns.\<close>

definition store_price ::
    "'w ingest_env \<Rightarrow> tracked_market \<Rightarrow> PoolState \<Rightarrow> jsnum \<Rightarrow> jsnum \<Rightarrow> ('w ingest_state, bool) remote" where
  "store_price env m ps baseUsd quoteUsd =
     then_remote (observing (pr_tokenBalance (ie_reader env) (ps_token0 ps) (tm_pair m))) (\<lambda>balance0.
     then_remote (observing (pr_tokenBalance (ie_reader env) (ps_token1 ps) (tm_pair m))) (\<lambda>balance1.
     then_remote (observing (pr_totalSupply (ie_reader env) (mt_contractAddress (tm_base m)))) (\<lambda>supply.
     then_remote (observing (ie_now env)) (\<lambda>now.
     then_remote (writing env (write_price env now m baseUsd
         (pool_liquidity env m (base_is_token0 m ps) baseUsd quoteUsd balance0 balance1)
         (case supply of None \<Rightarrow> None
          | Some n \<Rightarrow> computeFullyDilutedMarketCapUsd (ie_pow10 env) n (num_decimals (tm_base m)) (Some baseUsd)))) (\<lambda>_.
       return_remote (Ok True))))))"

text \<open>The resolved prices are kept even when the write that follows fails.\<close>

definition refreshOneMarket ::
    "'w ingest_env \<Rightarrow> tracked_market \<Rightarrow> resolved \<Rightarrow> 'w ingest_state \<Rightarrow> ((js_error, bool) result \<times> resolved) \<times> 'w ingest_state" where
  "refreshOneMarket env m prices s =
     (if mt_decimals (tm_base m) = None \<or> mt_decimals (tm_quote m) = None then ((Ok False, prices), s)
      else case pr_poolState (ie_reader env) (tm_pair m) (is_world s) of
        (None, w) \<Rightarrow> ((Ok False, prices), s\<lparr>is_world := w\<rparr>)
      | (Some ps, w) \<Rightarrow>
          (case (base_usd env m prices ps, quote_usd prices m) of
             (Some baseUsd, Some quoteUsd) \<Rightarrow>
               (case store_price env m ps baseUsd quoteUsd (s\<lparr>is_world := w\<rparr>) of
                  (r, s1) \<Rightarrow> ((r, (to_lower (mt_contractAddress (tm_base m)), baseUsd) # prices), s1))
           | _ \<Rightarrow> ((Ok False, prices), s\<lparr>is_world := w\<rparr>)))"

record refresh_progress =
  rp_prices :: resolved
  rp_unresolved :: "tracked_market list"
  rp_updated :: nat
  rp_skipped :: nat

text \<open>One pass: no market is started after the deadline, a market whose quote token has no price yet
  waits for the next pass, an error is logged and the next market goes on.\<close>

fun refresh_pass ::
    "'w ingest_env \<Rightarrow> int \<Rightarrow> tracked_market list \<Rightarrow> refresh_progress \<Rightarrow> service_memory \<Rightarrow> 'w ingest_state
     \<Rightarrow> refresh_progress \<times> service_memory \<times> 'w ingest_state" where
  "refresh_pass env deadline [] rp mem s = (rp, mem, s)"
| "refresh_pass env deadline (m # ms) rp mem s =
     (case ie_now env (is_world s) of
        (now, w) \<Rightarrow>
          if deadline \<le> now then (rp, mem, s\<lparr>is_world := w\<rparr>)
          else if quote_usd (rp_prices rp) m = None
          then refresh_pass env deadline ms (rp\<lparr>rp_unresolved := rp_unresolved rp @ [m]\<rparr>) mem (s\<lparr>is_world := w\<rparr>)
          else case refreshOneMarket env m (rp_prices rp) (s\<lparr>is_world := w\<rparr>) of
                 ((r, prices1), s1) \<Rightarrow>
                   (case ie_now env (is_world s1) of
                      (now1, w1) \<Rightarrow>
                        refresh_pass env deadline ms
                          (if r = Ok True then rp\<lparr>rp_prices := prices1, rp_updated := rp_updated rp + 1\<rparr>
                           else rp\<lparr>rp_prices := prices1, rp_skipped := rp_skipped rp + 1\<rparr>)
                          (mem\<lparr>sm_priceDoneAt := (sm_priceDoneAt mem)(tm_marketId m := Some now1)\<rparr>)
                          (s1\<lparr>is_world := w1\<rparr>)))"

fun refresh_passes ::
    "'w ingest_env \<Rightarrow> int \<Rightarrow> nat \<Rightarrow> bool \<Rightarrow> tracked_market list \<Rightarrow> refresh_progress \<Rightarrow> service_memory \<Rightarrow> 'w ingest_state
     \<Rightarrow> tracked_market list \<times> refresh_progress \<times> service_memory \<times> 'w ingest_state" where
  "refresh_passes env deadline 0 first remaining rp mem s = (remaining, rp, mem, s)"
| "refresh_passes env deadline (Suc n) first remaining rp mem s =
     (if remaining = [] then ([], rp, mem, s)
      else case refresh_pass env (if first then deadline else deadline + STAGE_BUDGET_MS div 2) remaining
                  (rp\<lparr>rp_unresolved := []\<rparr>) mem s of
             (rp1, mem1, s1) \<Rightarrow>
               if length (rp_unresolved rp1) = length remaining then (remaining, rp1, mem1, s1)
               else refresh_passes env deadline n False (rp_unresolved rp1) rp1 mem1 s1)"

definition refreshPricesAndLiquidity ::
    "'w ingest_env \<Rightarrow> market_service \<Rightarrow> tracked_market list \<Rightarrow> service_memory \<Rightarrow> 'w ingest_state
     \<Rightarrow> (nat \<times> nat) \<times> service_memory \<times> 'w ingest_state" where
  "refreshPricesAndLiquidity env sv allMarkets mem s =
     (let mem = mem\<lparr>sm_tickCount := sm_tickCount mem + 1\<rparr>;
          live = filter (\<lambda>m. \<not> isShadowOfSeed sv m) allMarkets;
          markets = (if isFullTick mem then live else filter (\<lambda>m. \<not> isDormant sv s m) live)
      in case ie_now env (is_world s) of
           (startedAt, w) \<Rightarrow>
             (case refresh_passes env (startedAt + STAGE_BUDGET_MS) MAX_RESOLUTION_PASSES True
                     (fairOrder (sm_priceDoneAt mem) s markets)
                     \<lparr>rp_prices = [(to_lower (ms_quoteUsdcAddress sv), Fin 1)], rp_unresolved = [], rp_updated = 0, rp_skipped = 0\<rparr>
                     mem (s\<lparr>is_world := w\<rparr>) of
                (remaining, rp, mem1, s1) \<Rightarrow> ((rp_updated rp, rp_skipped rp + length remaining), mem1, s1)))"

subsection \<open>Swaps\<close>

text \<open>This tick's quote prices: USDC, then the stored price of every market's base token.\<close>

definition quote_prices :: "market_service \<Rightarrow> tracked_market list \<Rightarrow> 'w ingest_state \<Rightarrow> resolved" where
  "quote_prices sv markets s =
     fold (\<lambda>m prices. case is_prices s (tm_marketId m) of
         None \<Rightarrow> prices | Some p \<Rightarrow> (to_lower (mt_contractAddress (tm_base m)), to_num p) # prices)
       markets [(to_lower (ms_quoteUsdcAddress sv), Fin 1)]"

text \<open>The markets in order, each with the row read at the start of the tick: its cursor and whether
  it is skipped this time.\<close>

record market_row =
  mr_market :: tracked_market
  mr_cursor :: "int option"
  mr_skip :: bool

definition scan_row ::
    "'w ingest_env \<Rightarrow> resolved \<Rightarrow> market_row \<Rightarrow> service_memory \<Rightarrow> 'w ingest_state \<Rightarrow> service_memory \<times> 'w ingest_state" where
  "scan_row env quotes row mem s =
     (case (mr_cursor row, mr_skip row, quote_usd quotes (mr_market row)) of
        (Some c, False, Some quoteUsd) \<Rightarrow>
          (case ingestSwapsForMarket env (mr_market row) c quoteUsd s of
             (r, s1) \<Rightarrow>
               (case ie_now env (is_world s1) of
                  (now, w) \<Rightarrow>
                    (mem\<lparr>sm_swapsDoneAt := (sm_swapsDoneAt mem)(tm_marketId (mr_market row) := Some now),
                         sm_scans := sm_scans mem @ [(tm_marketId (mr_market row), quoteUsd)]\<rparr>,
                     s1\<lparr>is_world := w\<rparr>)))
      | _ \<Rightarrow> (mem, s))"

fun scan_markets ::
    "'w ingest_env \<Rightarrow> int \<Rightarrow> resolved \<Rightarrow> market_row list \<Rightarrow> service_memory \<Rightarrow> 'w ingest_state
     \<Rightarrow> service_memory \<times> 'w ingest_state" where
  "scan_markets env deadline quotes [] mem s = (mem, s)"
| "scan_markets env deadline quotes (row # rows) mem s =
     (case ie_now env (is_world s) of
        (now, w) \<Rightarrow>
          if deadline \<le> now then (mem, s\<lparr>is_world := w\<rparr>)
          else case scan_row env quotes row mem (s\<lparr>is_world := w\<rparr>) of
                 (mem1, s1) \<Rightarrow> scan_markets env deadline quotes rows mem1 s1)"

definition ingestSwaps ::
    "'w ingest_env \<Rightarrow> market_service \<Rightarrow> tracked_market list \<Rightarrow> service_memory \<Rightarrow> 'w ingest_state
     \<Rightarrow> service_memory \<times> 'w ingest_state" where
  "ingestSwaps env sv markets mem s =
     (let quotes = quote_prices sv markets s;
          rows = map (\<lambda>m. \<lparr>mr_market = m, mr_cursor = is_cursor s (tm_marketId m),
              mr_skip = (isShadowOfSeed sv m \<or> \<not> isFullTick mem \<and> isDormant sv s m)\<rparr>)
            (fairOrder (sm_swapsDoneAt mem) s markets)
      in case ie_now env (is_world s) of
           (startedAt, w) \<Rightarrow> scan_markets env (startedAt + STAGE_BUDGET_MS) quotes rows mem (s\<lparr>is_world := w\<rparr>))"

text \<open>One tick of the worker, and a run of them, each over the markets tracked at the time.\<close>

definition market_tick ::
    "'w ingest_env \<Rightarrow> market_service \<Rightarrow> tracked_market list \<Rightarrow> service_memory \<times> 'w ingest_state \<Rightarrow> service_memory \<times> 'w ingest_state" where
  "market_tick env sv markets st =
     (case refreshPricesAndLiquidity env sv markets (fst st) (snd st) of
        (counts, mem, s) \<Rightarrow> ingestSwaps env sv markets mem s)"

fun market_ticks ::
    "'w ingest_env \<Rightarrow> market_service \<Rightarrow> tracked_market list list \<Rightarrow> service_memory \<times> 'w ingest_state
     \<Rightarrow> service_memory \<times> 'w ingest_state" where
  "market_ticks env sv [] st = st"
| "market_ticks env sv (ms # mss) st = market_ticks env sv mss (market_tick env sv ms st)"

subsection \<open>Prices stay plausible, tables untouched\<close>

definition same_tables :: "'w ingest_state \<Rightarrow> 'w ingest_state \<Rightarrow> bool" where
  "same_tables s s' \<longleftrightarrow> is_swaps s' = is_swaps s \<and> is_cursor s' = is_cursor s \<and> is_skipped s' = is_skipped s"

definition plausible_prices :: "'w ingest_env \<Rightarrow> 'w ingest_state \<Rightarrow> 'w ingest_state \<Rightarrow> bool" where
  "plausible_prices env s s' \<longleftrightarrow> (\<forall>k. is_prices s' k = is_prices s k
     \<or> (\<exists>p. isPlausibleUsd p MAX_PLAUSIBLE_PRICE_USD \<and> is_prices s' k = Some (ie_decimal env p)))"

definition refresh_frame :: "'w ingest_env \<Rightarrow> 'w ingest_state \<Rightarrow> 'w ingest_state \<Rightarrow> bool" where
  "refresh_frame env s s' \<longleftrightarrow> same_tables s s' \<and> plausible_prices env s s'"

lemma refresh_frame_trans: "refresh_frame env s s1 \<Longrightarrow> refresh_frame env s1 s2 \<Longrightarrow> refresh_frame env s s2"
  unfolding refresh_frame_def same_tables_def plausible_prices_def by metis

interpretation refresh: write_frame "refresh_frame env" for env
  by unfold_locales (simp add: refresh_frame_def same_tables_def plausible_prices_def, rule refresh_frame_trans)

lemma refresh_frame_refl [simp]: "refresh_frame env s s" "refresh_frame env s (s\<lparr>is_world := w\<rparr>)"
  by (rule refresh.same, rule refresh.world)

lemma write_price_frame:
  "isPlausibleUsd p MAX_PLAUSIBLE_PRICE_USD \<Longrightarrow> refresh_frame env s (write_price env now m p l c s)"
  by (auto simp: refresh_frame_def same_tables_def plausible_prices_def write_price_def)

lemma base_usd_plausible: "base_usd env m prices ps = Some p \<Longrightarrow> isPlausibleUsd p MAX_PLAUSIBLE_PRICE_USD"
  by (auto simp: base_usd_def Let_def split: option.splits if_splits)

lemma keeps_store_price:
  "isPlausibleUsd p MAX_PLAUSIBLE_PRICE_USD \<Longrightarrow> keeps (refresh_frame env) (store_price env m ps p q)"
  unfolding store_price_def by (intro refresh.keeps_intros write_price_frame)

lemma refreshOneMarket_frame:
  assumes "refreshOneMarket env m prices s = ((r, prices'), s')"
  shows "refresh_frame env s s'"
proof -
  obtain pool w where po: "pr_poolState (ie_reader env) (tm_pair m) (is_world s) = (pool, w)" by (metis surj_pair)
  show ?thesis
  proof (cases "\<exists>ps p q. pool = Some ps \<and> base_usd env m prices ps = Some p \<and> quote_usd prices m = Some q
      \<and> mt_decimals (tm_base m) \<noteq> None \<and> mt_decimals (tm_quote m) \<noteq> None")
    case False
    with assms po have "s' = s \<or> s' = s\<lparr>is_world := w\<rparr>"
      by (auto simp: refreshOneMarket_def split: option.splits if_splits)
    then show ?thesis by auto
  next
    case True
    then obtain ps p q where pq: "pool = Some ps" "base_usd env m prices ps = Some p" "quote_usd prices m = Some q"
      and "mt_decimals (tm_base m) \<noteq> None \<and> mt_decimals (tm_quote m) \<noteq> None" by blast
    with assms po have "store_price env m ps p q (s\<lparr>is_world := w\<rparr>) = (r, s')"
      by (auto simp: refreshOneMarket_def split: prod.splits)
    from keepsD [OF keeps_store_price [OF base_usd_plausible [OF pq(2)]] this] refresh_frame_refl(2)
    show ?thesis by (rule refresh_frame_trans [rotated])
  qed
qed

lemma refresh_pass_frame:
  "refresh_pass env deadline ms rp mem s = (rp', mem', s') \<Longrightarrow> refresh_frame env s s' \<and> sm_scans mem' = sm_scans mem"
proof (induction env deadline ms rp mem s arbitrary: rp' mem' s' rule: refresh_pass.induct)
  case (2 env deadline m ms rp mem s)
  obtain now w where w: "ie_now env (is_world s) = (now, w)" by (metis surj_pair)
  obtain r prices1 s1 where o1: "refreshOneMarket env m (rp_prices rp) (s\<lparr>is_world := w\<rparr>) = ((r, prices1), s1)"
    by (metis surj_pair)
  obtain now1 w1 where w1: "ie_now env (is_world s1) = (now1, w1)" by (metis surj_pair)
  have f1: "refresh_frame env s (s1\<lparr>is_world := w1\<rparr>)"
    using refreshOneMarket_frame [OF o1] refresh_frame_trans refresh_frame_refl by metis
  show ?case
  proof (cases "deadline \<le> now")
    case True
    with 2(3) w show ?thesis by auto
  next
    case late: False
    show ?thesis
    proof (cases "quote_usd (rp_prices rp) m = None")
      case True
      with 2(3) w late have "refresh_pass env deadline ms (rp\<lparr>rp_unresolved := rp_unresolved rp @ [m]\<rparr>) mem (s\<lparr>is_world := w\<rparr>)
          = (rp', mem', s')" by simp
      from 2(1) [OF w [symmetric] late True this] show ?thesis
        by (auto intro: refresh_frame_trans [OF refresh_frame_refl(2)])
    next
      case False
      with 2(3) w late o1 w1 have "refresh_pass env deadline ms
          (if r = Ok True then rp\<lparr>rp_prices := prices1, rp_updated := rp_updated rp + 1\<rparr>
           else rp\<lparr>rp_prices := prices1, rp_skipped := rp_skipped rp + 1\<rparr>)
          (mem\<lparr>sm_priceDoneAt := (sm_priceDoneAt mem)(tm_marketId m := Some now1)\<rparr>) (s1\<lparr>is_world := w1\<rparr>) = (rp', mem', s')"
        by simp
      from 2(2) [OF w [symmetric] late False o1 [symmetric] refl w1 [symmetric] this] f1 show ?thesis
        by (auto intro: refresh_frame_trans)
    qed
  qed
qed simp

lemma refresh_passes_frame:
  "refresh_passes env deadline n first remaining rp mem s = (remaining', rp', mem', s')
    \<Longrightarrow> refresh_frame env s s' \<and> sm_scans mem' = sm_scans mem"
proof (induction env deadline n first remaining rp mem s arbitrary: remaining' rp' mem' s' rule: refresh_passes.induct)
  case (2 env deadline n first remaining rp mem s)
  obtain rp1 mem1 s1 where p: "refresh_pass env (if first then deadline else deadline + STAGE_BUDGET_MS div 2) remaining
      (rp\<lparr>rp_unresolved := []\<rparr>) mem s = (rp1, mem1, s1)" by (metis surj_pair)
  note f = refresh_pass_frame [OF p]
  show ?case
  proof (cases "remaining = [] \<or> length (rp_unresolved rp1) = length remaining")
    case True
    with 2(2) p f show ?thesis by (auto split: if_splits)
  next
    case False
    with 2(2) p have "refresh_passes env deadline n False (rp_unresolved rp1) rp1 mem1 s1 = (remaining', rp', mem', s')"
      by simp
    from 2(1) [OF _ p [symmetric] refl _ this] False f show ?thesis by (auto intro: refresh_frame_trans)
  qed
qed simp

lemma refresh_tables:
  assumes "refreshPricesAndLiquidity env sv markets mem s = (counts, mem', s')"
  shows "refresh_frame env s s' \<and> sm_scans mem' = sm_scans mem"
proof -
  obtain now w where w: "ie_now env (is_world s) = (now, w)" by (metis surj_pair)
  obtain x where "\<exists>remaining rp ms rp0 mem0. refresh_passes env (now + STAGE_BUDGET_MS) MAX_RESOLUTION_PASSES True ms rp0 mem0 (s\<lparr>is_world := w\<rparr>)
      = (remaining, rp, mem', s') \<and> sm_scans mem0 = sm_scans mem"
    using assms w by (fastforce simp: refreshPricesAndLiquidity_def Let_def split: prod.splits)
  then show ?thesis using refresh_passes_frame refresh_frame_trans refresh_frame_refl(2) by metis
qed

subsection \<open>No swap is lost\<close>

definition used_quotes :: "tracked_market \<Rightarrow> service_memory \<Rightarrow> jsnum set" where
  "used_quotes m mem = {q. (tm_marketId m, q) \<in> set (sm_scans mem)}"

lemma covered_more: "covered env m base0 qs events lo hi s \<Longrightarrow> qs \<subseteq> qs' \<Longrightarrow> covered env m base0 qs' events lo hi s"
  by (fastforce simp: covered_def accounted_def)

text \<open>What the ticks keep of one market: its cursor, and that everything up to it is accounted for.\<close>

definition on_track ::
    "'w ingest_env \<Rightarrow> tracked_market \<Rightarrow> bool \<Rightarrow> (int \<Rightarrow> pool_event list) \<Rightarrow> int \<Rightarrow> int \<Rightarrow> service_memory \<times> 'w ingest_state \<Rightarrow> bool" where
  "on_track env m base0 events lo c st \<longleftrightarrow>
     is_cursor (snd st) (tm_marketId m) = Some c \<and> distinct (swap_keys (snd st))
     \<and> covered env m base0 (used_quotes m (fst st)) events lo c (snd st)"

lemma on_track_frame:
  assumes "on_track env m base0 events lo c (mem, s)" "grows s s'" "is_cursor s' (tm_marketId m) = is_cursor s (tm_marketId m)"
    "set (sm_scans mem) \<subseteq> set (sm_scans mem')"
  shows "on_track env m base0 events lo c (mem', s')"
proof -
  have "used_quotes m mem \<subseteq> used_quotes m mem'" using assms(4) by (auto simp: used_quotes_def)
  then show ?thesis
    using assms(1-3) covered_more [OF covered_grows [OF _ assms(2)]] by (auto simp: on_track_def grows_def)
qed

lemma same_tables_grows: "same_tables s s' \<Longrightarrow> grows s s'"
  by (simp add: same_tables_def grows_def)

lemma world_grows [simp]: "grows s (s\<lparr>is_world := w\<rparr>)" "grows s s' \<Longrightarrow> grows s (s'\<lparr>is_world := w\<rparr>)"
  by (simp_all add: grows_def)

text \<open>The scan of the market itself, and of another one.\<close>

lemma scan_own:
  assumes "on_track env m base0 events lo c (mem, s)" "ingestSwapsForMarket env m c q s = (r, s')"
    "faithful_reader env m events" "fixed_orientation env m base0"
    "sm_scans mem' = sm_scans mem @ [(tm_marketId m, q)]"
  shows "\<exists>c'\<ge>c. on_track env m base0 events lo c' (mem', s'\<lparr>is_world := w\<rparr>)"
proof -
  have q: "q \<in> used_quotes m mem'" "used_quotes m mem \<subseteq> used_quotes m mem'"
    by (auto simp: used_quotes_def assms(5))
  have c: "is_cursor s (tm_marketId m) = Some c" "covered env m base0 (used_quotes m mem') events lo c s"
    using assms(1) q(2) by (auto simp: on_track_def intro: covered_more)
  from ingest_market_step [OF assms(2,3) q(1) assms(4) c] assms(1) show ?thesis
    by (auto simp: sound_at_def on_track_def grows_def covered_def accounted_def)
qed

lemma scan_other:
  assumes "on_track env m base0 events lo c (mem, s)" "ingestSwapsForMarket env m' c' q s = (r, s')"
    "tm_marketId m' \<noteq> tm_marketId m" "set (sm_scans mem) \<subseteq> set (sm_scans mem')"
  shows "on_track env m base0 events lo c (mem', s'\<lparr>is_world := w\<rparr>)"
  using keepsD [OF keeps_market assms(2)] assms(1,3,4)
  by (intro on_track_frame [OF assms(1)]) (auto simp: local_to_def)

lemma scan_row_step:
  assumes "scan_row env quotes row mem s = (mem', s')" "on_track env m base0 events lo c (mem, s)"
    "faithful_reader env m events" "fixed_orientation env m base0"
    "mr_market row = m \<or> tm_marketId (mr_market row) \<noteq> tm_marketId m" "mr_market row = m \<Longrightarrow> mr_cursor row = Some c"
  shows "\<exists>c'\<ge>c. on_track env m base0 events lo c' (mem', s')"
    "mr_market row \<noteq> m \<Longrightarrow> on_track env m base0 events lo c (mem', s')"
proof -
  have "(\<exists>c'\<ge>c. on_track env m base0 events lo c' (mem', s')) \<and> (mr_market row \<noteq> m \<longrightarrow> on_track env m base0 events lo c (mem', s'))"
  proof (cases "\<exists>c0 q. mr_cursor row = Some c0 \<and> \<not> mr_skip row \<and> quote_usd quotes (mr_market row) = Some q")
    case False
    with assms(1) have "(mem', s') = (mem, s)" by (auto simp: scan_row_def split: option.splits bool.splits)
    with assms(2) show ?thesis by auto
  next
    case True
    then obtain c0 q where row: "mr_cursor row = Some c0" "\<not> mr_skip row" "quote_usd quotes (mr_market row) = Some q" by blast
    obtain r s1 where i: "ingestSwapsForMarket env (mr_market row) c0 q s = (r, s1)" by (metis surj_pair)
    obtain now w where w: "ie_now env (is_world s1) = (now, w)" by (metis surj_pair)
    from assms(1) row i w have st: "sm_scans mem' = sm_scans mem @ [(tm_marketId (mr_market row), q)]" "s' = s1\<lparr>is_world := w\<rparr>"
      by (auto simp: scan_row_def)
    show ?thesis
    proof (cases "mr_market row = m")
      case True
      with assms(6) row i have "ingestSwapsForMarket env m c q s = (r, s1)" by simp
      from scan_own [OF assms(2) this assms(3,4)] st True show ?thesis by blast
    next
      case False
      with assms(5) have "tm_marketId (mr_market row) \<noteq> tm_marketId m" by simp
      from scan_other [OF assms(2) i this, of mem' w] st False show ?thesis by auto
    qed
  qed
  then show "\<exists>c'\<ge>c. on_track env m base0 events lo c' (mem', s')"
    "mr_market row \<noteq> m \<Longrightarrow> on_track env m base0 events lo c (mem', s')" by auto
qed

lemma scan_markets_step:
  assumes "scan_markets env deadline quotes rows mem s = (mem', s')"
    "distinct (map (\<lambda>row. tm_marketId (mr_market row)) rows)"
    "\<forall>row\<in>set rows. mr_market row = m \<or> tm_marketId (mr_market row) \<noteq> tm_marketId m"
    "\<forall>row\<in>set rows. mr_market row = m \<longrightarrow> mr_cursor row = Some c"
    "faithful_reader env m events" "fixed_orientation env m base0" "on_track env m base0 events lo c (mem, s)"
  shows "\<exists>c'\<ge>c. on_track env m base0 events lo c' (mem', s')"
  using assms
proof (induction rows arbitrary: mem s c)
  case Nil
  then show ?case by auto
next
  case (Cons row rows)
  obtain now w where w: "ie_now env (is_world s) = (now, w)" by (metis surj_pair)
  let ?s = "s\<lparr>is_world := w\<rparr>"
  have track: "on_track env m base0 events lo c (mem, ?s)"
    by (rule on_track_frame [OF Cons.prems(7)]) simp_all
  show ?case
  proof (cases "deadline \<le> now")
    case True
    with Cons.prems(1) w track show ?thesis by auto
  next
    case False
    obtain mem1 s1 where r: "scan_row env quotes row mem ?s = (mem1, s1)" by (metis surj_pair)
    with Cons.prems(1) w False have run: "scan_markets env deadline quotes rows mem1 s1 = (mem', s')" by simp
    have rowm: "mr_market row = m \<or> tm_marketId (mr_market row) \<noteq> tm_marketId m" "mr_market row = m \<Longrightarrow> mr_cursor row = Some c"
      using Cons.prems(3,4) by auto
    have step: "\<exists>c'\<ge>c. on_track env m base0 events lo c' (mem1, s1)"
      by (rule scan_row_step(1) [OF r track Cons.prems(5,6) rowm])
    have stay: "on_track env m base0 events lo c (mem1, s1)" if "mr_market row \<noteq> m"
      by (rule scan_row_step(2) [OF r track Cons.prems(5,6) rowm that])
    have d: "distinct (map (\<lambda>row. tm_marketId (mr_market row)) rows)" using Cons.prems(2) by simp
    have ids: "\<forall>row\<in>set rows. mr_market row = m \<or> tm_marketId (mr_market row) \<noteq> tm_marketId m"
      using Cons.prems(3) by simp
    show ?thesis
    proof (cases "mr_market row = m")
      case True
      have others: "\<forall>row\<in>set rows. mr_market row \<noteq> m"
      proof
        fix row' assume "row' \<in> set rows"
        with Cons.prems(2) have "tm_marketId (mr_market row') \<noteq> tm_marketId (mr_market row)" by (auto simp: image_iff)
        with True show "mr_market row' \<noteq> m" by auto
      qed
      then have "\<forall>row\<in>set rows. mr_market row = m \<longrightarrow> mr_cursor row = Some c1" for c1 by blast
      from step Cons.IH [OF run d ids this Cons.prems(5,6)] show ?thesis by (meson order_trans)
    next
      case False
      have "\<forall>row\<in>set rows. mr_market row = m \<longrightarrow> mr_cursor row = Some c" using Cons.prems(4) by simp
      from Cons.IH [OF run d ids this Cons.prems(5,6) stay [OF False]] show ?thesis .
    qed
  qed
qed

lemma mset_map_distinct:
  assumes "mset xs = mset ys"
  shows "distinct (map f xs) = distinct (map f ys)"
proof -
  have "mset (map f xs) = mset (map f ys)" by (simp add: assms)
  then show ?thesis by (rule mset_eq_imp_distinct_iff)
qed

lemma mset_fairOrder [simp]: "mset (fairOrder lastDone s ms) = mset ms"
  by (simp add: fairOrder_def)

lemma set_fairOrder [simp]: "set (fairOrder lastDone s ms) = set ms"
  by (rule mset_eq_setD) simp

lemma market_tick_step:
  assumes "on_track env m base0 events lo c st" "faithful_reader env m events" "fixed_orientation env m base0"
    "distinct (map tm_marketId markets)" "\<forall>m'\<in>set markets. m' = m \<or> tm_marketId m' \<noteq> tm_marketId m"
  shows "\<exists>c'\<ge>c. on_track env m base0 events lo c' (market_tick env sv markets st)"
proof -
  obtain mem s where st: "st = (mem, s)" by (metis surj_pair)
  obtain counts mem1 s1 where r: "refreshPricesAndLiquidity env sv markets mem s = (counts, mem1, s1)" by (metis surj_pair)
  from refresh_tables [OF r] have f: "same_tables s s1" "sm_scans mem1 = sm_scans mem" by (auto simp: refresh_frame_def)
  obtain now w where w: "ie_now env (is_world s1) = (now, w)" by (metis surj_pair)
  have g: "grows s (s1\<lparr>is_world := w\<rparr>)" "is_cursor (s1\<lparr>is_world := w\<rparr>) (tm_marketId m) = is_cursor s (tm_marketId m)"
    using f(1) by (simp_all add: same_tables_def grows_def)
  have track: "on_track env m base0 events lo c (mem1, s1\<lparr>is_world := w\<rparr>)"
    by (rule on_track_frame [OF assms(1) [unfolded st] g]) (simp add: f(2))
  then have cur: "is_cursor s1 (tm_marketId m) = Some c" by (simp add: on_track_def)
  let ?rows = "map (\<lambda>m. \<lparr>mr_market = m, mr_cursor = is_cursor s1 (tm_marketId m),
              mr_skip = (isShadowOfSeed sv m \<or> \<not> isFullTick mem1 \<and> isDormant sv s1 m)\<rparr>)
            (fairOrder (sm_swapsDoneAt mem1) s1 markets)"
  obtain mem2 s2 where scan: "scan_markets env (now + STAGE_BUDGET_MS) (quote_prices sv markets s1) ?rows mem1 (s1\<lparr>is_world := w\<rparr>) = (mem2, s2)"
    by (rule prod.exhaust)
  then have tick: "market_tick env sv markets st = (mem2, s2)"
    by (simp add: market_tick_def st r ingestSwaps_def Let_def w)
  have d: "distinct (map (\<lambda>row. tm_marketId (mr_market row)) ?rows)"
    using assms(4) mset_map_distinct [OF mset_fairOrder [of "sm_swapsDoneAt mem1" s1 markets], of tm_marketId]
    by (simp add: comp_def)
  have ids: "\<forall>row\<in>set ?rows. mr_market row = m \<or> tm_marketId (mr_market row) \<noteq> tm_marketId m"
    using assms(5) by simp
  have cursors: "\<forall>row\<in>set ?rows. mr_market row = m \<longrightarrow> mr_cursor row = Some c"
    using cur by simp
  show ?thesis unfolding tick by (rule scan_markets_step [OF scan d ids cursors assms(2,3) track])
qed

text \<open>C30: over any number of ticks of the worker, over whatever markets are tracked at each, however
  the reads fail or answer and whether the database writes commit or not, the cursor of a market
  never moves back and every swap event its chain has up to the cursor is in the table, once,
  unless its block's time could not be read, it had no plausible dollar value at the quote price of
  a scan of this market, or its range was given up and logged.\<close>

theorem no_swap_lost:
  assumes "market_ticks env sv mss (mem, s) = (mem', s')"
    "faithful_reader env m events" "fixed_orientation env m base0"
    "\<forall>ms\<in>set mss. distinct (map tm_marketId ms) \<and> (\<forall>m'\<in>set ms. m' = m \<or> tm_marketId m' \<noteq> tm_marketId m)"
    "is_cursor s (tm_marketId m) = Some lo" "distinct (swap_keys s)"
  shows "\<exists>c\<ge>lo. is_cursor s' (tm_marketId m) = Some c \<and> distinct (swap_keys s')
     \<and> (\<forall>b. lo < b \<and> b \<le> c \<longrightarrow> (\<forall>e\<in>set (events b). accounted env m base0 (used_quotes m mem') s' e))"
proof -
  have run: "\<exists>c'\<ge>c. on_track env m base0 events lo c' (market_ticks env sv mss st)"
    if "on_track env m base0 events lo c st" for c st
    using that assms(4)
  proof (induction mss arbitrary: c st)
    case (Cons ms mss)
    have ms: "distinct (map tm_marketId ms)" "\<forall>m'\<in>set ms. m' = m \<or> tm_marketId m' \<noteq> tm_marketId m"
      using Cons.prems(2) by simp_all
    from market_tick_step [OF Cons.prems(1) assms(2,3) ms, of sv] obtain c1 where
      c1: "c \<le> c1" "on_track env m base0 events lo c1 (market_tick env sv ms st)" by blast
    have rest: "\<forall>ms\<in>set mss. distinct (map tm_marketId ms) \<and> (\<forall>m'\<in>set ms. m' = m \<or> tm_marketId m' \<noteq> tm_marketId m)"
      using Cons.prems(2) by simp
    from Cons.IH [OF c1(2) rest] c1(1) show ?case by (auto intro: order_trans)
  qed auto
  have "on_track env m base0 events lo lo (mem, s)" using assms(5,6) by (auto simp: on_track_def covered_def)
  from run [OF this] assms(1) show ?thesis by (auto simp: on_track_def covered_def)
qed

definition sample_service :: market_service where
  "sample_service = \<lparr>ms_quoteUsdcAddress = ''0xb'', ms_seeds = []\<rparr>"

definition sample_memory :: service_memory where
  "sample_memory = \<lparr>sm_tickCount = 0, sm_priceDoneAt = (\<lambda>_. None), sm_swapsDoneAt = (\<lambda>_. None), sm_scans = []\<rparr>"

text \<open>A scan of the small chain: the swap is in the table, and the cursor is ten blocks below the head.\<close>

lemma sample_scan:
  "(case ingestSwaps (sample_ingest None True) sample_service [sample_pool] sample_memory sample_ingest_state of
     (mem, s) \<Rightarrow> is_cursor s ''m'' = Some 20 \<and> length (is_swaps s) = 1 \<and> is_candles s \<noteq> [])"
  by code_simp

text \<open>When the block's time could not be read, the cursor passes the swap all the same.\<close>

lemma unreadable_time_loses_swap:
  "(case ingestSwaps (sample_ingest None False) sample_service [sample_pool] sample_memory sample_ingest_state of
     (mem, s) \<Rightarrow> is_cursor s ''m'' = Some 20 \<and> is_swaps s = [] \<and> is_skipped s = [])"
  by code_simp

text \<open>When the candle write fails the cursor is already past the swap: the next scan, with nothing
  new in it, computes no candle.\<close>

lemma failed_candle_write_loses_candle:
  "(case ingestSwaps (sample_ingest (Some 2) True) sample_service [sample_pool] sample_memory sample_ingest_state of
     (mem, s) \<Rightarrow> is_cursor s ''m'' = Some 20 \<and> length (is_swaps s) = 1 \<and> is_candles s = []
       \<and> (case ingestSwaps (sample_ingest None True) sample_service [sample_pool] mem s of
            (mem1, s1) \<Rightarrow> is_candles s1 = []))"
  by code_simp

lemma sample_reader:
  "faithful_reader (sample_ingest bad timed) sample_pool sample_events"
  "fixed_orientation (sample_ingest bad timed) sample_pool True"
  by (auto simp: faithful_reader_def fixed_orientation_def sample_ingest_def sample_events_def sample_pool_def
      sample_event_def base_is_token0_def split: if_splits)

lemma no_swap_lost_witness:
  "\<exists>c\<ge>0. is_cursor (snd (market_ticks (sample_ingest (Some 1) True) sample_service [[sample_pool], [sample_pool]]
        (sample_memory, sample_ingest_state))) ''m'' = Some c"
proof -
  obtain mem s where run: "market_ticks (sample_ingest (Some 1) True) sample_service [[sample_pool], [sample_pool]]
        (sample_memory, sample_ingest_state) = (mem, s)" by (rule prod.exhaust)
  have "\<exists>c\<ge>0. is_cursor s (tm_marketId sample_pool) = Some c"
    using no_swap_lost [OF run sample_reader, of 0] by (auto simp: sample_ingest_state_def)
  then show ?thesis unfolding run by (simp add: sample_pool_def)
qed

end
