(* ===== verification/DuelScore.thy ===== *)
theory DuelScore
  imports PnlSweep JSNumber
begin

section \<open>The score of a duel\<close>

text \<open>
  \<open>apps/api/src/duels/duels.service.ts\<close> (\<open>score\<close>, \<open>priceOf\<close>), the fee lookups of
  \<open>apps/api/src/social/services/position.service.ts\<close> and \<open>duelWinner\<close> of
  \<open>packages/domain/src/duels.ts\<close>.  A score reads the ledger the PnL sweep writes.  The live price
  service is a parameter of the ledger record; among rows of one time or one liquidity the queries
  leave the order open and the model takes the order of the table.
\<close>

record duel_token =
  dt_id :: string
  dt_chain :: string
  dt_contractAddress :: string
  dt_decimals :: "nat option"

record solana_buy =
  sb_id :: string
  sb_inputAmount :: string
  sb_platformFeeAmount :: string
  sb_unsignedTx :: json

record priced_market =
  pm_contractAddress :: string
  pm_priceUsd :: "jsnum option"
  pm_liquidityUsd :: "jsnum option"

record duel_ledger =
  dl_lots :: "token_lot list"
  dl_events :: "pnl_event list"
  dl_launches :: "(string \<times> string option) list"
  dl_tokens :: "duel_token list"
  dl_listed :: "(string \<times> nat option) list"
  dl_pumps :: "string list"
  dl_evmFeeBps :: "(string \<times> int) list"
  dl_solanaBuys :: "solana_buy list"
  dl_live :: "string \<Rightarrow> string \<Rightarrow> jsnum option"
  dl_markets :: "priced_market list"

definition PUMPFUN_DECIMALS :: nat where "PUMPFUN_DECIMALS = 6"
definition LOT_LIMIT :: nat where "LOT_LIMIT = 200"
definition TRADES_SHOWN :: nat where "TRADES_SHOWN = 20"

subsection \<open>Prices and fees\<close>

definition truthy_num :: "jsnum \<Rightarrow> bool" where "truthy_num x = (x \<noteq> NaN \<and> x \<noteq> Fin 0)"

text \<open>\<open>orderBy liquidityUsd desc\<close> in PostgreSQL: unknown liquidity first.\<close>

definition deeper :: "priced_market \<Rightarrow> priced_market \<Rightarrow> bool" where
  "deeper a b =
     (case (pm_liquidityUsd a, pm_liquidityUsd b) of
        (None, Some _) \<Rightarrow> True | (Some x, Some y) \<Rightarrow> ngt x y | _ \<Rightarrow> False)"

definition market_price :: "duel_ledger \<Rightarrow> string \<Rightarrow> jsnum option" where
  "market_price L address =
     (case sort_by deeper (filter (\<lambda>m. to_lower (pm_contractAddress m) = to_lower address \<and> pm_priceUsd m \<noteq> None) (dl_markets L)) of
        [] \<Rightarrow> None | m # _ \<Rightarrow> pm_priceUsd m)"

definition priceOf :: "duel_ledger \<Rightarrow> string \<Rightarrow> string \<Rightarrow> jsnum option" where
  "priceOf L chainIdentifier address =
     (let chain = (if chainIdentifier = ''solana'' then Some ''solana'' else slugForIdentifier chainIdentifier);
          live = Option.bind chain (\<lambda>c. dl_live L c address)
      in case live of
           Some p \<Rightarrow> if truthy_num p then Some p
             else if chainIdentifier \<noteq> ''solana'' then market_price L address else None
         | None \<Rightarrow> if chainIdentifier \<noteq> ''solana'' then market_price L address else None)"

definition evmBuyFeeBps :: "duel_ledger \<Rightarrow> string \<Rightarrow> int option" where
  "evmBuyFeeBps L tx = map_of (dl_evmFeeBps L) tx"

definition buy_fee_usd :: "solana_buy \<Rightarrow> (js_error, jsnum) result" where
  "buy_fee_usd b =
     (case json_field (sb_unsignedTx b) ''totalPaidRaw'' of
        Some (JStr totalPaidRaw) \<Rightarrow>
          if all_digits totalPaidRaw \<and> all_digits (sb_inputAmount b)
          then bind_result (BigInt totalPaidRaw) (\<lambda>paid. bind_result (BigInt (sb_inputAmount b)) (\<lambda>input.
            Ok (ndiv (num_of_int (paid - input)) (Fin 1000000))))
          else Ok (ndiv (js_Number (if sb_platformFeeAmount b = [] then ''0'' else sb_platformFeeAmount b)) (Fin 1000000))
      | _ \<Rightarrow> Ok (ndiv (js_Number (if sb_platformFeeAmount b = [] then ''0'' else sb_platformFeeAmount b)) (Fin 1000000)))"

definition solanaBuyFees :: "duel_ledger \<Rightarrow> string \<Rightarrow> (js_error, jsnum option) result" where
  "solanaBuyFees L tx =
     (case find (\<lambda>b. sb_id b = tx) (dl_solanaBuys L) of
        None \<Rightarrow> Ok None
      | Some b \<Rightarrow> bind_result (buy_fee_usd b) (\<lambda>fee. Ok (Some (if is_finite fee \<and> ngt fee (Fin 0) then fee else Fin 0))))"

subsection \<open>One lot\<close>

record coin_meta =
  cm_chain :: string
  cm_address :: string
  cm_decimals :: "nat option"

text \<open>The coin of a lot: an EVM token row by id, or a Solana mint, which is always known.\<close>

definition lot_meta :: "duel_ledger \<Rightarrow> token_lot \<Rightarrow> coin_meta option" where
  "lot_meta L lot =
     (case tl_evmTokenId lot of
        Some t \<Rightarrow> map_option (\<lambda>r. \<lparr>cm_chain = dt_chain r, cm_address = dt_contractAddress r, cm_decimals = dt_decimals r\<rparr>)
                    (find (\<lambda>r. dt_id r = t) (dl_tokens L))
      | None \<Rightarrow>
          (case tl_solanaMint lot of
             None \<Rightarrow> None
           | Some mint \<Rightarrow> Some \<lparr>cm_chain = ''solana'', cm_address = mint,
               cm_decimals = (case Option.bind (map_of (dl_listed L) mint) id of
                  Some d \<Rightarrow> Some d | None \<Rightarrow> if mint \<in> set (dl_pumps L) then Some PUMPFUN_DECIMALS else None)\<rparr>))"

definition launched :: "duel_ledger \<Rightarrow> string \<Rightarrow> string list" where
  "launched L userId = List.map_filter (\<lambda>(u, a). if u = userId then map_option to_lower a else None) (dl_launches L)"

definition own_coin :: "duel_ledger \<Rightarrow> string \<Rightarrow> token_lot \<Rightarrow> bool" where
  "own_coin L userId lot =
     ((case lot_meta L lot of None \<Rightarrow> False | Some m \<Rightarrow> to_lower (cm_address m) \<in> set (launched L userId))
      \<or> (case tl_solanaMint lot of None \<Rightarrow> False | Some mint \<Rightarrow> mint \<noteq> [] \<and> to_lower mint \<in> set (launched L userId)))"

definition buy_fee :: "duel_ledger \<Rightarrow> token_lot \<Rightarrow> (js_error, jsnum) result" where
  "buy_fee L lot =
     (case tl_evmBuyTransactionId lot of
        Some tx \<Rightarrow> Ok (nmul (tl_costBasisUsd lot)
            (ndiv (num_of_int (case evmBuyFeeBps L tx of None \<Rightarrow> 0 | Some bps \<Rightarrow> bps)) (Fin 10000)))
      | None \<Rightarrow>
          (case tl_solanaBuyTransactionId lot of
             Some tx \<Rightarrow> bind_result (solanaBuyFees L tx) (\<lambda>fee. Ok (case fee of None \<Rightarrow> Fin 0 | Some f \<Rightarrow> f))
           | None \<Rightarrow> Ok (Fin 0)))"

definition lot_cost :: "jsnum \<Rightarrow> jsnum \<Rightarrow> jsnum" where
  "lot_cost gross fee = nmax (Fin 0) (nsub gross (nmin fee gross))"

text \<open>\<open>Number(formatUnits(left, decimals))\<close>: the decimal text is exact, so reading it rounds once.\<close>

definition whole_units :: "int \<Rightarrow> nat \<Rightarrow> jsnum" where
  "whole_units raw decimals = to_num (of_int raw / 10 ^ decimals)"

text \<open>What is left of a lot: at the live price, or at cost when price or decimals are unknown.\<close>

definition left_value :: "duel_ledger \<Rightarrow> token_lot \<Rightarrow> jsnum \<Rightarrow> int \<Rightarrow> int \<Rightarrow> jsnum" where
  "left_value L lot cost original left =
     (let m = lot_meta L lot;
          price = Option.bind m (\<lambda>m. priceOf L (cm_chain m) (cm_address m))
      in case (Option.bind m cm_decimals, price) of
           (Some d, Some p) \<Rightarrow> nmul (whole_units left d) p
         | _ \<Rightarrow> if original > 0 then nmul cost (ndiv (num_of_int left) (num_of_int original)) else Fin 0)"

fun sum_quantities :: "pnl_event list \<Rightarrow> (js_error, int) result" where
  "sum_quantities [] = Ok 0"
| "sum_quantities (e # es) =
     bind_result (BigInt (pe_quantityMatchedRaw e)) (\<lambda>q. bind_result (sum_quantities es) (\<lambda>n. Ok (q + n)))"

record duel_trade =
  tr_chainIdentifier :: string
  tr_tokenAddress :: string
  tr_amountUsd :: jsnum
  tr_at :: int

record tally =
  ta_invested :: jsnum
  ta_paidIn :: jsnum
  ta_value :: jsnum
  ta_trades :: "duel_trade list"

definition count_lot :: "duel_ledger \<Rightarrow> pnl_event list \<Rightarrow> token_lot \<Rightarrow> tally \<Rightarrow> (js_error, tally) result" where
  "count_lot L events lot ta =
     bind_result (buy_fee L lot) (\<lambda>fee.
     let gross = tl_costBasisUsd lot; cost = lot_cost gross fee;
         mine = filter (\<lambda>e. pe_lotId e = tl_id lot) events in
     bind_result (sum_quantities mine) (\<lambda>sold.
     bind_result (BigInt (tl_quantityOriginalRaw lot)) (\<lambda>original.
     let value = nadd (ta_value ta) (foldl (\<lambda>sum e. nadd sum (pe_proceedsUsd e)) (Fin 0) mine);
         left = (if original > sold then original - sold else 0)
     in Ok \<lparr>ta_invested = nadd (ta_invested ta) cost, ta_paidIn = nadd (ta_paidIn ta) gross,
            ta_value = (if left > 0 then nadd value (left_value L lot cost original left) else value),
            ta_trades = ta_trades ta @ (case lot_meta L lot of None \<Rightarrow> []
               | Some m \<Rightarrow> [\<lparr>tr_chainIdentifier = cm_chain m, tr_tokenAddress = cm_address m, tr_amountUsd = gross,
                            tr_at = tl_acquiredAt lot\<rparr>])\<rparr>)))"

fun count_lots ::
    "duel_ledger \<Rightarrow> string \<Rightarrow> pnl_event list \<Rightarrow> token_lot list \<Rightarrow> tally \<Rightarrow> (js_error, tally) result" where
  "count_lots L userId events [] ta = Ok ta"
| "count_lots L userId events (lot # lots) ta =
     (if own_coin L userId lot then count_lots L userId events lots ta
      else bind_result (count_lot L events lot ta) (count_lots L userId events lots))"

record duel_score =
  sc_pct :: "jsnum option"
  sc_investedUsd :: jsnum
  sc_trades :: "duel_trade list"

definition no_score :: duel_score where
  "no_score = \<lparr>sc_pct = None, sc_investedUsd = Fin 0, sc_trades = []\<rparr>"

definition duel_lots :: "duel_ledger \<Rightarrow> string \<Rightarrow> int \<Rightarrow> int \<Rightarrow> token_lot list" where
  "duel_lots L userId start end' =
     take LOT_LIMIT (sort_by (\<lambda>a b. tl_acquiredAt b < tl_acquiredAt a)
       (filter (\<lambda>l. tl_userId l = userId \<and> start \<le> tl_acquiredAt l \<and> tl_acquiredAt l \<le> end') (dl_lots L)))"

definition tally_score :: "tally \<Rightarrow> duel_score" where
  "tally_score ta =
     (if neq (ta_paidIn ta) (Fin 0) then no_score
      else \<lparr>sc_pct = (if ngt (ta_invested ta) (Fin 0)
               then Some (nmul (ndiv (nsub (ta_value ta) (ta_invested ta)) (ta_invested ta)) (Fin 100)) else None),
            sc_investedUsd = ta_paidIn ta, sc_trades = take TRADES_SHOWN (ta_trades ta)\<rparr>)"

definition score :: "duel_ledger \<Rightarrow> string \<Rightarrow> int \<Rightarrow> int \<Rightarrow> (js_error, duel_score) result" where
  "score L userId start end' =
     (let lots = duel_lots L userId start end';
          events = filter (\<lambda>e. pe_lotId e \<in> set (map tl_id lots) \<and> pe_confirmedAt e \<le> end') (dl_events L)
      in if lots = [] then Ok no_score
         else bind_result (count_lots L userId events lots
                \<lparr>ta_invested = Fin 0, ta_paidIn = Fin 0, ta_value = Fin 0, ta_trades = []\<rparr>) (\<lambda>ta. Ok (tally_score ta)))"

subsection \<open>Who won\<close>

definition duelWinner :: "string \<times> jsnum option \<Rightarrow> string \<times> jsnum option \<Rightarrow> string option" where
  "duelWinner challenger opponent =
     (case (snd challenger, snd opponent) of
        (None, None) \<Rightarrow> None
      | (Some _, None) \<Rightarrow> Some (fst challenger)
      | (None, Some _) \<Rightarrow> Some (fst opponent)
      | (Some a, Some b) \<Rightarrow>
          if nlt (nabs (nsub a b)) (to_num (1 / 10 ^ 9)) then None
          else if ngt a b then Some (fst challenger) else Some (fst opponent))"

subsection \<open>Laws\<close>

lemma duelWinner_is_player: "duelWinner a b = Some w \<Longrightarrow> w = fst a \<or> w = fst b"
  by (auto simp: duelWinner_def split: option.splits if_splits)

lemma duelWinner_traded: "snd a = Some p \<Longrightarrow> snd b = None \<Longrightarrow> duelWinner a b = Some (fst a)"
  by (simp add: duelWinner_def)

text \<open>Who was called the challenger does not matter.\<close>

lemma nabs_nsub_commute: "nabs (nsub x y) = nabs (nsub y x)"
proof (cases x; cases y)
  fix a b assume xy: "x = Fin a" "y = Fin b"
  have "fl (b - a) = - fl (a - b)" using fl_minus [of "a - b"] by simp
  then have "to_num (b - a) = nneg (to_num (a - b))"
    using max_double_nonneg(1) by (cases "fl (a - b) = 0") (auto simp: to_num_def Let_def)
  then show ?thesis by (cases "to_num (a - b)") (auto simp: xy nsub_def)
qed (auto simp: nsub_def)

lemma own_coins_count_nothing:
  "count_lots L u events lots ta = count_lots L u events (filter (\<lambda>l. \<not> own_coin L u l) lots) ta"
  by (induction lots arbitrary: ta) (auto split: sum.splits simp: bind_result_def)

text \<open>A score is a percentage of what was put in: nobody loses more than all of it.\<close>

definition sane_ledger :: "duel_ledger \<Rightarrow> bool" where
  "sane_ledger L \<longleftrightarrow>
     (\<forall>l\<in>set (dl_lots L). \<exists>g n. tl_costBasisUsd l = Fin g \<and> 0 \<le> g \<and> g \<le> 2 ^ 100
        \<and> BigInt (tl_quantityOriginalRaw l) = Ok n \<and> 0 \<le> n \<and> n < 2 ^ 256)
     \<and> (\<forall>e\<in>set (dl_events L). nle (Fin 0) (pe_proceedsUsd e) \<and> (\<exists>n\<ge>0. BigInt (pe_quantityMatchedRaw e) = Ok n))
     \<and> (\<forall>c a p. dl_live L c a = Some p \<longrightarrow> (\<exists>r\<ge>0. p = Fin r))
     \<and> (\<forall>m\<in>set (dl_markets L). \<forall>p. pm_priceUsd m = Some p \<longrightarrow> (\<exists>r\<ge>0. p = Fin r))
     \<and> (\<forall>(tx, bps)\<in>set (dl_evmFeeBps L). 0 \<le> bps \<and> bps \<le> 10000)"

lemma nadd_nonneg: "nle (Fin 0) x \<Longrightarrow> nle (Fin 0) y \<Longrightarrow> nle (Fin 0) (nadd x y)"
  by (cases x; cases y) (auto intro: to_num_nonneg)

lemma priceOf_nonneg:
  assumes "sane_ledger L" "priceOf L c a = Some p"
  shows "\<exists>r\<ge>0. p = Fin r"
proof -
  have market: "\<exists>r\<ge>0. p = Fin r" if "market_price L a = Some p" for p
  proof -
    from that obtain m ms where m: "sort_by deeper (filter (\<lambda>m. to_lower (pm_contractAddress m) = to_lower a \<and> pm_priceUsd m \<noteq> None) (dl_markets L)) = m # ms"
      "pm_priceUsd m = Some p" by (auto simp: market_price_def split: list.splits)
    from arg_cong [OF m(1), of set] have "m \<in> set (dl_markets L)" by auto
    with assms(1) m(2) show ?thesis by (auto simp: sane_ledger_def)
  qed
  have live: "\<exists>r\<ge>0. p = Fin r" if "dl_live L c a = Some p" for c p
    using assms(1) that by (auto simp: sane_ledger_def)
  show ?thesis using assms(2) market live
    by (auto simp: priceOf_def Let_def bind_eq_Some_conv split: option.splits if_splits)
qed

lemma whole_units_Fin: "0 \<le> n \<Longrightarrow> n < 2 ^ 256 \<Longrightarrow> \<exists>r\<ge>0. whole_units n d = Fin r"
proof -
  assume n: "0 \<le> n" "n < 2 ^ 256"
  have "of_int n * 1 \<le> (of_int n * 10 ^ d :: rat)" using n(1) by (intro mult_left_mono) simp_all
  then have "\<bar>of_int n / 10 ^ d :: rat\<bar> \<le> of_int n" using n(1) by (simp add: divide_le_eq)
  also have "\<dots> \<le> of_int (2 ^ 1000)"
  proof -
    have "(2::int) ^ 256 \<le> 2 ^ 1000" by (rule power_increasing) simp_all
    with n(2) have "n \<le> 2 ^ 1000" by (rule order_trans [OF less_imp_le])
    then show ?thesis by (simp only: of_int_le_iff)
  qed
  also have "(of_int (2 ^ 1000) :: rat) = 2 ^ 1000" by (simp only: of_int_power of_int_numeral)
  finally show ?thesis using n(1) by (simp add: whole_units_def to_num_small fl_nonneg)
qed

text \<open>What a tally keeps: the amount put in is a finite double, at most \<open>2 ^ 100\<close> a lot, and the
  value is never negative.\<close>

definition tally_inv :: "nat \<Rightarrow> tally \<Rightarrow> bool" where
  "tally_inv n ta \<longleftrightarrow> nle (Fin 0) (ta_value ta)
     \<and> (\<exists>r. ta_invested ta = Fin r \<and> fl r = r \<and> 0 \<le> r \<and> r \<le> of_nat n * 2 ^ 100)"

lemma fl_mult_2_100: "n \<le> 200 \<Longrightarrow> fl (of_nat n * 2 ^ 100) = of_nat n * 2 ^ 100"
  using fl_representable [of "int n" 100] by simp

lemma lot_cost_bounds:
  assumes "0 \<le> g" "g \<le> 2 ^ 100" "nle (Fin 0) fee"
  shows "\<exists>c. lot_cost (Fin g) fee = Fin c \<and> 0 \<le> c \<and> c \<le> 2 ^ 100"
proof -
  have "\<exists>f. nmin fee (Fin g) = Fin f \<and> 0 \<le> f \<and> f \<le> g"
    using assms(1,3) by (cases fee) (auto simp: nmin_def)
  then obtain f where f: "nmin fee (Fin g) = Fin f" "0 \<le> f" "f \<le> g" by blast
  have "fl (g - f) \<le> fl (2 ^ 100)" using f assms(2) by (intro fl_mono) simp
  moreover have "fl (2 ^ 100) = 2 ^ 100" using fl_mult_2_100 [of 1] by simp
  ultimately have c: "0 \<le> fl (g - f)" "fl (g - f) \<le> 2 ^ 100" using f by (simp_all add: fl_nonneg)
  have "(2::rat) ^ 100 \<le> 2 ^ 1000" by simp
  with f assms(1,2) have "to_num (g - f) = Fin (fl (g - f))" by (intro to_num_small) simp
  with c show ?thesis by (auto simp: lot_cost_def nsub_def f nmax_def)
qed

lemma to_num_unit: "0 \<le> x \<Longrightarrow> x \<le> 1 \<Longrightarrow> to_num x = Fin (fl x)"
proof -
  assume x: "0 \<le> x" "x \<le> 1"
  have "(1::rat) \<le> 2 ^ 1000" by (rule one_le_power) simp
  with x show ?thesis by (intro to_num_small) linarith
qed

lemma solanaBuyFees_nonneg: "solanaBuyFees L tx = Ok (Some f) \<Longrightarrow> nle (Fin 0) f"
  unfolding solanaBuyFees_def by (cases f) (auto simp: bind_result_Ok_iff ngt_def split: option.splits if_splits)

lemma buy_fee_nonneg:
  assumes "sane_ledger L" "tl_costBasisUsd l = Fin g" "0 \<le> g" "buy_fee L l = Ok fee"
  shows "nle (Fin 0) fee"
proof (cases "tl_evmBuyTransactionId l")
  case None
  with assms(4) show ?thesis
    by (cases "tl_solanaBuyTransactionId l") (auto simp: buy_fee_def bind_result_Ok_iff solanaBuyFees_nonneg split: option.splits)
next
  case (Some tx)
  define bps where "bps = (case evmBuyFeeBps L tx of None \<Rightarrow> 0 | Some bps \<Rightarrow> bps)"
  have bps: "0 \<le> bps" "bps \<le> 10000"
    using assms(1) by (auto simp: bps_def evmBuyFeeBps_def sane_ledger_def split: option.splits dest!: map_of_SomeD)
  then have n: "num_of_int bps = Fin (of_int bps)" by (intro num_of_int_small) simp
  have r: "0 \<le> (of_int bps :: rat) / 10000" "(of_int bps :: rat) / 10000 \<le> 1" using bps by simp_all
  have "fee = nmul (Fin g) (to_num (of_int bps / 10000))" using Some assms(2,4) n by (simp add: buy_fee_def flip: bps_def)
  then have "fee = to_num (g * fl (of_int bps / 10000))" by (simp only: to_num_unit [OF r] nmul.simps)
  then show ?thesis using assms(3) r by (simp add: to_num_nonneg fl_nonneg)
qed

lemma num_of_int_Fin: "0 \<le> i \<Longrightarrow> i < 2 ^ 256 \<Longrightarrow> \<exists>r\<ge>0. num_of_int i = Fin r"
  using whole_units_Fin [of i 0] by (simp add: whole_units_def num_of_int_def)

lemma num_of_int_Fin_pos: "0 < i \<Longrightarrow> i < 2 ^ 256 \<Longrightarrow> \<exists>r>0. num_of_int i = Fin r"
proof -
  assume i: "0 < i" "i < 2 ^ 256"
  from num_of_int_Fin [of i] i obtain r where r: "num_of_int i = Fin r" by auto
  have "nle (to_num 1) (to_num (of_int i))" using i(1) by (intro to_num_mono) simp
  with r show ?thesis by (auto simp: num_of_int_def)
qed

lemma left_value_nonneg:
  assumes "sane_ledger L" "0 \<le> c" "0 < left" "left \<le> original" "original < 2 ^ 256"
  shows "nle (Fin 0) (left_value L l (Fin c) original left)"
proof -
  have left: "left < 2 ^ 256" and original: "0 < original" using assms(3-5) by auto
  obtain a b where a: "num_of_int left = Fin a" "0 < a" and b: "num_of_int original = Fin b" "0 < b"
    using num_of_int_Fin_pos [OF assms(3) left] num_of_int_Fin_pos [OF original assms(5)] by blast
  have "nle (num_of_int left) (num_of_int original)" unfolding num_of_int_def using assms(4) by (intro to_num_mono) simp
  with a b have ab: "0 \<le> a / b" "a / b \<le> 1" by simp_all
  have cost: "nle (Fin 0) (nmul (Fin c) (ndiv (num_of_int left) (num_of_int original)))"
    using assms(2) a b ab by (simp add: to_num_unit to_num_nonneg fl_nonneg)
  have priced: "nle (Fin 0) (nmul (whole_units left d) p)" if price: "priceOf L ch ad = Some p" for d ch ad p
  proof -
    obtain w r where "whole_units left d = Fin w" "0 \<le> w" "p = Fin r" "0 \<le> r"
      using whole_units_Fin [of left d] assms(3) left priceOf_nonneg [OF assms(1) price] by auto
    then show ?thesis by (simp add: to_num_nonneg)
  qed
  show ?thesis
  proof (cases "\<exists>m d p. lot_meta L l = Some m \<and> cm_decimals m = Some d \<and> priceOf L (cm_chain m) (cm_address m) = Some p")
    case True
    then show ?thesis using priced by (auto simp: left_value_def)
  next
    case False
    then have "left_value L l (Fin c) original left = nmul (Fin c) (ndiv (num_of_int left) (num_of_int original))"
      using original by (auto simp: left_value_def Let_def bind_eq_Some_conv split: option.splits)
    with cost show ?thesis by simp
  qed
qed

lemma proceeds_nonneg:
  assumes "nle (Fin 0) x" "\<forall>e\<in>set es. nle (Fin 0) (pe_proceedsUsd e)"
  shows "nle (Fin 0) (foldl (\<lambda>sum e. nadd sum (pe_proceedsUsd e)) x es)"
  using assms by (induction es arbitrary: x) (auto intro: nadd_nonneg)

lemma sum_quantities_nonneg:
  "\<forall>e\<in>set es. \<exists>n\<ge>0. BigInt (pe_quantityMatchedRaw e) = Ok n \<Longrightarrow> sum_quantities es = Ok n \<Longrightarrow> 0 \<le> n"
  by (induction es arbitrary: n) (fastforce simp: bind_result_Ok_iff)+

lemma tally_inv_invest:
  assumes "fl r = r" "0 \<le> r" "r \<le> of_nat n * 2 ^ 100" "0 \<le> c" "c \<le> 2 ^ 100" "n < 200"
  shows "\<exists>r'. nadd (Fin r) (Fin c) = Fin r' \<and> fl r' = r' \<and> 0 \<le> r' \<and> r' \<le> of_nat (Suc n) * 2 ^ 100"
proof -
  have rc: "0 \<le> r + c" "r + c \<le> of_nat (Suc n) * 2 ^ 100" using assms by (simp_all add: distrib_right)
  have "fl (r + c) \<le> of_nat (Suc n) * 2 ^ 100"
    using fl_mono [OF rc(2)] fl_mult_2_100 [of "Suc n"] assms(6) by simp
  moreover have "of_nat (Suc n) * 2 ^ 100 \<le> (2::rat) ^ 1000"
  proof -
    have "of_nat (Suc n) * 2 ^ 100 \<le> (2 ^ 8 * 2 ^ 100 :: rat)" using assms(6) by (intro mult_right_mono) simp_all
    also have "\<dots> \<le> 2 ^ 1000" unfolding power_add [symmetric] by (rule power_increasing) simp_all
    finally show ?thesis .
  qed
  with rc have "\<bar>r + c\<bar> \<le> 2 ^ 1000" by linarith
  ultimately show ?thesis using rc(1) by (simp only: nadd.simps to_num_small) (auto simp: fl_nonneg)
qed

lemma count_lot_inv:
  assumes "sane_ledger L" "l \<in> set (dl_lots L)" "set events \<subseteq> set (dl_events L)" "tally_inv n ta" "n < 200"
    "count_lot L events l ta = Ok ta'"
  shows "tally_inv (Suc n) ta'"
proof -
  let ?mine = "filter (\<lambda>e. pe_lotId e = tl_id l) events"
  obtain g original where g: "tl_costBasisUsd l = Fin g" "0 \<le> g" "g \<le> 2 ^ 100"
    and original: "BigInt (tl_quantityOriginalRaw l) = Ok original" "0 \<le> original" "original < 2 ^ 256"
    using assms(1,2) unfolding sane_ledger_def by blast
  obtain fee where fee: "buy_fee L l = Ok fee" using assms(6) by (auto simp: count_lot_def bind_result_Ok_iff)
  obtain sold where sold: "sum_quantities ?mine = Ok sold"
    using assms(6) by (auto simp: count_lot_def bind_result_Ok_iff Let_def)
  obtain c where c: "lot_cost (Fin g) fee = Fin c" "0 \<le> c" "c \<le> 2 ^ 100"
    using lot_cost_bounds [OF g(2,3) buy_fee_nonneg [OF assms(1) g(1,2) fee]] by blast
  define got where "got = nadd (ta_value ta) (foldl (\<lambda>sum e. nadd sum (pe_proceedsUsd e)) (Fin 0) ?mine)"
  define left where "left = (if original > sold then original - sold else 0)"
  have mine: "set ?mine \<subseteq> set (dl_events L)" using assms(3) by auto
  then have s0: "0 \<le> sold" using assms(1) sold by (auto simp: sane_ledger_def intro!: sum_quantities_nonneg [OF _ sold])
  have v: "nle (Fin 0) got" unfolding got_def
    using assms(1,4) mine by (intro nadd_nonneg proceeds_nonneg) (auto simp: tally_inv_def sane_ledger_def)
  have lv: "nle (Fin 0) (left_value L l (Fin c) original left)" if "0 < left"
    using that s0 original by (intro left_value_nonneg assms(1) c(2)) (auto simp: left_def split: if_splits)
  have ta': "ta_value ta' = (if left > 0 then nadd got (left_value L l (Fin c) original left) else got)"
    "ta_invested ta' = nadd (ta_invested ta) (Fin c)"
    using assms(6) by (auto simp: count_lot_def fee sold original g c Let_def simp flip: got_def left_def)
  obtain r where r: "ta_invested ta = Fin r" "fl r = r" "0 \<le> r" "r \<le> of_nat n * 2 ^ 100"
    using assms(4) by (auto simp: tally_inv_def)
  from tally_inv_invest [OF r(2-4) c(2,3) assms(5)] v lv show ?thesis
    by (simp add: tally_inv_def ta' r nadd_nonneg del: nadd.simps)
qed

lemma count_lots_inv:
  assumes "sane_ledger L" "set lots \<subseteq> set (dl_lots L)" "set events \<subseteq> set (dl_events L)" "tally_inv n ta"
    "n + length lots \<le> 200" "count_lots L u events lots ta = Ok ta'"
  shows "\<exists>n'\<le>200. tally_inv n' ta'"
  using assms(2,4-)
proof (induction lots arbitrary: n ta)
  case (Cons l lots)
  show ?case
  proof (cases "own_coin L u l")
    case True
    with Cons.prems show ?thesis by (intro Cons.IH [of n ta]) auto
  next
    case False
    with Cons.prems(4) obtain t where t: "count_lot L events l ta = Ok t" "count_lots L u events lots t = Ok ta'"
      by (auto simp: bind_result_Ok_iff)
    have "tally_inv (Suc n) t" using Cons.prems by (intro count_lot_inv [OF assms(1) _ assms(3) _ _ t(1)]) auto
    with Cons.prems t(2) show ?thesis by (intro Cons.IH [of "Suc n" t]) auto
  qed
qed auto

lemma to_num_int [simp]: "\<bar>n\<bar> \<le> 2 ^ 53 \<Longrightarrow> to_num (of_int n) = Fin (of_int n)"
  using num_of_int_small [of n] by (simp add: num_of_int_def)

lemma ndiv_at_least: "0 < i \<Longrightarrow> nle (Fin (- i)) d \<Longrightarrow> nle (Fin (- 1)) (ndiv d (Fin i))"
proof (cases d)
  case (Fin y)
  assume i: "0 < i" "nle (Fin (- i)) d"
  then have "- 1 \<le> y / i" by (simp add: Fin field_simps)
  then have "nle (to_num (- 1)) (to_num (y / i))" by (rule to_num_mono)
  with i(1) show ?thesis using to_num_int [of "- 1"] by (simp add: Fin)
qed auto

lemma nmul_100_at_least: "nle (Fin (- 1)) q \<Longrightarrow> nle (Fin (- 100)) (nmul q (Fin 100))"
proof (cases q)
  case (Fin y)
  assume "nle (Fin (- 1)) q"
  then have "- 100 \<le> y * 100" by (simp add: Fin)
  then have "nle (to_num (- 100)) (to_num (y * 100))" by (rule to_num_mono)
  then show ?thesis using to_num_int [of "- 100"] by (simp add: Fin)
qed auto

text \<open>C31: on a sane ledger a score is never below -100 percent: whatever was bought, sold and paid in
  fees, and whatever the prices are when the duel ends, nobody loses more than all of what they
  put in, in the floating-point arithmetic of the code.\<close>

theorem score_at_least_total_loss:
  assumes "sane_ledger L" "score L u start end' = Ok s" "sc_pct s = Some p"
  shows "nle (Fin (- 100)) p"
proof -
  let ?lots = "duel_lots L u start end'"
  obtain ta where ta: "count_lots L u (filter (\<lambda>e. pe_lotId e \<in> set (map tl_id ?lots) \<and> pe_confirmedAt e \<le> end') (dl_events L)) ?lots
      \<lparr>ta_invested = Fin 0, ta_paidIn = Fin 0, ta_value = Fin 0, ta_trades = []\<rparr> = Ok ta" "s = tally_score ta"
    using assms(2,3) by (auto simp: score_def Let_def no_score_def bind_result_Ok_iff split: if_splits)
  have lots: "set ?lots \<subseteq> set (dl_lots L)" "length ?lots \<le> 200"
    by (auto simp: duel_lots_def LOT_LIMIT_def dest!: in_set_takeD)
  obtain n where n: "n \<le> 200" "tally_inv n ta"
    using count_lots_inv [OF assms(1) lots(1) _ _ _ ta(1), of 0] lots(2) by (auto simp: tally_inv_def)
  then obtain i where i: "ta_invested ta = Fin i" "fl i = i" "i \<le> of_nat n * 2 ^ 100" and v: "nle (Fin 0) (ta_value ta)"
    by (auto simp: tally_inv_def)
  from assms(3) have pos: "0 < i" and p: "p = nmul (ndiv (nsub (ta_value ta) (Fin i)) (Fin i)) (Fin 100)"
    by (auto simp: ta(2) tally_score_def i(1) ngt_def no_score_def split: if_splits)
  have "of_nat n * 2 ^ 100 \<le> (2 ^ 8 * 2 ^ 100 :: rat)" using n(1) by (intro mult_right_mono) simp_all
  also have "\<dots> \<le> 2 ^ 1000" unfolding power_add [symmetric] by (rule power_increasing) simp_all
  finally have "\<bar>- i\<bar> \<le> 2 ^ 1000" using i(3) pos by linarith
  then have neg: "to_num (- i) = Fin (- i)" using i(2) by (simp only: to_num_small fl_minus)
  have "nle (Fin (- i)) (nsub (ta_value ta) (Fin i))"
  proof (cases "ta_value ta")
    case (Fin x)
    with v have "nle (to_num (- i)) (to_num (x - i))" by (intro to_num_mono) simp
    then show ?thesis by (simp add: Fin nsub_def neg)
  qed (use v in \<open>auto simp: nsub_def\<close>)
  then show ?thesis unfolding p by (intro nmul_100_at_least ndiv_at_least pos)
qed

definition sample_lot :: token_lot where
  "sample_lot = \<lparr>tl_id = ''l1'', tl_userId = ''alice'', tl_chain = SOLANA, tl_evmTokenId = None, tl_solanaMint = Some ''Mint'',
     tl_evmBuyTransactionId = None, tl_solanaBuyTransactionId = Some ''t1'', tl_quantityOriginalRaw = ''1'',
     tl_quantityRemainingRaw = ''1'', tl_costBasisUsd = Fin 2, tl_acquiredAt = 1000\<rparr>"

definition sample_ledger :: "token_lot list \<Rightarrow> duel_ledger" where
  "sample_ledger lots = \<lparr>dl_lots = lots, dl_events = [], dl_launches = [(''bob'', Some ''Mint'')], dl_tokens = [],
     dl_listed = [(''Mint'', Some 0)], dl_pumps = [], dl_evmFeeBps = [], dl_solanaBuys = [],
     dl_live = (\<lambda>_ _. Some (Fin 1)), dl_markets = []\<rparr>"

lemma sample_score:
  "score (sample_ledger [sample_lot]) ''alice'' 0 300000 = Ok \<lparr>sc_pct = Some (Fin (- 50)), sc_investedUsd = Fin 2,
     sc_trades = [\<lparr>tr_chainIdentifier = ''solana'', tr_tokenAddress = ''Mint'', tr_amountUsd = Fin 2, tr_at = 1000\<rparr>]\<rparr>"
  by code_simp

lemma sample_sane: "sane_ledger (sample_ledger [sample_lot])"
  unfolding sane_ledger_def
proof (intro conjI)
  have "BigInt ''1'' = Ok 1" by code_simp
  then show "\<forall>l\<in>set (dl_lots (sample_ledger [sample_lot])). \<exists>g n. tl_costBasisUsd l = Fin g \<and> 0 \<le> g \<and> g \<le> 2 ^ 100
      \<and> BigInt (tl_quantityOriginalRaw l) = Ok n \<and> 0 \<le> n \<and> n < 2 ^ 256"
    by (simp add: sample_ledger_def sample_lot_def)
qed (auto simp: sample_ledger_def)

lemma score_at_least_total_loss_witness: "nle (Fin (- 100)) (Fin (- 50))"
  by (rule score_at_least_total_loss [OF sample_sane sample_score]) simp

text \<open>The coin a player launched does not count for them: bob's same buy has no score.\<close>

lemma launched_coin_has_no_score:
  "score (sample_ledger [sample_lot\<lparr>tl_userId := ''bob''\<rparr>]) ''bob'' 0 300000 = Ok no_score"
  by code_simp

end
