(* ===== verification/Duels.thy ===== *)
theory Duels
  imports DuelScore
begin

section \<open>Duels\<close>

text \<open>
  \<open>apps/api/src/duels/duels.service.ts\<close>: challenges, the open lobby, accepting, joining, closing,
  expiring and deciding a duel.  Every write of the table is one conditional update, so an
  operation is the reads and checks it makes at one moment, which leave a \<open>pending_write\<close> carrying
  the row as it was read, and that write at a later moment; other operations of any user and any
  API instance fall in between.  The answers of the chat service and the user table are parameters
  of each request.  Cached views, chat cards, notifications and cheers are not modelled.
\<close>

subsection \<open>Rows\<close>

datatype duel_status = DOpen | DPending | DLive | DDone | DDeclined | DExpired | DCancelled

record duel =
  du_id :: string
  du_conversationId :: "string option"
  du_messageId :: "string option"
  du_challengerId :: string
  du_opponentId :: "string option"
  du_minutes :: int
  du_status :: duel_status
  du_startedAt :: "int option"
  du_endsAt :: "int option"
  du_challengerPct :: "jsnum option"
  du_opponentPct :: "jsnum option"
  du_winnerId :: "string option"
  du_createdAt :: int

definition DUEL_MINUTES :: "int list" where "DUEL_MINUTES = [5, 15, 30, 60]"
definition PENDING_MINUTES :: int where "PENDING_MINUTES = 10"
definition OPEN_MINUTES :: int where "OPEN_MINUTES = 30"
definition MINUTE_MS :: int where "MINUTE_MS = 60000"
definition SWEEP_DUE :: nat where "SWEEP_DUE = 50"
definition SWEEP_OLD :: nat where "SWEEP_OLD = 100"
definition OPEN_LIST :: nat where "OPEN_LIST = 20"

record duel_world =
  dw_now :: int
  dw_duels :: "duel list"
  dw_next :: nat
  dw_cool :: "string list"
  dw_ledger :: duel_ledger

definition find_duel :: "string \<Rightarrow> duel_world \<Rightarrow> (js_error, duel) result" where
  "find_duel i s = (case find (\<lambda>d. du_id d = i) (dw_duels s) of None \<Rightarrow> Err (NotFound ''Duel not found.'') | Some d \<Rightarrow> Ok d)"

definition lapse_ms :: "duel \<Rightarrow> int" where
  "lapse_ms d = (if du_status d = DOpen then OPEN_MINUTES else PENDING_MINUTES) * MINUTE_MS"

definition lapsed :: "duel_world \<Rightarrow> duel \<Rightarrow> bool" where
  "lapsed s d = (dw_now s - du_createdAt d > lapse_ms d)"

subsection \<open>Writes\<close>

datatype pending_write =
    CreateDuel string "string option" int "string option"
  | StartDuel duel int
  | TakeDuel duel string int
  | CloseDuel string duel_status
  | ExpireDuel string
  | DecideDuel duel "jsnum option" "jsnum option"
  | LinkDuel string "string option" "string option"

text \<open>\<open>updateMany\<close>: how many rows it touched, and the table after it.\<close>

definition update_duels :: "(duel \<Rightarrow> bool) \<Rightarrow> (duel \<Rightarrow> duel) \<Rightarrow> duel_world \<Rightarrow> nat \<times> duel_world" where
  "update_duels p f s = (count_where p (dw_duels s), s\<lparr>dw_duels := update_where p f (dw_duels s)\<rparr>)"

definition new_duel :: "string \<Rightarrow> string option \<Rightarrow> int \<Rightarrow> string option \<Rightarrow> duel_world \<Rightarrow> duel" where
  "new_duel me opponent minutes conversation s =
     \<lparr>du_id = string_of_int (int (dw_next s)), du_conversationId = conversation, du_messageId = None, du_challengerId = me,
      du_opponentId = opponent, du_minutes = minutes, du_status = (if opponent = None then DOpen else DPending),
      du_startedAt = None, du_endsAt = None, du_challengerPct = None, du_opponentPct = None, du_winnerId = None,
      du_createdAt = dw_now s\<rparr>"

definition started :: "int \<Rightarrow> int \<Rightarrow> duel \<Rightarrow> duel" where
  "started minutes t d = d\<lparr>du_status := DLive, du_startedAt := Some t, du_endsAt := Some (t + minutes * MINUTE_MS)\<rparr>"

definition winner_of :: "duel \<Rightarrow> jsnum option \<Rightarrow> jsnum option \<Rightarrow> string option" where
  "winner_of d a b = (case du_opponentId d of None \<Rightarrow> None | Some opponent \<Rightarrow> duelWinner (du_challengerId d, a) (opponent, b))"

fun commit_write :: "pending_write \<Rightarrow> duel_world \<Rightarrow> nat \<times> duel_world" where
  "commit_write (CreateDuel me opponent minutes conversation) s =
     (1, s\<lparr>dw_duels := dw_duels s @ [new_duel me opponent minutes conversation s], dw_next := dw_next s + 1\<rparr>)"
| "commit_write (StartDuel d t) s =
     update_duels (\<lambda>r. du_id r = du_id d \<and> du_status r = DPending) (started (du_minutes d) t) s"
| "commit_write (TakeDuel d me t) s =
     update_duels (\<lambda>r. du_id r = du_id d \<and> du_status r = DOpen \<and> du_opponentId r = None)
       (\<lambda>r. started (du_minutes d) t (r\<lparr>du_opponentId := Some me\<rparr>)) s"
| "commit_write (CloseDuel i status) s =
     update_duels (\<lambda>r. du_id r = i \<and> (du_status r = DPending \<or> du_status r = DOpen)) (\<lambda>r. r\<lparr>du_status := status\<rparr>) s"
| "commit_write (ExpireDuel i) s =
     update_duels (\<lambda>r. du_id r = i \<and> (du_status r = DPending \<or> du_status r = DOpen)) (\<lambda>r. r\<lparr>du_status := DExpired\<rparr>) s"
| "commit_write (DecideDuel d a b) s =
     update_duels (\<lambda>r. du_id r = du_id d \<and> du_status r = DLive)
       (\<lambda>r. r\<lparr>du_status := DDone, du_challengerPct := a, du_opponentPct := b, du_winnerId := winner_of d a b\<rparr>) s"
| "commit_write (LinkDuel i conversation message) s =
     update_duels (\<lambda>r. du_id r = i) (\<lambda>r. r\<lparr>du_conversationId := conversation, du_messageId := message\<rparr>) s"

subsection \<open>Requests: the reads and checks\<close>

text \<open>The user table, and the chat service's answers.\<close>

record duel_env =
  de_username :: "string \<Rightarrow> string option"
  de_userNamed :: "string \<Rightarrow> string option"
  de_participants :: "string \<Rightarrow> string \<Rightarrow> (js_error, string list) result"
  de_openChat :: "string \<Rightarrow> string \<Rightarrow> (js_error, string) result"
  de_postDuel :: "string \<Rightarrow> string \<Rightarrow> string \<Rightarrow> (js_error, string) result"
  de_redisUp :: bool

definition has_username :: "duel_env \<Rightarrow> string \<Rightarrow> bool" where
  "has_username env me = (case de_username env me of None \<Rightarrow> False | Some name \<Rightarrow> name \<noteq> [])"

definition opponent_name :: "string \<Rightarrow> string" where
  "opponent_name input = to_lower (trim (case input of [] \<Rightarrow> [] | c # r \<Rightarrow> if c = CHR ''@'' then r else input))"

text \<open>\<open>SET NX EX 20\<close>; when Redis is down the check lets everyone through.\<close>

definition take_cooldown :: "duel_env \<Rightarrow> string \<Rightarrow> duel_world \<Rightarrow> bool \<times> duel_world" where
  "take_cooldown env me s =
     (if \<not> de_redisUp env then (True, s)
      else if me \<in> set (dw_cool s) then (False, s)
      else (True, s\<lparr>dw_cool := me # dw_cool s\<rparr>))"

definition between :: "string \<Rightarrow> string \<Rightarrow> duel \<Rightarrow> bool" where
  "between a b d = ((du_challengerId d = a \<and> du_opponentId d = Some b) \<or> (du_challengerId d = b \<and> du_opponentId d = Some a))"

definition challenge_checks ::
    "duel_env \<Rightarrow> string \<Rightarrow> string \<Rightarrow> int \<Rightarrow> duel_world \<Rightarrow> (js_error, string) result" where
  "challenge_checks env me opponentUsername minutes s =
     bind_result (reject_if (minutes \<notin> set DUEL_MINUTES) (BadRequest ''Pick 5, 15, 30 or 60 minutes.'')) (\<lambda>_.
     bind_result (reject_if (\<not> has_username env me) (Forbidden ''Set a username in your profile first.'')) (\<lambda>_.
     case de_userNamed env (opponent_name opponentUsername) of
       None \<Rightarrow> Err (NotFound ''No Kamby user with that name.'')
     | Some opponent \<Rightarrow>
         bind_result (reject_if (opponent = me) (BadRequest ''You can't duel yourself.'')) (\<lambda>_.
         bind_result (reject_if (\<exists>d\<in>set (dw_duels s). du_status d \<in> {DPending, DLive} \<and> between me opponent d)
           (BadRequest ''You two already have a duel going.'')) (\<lambda>_. Ok opponent))))"

definition duel_chat :: "duel_env \<Rightarrow> string \<Rightarrow> string \<Rightarrow> string \<Rightarrow> string option \<Rightarrow> (js_error, string) result" where
  "duel_chat env me opponent opponentName conversationId =
     (case conversationId of
        Some c \<Rightarrow> bind_result (de_participants env me c) (\<lambda>people.
          bind_result (reject_if (opponent \<notin> set people) (BadRequest ''They're not in this chat.'')) (\<lambda>_. Ok c))
      | None \<Rightarrow> de_openChat env me opponentName)"

definition challenge_reads ::
    "duel_env \<Rightarrow> string \<Rightarrow> string \<Rightarrow> int \<Rightarrow> string option \<Rightarrow> duel_world \<Rightarrow> (js_error, pending_write) result \<times> duel_world" where
  "challenge_reads env me opponentUsername minutes conversationId s =
     (case challenge_checks env me opponentUsername minutes s of
        Inl e \<Rightarrow> (Inl e, s)
      | Inr opponent \<Rightarrow>
          (case take_cooldown env me s of
             (False, s1) \<Rightarrow> (Err (TooManyRequests ''One challenge at a time -- try again in a few seconds.''), s1)
           | (True, s1) \<Rightarrow>
               (bind_result (duel_chat env me opponent (opponent_name opponentUsername) conversationId) (\<lambda>c.
                  Ok (CreateDuel me (Some opponent) minutes (Some c))), s1)))"

definition open_reads :: "duel_env \<Rightarrow> string \<Rightarrow> int \<Rightarrow> duel_world \<Rightarrow> (js_error, pending_write) result \<times> duel_world" where
  "open_reads env me minutes s =
     (if minutes \<notin> set DUEL_MINUTES then (Err (BadRequest ''Pick 5, 15, 30 or 60 minutes.''), s)
      else if \<not> has_username env me then (Err (Forbidden ''Set a username in your profile first.''), s)
      else if \<exists>d\<in>set (dw_duels s). du_challengerId d = me \<and> du_status d = DOpen \<and> du_createdAt d > dw_now s - OPEN_MINUTES * MINUTE_MS
      then (Err (BadRequest ''You already have an open duel waiting.''), s)
      else (case take_cooldown env me s of
              (False, s1) \<Rightarrow> (Err (TooManyRequests ''One challenge at a time -- try again in a few seconds.''), s1)
            | (True, s1) \<Rightarrow> (Ok (CreateDuel me None minutes None), s1)))"

definition join_reads :: "duel_env \<Rightarrow> string \<Rightarrow> string \<Rightarrow> duel_world \<Rightarrow> (js_error, pending_write) result" where
  "join_reads env me i s =
     bind_result (find_duel i s) (\<lambda>d.
     bind_result (reject_if (du_status d \<noteq> DOpen \<or> lapsed s d) (BadRequest ''This duel is no longer open.'')) (\<lambda>_.
     bind_result (reject_if (du_challengerId d = me) (BadRequest ''You can't duel yourself.'')) (\<lambda>_.
     bind_result (reject_if (\<not> has_username env me) (Forbidden ''Set a username in your profile first.'')) (\<lambda>_.
     Ok (TakeDuel d me (dw_now s))))))"

definition accept_reads :: "string \<Rightarrow> string \<Rightarrow> duel_world \<Rightarrow> (js_error, pending_write) result" where
  "accept_reads me i s =
     bind_result (find_duel i s) (\<lambda>d.
     bind_result (reject_if (du_opponentId d \<noteq> Some me) (Forbidden ''Only the challenged trader can accept.'')) (\<lambda>_.
     bind_result (reject_if (du_status d \<noteq> DPending \<or> lapsed s d) (BadRequest ''This challenge is no longer open.'')) (\<lambda>_.
     Ok (StartDuel d (dw_now s)))))"

definition decline_reads :: "string \<Rightarrow> string \<Rightarrow> duel_world \<Rightarrow> (js_error, pending_write) result" where
  "decline_reads me i s =
     bind_result (find_duel i s) (\<lambda>d.
     bind_result (reject_if (du_opponentId d \<noteq> Some me) (Forbidden ''That's not yours to do.'')) (\<lambda>_.
     bind_result (reject_if (du_status d \<noteq> DPending) (BadRequest ''This challenge is no longer open.'')) (\<lambda>_.
     Ok (CloseDuel i DDeclined))))"

definition cancel_reads :: "string \<Rightarrow> string \<Rightarrow> duel_world \<Rightarrow> (js_error, pending_write) result" where
  "cancel_reads me i s =
     bind_result (find_duel i s) (\<lambda>d.
     bind_result (reject_if (du_challengerId d \<noteq> me) (Forbidden ''That's not yours to do.'')) (\<lambda>_.
     bind_result (reject_if (du_status d \<noteq> DPending \<and> du_status d \<noteq> DOpen) (BadRequest ''This challenge is no longer open.'')) (\<lambda>_.
     Ok (CloseDuel i DCancelled))))"

text \<open>\<open>finalize\<close> up to its write: the two scores, each on the ledger of the moment it is computed.\<close>

definition decide_reads :: "duel_ledger \<Rightarrow> duel_ledger \<Rightarrow> duel \<Rightarrow> (js_error, pending_write option) result" where
  "decide_reads LA LB d =
     (case (du_startedAt d, du_endsAt d, du_opponentId d) of
        (Some start, Some end', Some opponent) \<Rightarrow>
          bind_result (score LA (du_challengerId d) start end') (\<lambda>a.
          bind_result (score LB opponent start end') (\<lambda>b.
          Ok (Some (DecideDuel d (sc_pct a) (sc_pct b)))))
      | _ \<Rightarrow> Ok None)"

definition overdue :: "duel_world \<Rightarrow> duel \<Rightarrow> bool" where
  "overdue s d = (du_status d = DLive \<and> (case du_endsAt d of None \<Rightarrow> False | Some t \<Rightarrow> t \<le> dw_now s))"

definition stale_challenge :: "duel_world \<Rightarrow> duel \<Rightarrow> bool" where
  "stale_challenge s d = ((du_status d = DPending \<or> du_status d = DOpen) \<and> lapsed s d)"

text \<open>What reading a row, or sweeping over it, makes the service write.\<close>

definition upkeep_reads :: "duel_ledger \<Rightarrow> duel_ledger \<Rightarrow> duel_world \<Rightarrow> duel \<Rightarrow> (js_error, pending_write option) result" where
  "upkeep_reads LA LB s d =
     (if overdue s d then decide_reads LA LB d
      else if stale_challenge s d then Ok (Some (ExpireDuel (du_id d))) else Ok None)"

subsection \<open>The service, one request at a time\<close>

definition get_duel :: "string \<Rightarrow> duel_world \<Rightarrow> (js_error, duel) result \<times> duel_world" where
  "get_duel i s =
     (case find_duel i s of
        Inl e \<Rightarrow> (Inl e, s)
      | Inr d \<Rightarrow>
          (case upkeep_reads (dw_ledger s) (dw_ledger s) s d of
             Inl e \<Rightarrow> (Inl e, s)
           | Inr None \<Rightarrow> (Ok d, s)
           | Inr (Some w) \<Rightarrow> (case commit_write w s of (n, s1) \<Rightarrow> (find_duel i s1, s1))))"

text \<open>A conditional write that touches no row is an error, except when closing.\<close>

definition write_then_get ::
    "(js_error, pending_write) result \<Rightarrow> js_error option \<Rightarrow> string \<Rightarrow> duel_world \<Rightarrow> (js_error, duel) result \<times> duel_world" where
  "write_then_get r missed i s =
     (case r of
        Inl e \<Rightarrow> (Inl e, s)
      | Inr w \<Rightarrow>
          (case (commit_write w s, missed) of
             ((0, s1), Some e) \<Rightarrow> (Inl e, s1)
           | ((n, s1), _) \<Rightarrow> get_duel i s1))"

definition duel_accept :: "string \<Rightarrow> string \<Rightarrow> duel_world \<Rightarrow> (js_error, duel) result \<times> duel_world" where
  "duel_accept me i s = write_then_get (accept_reads me i s) (Some (BadRequest ''This challenge is no longer open.'')) i s"

definition duel_decline :: "string \<Rightarrow> string \<Rightarrow> duel_world \<Rightarrow> (js_error, duel) result \<times> duel_world" where
  "duel_decline me i s = write_then_get (decline_reads me i s) None i s"

definition duel_cancel :: "string \<Rightarrow> string \<Rightarrow> duel_world \<Rightarrow> (js_error, duel) result \<times> duel_world" where
  "duel_cancel me i s = write_then_get (cancel_reads me i s) None i s"

text \<open>The chat card of a joined duel: skipped when the challenger has no name or the chat fails.\<close>

definition link_joined :: "duel_env \<Rightarrow> string \<Rightarrow> duel \<Rightarrow> duel_world \<Rightarrow> duel_world" where
  "link_joined env me d s =
     (if \<not> has_username env (du_challengerId d) then s
      else case de_openChat env me (case de_username env (du_challengerId d) of None \<Rightarrow> [] | Some n \<Rightarrow> n) of
             Inl e \<Rightarrow> s
           | Inr c \<Rightarrow> if c = [] then s
               else snd (commit_write (LinkDuel (du_id d) (Some c)
                 (case de_postDuel env me c (du_id d) of Inl e \<Rightarrow> None | Inr m \<Rightarrow> Some m)) s))"

definition duel_join :: "duel_env \<Rightarrow> string \<Rightarrow> string \<Rightarrow> duel_world \<Rightarrow> (js_error, duel) result \<times> duel_world" where
  "duel_join env me i s =
     (case (find_duel i s, join_reads env me i s) of
        (Inr d, Inr w) \<Rightarrow>
          (case commit_write w s of
             (0, s1) \<Rightarrow> (Err (BadRequest ''Someone else just took this duel.''), s1)
           | (n, s1) \<Rightarrow> get_duel i (link_joined env me d s1))
      | (_, Inl e) \<Rightarrow> (Inl e, s)
      | (Inl e, _) \<Rightarrow> (Inl e, s))"

definition duel_challenge ::
    "duel_env \<Rightarrow> string \<Rightarrow> string \<Rightarrow> int \<Rightarrow> string option \<Rightarrow> duel_world \<Rightarrow> (js_error, duel) result \<times> duel_world" where
  "duel_challenge env me opponentUsername minutes conversationId s =
     (case challenge_reads env me opponentUsername minutes conversationId s of
        (Inr (CreateDuel u opponent n (Some c)), s1) \<Rightarrow>
          (let i = string_of_int (int (dw_next s1)); s2 = snd (commit_write (CreateDuel u opponent n (Some c)) s1) in
           case de_postDuel env me c i of
             Inl e \<Rightarrow> (Inl e, s2)
           | Inr message \<Rightarrow> get_duel i (snd (commit_write (LinkDuel i (Some c) (Some message)) s2)))
      | (Inr w, s1) \<Rightarrow> (Err TypeError, s1)
      | (Inl e, s1) \<Rightarrow> (Inl e, s1))"

definition openDuel :: "duel_env \<Rightarrow> string \<Rightarrow> int \<Rightarrow> duel_world \<Rightarrow> (js_error, duel) result \<times> duel_world" where
  "openDuel env me minutes s =
     (case open_reads env me minutes s of
        (r, s1) \<Rightarrow> write_then_get r None (string_of_int (int (dw_next s1))) s1)"

definition open_ids :: "duel_world \<Rightarrow> string list" where
  "open_ids s = map du_id (take OPEN_LIST (sort_by (\<lambda>a b. du_createdAt b < du_createdAt a)
     (filter (\<lambda>d. du_status d = DOpen \<and> du_createdAt d > dw_now s - OPEN_MINUTES * MINUTE_MS) (dw_duels s))))"

fun get_open :: "string list \<Rightarrow> duel_world \<Rightarrow> duel list \<times> duel_world" where
  "get_open [] s = ([], s)"
| "get_open (i # is) s =
     (case get_duel i s of
        (r, s1) \<Rightarrow> (case get_open is s1 of
           (ds, s2) \<Rightarrow> ((case r of Inl e \<Rightarrow> ds | Inr d \<Rightarrow> if du_status d = DOpen then d # ds else ds), s2)))"

definition listOpen :: "duel_world \<Rightarrow> duel list \<times> duel_world" where
  "listOpen s = get_open (open_ids s) s"

text \<open>One sweep by the instance that holds the lock; a duel that cannot be decided is logged.\<close>

definition sweep_due :: "duel \<Rightarrow> duel_world \<Rightarrow> duel_world" where
  "sweep_due d s = (case decide_reads (dw_ledger s) (dw_ledger s) d of Inr (Some w) \<Rightarrow> snd (commit_write w s) | _ \<Rightarrow> s)"

definition sweep_duels :: "duel_world \<Rightarrow> duel_world" where
  "sweep_duels s =
     (let s1 = fold sweep_due (take SWEEP_DUE (filter (overdue s) (dw_duels s))) s in
      fold (\<lambda>d s. snd (commit_write (ExpireDuel (du_id d)) s)) (take SWEEP_OLD (filter (stale_challenge s1) (dw_duels s1))) s1)"

subsection \<open>This month's leaders\<close>

record duel_leader =
  le_userId :: string
  le_wins :: nat
  le_played :: nat
  le_streak :: nat

definition decided_since :: "int \<Rightarrow> duel list \<Rightarrow> duel list" where
  "decided_since monthStart ds =
     filter (\<lambda>d. du_status d = DDone \<and> (case du_endsAt d of None \<Rightarrow> False | Some t \<Rightarrow> monthStart \<le> t)) ds"

definition ended_at :: "duel \<Rightarrow> int" where "ended_at d = (case du_endsAt d of None \<Rightarrow> 0 | Some t \<Rightarrow> t)"

definition wins_of :: "string \<Rightarrow> duel list \<Rightarrow> nat" where
  "wins_of u ds = length (filter (\<lambda>d. du_winnerId d = Some u) ds)"

definition plays :: "string \<Rightarrow> duel \<Rightarrow> bool" where
  "plays u d = (du_challengerId d = u \<or> du_opponentId d = Some u)"

definition leaders :: "nat \<Rightarrow> int \<Rightarrow> duel list \<Rightarrow> duel_leader list" where
  "leaders limit monthStart ds =
     (let decided = decided_since monthStart ds;
          ids = take limit (sort_by (\<lambda>a b. wins_of a decided > wins_of b decided) (remdups (List.map_filter du_winnerId decided)));
          recent = take 2000 (sort_by (\<lambda>a b. ended_at b < ended_at a)
            (filter (\<lambda>d. \<exists>u\<in>set ids. plays u d) decided))
      in map (\<lambda>u. let theirs = filter (plays u) recent in
           \<lparr>le_userId = u, le_wins = wins_of u decided, le_played = length theirs,
            le_streak = length (takeWhile (\<lambda>d. du_winnerId d = Some u) theirs)\<rparr>) ids)"

subsection \<open>Any number of requests at once\<close>

datatype duel_request =
    Challenging duel_env string string int "string option"
  | Opening duel_env string int
  | Joining duel_env string string
  | Accepting string string
  | Declining string string
  | Cancelling string string
  | Reading string duel_ledger duel_ledger
  | Linking string "string option" "string option"

text \<open>The first half of a request: an error, nothing to write, or a pending write.\<close>

fun request_reads :: "duel_request \<Rightarrow> duel_world \<Rightarrow> (js_error, pending_write option) result \<times> duel_world" where
  "request_reads (Challenging env me name minutes conversation) s =
     (case challenge_reads env me name minutes conversation s of (r, s1) \<Rightarrow> (map_sum id Some r, s1))"
| "request_reads (Opening env me minutes) s = (case open_reads env me minutes s of (r, s1) \<Rightarrow> (map_sum id Some r, s1))"
| "request_reads (Joining env me i) s = (map_sum id Some (join_reads env me i s), s)"
| "request_reads (Accepting me i) s = (map_sum id Some (accept_reads me i s), s)"
| "request_reads (Declining me i) s = (map_sum id Some (decline_reads me i s), s)"
| "request_reads (Cancelling me i) s = (map_sum id Some (cancel_reads me i s), s)"
| "request_reads (Reading i LA LB) s = (bind_result (find_duel i s) (upkeep_reads LA LB s), s)"
| "request_reads (Linking i conversation message) s = (Ok (Some (LinkDuel i conversation message)), s)"

text \<open>The clock never goes back, and cooldowns expire; requests arrive, with the ledgers they find when they compute
  a score, and pending writes land in any order or never, when an instance stops.\<close>

datatype duel_event =
    ClockReads int
  | CooldownEnds string
  | Arrives duel_request
  | Lands nat
  | Stops nat

type_synonym duel_system = "duel_world \<times> pending_write list"

definition drop_nth :: "nat \<Rightarrow> 'a list \<Rightarrow> 'a list" where "drop_nth n xs = take n xs @ drop (Suc n) xs"

fun duel_step :: "duel_event \<Rightarrow> duel_system \<Rightarrow> duel_system" where
  "duel_step (ClockReads t) (s, ws) = (s\<lparr>dw_now := max (dw_now s) t\<rparr>, ws)"
| "duel_step (CooldownEnds u) (s, ws) = (s\<lparr>dw_cool := removeAll u (dw_cool s)\<rparr>, ws)"
| "duel_step (Arrives q) (s, ws) =
     (case request_reads q s of (Inr (Some w), s1) \<Rightarrow> (s1, ws @ [w]) | (_, s1) \<Rightarrow> (s1, ws))"
| "duel_step (Lands n) (s, ws) = (if n < length ws then (snd (commit_write (ws ! n) s), drop_nth n ws) else (s, ws))"
| "duel_step (Stops n) (s, ws) = (s, drop_nth n ws)"

fun run_duels :: "duel_event list \<Rightarrow> duel_system \<Rightarrow> duel_system" where
  "run_duels [] st = st"
| "run_duels (e # es) st = run_duels es (duel_step e st)"

subsection \<open>Rows over time\<close>

text \<open>A table evolves when every row has a later version in it.\<close>

definition evolves :: "('r \<Rightarrow> 'r \<Rightarrow> bool) \<Rightarrow> 'r list \<Rightarrow> 'r list \<Rightarrow> bool" where
  "evolves later rows rows' \<longleftrightarrow> (\<forall>r\<in>set rows. \<exists>r'\<in>set rows'. later r r')"

locale row_history =
  fixes later :: "'r \<Rightarrow> 'r \<Rightarrow> bool"
  assumes same: "later r r"
    and compose: "later r r1 \<Longrightarrow> later r1 r2 \<Longrightarrow> later r r2"
begin

lemma evolves_refl: "evolves later rows rows"
  by (auto simp: evolves_def intro: same)

lemma evolves_trans: "evolves later rows rows1 \<Longrightarrow> evolves later rows1 rows2 \<Longrightarrow> evolves later rows rows2"
  unfolding evolves_def by (meson compose)

lemma evolves_append: "evolves later rows (rows @ new)"
  by (auto simp: evolves_def intro: same)

lemma evolves_update:
  assumes "\<And>r. r \<in> set rows \<Longrightarrow> p r \<Longrightarrow> later r (f r)"
  shows "evolves later rows (update_where p f rows)"
  unfolding evolves_def
proof
  fix r assume r: "r \<in> set rows"
  then have "(if p r then f r else r) \<in> set (update_where p f rows)" by (auto simp: update_where_def)
  moreover have "later r (if p r then f r else r)" using assms [OF r] same by simp
  ultimately show "\<exists>r'\<in>set (update_where p f rows). later r r'" by blast
qed

text \<open>A row read earlier still has its later version after the table evolves.\<close>

lemma evolves_seen: "\<exists>r\<in>set rows. later d r \<Longrightarrow> evolves later rows rows' \<Longrightarrow> \<exists>r\<in>set rows'. later d r"
  unfolding evolves_def by (meson compose)

end

definition duel_moves :: "duel_status \<Rightarrow> duel_status \<Rightarrow> bool" where
  "duel_moves a b =
     (a = b \<or> a = DOpen \<and> b \<in> {DLive, DDone, DCancelled, DExpired}
      \<or> a = DPending \<and> b \<in> {DLive, DDone, DDeclined, DCancelled, DExpired} \<or> a = DLive \<and> b = DDone)"

definition ended :: "duel_status \<Rightarrow> bool" where
  "ended st = (st \<in> {DDone, DDeclined, DExpired, DCancelled})"

definition outcome :: "duel \<Rightarrow> jsnum option \<times> jsnum option \<times> string option" where
  "outcome d = (du_challengerPct d, du_opponentPct d, du_winnerId d)"

definition later_duel :: "duel \<Rightarrow> duel \<Rightarrow> bool" where
  "later_duel d r \<longleftrightarrow>
     du_id r = du_id d \<and> du_challengerId r = du_challengerId d \<and> du_minutes r = du_minutes d \<and> du_createdAt r = du_createdAt d
     \<and> (du_opponentId d \<noteq> None \<longrightarrow> du_opponentId r = du_opponentId d)
     \<and> (du_startedAt d \<noteq> None \<longrightarrow> du_startedAt r = du_startedAt d \<and> du_endsAt r = du_endsAt d)
     \<and> duel_moves (du_status d) (du_status r)
     \<and> (ended (du_status d) \<longrightarrow> outcome r = outcome d)"

lemma duel_moves_trans: "duel_moves a b \<Longrightarrow> duel_moves b c \<Longrightarrow> duel_moves a c"
  by (auto simp: duel_moves_def)

lemma ended_moves: "duel_moves a b \<Longrightarrow> ended a \<Longrightarrow> b = a"
  by (auto simp: duel_moves_def ended_def)

interpretation duel_rows: row_history later_duel
proof
  show "later_duel d d" for d by (simp add: later_duel_def duel_moves_def)
next
  fix d r r1 assume "later_duel d r" "later_duel r r1"
  then show "later_duel d r1"
    unfolding later_duel_def using duel_moves_trans ended_moves by (metis (no_types, lifting))
qed

text \<open>A well-formed row: its columns fit its status, and a decided duel was over.\<close>

definition unstarted :: "duel \<Rightarrow> bool" where
  "unstarted d = (du_startedAt d = None \<and> du_endsAt d = None)"

definition undecided :: "duel \<Rightarrow> bool" where
  "undecided d = (outcome d = (None, None, None))"

definition timed_for :: "duel \<Rightarrow> bool" where
  "timed_for d = (case du_startedAt d of None \<Rightarrow> False | Some t \<Rightarrow> du_endsAt d = Some (t + du_minutes d * MINUTE_MS))"

definition duel_wf :: "int \<Rightarrow> duel \<Rightarrow> bool" where
  "duel_wf now d =
     (du_minutes d \<in> set DUEL_MINUTES \<and> du_opponentId d \<noteq> Some (du_challengerId d)
      \<and> (case du_status d of
           DOpen \<Rightarrow> du_opponentId d = None \<and> unstarted d \<and> undecided d
         | DPending \<Rightarrow> du_opponentId d \<noteq> None \<and> unstarted d \<and> undecided d
         | DLive \<Rightarrow> du_opponentId d \<noteq> None \<and> timed_for d \<and> undecided d
         | DDone \<Rightarrow> du_opponentId d \<noteq> None \<and> timed_for d \<and> ended_at d \<le> now
             \<and> du_winnerId d = winner_of d (du_challengerPct d) (du_opponentPct d)
         | DDeclined \<Rightarrow> du_opponentId d \<noteq> None \<and> unstarted d \<and> undecided d
         | _ \<Rightarrow> unstarted d \<and> undecided d))"

subsection \<open>What the table and the pending writes keep\<close>

text \<open>A pending write was allowed by an earlier version of a row that is still there.\<close>

definition seen :: "duel_world \<Rightarrow> duel \<Rightarrow> bool" where
  "seen s d = (\<exists>r\<in>set (dw_duels s). later_duel d r)"

definition write_ok :: "duel_world \<Rightarrow> pending_write \<Rightarrow> bool" where
  "write_ok s w =
     (case w of
        CreateDuel me opponent minutes conversation \<Rightarrow> minutes \<in> set DUEL_MINUTES \<and> opponent \<noteq> Some me
      | StartDuel d t \<Rightarrow> seen s d
      | TakeDuel d me t \<Rightarrow> seen s d \<and> du_challengerId d \<noteq> me
      | CloseDuel i status \<Rightarrow> status = DCancelled \<or> status = DDeclined \<and> (\<exists>d. seen s d \<and> du_id d = i \<and> du_opponentId d \<noteq> None)
      | DecideDuel d a b \<Rightarrow> seen s d \<and> du_status d = DLive \<and> du_opponentId d \<noteq> None \<and> du_startedAt d \<noteq> None \<and> ended_at d \<le> dw_now s
      | _ \<Rightarrow> True)"

definition duels_inv :: "duel_world \<Rightarrow> bool" where
  "duels_inv s \<longleftrightarrow>
     distinct (map du_id (dw_duels s)) \<and> (\<forall>d\<in>set (dw_duels s). duel_wf (dw_now s) d)
     \<and> (\<forall>d\<in>set (dw_duels s). \<exists>n<dw_next s. du_id d = string_of_int (int n))"

text \<open>One step forward: the table evolves and the clock does not go back.\<close>

definition forward :: "duel_world \<Rightarrow> duel_world \<Rightarrow> bool" where
  "forward s s' \<longleftrightarrow> evolves later_duel (dw_duels s) (dw_duels s') \<and> dw_now s \<le> dw_now s'"

lemma forward_refl: "forward s s"
  by (simp add: forward_def duel_rows.evolves_refl)

lemma forward_trans: "forward s s1 \<Longrightarrow> forward s1 s2 \<Longrightarrow> forward s s2"
  by (auto simp: forward_def intro: duel_rows.evolves_trans)

lemma seen_forward: "seen s d \<Longrightarrow> forward s s' \<Longrightarrow> seen s' d"
  by (auto simp: seen_def forward_def intro: duel_rows.evolves_seen)

lemma write_ok_forward: "write_ok s w \<Longrightarrow> forward s s' \<Longrightarrow> write_ok s' w"
  by (cases w) (auto simp: write_ok_def forward_def intro: seen_forward [unfolded forward_def])

lemma duel_wf_later: "duel_wf now d \<Longrightarrow> now \<le> now' \<Longrightarrow> duel_wf now' d"
  by (auto simp: duel_wf_def split: duel_status.splits)

text \<open>A conditional update whose change makes a well-formed later version of each row it touches.\<close>

lemma update_duels_inv:
  assumes "duels_inv s" "\<And>r. r \<in> set (dw_duels s) \<Longrightarrow> p r \<Longrightarrow> later_duel r (f r) \<and> duel_wf (dw_now s) (f r)"
    "\<And>r. du_id (f r) = du_id r"
  shows "duels_inv (snd (update_duels p f s)) \<and> forward s (snd (update_duels p f s))"
proof -
  have "evolves later_duel (dw_duels s) (update_where p f (dw_duels s))"
    using assms(2) by (intro duel_rows.evolves_update) blast
  moreover have "\<forall>d\<in>set (update_where p f (dw_duels s)). duel_wf (dw_now s) d"
    using assms(1,2) by (intro update_where_ball) (auto simp: duels_inv_def)
  moreover have "\<forall>d\<in>set (update_where p f (dw_duels s)). \<exists>n<dw_next s. du_id d = string_of_int (int n)"
    using assms(1,3) by (intro update_where_ball) (auto simp: duels_inv_def)
  ultimately show ?thesis
    using assms(1) by (simp add: duels_inv_def forward_def update_duels_def map_update_where_key [of du_id, OF assms(3)])
qed

lemma seen_row:
  assumes "duels_inv s" "seen s d" "r \<in> set (dw_duels s)" "du_id r = du_id d"
  shows "later_duel d r"
proof -
  obtain r' where "r' \<in> set (dw_duels s)" "later_duel d r'" using assms(2) by (auto simp: seen_def)
  moreover have "r' = r"
    using assms(1,3,4) calculation by (intro distinct_map_unique [of du_id "dw_duels s"]) (auto simp: duels_inv_def later_duel_def)
  ultimately show ?thesis by simp
qed

lemma started_later:
  assumes "duel_wf now r" "du_status r = DPending \<or> du_status r = DOpen" "du_opponentId r = None \<or> du_opponentId r = o1"
    "o1 \<noteq> None" "o1 \<noteq> Some (du_challengerId r)"
  shows "later_duel r (started (du_minutes r) t (r\<lparr>du_opponentId := o1\<rparr>)) \<and> duel_wf now (started (du_minutes r) t (r\<lparr>du_opponentId := o1\<rparr>))"
  using assms by (auto simp: duel_wf_def later_duel_def started_def duel_moves_def ended_def timed_for_def unstarted_def undecided_def outcome_def)

lemma closed_later:
  assumes "duel_wf now r" "du_status r = DPending \<or> du_status r = DOpen" "st \<in> {DExpired, DCancelled} \<or> st = DDeclined \<and> du_opponentId r \<noteq> None"
  shows "later_duel r (r\<lparr>du_status := st\<rparr>) \<and> duel_wf now (r\<lparr>du_status := st\<rparr>)"
  using assms by (auto simp: duel_wf_def later_duel_def duel_moves_def ended_def unstarted_def undecided_def outcome_def)

lemma decided_later:
  assumes "duel_wf now r" "du_status r = DLive" "ended_at r \<le> now" "w = winner_of r a b"
  shows "later_duel r (r\<lparr>du_status := DDone, du_challengerPct := a, du_opponentPct := b, du_winnerId := w\<rparr>)
     \<and> duel_wf now (r\<lparr>du_status := DDone, du_challengerPct := a, du_opponentPct := b, du_winnerId := w\<rparr>)"
  using assms by (auto simp: duel_wf_def later_duel_def duel_moves_def ended_def timed_for_def ended_at_def winner_of_def split: option.splits)

lemma create_inv:
  assumes "duels_inv s" "minutes \<in> set DUEL_MINUTES" "opponent \<noteq> Some me"
  shows "duels_inv (snd (commit_write (CreateDuel me opponent minutes conversation) s))
     \<and> forward s (snd (commit_write (CreateDuel me opponent minutes conversation) s))"
proof -
  let ?d = "new_duel me opponent minutes conversation s"
  have wf: "duel_wf (dw_now s) ?d"
    using assms(2,3) by (auto simp: duel_wf_def new_duel_def unstarted_def undecided_def outcome_def)
  have i: "du_id ?d = string_of_int (int (dw_next s))" by (simp add: new_duel_def)
  have fresh: "du_id ?d \<notin> set (map du_id (dw_duels s))"
  proof
    assume "du_id ?d \<in> set (map du_id (dw_duels s))"
    then obtain d where d: "d \<in> set (dw_duels s)" "du_id d = du_id ?d" by auto
    then obtain n where "n < dw_next s" "du_id d = string_of_int (int n)" using assms(1) by (auto simp: duels_inv_def)
    with d(2) i show False by (simp add: string_of_int_inj)
  qed
  have "\<exists>n<dw_next s + 1. du_id d = string_of_int (int n)" if d: "d \<in> set (dw_duels s)" for d
  proof -
    from d assms(1) obtain n where "n < dw_next s" "du_id d = string_of_int (int n)" by (auto simp: duels_inv_def)
    then show ?thesis by (intro exI [of _ n]) simp
  qed
  then show ?thesis using assms(1) wf i fresh
    by (auto simp: duels_inv_def forward_def intro: duel_rows.evolves_append)
qed

lemma link_later: "duel_wf now r \<Longrightarrow> later_duel r (r\<lparr>du_conversationId := c, du_messageId := m\<rparr>)
    \<and> duel_wf now (r\<lparr>du_conversationId := c, du_messageId := m\<rparr>)"
  by (auto simp: later_duel_def duel_wf_def duel_moves_def outcome_def unstarted_def undecided_def timed_for_def ended_at_def
      winner_of_def split: duel_status.splits option.splits)

lemma inv_wf: "duels_inv s \<Longrightarrow> r \<in> set (dw_duels s) \<Longrightarrow> duel_wf (dw_now s) r"
  by (simp add: duels_inv_def)

lemma commit_inv:
  assumes "duels_inv s" "write_ok s w"
  shows "duels_inv (snd (commit_write w s)) \<and> forward s (snd (commit_write w s))"
proof (cases w)
  case (CreateDuel me opponent minutes conversation)
  with assms(2) show ?thesis unfolding CreateDuel by (intro create_inv [OF assms(1)]) (simp_all add: write_ok_def)
next
  case (StartDuel d t)
  have "later_duel r (started (du_minutes d) t r) \<and> duel_wf (dw_now s) (started (du_minutes d) t r)"
    if r: "r \<in> set (dw_duels s)" "du_id r = du_id d \<and> du_status r = DPending" for r
  proof -
    have "du_minutes r = du_minutes d"
      using seen_row [OF assms(1), of d r] r assms(2) by (simp add: StartDuel write_ok_def later_duel_def)
    moreover have "du_opponentId r \<noteq> None" "du_opponentId r \<noteq> Some (du_challengerId r)"
      using inv_wf [OF assms(1) r(1)] r(2) by (simp_all add: duel_wf_def)
    ultimately show ?thesis
      using started_later [OF inv_wf [OF assms(1) r(1)], of "du_opponentId r" t] r(2) by simp
  qed
  then show ?thesis unfolding StartDuel commit_write.simps
    by (intro update_duels_inv [OF assms(1)]) (auto simp: started_def)
next
  case (TakeDuel d me t)
  have "later_duel r (started (du_minutes d) t (r\<lparr>du_opponentId := Some me\<rparr>))
      \<and> duel_wf (dw_now s) (started (du_minutes d) t (r\<lparr>du_opponentId := Some me\<rparr>))"
    if r: "r \<in> set (dw_duels s)" "du_id r = du_id d \<and> du_status r = DOpen \<and> du_opponentId r = None" for r
  proof -
    have "later_duel d r" using seen_row [OF assms(1), of d r] r assms(2) by (simp add: TakeDuel write_ok_def)
    then have "du_minutes r = du_minutes d" "du_challengerId r \<noteq> me"
      using assms(2) by (auto simp: TakeDuel write_ok_def later_duel_def)
    then show ?thesis using started_later [OF inv_wf [OF assms(1) r(1)], of "Some me" t] r(2) by simp
  qed
  then show ?thesis unfolding TakeDuel commit_write.simps
    by (intro update_duels_inv [OF assms(1)]) (auto simp: started_def)
next
  case (CloseDuel i st)
  have "later_duel r (r\<lparr>du_status := st\<rparr>) \<and> duel_wf (dw_now s) (r\<lparr>du_status := st\<rparr>)"
    if r: "r \<in> set (dw_duels s)" "du_id r = i \<and> (du_status r = DPending \<or> du_status r = DOpen)" for r
  proof -
    have "du_opponentId r \<noteq> None" if "st \<noteq> DCancelled"
    proof -
      obtain d where d: "st = DDeclined" "seen s d" "du_id d = i" "du_opponentId d \<noteq> None"
        using assms(2) \<open>st \<noteq> DCancelled\<close> by (auto simp: CloseDuel write_ok_def)
      with seen_row [OF assms(1), of d r] r show ?thesis by (simp add: later_duel_def)
    qed
    then show ?thesis using r assms(2)
      by (intro closed_later [OF inv_wf [OF assms(1) r(1)]]) (auto simp: CloseDuel write_ok_def)
  qed
  then show ?thesis unfolding CloseDuel commit_write.simps
    by (intro update_duels_inv [OF assms(1)]) auto
next
  case (ExpireDuel i)
  show ?thesis unfolding ExpireDuel commit_write.simps
    by (intro update_duels_inv [OF assms(1)] closed_later [OF inv_wf [OF assms(1)]]) auto
next
  case (DecideDuel d a b)
  have "later_duel r (r\<lparr>du_status := DDone, du_challengerPct := a, du_opponentPct := b, du_winnerId := winner_of d a b\<rparr>)
      \<and> duel_wf (dw_now s) (r\<lparr>du_status := DDone, du_challengerPct := a, du_opponentPct := b, du_winnerId := winner_of d a b\<rparr>)"
    if r: "r \<in> set (dw_duels s)" "du_id r = du_id d \<and> du_status r = DLive" for r
  proof -
    have "later_duel d r" using seen_row [OF assms(1), of d r] r assms(2) by (simp add: DecideDuel write_ok_def)
    then have "ended_at r \<le> dw_now s" "winner_of d a b = winner_of r a b"
      using assms(2) by (auto simp: DecideDuel write_ok_def later_duel_def ended_at_def winner_of_def)
    then show ?thesis using r by (intro decided_later [OF inv_wf [OF assms(1) r(1)]]) simp_all
  qed
  then show ?thesis unfolding DecideDuel commit_write.simps
    by (intro update_duels_inv [OF assms(1)]) auto
next
  case (LinkDuel i c m)
  show ?thesis unfolding LinkDuel commit_write.simps
    by (intro update_duels_inv [OF assms(1)] link_later inv_wf [OF assms(1)]) auto
qed

text \<open>The reads of a request change nothing but cooldowns, and what they leave may be written.\<close>

lemma find_duel_row: "find_duel i s = Ok d \<Longrightarrow> d \<in> set (dw_duels s) \<and> du_id d = i"
  by (auto simp: find_duel_def split: option.splits dest: find_SomeD)

lemma row_seen: "d \<in> set (dw_duels s) \<Longrightarrow> seen s d"
  by (auto simp: seen_def intro: duel_rows.same)

lemma take_cooldown_frame:
  "take_cooldown env me s = (b, s1) \<Longrightarrow> dw_duels s1 = dw_duels s \<and> dw_now s1 = dw_now s \<and> dw_next s1 = dw_next s"
  by (auto simp: take_cooldown_def split: if_splits)

definition same_duels :: "duel_world \<Rightarrow> duel_world \<Rightarrow> bool" where
  "same_duels s s' = (dw_duels s' = dw_duels s \<and> dw_now s' = dw_now s \<and> dw_next s' = dw_next s)"

lemma same_duels_inv: "same_duels s s' \<Longrightarrow> duels_inv s \<Longrightarrow> duels_inv s' \<and> forward s s'"
  by (simp add: same_duels_def duels_inv_def forward_def duel_rows.evolves_refl)

lemma upkeep_ok:
  assumes "duels_inv s" "d \<in> set (dw_duels s)" "upkeep_reads LA LB s d = Ok (Some w)"
  shows "write_ok s w"
  using assms(3) row_seen [OF assms(2)]
  by (auto simp: upkeep_reads_def decide_reads_def write_ok_def overdue_def ended_at_def bind_result_Ok_iff split: if_splits option.splits)

lemma challenge_reads_ok:
  "challenge_reads env me name minutes c s = (r, s1) \<Longrightarrow> same_duels s s1 \<and> (\<forall>w. r = Ok w \<longrightarrow> write_ok s1 w)"
  by (auto simp: challenge_reads_def challenge_checks_def same_duels_def write_ok_def bind_result_Ok_iff reject_if_def
      dest: take_cooldown_frame split: sum.splits prod.splits bool.splits option.splits if_splits)

lemma open_reads_ok:
  "open_reads env me minutes s = (r, s1) \<Longrightarrow> same_duels s s1 \<and> (\<forall>w. r = Ok w \<longrightarrow> write_ok s1 w)"
  by (auto simp: open_reads_def same_duels_def write_ok_def dest: take_cooldown_frame split: prod.splits bool.splits if_splits)

lemma map_sum_Some [simp]: "map_sum id Some r = Inr (Some w) \<longleftrightarrow> r = Inr w"
  by (cases r) auto

lemma decline_ok: "d \<in> set (dw_duels s) \<Longrightarrow> du_opponentId d = Some me \<Longrightarrow> write_ok s (CloseDuel (du_id d) DDeclined)"
  unfolding write_ok_def by (auto intro!: exI [of _ d] row_seen)

lemma row_reads_ok:
  shows "join_reads env me i s = Ok w \<Longrightarrow> write_ok s w" "accept_reads me i s = Ok w \<Longrightarrow> write_ok s w"
    "decline_reads me i s = Ok w \<Longrightarrow> write_ok s w" "cancel_reads me i s = Ok w \<Longrightarrow> write_ok s w"
proof -
  show "join_reads env me i s = Ok w \<Longrightarrow> write_ok s w" "accept_reads me i s = Ok w \<Longrightarrow> write_ok s w"
    "cancel_reads me i s = Ok w \<Longrightarrow> write_ok s w"
    by (auto simp: join_reads_def accept_reads_def cancel_reads_def write_ok_def bind_result_Ok_iff reject_if_def
        dest!: find_duel_row intro: row_seen split: if_splits)
  assume "decline_reads me i s = Ok w"
  then show "write_ok s w"
    by (auto simp: decline_reads_def bind_result_Ok_iff reject_if_def dest!: find_duel_row intro: decline_ok split: if_splits)
qed

lemma request_reads_ok:
  assumes "duels_inv s" "request_reads q s = (r, s1)"
  shows "same_duels s s1 \<and> (\<forall>w. r = Ok (Some w) \<longrightarrow> write_ok s1 w)"
proof (cases q)
  case (Challenging env me name minutes c)
  with assms(2) show ?thesis
    by (auto simp: dest!: challenge_reads_ok split: prod.splits)
next
  case (Opening env me minutes)
  with assms(2) show ?thesis by (auto simp: dest!: open_reads_ok split: prod.splits)
next
  case (Reading i LA LB)
  with assms show ?thesis
    by (auto simp: same_duels_def bind_result_Ok_iff dest!: find_duel_row intro: upkeep_ok)
qed (use assms row_reads_ok in \<open>auto simp: same_duels_def write_ok_def\<close>)

definition system_inv :: "duel_system \<Rightarrow> bool" where
  "system_inv st = (duels_inv (fst st) \<and> (\<forall>w\<in>set (snd st). write_ok (fst st) w))"

lemma set_drop_nth: "set (drop_nth n xs) \<subseteq> set xs"
  by (auto simp: drop_nth_def dest: in_set_takeD in_set_dropD)

lemma moved_on:
  assumes "system_inv (s, ws)" "duels_inv s'" "forward s s'" "set ws' \<subseteq> set ws"
  shows "system_inv (s', ws') \<and> forward s s'"
  using assms by (auto simp: system_inv_def intro: write_ok_forward)

lemma duel_step_inv:
  assumes "system_inv st"
  shows "system_inv (duel_step e st) \<and> forward (fst st) (fst (duel_step e st))"
proof -
  obtain s ws where st: "st = (s, ws)" by (rule prod.exhaust)
  note inv = assms [unfolded st]
  then have s: "duels_inv s" by (simp add: system_inv_def)
  show ?thesis
  proof (cases e)
    case (ClockReads t)
    have "duels_inv (s\<lparr>dw_now := max (dw_now s) t\<rparr>)" using s by (auto simp: duels_inv_def intro: duel_wf_later)
    moreover have "forward s (s\<lparr>dw_now := max (dw_now s) t\<rparr>)" by (simp add: forward_def duel_rows.evolves_refl)
    ultimately show ?thesis using moved_on [OF inv] by (simp add: ClockReads st)
  next
    case (CooldownEnds u)
    have "same_duels s (s\<lparr>dw_cool := removeAll u (dw_cool s)\<rparr>)" by (simp add: same_duels_def)
    from same_duels_inv [OF this s] show ?thesis using moved_on [OF inv] by (simp add: CooldownEnds st)
  next
    case (Arrives q)
    obtain r s1 where q: "request_reads q s = (r, s1)" by (rule prod.exhaust)
    note ok = request_reads_ok [OF s q]
    have m: "system_inv (s1, ws) \<and> forward s s1"
      using moved_on [OF inv] same_duels_inv [OF ok [THEN conjunct1] s] by blast
    show ?thesis
    proof (cases "\<exists>w. r = Ok (Some w)")
      case True
      with q ok m show ?thesis by (auto simp: Arrives st system_inv_def)
    next
      case False
      then have "duel_step e st = (s1, ws)" by (auto simp: Arrives st q split: sum.splits option.splits)
      with m show ?thesis by (simp add: st)
    qed
  next
    case (Lands n)
    show ?thesis
    proof (cases "n < length ws")
      case True
      then have "write_ok s (ws ! n)" using inv by (simp add: system_inv_def)
      with commit_inv [OF s] show ?thesis
        using moved_on [OF inv, of "snd (commit_write (ws ! n) s)" "drop_nth n ws"] True set_drop_nth [of n ws]
        by (simp add: Lands st)
    qed (use inv forward_refl in \<open>simp add: Lands st\<close>)
  next
    case (Stops n)
    show ?thesis using moved_on [OF inv s forward_refl set_drop_nth] by (simp add: Stops st)
  qed
qed

lemma run_duels_inv:
  "system_inv st \<Longrightarrow> system_inv (run_duels es st) \<and> forward (fst st) (fst (run_duels es st))"
proof (induction es arbitrary: st)
  case Nil
  then show ?case by (simp add: forward_refl)
next
  case (Cons e es)
  from duel_step_inv [OF Cons.prems, of e] Cons.IH [of "duel_step e st"] show ?case
    by (auto intro: forward_trans)
qed

lemma empty_inv: "dw_duels s = [] \<Longrightarrow> system_inv (s, [])"
  by (simp add: system_inv_def duels_inv_def)

text \<open>C32: the row of a duel always fits its status, under every interleaving of requests, reads and
  writes: an open one has no opponent, a running or finished one has two different players and
  ends exactly its minutes after it started, only a finished one has a result, its winner is the
  one the two scores decide, and it was not decided before its end; ids are unique.\<close>

theorem duels_well_formed:
  assumes "dw_duels start = []" "run_duels es (start, []) = (s, ws)"
  shows "distinct (map du_id (dw_duels s)) \<and> (\<forall>d\<in>set (dw_duels s). duel_wf (dw_now s) d)"
  using run_duels_inv [OF empty_inv [OF assms(1)], of es] by (simp add: assms(2) system_inv_def duels_inv_def)

text \<open>C33: a duel only moves forward: whatever happens after a moment, its players, length and, once
  started, its times stay, it is taken by at most one opponent, its status follows open or pending,
  live, done or one of the closed states, and once it has ended, its result never changes.\<close>

theorem duel_outcome_final:
  assumes "dw_duels start = []" "run_duels es (start, []) = (s, ws)" "run_duels es' (s, ws) = (s', ws')" "d \<in> set (dw_duels s)"
  shows "\<exists>d'\<in>set (dw_duels s').
      du_id d' = du_id d \<and> du_challengerId d' = du_challengerId d \<and> du_minutes d' = du_minutes d
      \<and> (du_opponentId d = None \<or> du_opponentId d' = du_opponentId d)
      \<and> (du_startedAt d = None \<or> du_startedAt d' = du_startedAt d \<and> du_endsAt d' = du_endsAt d)
      \<and> duel_moves (du_status d) (du_status d')
      \<and> (if ended (du_status d) then outcome d' = outcome d else True)"
proof -
  have "system_inv (s, ws)" using run_duels_inv [OF empty_inv [OF assms(1)], of es] assms(2) by simp
  from run_duels_inv [OF this, of es'] have "forward s s'" by (simp add: assms(3))
  with assms(4) obtain d' where "d' \<in> set (dw_duels s')" "later_duel d d'" by (auto simp: forward_def evolves_def)
  then show ?thesis by (intro bexI [of _ d']) (auto simp: later_duel_def)
qed

subsection \<open>Small runs\<close>

definition duel_env0 :: duel_env where
  "duel_env0 = \<lparr>de_username = Some, de_userNamed = Some, de_participants = (\<lambda>_ _. Ok []),
     de_openChat = (\<lambda>_ _. Ok ''chat''), de_postDuel = (\<lambda>_ _ _. Ok ''card''), de_redisUp = True\<rparr>"

definition duel_start :: duel_world where
  "duel_start = \<lparr>dw_now = 0, dw_duels = [], dw_next = 0, dw_cool = [], dw_ledger = sample_ledger [sample_lot]\<rparr>"

text \<open>Alice challenges bob, he accepts, she buys one coin in the five minutes, the duel is read late.\<close>

definition duel_day :: "duel_event list" where
  "duel_day = [Arrives (Challenging duel_env0 ''alice'' ''@Bob'' 5 None), Lands 0, Arrives (Accepting ''bob'' ''0''), Lands 0,
     ClockReads 300000, Arrives (Reading ''0'' (sample_ledger [sample_lot]) (sample_ledger [sample_lot])), Lands 0]"

lemma duel_day_result:
  "map (\<lambda>d. (du_status d, du_winnerId d)) (dw_duels (fst (run_duels duel_day (duel_start, [])))) = [(DDone, Some ''alice'')]"
  by code_simp

lemma duels_well_formed_witness:
  "list_all (duel_wf 300000) (dw_duels (fst (run_duels duel_day (duel_start, []))))"
proof -
  obtain s ws where run: "run_duels duel_day (duel_start, []) = (s, ws)" by (rule prod.exhaust)
  have "dw_now (fst (run_duels duel_day (duel_start, []))) = 300000" by code_simp
  then have now: "dw_now s = 300000" by (simp add: run)
  have "dw_duels duel_start = []" by (simp add: duel_start_def)
  from duels_well_formed [OF this run] show ?thesis by (simp add: run now list_all_iff)
qed

lemma duel_outcome_final_witness:
  "\<exists>d'\<in>set (dw_duels (fst (run_duels [Arrives (Cancelling ''alice'' ''0''), Lands 0] (run_duels duel_day (duel_start, []))))).
     du_winnerId d' = Some ''alice''"
proof -
  obtain s ws where run: "run_duels duel_day (duel_start, []) = (s, ws)" by (rule prod.exhaust)
  obtain s' ws' where more: "run_duels [Arrives (Cancelling ''alice'' ''0''), Lands 0] (s, ws) = (s', ws')" by (rule prod.exhaust)
  have "map (\<lambda>d. (du_status d, du_winnerId d)) (dw_duels s) = [(DDone, Some ''alice'')]"
    using duel_day_result by (simp add: run)
  then obtain d where d: "d \<in> set (dw_duels s)" "du_status d = DDone" "du_winnerId d = Some ''alice''" by auto
  have "dw_duels duel_start = []" by (simp add: duel_start_def)
  from duel_outcome_final [OF this run more d(1)] d(2,3) have "\<exists>d'\<in>set (dw_duels s'). du_winnerId d' = Some ''alice''"
    by (auto simp: ended_def outcome_def)
  then show ?thesis by (simp only: run more fst_conv)
qed

text \<open>Two challenges thrown at each other at the same moment both pass the check that the pair has no
  duel going.\<close>

lemma two_duels_for_one_pair:
  "map (\<lambda>d. (du_challengerId d, du_opponentId d, du_status d)) (dw_duels (fst (run_duels
       [Arrives (Challenging duel_env0 ''alice'' ''bob'' 5 None), Arrives (Challenging duel_env0 ''bob'' ''alice'' 5 None),
        Lands 0, Lands 0] (duel_start, []))))
     = [(''alice'', Some ''bob'', DPending), (''bob'', Some ''alice'', DPending)]"
  by code_simp

text \<open>A duel read at its end, before the ledger has the last trade, is decided without it for good.\<close>

lemma late_ledger_changes_winner:
  "map (\<lambda>d. (du_status d, du_winnerId d)) (dw_duels (fst (run_duels
       [Arrives (Challenging duel_env0 ''alice'' ''bob'' 5 None), Lands 0, Arrives (Accepting ''bob'' ''0''), Lands 0,
        ClockReads 300000, Arrives (Reading ''0'' (sample_ledger []) (sample_ledger [])), Lands 0,
        Arrives (Reading ''0'' (sample_ledger [sample_lot]) (sample_ledger [sample_lot]))] (duel_start, []))))
     = [(DDone, None)]"
  by code_simp

text \<open>Cancelling a challenge that is accepted in between changes nothing and reports no error.\<close>

lemma lost_cancel_is_silent:
  "map du_status (dw_duels (fst (run_duels
       [Arrives (Challenging duel_env0 ''alice'' ''bob'' 5 None), Lands 0, Arrives (Cancelling ''alice'' ''0''),
        Arrives (Accepting ''bob'' ''0''), Lands 1, Lands 0] (duel_start, [])))) = [DLive]"
  by code_simp

text \<open>What a reader gets is never a duel past its end still running, nor a challenge past its time
  still waiting.\<close>

lemma find_updated:
  assumes "duels_inv s" "d0 \<in> set (dw_duels s)" "p d0" "\<And>r. du_id (f r) = du_id r"
    "find_duel (du_id d0) (snd (update_duels p f s)) = Ok d"
  shows "d = f d0"
proof -
  from find_duel_row [OF assms(5)] obtain r where r: "r \<in> set (dw_duels s)" "d = (if p r then f r else r)" "du_id d = du_id d0"
    by (auto simp: update_duels_def set_update_where)
  then have "du_id r = du_id d0" using assms(4) by (simp split: if_splits)
  then have "r = d0" using assms(1,2) r(1) by (intro distinct_map_unique [of du_id "dw_duels s"]) (auto simp: duels_inv_def)
  with r(2) assms(3) show ?thesis by simp
qed

lemma decide_reads_timed:
  assumes "du_opponentId d \<noteq> None" "du_startedAt d \<noteq> None" "du_endsAt d \<noteq> None"
  shows "(\<exists>e. decide_reads LA LB d = Err e) \<or> (\<exists>a b. decide_reads LA LB d = Ok (Some (DecideDuel d a b)))"
proof -
  obtain o1 t e where "du_opponentId d = Some o1" "du_startedAt d = Some t" "du_endsAt d = Some e" using assms by blast
  then show ?thesis
    by (cases "score LA (du_challengerId d) t e"; cases "score LB o1 t e") (simp_all add: decide_reads_def)
qed

lemma get_duel_current:
  assumes "duels_inv s" "get_duel i s = (Ok d, s')"
  shows "\<not> overdue s' d \<and> \<not> stale_challenge s' d"
proof -
  obtain d0 where d0: "find_duel i s = Ok d0" using assms(2) by (auto simp: get_duel_def split: sum.splits)
  have row: "d0 \<in> set (dw_duels s)" "du_id d0 = i" using find_duel_row [OF d0] by simp_all
  consider (late) "overdue s d0" | (stale) "stale_challenge s d0" "\<not> overdue s d0" | (fresh) "\<not> overdue s d0" "\<not> stale_challenge s d0"
    by blast
  then show ?thesis
  proof cases
    case late
    then have live: "du_status d0 = DLive" by (simp add: overdue_def)
    have "du_opponentId d0 \<noteq> None" "du_startedAt d0 \<noteq> None" "du_endsAt d0 \<noteq> None"
      using inv_wf [OF assms(1) row(1)] live by (auto simp: duel_wf_def timed_for_def split: option.splits)
    from decide_reads_timed [OF this, of "dw_ledger s" "dw_ledger s"] obtain a b
      where "find_duel (du_id d0) (snd (commit_write (DecideDuel d0 a b) s)) = Ok d"
      using assms(2) late d0 row(2) by (auto simp: get_duel_def upkeep_reads_def split_beta simp del: commit_write.simps)
    then have "d = d0\<lparr>du_status := DDone, du_challengerPct := a, du_opponentPct := b, du_winnerId := winner_of d0 a b\<rparr>"
      unfolding commit_write.simps by (rule find_updated [OF assms(1) row(1), rotated 2]) (simp_all add: live)
    then show ?thesis by (simp add: overdue_def stale_challenge_def)
  next
    case stale
    then have "find_duel (du_id d0) (snd (commit_write (ExpireDuel (du_id d0)) s)) = Ok d"
      using assms(2) d0 row(2) by (auto simp: get_duel_def upkeep_reads_def split_beta simp del: commit_write.simps)
    then have "d = d0\<lparr>du_status := DExpired\<rparr>" unfolding commit_write.simps
      by (rule find_updated [OF assms(1) row(1), rotated 2]) (use stale in \<open>simp_all add: stale_challenge_def\<close>)
    then show ?thesis by (simp add: overdue_def stale_challenge_def)
  next
    case fresh
    with assms(2) d0 show ?thesis by (simp add: get_duel_def upkeep_reads_def)
  qed
qed

text \<open>A winning streak is made of wins this month.\<close>

lemma leaders_streak:
  "le \<in> set (leaders limit monthStart ds) \<Longrightarrow> le_streak le \<le> le_played le"
  by (auto simp: leaders_def Let_def length_takeWhile_le)

end
