(* ===== verification/FeedPatch.thy ===== *)
theory FeedPatch
  imports JSText "HOL-Library.AList"
begin

section \<open>Market feeds: patches instead of lists\<close>

text \<open>
  \<open>packages/domain/src/market-feeds.ts\<close> (\<open>diffFeedList\<close>, \<open>applyFeedList\<close>), the stream of
  \<open>apps/api/src/market-feeds/market-feeds.service.ts\<close> (\<open>changes\<close>) and the viewer's side in
  \<open>apps/web/lib/market-feeds.ts\<close> (\<open>applyListPatch\<close>).  A row is a JSON object: its fields in order.
\<close>

type_synonym row = "(string \<times> json) list"

text \<open>\<open>JSON.stringify\<close> of two values is the same text: a number that is not finite prints as null.\<close>

fun json_norm :: "json \<Rightarrow> json" where
  "json_norm (JNum x) = (if is_finite x then JNum x else JNull)"
| "json_norm (JArr vs) = JArr (map json_norm vs)"
| "json_norm (JObj kvs) = JObj (map (\<lambda>(k, v). (k, json_norm v)) kvs)"
| "json_norm v = v"

definition json_same :: "json \<Rightarrow> json \<Rightarrow> bool" where "json_same v w = (json_norm v = json_norm w)"

text \<open>The key fields are strings or absent by their declared types; a missing one prints as \<open>undefined\<close>.\<close>

definition text_field :: "row \<Rightarrow> string \<Rightarrow> string option" where
  "text_field r f = (case map_of r f of Some (JStr s) \<Rightarrow> Some s | _ \<Rightarrow> None)"

definition printed :: "string option \<Rightarrow> string" where
  "printed t = (case t of None \<Rightarrow> ''undefined'' | Some s \<Rightarrow> s)"

definition feedRowKey :: "row \<Rightarrow> string" where
  "feedRowKey r =
     (case text_field r ''mintAddress'' of
        Some m \<Rightarrow> m
      | None \<Rightarrow> printed (text_field r ''chainIdentifier'') @ '':'' @ printed (text_field r ''tokenAddress''))"

definition UNSENT_FIELDS :: "string list" where "UNSENT_FIELDS = [''lastPriceUpdateAt'', ''discoveryScore'']"

record list_patch =
  lp_order :: "string list"
  lp_rows :: "(string \<times> row) list"

text \<open>\<open>new Map(rows.map(...))\<close>: of rows with one key the last stays.\<close>

definition by_key :: "row list \<Rightarrow> string \<Rightarrow> row option" where
  "by_key rows = map_of (rev (map (\<lambda>r. (feedRowKey r, r)) rows))"

definition changed_fields :: "row \<Rightarrow> row \<Rightarrow> row" where
  "changed_fields old r =
     filter (\<lambda>(f, v). f \<notin> set UNSENT_FIELDS \<and> (case map_of old f of None \<Rightarrow> True | Some w \<Rightarrow> \<not> json_same v w)) r"

definition row_patch :: "(string \<Rightarrow> row option) \<Rightarrow> row \<Rightarrow> row option" where
  "row_patch before r =
     (case before (feedRowKey r) of
        None \<Rightarrow> Some r
      | Some old \<Rightarrow> (case changed_fields old r of [] \<Rightarrow> None | c # cs \<Rightarrow> Some (c # cs)))"

definition patch_rows :: "(string \<Rightarrow> row option) \<Rightarrow> row list \<Rightarrow> (string \<times> row) list" where
  "patch_rows before next =
     fold (\<lambda>r rows. case row_patch before r of None \<Rightarrow> rows | Some p \<Rightarrow> AList.update (feedRowKey r) p rows) next []"

definition diffFeedList :: "row list \<Rightarrow> row list \<Rightarrow> list_patch option" where
  "diffFeedList prev next =
     (let rows = patch_rows (by_key prev) next; order = map feedRowKey next in
      if order = map feedRowKey prev \<and> rows = [] then None else Some \<lparr>lp_order = order, lp_rows = rows\<rparr>)"

text \<open>\<open>{ ...base, ...delta }\<close>\<close>

definition spread :: "row \<Rightarrow> row \<Rightarrow> row" where
  "spread base delta =
     map (\<lambda>(f, v). (f, case map_of delta f of None \<Rightarrow> v | Some w \<Rightarrow> w)) base @ filter (\<lambda>(f, v). f \<notin> set (map fst base)) delta"

text \<open>The row of one key: \<open>None\<close> when it is neither held nor sent whole.\<close>

definition patched_row :: "(string \<Rightarrow> row option) \<Rightarrow> (string \<times> row) list \<Rightarrow> string \<Rightarrow> row option" where
  "patched_row byKey rows key =
     (case (byKey key, map_of rows key) of
        (None, None) \<Rightarrow> None
      | (None, Some delta) \<Rightarrow> if feedRowKey delta \<noteq> key then None else Some delta
      | (Some base, None) \<Rightarrow> Some base
      | (Some base, Some delta) \<Rightarrow> Some (spread base delta))"

fun apply_order :: "(string \<Rightarrow> row option) \<Rightarrow> (string \<times> row) list \<Rightarrow> string list \<Rightarrow> row list option" where
  "apply_order byKey rows [] = Some []"
| "apply_order byKey rows (key # keys) =
     (case patched_row byKey rows key of
        None \<Rightarrow> None
      | Some r \<Rightarrow> map_option ((#) r) (apply_order byKey rows keys))"

definition applyFeedList :: "row list \<Rightarrow> list_patch \<Rightarrow> row list option" where
  "applyFeedList current patch = apply_order (by_key current) (lp_rows patch) (lp_order patch)"

subsection \<open>The stream of one tab and its viewer\<close>

definition FULL_EVERY :: nat where "FULL_EVERY = 6"

text \<open>The lists of a tab by field; a field the snapshot lacks reads as the empty list.\<close>

type_synonym tab_lists = "string \<Rightarrow> row list"

definition FEED_LIST_FIELDS :: "string \<Rightarrow> string list" where
  "FEED_LIST_FIELDS tab =
     (if tab = ''trending'' then [''markets'']
      else if tab = ''graduated'' then [''markets'', ''pumpfun'']
      else if tab \<in> {''trenches'', ''bonding'', ''xxxrisk''} then [''tokens'']
      else [])"

datatype feed_event = FullLists tab_lists | PatchLists "(string \<times> list_patch) list"

definition list_diffs :: "string list \<Rightarrow> tab_lists \<Rightarrow> tab_lists \<Rightarrow> (string \<times> list_patch) list" where
  "list_diffs fs prev next = List.map_filter (\<lambda>f. map_option (Pair f) (diffFeedList (prev f) (next f))) fs"

text \<open>\<open>changes\<close>: the event of the \<open>n\<close>-th rebuild, if any.\<close>

definition change_event :: "string list \<Rightarrow> nat \<Rightarrow> tab_lists \<Rightarrow> tab_lists \<Rightarrow> feed_event option" where
  "change_event fs n prev next =
     (if n mod FULL_EVERY = 0 then Some (FullLists next)
      else case list_diffs fs prev next of [] \<Rightarrow> None | d # ds \<Rightarrow> Some (PatchLists (d # ds)))"

fun changes :: "string list \<Rightarrow> nat \<Rightarrow> tab_lists \<Rightarrow> tab_lists list \<Rightarrow> feed_event option list" where
  "changes fs n prev [] = []"
| "changes fs n prev (next # builds) = change_event fs (Suc n) prev next # changes fs (Suc n) next builds"

fun apply_lists :: "tab_lists \<Rightarrow> tab_lists \<Rightarrow> (string \<times> list_patch) list \<Rightarrow> tab_lists option" where
  "apply_lists current acc [] = Some acc"
| "apply_lists current acc ((f, patch) # ps) =
     (case applyFeedList (current f) patch of
        None \<Rightarrow> None
      | Some rows \<Rightarrow> apply_lists current (acc(f := rows)) ps)"

text \<open>A patch that does not apply to one of its lists leaves the whole tab until the next full list.\<close>

definition applyListPatch :: "tab_lists \<Rightarrow> (string \<times> list_patch) list \<Rightarrow> tab_lists" where
  "applyListPatch current ps = (case apply_lists current current ps of None \<Rightarrow> current | Some tab \<Rightarrow> tab)"

definition applyFeedEvent :: "tab_lists \<Rightarrow> feed_event option \<Rightarrow> tab_lists" where
  "applyFeedEvent tab e =
     (case e of None \<Rightarrow> tab | Some (FullLists full) \<Rightarrow> full | Some (PatchLists ps) \<Rightarrow> applyListPatch tab ps)"

subsection \<open>The viewer stays in step\<close>

text \<open>Lists hold rows of one kind, Pump.fun tokens or markets, each with its own key and no field twice.\<close>

definition feed_row :: "bool \<Rightarrow> row \<Rightarrow> bool" where
  "feed_row mints r \<longleftrightarrow>
     distinct (map fst r)
     \<and> (if mints then text_field r ''mintAddress'' \<noteq> None
        else map_of r ''mintAddress'' = None \<and> text_field r ''chainIdentifier'' \<noteq> None \<and> text_field r ''tokenAddress'' \<noteq> None)"

definition feed_list :: "bool \<Rightarrow> row list \<Rightarrow> bool" where
  "feed_list mints rows \<longleftrightarrow> list_all (feed_row mints) rows \<and> distinct (map feedRowKey rows)"

text \<open>The viewer's row shows the server's: every field the server sends, with the same value.\<close>

definition shows_row :: "row \<Rightarrow> row \<Rightarrow> bool" where
  "shows_row server viewer \<longleftrightarrow>
     list_all (\<lambda>(f, v). f \<in> set UNSENT_FIELDS \<or> (case map_of viewer f of None \<Rightarrow> False | Some w \<Rightarrow> json_same v w)) server"

definition in_step :: "bool \<Rightarrow> row list \<Rightarrow> row list \<Rightarrow> bool" where
  "in_step mints server viewer \<longleftrightarrow> feed_list mints viewer \<and> map feedRowKey viewer = map feedRowKey server
     \<and> list_all2 shows_row server viewer"

text \<open>A tab is in step when each of its lists is; \<open>mints\<close> tells which lists hold Pump.fun tokens.\<close>

definition tab_ok :: "(string \<Rightarrow> bool) \<Rightarrow> string list \<Rightarrow> tab_lists \<Rightarrow> bool" where
  "tab_ok mints fs t = list_all (\<lambda>f. feed_list (mints f) (t f)) fs"

definition tab_in_step :: "(string \<Rightarrow> bool) \<Rightarrow> string list \<Rightarrow> tab_lists \<Rightarrow> tab_lists \<Rightarrow> bool" where
  "tab_in_step mints fs server viewer = list_all (\<lambda>f. in_step (mints f) (server f) (viewer f)) fs"

lemma shows_rowD: "shows_row s v \<Longrightarrow> map_of s f = Some x \<Longrightarrow> f \<notin> set UNSENT_FIELDS \<Longrightarrow> \<exists>y. map_of v f = Some y \<and> json_same x y"
  by (fastforce simp: shows_row_def list_all_iff split: option.splits dest: map_of_SomeD)

lemma shows_rowI:
  assumes "distinct (map fst s)" "\<And>f x. map_of s f = Some x \<Longrightarrow> f \<notin> set UNSENT_FIELDS \<Longrightarrow> \<exists>y. map_of v f = Some y \<and> json_same x y"
  shows "shows_row s v"
  unfolding shows_row_def list_all_iff
proof
  fix e assume e: "e \<in> set s"
  obtain f x where fx: "e = (f, x)" by (rule prod.exhaust)
  with e assms(1) have "map_of s f = Some x" by simp
  from assms(2) [OF this] show "case e of (f, v') \<Rightarrow> f \<in> set UNSENT_FIELDS \<or> (case map_of v f of None \<Rightarrow> False | Some w \<Rightarrow> json_same v' w)"
    by (cases "f \<in> set UNSENT_FIELDS") (auto simp: fx)
qed

lemma shows_row_refl: "distinct (map fst s) \<Longrightarrow> shows_row s s"
  by (intro shows_rowI) (auto simp: json_same_def)

lemma map_of_filter_keys: "map_of (filter (\<lambda>(f, v). f \<notin> F) delta) f = (if f \<in> F then None else map_of delta f)"
  by (induction delta) auto

lemma map_of_map_values: "map_of (map (\<lambda>(f, v). (f, g f v)) base) f = map_option (g f) (map_of base f)"
  by (induction base) auto

lemma map_of_spread:
  "map_of (spread base delta) f = (case map_of delta f of Some w \<Rightarrow> Some w | None \<Rightarrow> map_of base f)"
proof -
  have "map_of (map (\<lambda>(f, v). (f, case map_of delta f of None \<Rightarrow> v | Some w \<Rightarrow> w)) base) f
      = map_option (\<lambda>v. case map_of delta f of None \<Rightarrow> v | Some w \<Rightarrow> w) (map_of base f)"
    by (rule map_of_map_values)
  moreover have "f \<in> set (map fst base) \<longleftrightarrow> map_of base f \<noteq> None" by (simp add: map_of_eq_None_iff)
  ultimately show ?thesis
    by (cases "map_of base f"; cases "map_of delta f") (simp_all add: spread_def map_add_def map_of_filter_keys del: set_map)
qed

lemma distinct_spread:
  assumes "distinct (map fst base)" "distinct (map fst delta)"
  shows "distinct (map fst (spread base delta))"
proof -
  define F where "F = set (map fst base)"
  have "map fst (map (\<lambda>(f, v). (f, case map_of delta f of None \<Rightarrow> v | Some w \<Rightarrow> w)) base) = map fst base"
    by (simp add: comp_def case_prod_beta)
  moreover have "distinct (map fst (filter (\<lambda>(f, v). f \<notin> F) delta))" using assms(2) by (rule distinct_map_filter)
  moreover have "set (map fst (filter (\<lambda>(f, v). f \<notin> F) delta)) \<inter> F = {}" by auto
  ultimately show ?thesis using assms(1) unfolding spread_def F_def [symmetric] map_append distinct_append
    by (simp only: F_def Int_commute)
qed

lemma by_key_row:
  "distinct (map feedRowKey rows) \<Longrightarrow> by_key rows (feedRowKey r) = Some r \<longleftrightarrow> r \<in> set rows"
  by (auto simp: by_key_def comp_def rev_map [symmetric] dest: map_of_SomeD)

lemma by_key_SomeD: "by_key rows k = Some r \<Longrightarrow> r \<in> set rows \<and> feedRowKey r = k"
  by (auto simp: by_key_def dest!: map_of_SomeD)

lemma by_key_None: "by_key rows k = None \<longleftrightarrow> k \<notin> set (map feedRowKey rows)"
  by (force simp: by_key_def map_of_eq_None_iff)

subsection \<open>The rows of a patch\<close>

lemma map_of_update_fold:
  assumes "distinct (map k xs)"
  shows "map_of (fold (\<lambda>r rows. case f r of None \<Rightarrow> rows | Some p \<Rightarrow> AList.update (k r) p rows) xs acc) i
     = (case find (\<lambda>r. k r = i) xs of Some r \<Rightarrow> (case f r of Some p \<Rightarrow> Some p | None \<Rightarrow> map_of acc i) | None \<Rightarrow> map_of acc i)"
  using assms
proof (induction xs arbitrary: acc)
  case (Cons x xs)
  show ?case
  proof (cases "k x = i")
    case True
    have "find (\<lambda>r. k r = i) xs = None" unfolding find_None using True Cons.prems by (auto simp: image_iff)
    with True Cons.prems show ?thesis by (simp add: Cons.IH update_conv' split: option.splits)
  next
    case False
    with Cons.prems show ?thesis by (auto simp: Cons.IH update_conv' split: option.splits)
  qed
qed simp

lemma map_of_patch_rows:
  assumes "distinct (map feedRowKey next)" "r \<in> set next"
  shows "map_of (patch_rows before next) (feedRowKey r) = row_patch before r"
proof -
  have "find (\<lambda>q. feedRowKey q = feedRowKey r) next = Some r"
  proof (cases "find (\<lambda>q. feedRowKey q = feedRowKey r) next")
    case None
    with assms(2) show ?thesis by (auto simp: find_None)
  next
    case (Some q)
    with distinct_map_unique [OF assms(1) _ assms(2), of q] show ?thesis by (auto dest: find_SomeD)
  qed
  then show ?thesis unfolding patch_rows_def map_of_update_fold [OF assms(1)] by (simp split: option.splits)
qed

lemma patch_rows_Nil:
  assumes "patch_rows before next = []" "distinct (map feedRowKey next)" "r \<in> set next"
  shows "row_patch before r = None"
  using map_of_patch_rows [OF assms(2,3), of before] assms(1) by simp

lemma apply_order_all:
  assumes "\<forall>r\<in>set rs. \<exists>q. patched_row byKey rows (feedRowKey r) = Some q \<and> P r q"
  shows "\<exists>out. apply_order byKey rows (map feedRowKey rs) = Some out \<and> list_all2 P rs out"
  using assms
proof (induction rs)
  case (Cons r rs)
  then obtain q out where "patched_row byKey rows (feedRowKey r) = Some q" "P r q"
    "apply_order byKey rows (map feedRowKey rs) = Some out" "list_all2 P rs out" by auto
  then show ?case by simp
qed simp

subsection \<open>One row\<close>

lemma json_norm_JStr: "json_norm v = JStr s \<longleftrightarrow> v = JStr s"
  by (cases v) auto

lemma shows_text: "shows_row s v \<Longrightarrow> text_field s f = Some t \<Longrightarrow> f \<notin> set UNSENT_FIELDS \<Longrightarrow> text_field v f = Some t"
  by (fastforce simp: text_field_def json_same_def json_norm_JStr eq_commute [of "JStr _"] split: option.splits json.splits dest: shows_rowD)

lemma text_None: "map_of r f = None \<Longrightarrow> text_field r f = None"
  by (simp add: text_field_def)

lemma key_of_shown:
  assumes "feed_row mints r" "shows_row r q" "distinct (map fst q)" "mints \<or> map_of q ''mintAddress'' = None"
  shows "feed_row mints q \<and> feedRowKey q = feedRowKey r"
proof -
  have f: "''mintAddress'' \<notin> set UNSENT_FIELDS" "''chainIdentifier'' \<notin> set UNSENT_FIELDS" "''tokenAddress'' \<notin> set UNSENT_FIELDS"
    by (simp_all add: UNSENT_FIELDS_def)
  show ?thesis
  proof (cases mints)
    case True
    with assms(1) obtain m where m: "text_field r ''mintAddress'' = Some m" by (auto simp: feed_row_def)
    with shows_text [OF assms(2) m f(1)] True assms(3) show ?thesis by (simp add: feed_row_def feedRowKey_def)
  next
    case False
    with assms(1) obtain c t where ct: "text_field r ''chainIdentifier'' = Some c" "text_field r ''tokenAddress'' = Some t"
      "map_of r ''mintAddress'' = None" by (auto simp: feed_row_def)
    from shows_text [OF assms(2) ct(1) f(2)] shows_text [OF assms(2) ct(2) f(3)] ct(3) False assms(3,4) show ?thesis
      by (simp add: feed_row_def feedRowKey_def text_None ct)
  qed
qed

lemma map_of_filter_distinct:
  assumes "distinct (map fst r)"
  shows "map_of (filter P r) f = (case map_of r f of None \<Rightarrow> None | Some v \<Rightarrow> if P (f, v) then Some v else None)"
  using assms
proof (induction r)
  case (Cons e r)
  obtain g v where e: "e = (g, v)" by (rule prod.exhaust)
  show ?case
  proof (cases "g = f")
    case True
    then have "map_of r f = None" using Cons.prems by (simp add: e map_of_eq_None_iff)
    with True Cons show ?thesis by (simp add: e)
  next
    case False
    with Cons show ?thesis by (simp add: e)
  qed
qed simp

lemma map_of_changed:
  "distinct (map fst r) \<Longrightarrow> map_of (changed_fields old r) f =
     (case map_of r f of None \<Rightarrow> None
      | Some v \<Rightarrow> if f \<in> set UNSENT_FIELDS \<or> (\<exists>w. map_of old f = Some w \<and> json_same v w) then None else Some v)"
  unfolding changed_fields_def by (simp add: map_of_filter_distinct split: option.splits)

lemma distinct_changed: "distinct (map fst r) \<Longrightarrow> distinct (map fst (changed_fields old r))"
  unfolding changed_fields_def by (rule distinct_map_filter)

text \<open>A held row with the changed fields spread over it shows the new row.\<close>

lemma shows_spread:
  assumes "distinct (map fst r)" "shows_row old b"
  shows "shows_row r (spread b (changed_fields old r))"
proof (rule shows_rowI [OF assms(1)])
  fix f x assume x: "map_of r f = Some x" "f \<notin> set UNSENT_FIELDS"
  show "\<exists>y. map_of (spread b (changed_fields old r)) f = Some y \<and> json_same x y"
  proof (cases "\<exists>w. map_of old f = Some w \<and> json_same x w")
    case True
    then obtain w where w: "map_of old f = Some w" "json_same x w" by blast
    from shows_rowD [OF assms(2) w(1) x(2)] w x show ?thesis
      by (auto simp: map_of_spread map_of_changed [OF assms(1)] json_same_def)
  next
    case False
    with x have "map_of (changed_fields old r) f = Some x" by (simp add: map_of_changed [OF assms(1)])
    then show ?thesis by (simp add: map_of_spread json_same_def)
  qed
qed

lemma spread_Nil [simp]: "spread b [] = b"
  by (simp add: spread_def case_prod_beta)

lemma in_step_row:
  assumes "feed_list mints prev" "in_step mints prev viewer" "by_key prev k = Some old"
  shows "\<exists>b. by_key viewer k = Some b \<and> shows_row old b \<and> feed_row mints b"
proof -
  have old: "old \<in> set prev" "feedRowKey old = k" using by_key_SomeD [OF assms(3)] by simp_all
  then obtain i where i: "i < length prev" "prev ! i = old" by (auto simp: in_set_conv_nth)
  let ?b = "viewer ! i"
  have len: "length viewer = length prev" and keys: "map feedRowKey viewer = map feedRowKey prev"
    using assms(2) by (auto simp: in_step_def list_all2_lengthD)
  have "feedRowKey ?b = k" using arg_cong [OF keys, of "\<lambda>xs. xs ! i"] i len old(2) by simp
  moreover have "?b \<in> set viewer" using i len by simp
  moreover have "shows_row old ?b" using assms(2) i by (auto simp: in_step_def list_all2_conv_all_nth)
  ultimately show ?thesis
    using assms(2) by_key_row [of viewer ?b] by (auto simp: in_step_def feed_list_def list_all_iff)
qed

lemma changed_no_mint: "map_of r f = None \<Longrightarrow> map_of (changed_fields old r) f = None"
  by (force simp: changed_fields_def map_of_eq_None_iff)

text \<open>One row of the new list, as the patch makes it at a viewer in step.\<close>

lemma patched_row_step:
  assumes "feed_list mints prev" "in_step mints prev viewer" "feed_row mints r"
    "map_of rows (feedRowKey r) = row_patch (by_key prev) r"
  shows "\<exists>q. patched_row (by_key viewer) rows (feedRowKey r) = Some q
    \<and> (shows_row r q \<and> feed_row mints q \<and> feedRowKey q = feedRowKey r)"
proof (cases "by_key prev (feedRowKey r)")
  case None
  then have "by_key viewer (feedRowKey r) = None" using assms(2) by (simp add: by_key_None in_step_def del: set_map)
  with None assms(3,4) show ?thesis
    by (simp add: patched_row_def row_patch_def shows_row_refl feed_row_def)
next
  case (Some old)
  from in_step_row [OF assms(1,2) Some] obtain b where b: "by_key viewer (feedRowKey r) = Some b" "shows_row old b" "feed_row mints b"
    by blast
  have d: "distinct (map fst r)" "distinct (map fst b)" using assms(3) b(3) by (simp_all add: feed_row_def)
  let ?q = "spread b (changed_fields old r)"
  have "patched_row (by_key viewer) rows (feedRowKey r) = Some ?q"
    using assms(4) b(1) Some by (auto simp: patched_row_def row_patch_def split: list.splits)
  moreover have "shows_row r ?q" by (rule shows_spread [OF d(1) b(2)])
  moreover have "mints \<or> map_of ?q ''mintAddress'' = None"
  proof (cases mints)
    case False
    then have "map_of r ''mintAddress'' = None" "map_of b ''mintAddress'' = None"
      using assms(3) b(3) by (simp_all add: feed_row_def)
    then show ?thesis by (simp add: map_of_spread changed_no_mint)
  qed simp
  ultimately show ?thesis
    using key_of_shown [OF assms(3) _ distinct_spread [OF d(2) distinct_changed [OF d(1)]]] by blast
qed

lemma apply_own_order:
  assumes "distinct (map feedRowKey rows)"
  shows "apply_order (by_key rows) [] (map feedRowKey rows) = Some rows"
proof -
  have "\<forall>r\<in>set rows. \<exists>q. patched_row (by_key rows) [] (feedRowKey r) = Some q \<and> r = q"
    by (simp add: patched_row_def by_key_row [OF assms, THEN iffD2])
  from apply_order_all [OF this] show ?thesis by (simp add: list.rel_eq)
qed

text \<open>One list of one rebuild.\<close>

lemma full_in_step: "feed_list mints rows \<Longrightarrow> in_step mints rows rows"
  by (auto simp: in_step_def list_all2_same feed_list_def list_all_iff feed_row_def intro: shows_row_refl)

lemma patch_applies:
  assumes "feed_list mints prev" "feed_list mints next" "in_step mints prev viewer"
  shows "\<exists>out. apply_order (by_key viewer) (patch_rows (by_key prev) next) (map feedRowKey next) = Some out
    \<and> in_step mints next out"
proof -
  let ?rows = "patch_rows (by_key prev) next"
  have rows: "\<forall>r\<in>set next. \<exists>q. patched_row (by_key viewer) ?rows (feedRowKey r) = Some q
      \<and> (shows_row r q \<and> feed_row mints q \<and> feedRowKey q = feedRowKey r)"
  proof
    fix r assume r: "r \<in> set next"
    then have "feed_row mints r" using assms(2) by (simp add: feed_list_def list_all_iff)
    moreover have "map_of ?rows (feedRowKey r) = row_patch (by_key prev) r"
      using assms(2) r by (intro map_of_patch_rows) (simp add: feed_list_def)
    ultimately show "\<exists>q. patched_row (by_key viewer) ?rows (feedRowKey r) = Some q
      \<and> (shows_row r q \<and> feed_row mints q \<and> feedRowKey q = feedRowKey r)"
      by (rule patched_row_step [OF assms(1,3)])
  qed
  from apply_order_all [OF this] obtain out where out: "apply_order (by_key viewer) ?rows (map feedRowKey next) = Some out"
    "list_all2 (\<lambda>r q. shows_row r q \<and> feed_row mints q \<and> feedRowKey q = feedRowKey r) next out" by blast
  have keys: "map feedRowKey out = map feedRowKey next"
    using out(2) by (induction rule: list_all2_induct) simp_all
  have "in_step mints next out"
    using out(2) keys assms(2) by (auto simp: in_step_def feed_list_def list_all2_conv_all_nth list_all_length)
  with out(1) show ?thesis by blast
qed

lemma unchanged_in_step:
  assumes "feed_list mints prev" "feed_list mints next" "in_step mints prev viewer" "diffFeedList prev next = None"
  shows "in_step mints next viewer"
proof -
  have same: "map feedRowKey next = map feedRowKey viewer" "patch_rows (by_key prev) next = []"
    using assms(3,4) unfolding in_step_def diffFeedList_def Let_def by (metis option.distinct(1))+
  have "distinct (map feedRowKey viewer)" using assms(3) unfolding in_step_def feed_list_def by blast
  then have "apply_order (by_key viewer) [] (map feedRowKey viewer) = Some viewer" by (rule apply_own_order)
  with patch_applies [OF assms(1-3)] show ?thesis unfolding same by auto
qed

lemma diff_in_step:
  assumes "feed_list mints prev" "feed_list mints next" "in_step mints prev viewer" "diffFeedList prev next = Some p"
  shows "\<exists>out. applyFeedList viewer p = Some out \<and> in_step mints next out"
proof -
  have "p = \<lparr>lp_order = map feedRowKey next, lp_rows = patch_rows (by_key prev) next\<rparr>"
    using assms(4) by (auto simp: diffFeedList_def Let_def split: if_splits)
  with patch_applies [OF assms(1-3)] show ?thesis by (simp add: applyFeedList_def)
qed

lemma map_filter_Cons: "List.map_filter g (x # xs) = (case g x of None \<Rightarrow> List.map_filter g xs | Some y \<Rightarrow> y # List.map_filter g xs)"
  by (simp add: List.map_filter_simps)

lemma apply_lists_step:
  assumes "list_all (\<lambda>f. feed_list (mints f) (prev f) \<and> feed_list (mints f) (next f) \<and> in_step (mints f) (prev f) (viewer f)) fs"
    "distinct fs" "\<forall>f\<in>set fs. acc f = viewer f"
  shows "\<exists>out. apply_lists viewer acc (list_diffs fs prev next) = Some out
    \<and> (\<forall>f. f \<notin> set fs \<longrightarrow> out f = acc f) \<and> (\<forall>f\<in>set fs. in_step (mints f) (next f) (out f))"
  using assms
proof (induction fs arbitrary: acc)
  case Nil
  then show ?case by (simp add: list_diffs_def List.map_filter_simps)
next
  case (Cons f fs)
  show ?case
  proof (cases "diffFeedList (prev f) (next f)")
    case None
    from Cons.prems have "list_all (\<lambda>f. feed_list (mints f) (prev f) \<and> feed_list (mints f) (next f) \<and> in_step (mints f) (prev f) (viewer f)) fs"
      "distinct fs" "\<forall>g\<in>set fs. acc g = viewer g" by simp_all
    from Cons.IH [OF this] obtain out where "apply_lists viewer acc (list_diffs fs prev next) = Some out"
      "\<forall>g. g \<notin> set fs \<longrightarrow> out g = acc g" "\<forall>g\<in>set fs. in_step (mints g) (next g) (out g)" by blast
    moreover have "in_step (mints f) (next f) (viewer f)"
      using Cons.prems(1) None by (auto intro: unchanged_in_step)
    ultimately show ?thesis using Cons.prems(2,3) None by (auto simp: list_diffs_def map_filter_Cons)
  next
    case (Some p)
    with Cons.prems(1) diff_in_step [of "mints f" "prev f" "next f" "viewer f" p] obtain rows
      where rows: "applyFeedList (viewer f) p = Some rows" "in_step (mints f) (next f) rows" by auto
    have "list_all (\<lambda>f. feed_list (mints f) (prev f) \<and> feed_list (mints f) (next f) \<and> in_step (mints f) (prev f) (viewer f)) fs"
      "distinct fs" using Cons.prems by simp_all
    moreover have "\<forall>g\<in>set fs. (acc(f := rows)) g = viewer g" using Cons.prems(2,3) by auto
    ultimately obtain out
      where "apply_lists viewer (acc(f := rows)) (list_diffs fs prev next) = Some out"
      "\<forall>g. g \<notin> set fs \<longrightarrow> out g = (acc(f := rows)) g" "\<forall>g\<in>set fs. in_step (mints g) (next g) (out g)" using Cons.IH by blast
    with rows Some Cons.prems(2) show ?thesis by (auto simp: list_diffs_def map_filter_Cons)
  qed
qed

text \<open>One rebuild of a tab: a viewer in step before it is in step after it.\<close>

lemma tab_step:
  assumes "distinct fs" "tab_ok mints fs prev" "tab_ok mints fs next" "tab_in_step mints fs prev viewer"
  shows "tab_in_step mints fs next (applyFeedEvent viewer (change_event fs n prev next))"
proof (cases "n mod FULL_EVERY = 0")
  case True
  with assms(3) show ?thesis
    by (auto simp: change_event_def applyFeedEvent_def tab_in_step_def tab_ok_def list_all_iff full_in_step)
next
  case False
  have "list_all (\<lambda>f. feed_list (mints f) (prev f) \<and> feed_list (mints f) (next f) \<and> in_step (mints f) (prev f) (viewer f)) fs"
    using assms(2-4) by (simp add: tab_ok_def tab_in_step_def list_all_iff)
  from apply_lists_step [OF this assms(1), of viewer] obtain out
    where "apply_lists viewer viewer (list_diffs fs prev next) = Some out" "tab_in_step mints fs next out"
    by (auto simp: tab_in_step_def list_all_iff)
  with False show ?thesis
    by (auto simp: change_event_def applyFeedEvent_def applyListPatch_def split: list.splits)
qed


definition coin :: "string \<Rightarrow> string \<Rightarrow> row" where
  "coin mint symbol = [(''mintAddress'', JStr mint), (''symbol'', JStr symbol)]"

definition market :: "string \<Rightarrow> row" where
  "market address = [(''chainIdentifier'', JStr ''base''), (''tokenAddress'', JStr address)]"

definition graduating :: "tab_lists list" where
  "graduating =
    [(\<lambda>_. [])(''markets'' := [market ''0xa''], ''pumpfun'' := [coin ''M1'' ''CAT'' @ [(''note'', JStr ''hot'')]]),
     (\<lambda>_. [])(''markets'' := [market ''0xb'', market ''0xa''], ''pumpfun'' := [coin ''M2'' ''DOG'', coin ''M1'' ''CATS'']),
     (\<lambda>_. [])(''markets'' := [market ''0xb'', market ''0xa''], ''pumpfun'' := [coin ''M1'' ''CATS''])]"


text \<open>A patch has no way to say that a field is gone: the viewer keeps its old value until the next full list.\<close>

lemma removed_field_lingers:
  "map_of r f = None \<Longrightarrow> map_of (spread b (changed_fields old r)) f = map_of b f"
  by (simp add: map_of_spread changed_no_mint)

lemma viewer_keeps_removed_note:
  "applyFeedEvent (graduating ! 0) (change_event (FEED_LIST_FIELDS ''graduated'') 1 (graduating ! 0) (graduating ! 2)) ''pumpfun''
     = [[(''mintAddress'', JStr ''M1''), (''symbol'', JStr ''CATS''), (''note'', JStr ''hot'')]]"
  by code_simp

end
