(* ===== verification/PumpEvents.thy ===== *)
theory PumpEvents
  imports JSText "HOL-Library.Word"
begin

section \<open>Pump.fun's events\<close>

text \<open>
  \<open>apps/workers/src/pumpfun/pumpfun-event-decoder.ts\<close>: the Borsh reader, the three event decoders and
  the payloads of a transaction's log lines.  The base58 form of a public key is a parameter.  A decoded
  text is the list of its Unicode code points.
\<close>

type_synonym bytes = "8 word list"
type_synonym unicode = "nat list"

subsection \<open>Bytes of the runtime: little-endian numbers, UTF-8, base64\<close>

fun le_value :: "bytes \<Rightarrow> nat" where
  "le_value [] = 0"
| "le_value (b # bs) = unat b + 256 * le_value bs"

fun le_bytes :: "nat \<Rightarrow> nat \<Rightarrow> bytes" where
  "le_bytes 0 n = []"
| "le_bytes (Suc k) n = of_nat (n mod 256) # le_bytes k (n div 256)"

lemma length_le_bytes [simp]: "length (le_bytes k n) = k"
  by (induction k arbitrary: n) simp_all

lemma unat_byte: "unat (of_nat (n mod 256) :: 8 word) = n mod 256"
  by (simp add: unat_of_nat)

lemma le_value_bytes: "n < 256 ^ k \<Longrightarrow> le_value (le_bytes k n) = n"
proof (induction k arbitrary: n)
  case (Suc k)
  then have "n div 256 < 256 ^ k" by (simp add: less_mult_imp_div_less mult.commute)
  with Suc.IH show ?case by (simp add: unat_byte)
qed simp

text \<open>\<open>toString('utf8')\<close>: every maximal ill-formed part becomes one replacement character.\<close>

definition REPLACEMENT :: nat where "REPLACEMENT = 0xFFFD"

text \<open>The bytes still needed, the range of the next one, and the bits of the lead byte.\<close>

definition utf8_lead :: "nat \<Rightarrow> (nat \<times> nat \<times> nat \<times> nat) option" where
  "utf8_lead b =
     (if 0xC2 \<le> b \<and> b \<le> 0xDF then Some (1, 0x80, 0xBF, b - 0xC0)
      else if b = 0xE0 then Some (2, 0xA0, 0xBF, 0)
      else if b = 0xED then Some (2, 0x80, 0x9F, 0xD)
      else if 0xE1 \<le> b \<and> b \<le> 0xEF then Some (2, 0x80, 0xBF, b - 0xE0)
      else if b = 0xF0 then Some (3, 0x90, 0xBF, 0)
      else if 0xF1 \<le> b \<and> b \<le> 0xF3 then Some (3, 0x80, 0xBF, b - 0xF0)
      else if b = 0xF4 then Some (3, 0x80, 0x8F, 4)
      else None)"

fun utf8_tail :: "nat \<Rightarrow> nat \<Rightarrow> nat \<Rightarrow> nat \<Rightarrow> nat list \<Rightarrow> nat \<times> nat list" where
  "utf8_tail 0 lo hi acc bs = (acc, bs)"
| "utf8_tail (Suc n) lo hi acc [] = (REPLACEMENT, [])"
| "utf8_tail (Suc n) lo hi acc (b # bs) =
     (if lo \<le> b \<and> b \<le> hi then utf8_tail n 0x80 0xBF (acc * 64 + (b - 0x80)) bs else (REPLACEMENT, b # bs))"

lemma utf8_tail_length: "length (snd (utf8_tail n lo hi acc bs)) \<le> length bs"
  by (induction n lo hi acc bs rule: utf8_tail.induct) (simp_all add: le_SucI)

function utf8_text :: "nat list \<Rightarrow> unicode" where
  "utf8_text [] = []"
| "utf8_text (b # bs) =
     (if b < 0x80 then b # utf8_text bs
      else case utf8_lead b of
        None \<Rightarrow> REPLACEMENT # utf8_text bs
      | Some (n, lo, hi, acc) \<Rightarrow> fst (utf8_tail n lo hi acc bs) # utf8_text (snd (utf8_tail n lo hi acc bs)))"
  by pat_completeness auto
termination by (relation "measure length") (auto simp: le_imp_less_Suc utf8_tail_length)

definition utf8_string :: "bytes \<Rightarrow> unicode" where "utf8_string bs = utf8_text (map unat bs)"

text \<open>The encoder the program's Borsh strings come from.\<close>

definition utf8_bytes :: "nat \<Rightarrow> nat list" where
  "utf8_bytes c =
     (if c < 0x80 then [c]
      else if c < 0x800 then [0xC0 + c div 64, 0x80 + c mod 64]
      else if c < 0x10000 then [0xE0 + c div 4096, 0x80 + c div 64 mod 64, 0x80 + c mod 64]
      else [0xF0 + c div 262144, 0x80 + c div 4096 mod 64, 0x80 + c div 64 mod 64, 0x80 + c mod 64])"

definition scalar_value :: "nat \<Rightarrow> bool" where "scalar_value c \<longleftrightarrow> c < 0xD800 \<or> 0xE000 \<le> c \<and> c < 0x110000"

lemma div64: "c div 4096 = c div 64 div (64::nat)" "c div 262144 = c div 64 div 64 div (64::nat)"
  by (simp_all add: div_mult2_eq [symmetric])

lemma split64:
  "c = c div 4096 * 4096 + c div 64 mod 64 * 64 + c mod (64::nat)"
  "c = c div 262144 * 262144 + c div 4096 mod 64 * 4096 + c div 64 mod 64 * 64 + c mod (64::nat)"
  using div_mult_mod_eq [of c 64] div_mult_mod_eq [of "c div 64" 64] div_mult_mod_eq [of "c div 64 div 64" 64]
  unfolding div64 by linarith+

lemma utf8_char:
  assumes "scalar_value c"
  shows "utf8_text (utf8_bytes c @ rest) = c # utf8_text rest"
proof -
  consider "c < 0x80" | "0x80 \<le> c" "c < 0x800" | "0x800 \<le> c" "c < 0x10000" | "0x10000 \<le> c" "c < 0x110000"
    using assms unfolding scalar_value_def by linarith
  then show ?thesis
  proof cases
    case 2
    define x y where "x = c div 64" and "y = c mod 64"
    have c: "c = x * 64 + y" and b: "y < 64" by (simp_all add: x_def y_def)
    have b': "2 \<le> x" "x < 32" using 2 c b by arith+
    have "utf8_lead (0xC0 + x) = Some (1, 0x80, 0xBF, x)" using b' by (simp add: utf8_lead_def)
    moreover have "utf8_bytes c = [0xC0 + x, 0x80 + y]" using 2 by (simp add: utf8_bytes_def x_def y_def)
    ultimately show ?thesis using b by (simp add: c)
  next
    case 3
    define x y z where "x = c div 4096" and "y = c div 64 mod 64" and "z = c mod 64"
    have c: "c = x * 4096 + y * 64 + z" and b: "y < 64" "z < 64"
      using split64(1) [of c] by (simp_all add: x_def y_def z_def)
    have b': "x < 16" using 3(2) c b by arith
    have "x = 0 \<Longrightarrow> 32 \<le> y" "x = 13 \<Longrightarrow> y < 32" using c b 3 assms unfolding scalar_value_def by arith+
    then have "\<exists>lo hi. utf8_lead (0xE0 + x) = Some (2, lo, hi, x) \<and> lo \<le> 0x80 + y \<and> 0x80 + y \<le> hi"
      using b b' by (cases "x = 0"; cases "x = 13") (auto simp: utf8_lead_def)
    then obtain lo hi where l: "utf8_lead (0xE0 + x) = Some (2, lo, hi, x)" "lo \<le> 0x80 + y" "0x80 + y \<le> hi" by blast
    have "utf8_bytes c = [0xE0 + x, 0x80 + y, 0x80 + z]" using 3 by (simp add: utf8_bytes_def x_def y_def z_def)
    with l b show ?thesis by (simp add: numeral_2_eq_2 c algebra_simps)
  next
    case 4
    define w x y z where "w = c div 262144" and "x = c div 4096 mod 64" and "y = c div 64 mod 64" and "z = c mod 64"
    have c: "c = w * 262144 + x * 4096 + y * 64 + z" and b: "x < 64" "y < 64" "z < 64"
      using split64(2) [of c] by (simp_all add: w_def x_def y_def z_def)
    have b': "w < 5" using 4(2) c b by arith
    have "w = 0 \<Longrightarrow> 16 \<le> x" "w = 4 \<Longrightarrow> x < 16" using c b 4 by arith+
    then have "\<exists>lo hi. utf8_lead (0xF0 + w) = Some (3, lo, hi, w) \<and> lo \<le> 0x80 + x \<and> 0x80 + x \<le> hi"
      using b b' by (cases "w = 0"; cases "w = 4") (auto simp: utf8_lead_def)
    then obtain lo hi where l: "utf8_lead (0xF0 + w) = Some (3, lo, hi, w)" "lo \<le> 0x80 + x" "0x80 + x \<le> hi" by blast
    have "utf8_bytes c = [0xF0 + w, 0x80 + x, 0x80 + y, 0x80 + z]"
      using 4 by (simp add: utf8_bytes_def w_def x_def y_def z_def)
    with l b show ?thesis by (simp add: numeral_3_eq_3 c algebra_simps)
  qed (simp add: utf8_bytes_def)
qed

definition utf8_encode :: "unicode \<Rightarrow> bytes" where
  "utf8_encode cs = map of_nat (concat (map utf8_bytes cs))"

lemma utf8_bytes_range: "scalar_value c \<Longrightarrow> b \<in> set (utf8_bytes c) \<Longrightarrow> b < 256"
  by (auto simp: utf8_bytes_def scalar_value_def split: if_splits)

lemma utf8_encode_string:
  assumes "list_all scalar_value cs"
  shows "utf8_string (utf8_encode cs) = cs"
proof -
  have "\<forall>b\<in>set (concat (map utf8_bytes cs)). b < 256"
    using assms by (auto simp: list_all_iff intro!: utf8_bytes_range)
  then have "map (unat \<circ> (of_nat :: nat \<Rightarrow> 8 word)) (concat (map utf8_bytes cs)) = concat (map utf8_bytes cs)"
    by (intro map_idI) (simp add: unat_of_nat del: set_concat)
  moreover have "utf8_text (concat (map utf8_bytes cs)) = cs"
    using assms by (induction cs) (simp_all add: utf8_char)
  ultimately show ?thesis by (simp add: utf8_string_def utf8_encode_def)
qed


text \<open>\<open>Buffer.from(s, 'base64')\<close> never throws; what it makes of ill-formed text is the parameter \<open>junk\<close>.\<close>

definition b64_char :: "nat \<Rightarrow> char" where
  "b64_char i =
     (if i < 26 then (char_of (65 + i) :: char) else if i < 52 then char_of (71 + i)
      else if i < 62 then char_of (i - 4) else if i = 62 then CHR ''+'' else CHR ''/'')"

definition b64_value :: "char \<Rightarrow> nat option" where
  "b64_value c =
     (let k = char_code c in
      if 65 \<le> k \<and> k \<le> 90 then Some (k - 65) else if 97 \<le> k \<and> k \<le> 122 then Some (k - 71)
      else if 48 \<le> k \<and> k \<le> 57 then Some (k + 4)
      else if k = 43 \<or> k = 45 then Some 62 else if k = 47 \<or> k = 95 then Some 63 else None)"

fun b64_groups :: "nat list \<Rightarrow> bytes" where
  "b64_groups (a # b # c # d # xs) =
     of_nat (a * 4 + b div 16) # of_nat (b mod 16 * 16 + c div 4) # of_nat (c mod 4 * 64 + d) # b64_groups xs"
| "b64_groups [a, b, c] = [of_nat (a * 4 + b div 16), of_nat (b mod 16 * 16 + c div 4)]"
| "b64_groups [a, b] = [of_nat (a * 4 + b div 16)]"
| "b64_groups xs = []"

definition base64_decode :: "(string \<Rightarrow> bytes) \<Rightarrow> string \<Rightarrow> bytes" where
  "base64_decode junk s =
     (let body = takeWhile (\<lambda>c. char_code c \<noteq> 61) s in
      if list_all (\<lambda>c. b64_value c \<noteq> None) body \<and> drop (length body) s \<in> {[], ''='', ''==''}
      then b64_groups (map (\<lambda>c. the (b64_value c)) body) else junk s)"

text \<open>The encoder of the log lines.\<close>

fun b64_digits :: "bytes \<Rightarrow> nat list" where
  "b64_digits (x # y # z # bs) =
     [unat x div 4, unat x mod 4 * 16 + unat y div 16, unat y mod 16 * 4 + unat z div 64, unat z mod 64] @ b64_digits bs"
| "b64_digits [x, y] = [unat x div 4, unat x mod 4 * 16 + unat y div 16, unat y mod 16 * 4]"
| "b64_digits [x] = [unat x div 4, unat x mod 4 * 16]"
| "b64_digits [] = []"

definition base64_encode :: "bytes \<Rightarrow> string" where
  "base64_encode bs = map b64_char (b64_digits bs) @ replicate (2 * length bs mod 3) (CHR ''='')"

lemma unat_byte_less [simp]: "unat (b :: 8 word) < 256"
  using unsigned_less [of b] by simp

lemma b64_digit: "d < 64 \<Longrightarrow> b64_value (b64_char d) = Some d \<and> char_code (b64_char d) \<noteq> 61 \<and> \<not> is_space (b64_char d)"
  by (auto simp: b64_value_def b64_char_def is_space_def Let_def)

lemma unat_div_less: "unat (x :: 8 word) div 4 < 64" "unat x div 16 < 16" "unat x div 64 < 4"
  using unat_byte_less [of x] by (simp_all add: less_mult_imp_div_less)

lemma join_less: "a < m \<Longrightarrow> b < n \<Longrightarrow> a * n + b < m * (n::nat)"
  using mult_le_mono1 [of "Suc a" m n] by simp

lemma b64_digits_range: "d \<in> set (b64_digits bs) \<Longrightarrow> d < 64"
proof (induction bs rule: b64_digits.induct)
  case (1 x y z bs)
  have "unat x mod 4 * 16 + unat y div 16 < 4 * 16" "unat y mod 16 * 4 + unat z div 64 < 16 * 4"
    by (rule join_less; simp add: unat_div_less)+
  with 1 show ?case by (auto simp: unat_div_less)
next
  case (2 x y)
  have "unat x mod 4 * 16 + unat y div 16 < 4 * 16" "unat y mod 16 * 4 + 0 < 16 * 4"
    by (rule join_less; simp add: unat_div_less)+
  with 2 show ?case by (auto simp: unat_div_less)
next
  case (3 x)
  have "unat x mod 4 * 16 + 0 < 4 * 16" by (rule join_less) simp_all
  with 3 show ?case by (auto simp: unat_div_less)
qed simp

lemma join_split: "b < n \<Longrightarrow> (a * n + b) div n = a \<and> (a * n + b) mod n = (b::nat)"
  by simp

lemma b64_groups_digits: "b64_groups (b64_digits bs) = bs"
proof (induction bs rule: b64_digits.induct)
  case (1 x y z bs)
  then show ?case by (simp add: join_split unat_div_less)
next
  case (2 x y)
  then show ?case by (simp add: join_split unat_div_less)
qed simp_all

lemma base64_body: "takeWhile (\<lambda>c. char_code c \<noteq> 61) (base64_encode bs) = map b64_char (b64_digits bs)"
proof -
  have "\<forall>c\<in>set (map b64_char (b64_digits bs)). char_code c \<noteq> 61" using b64_digit b64_digits_range by fastforce
  then show ?thesis unfolding base64_encode_def
    by (subst takeWhile_append2) (auto simp: takeWhile_replicate)
qed

lemma base64_roundtrip: "base64_decode junk (base64_encode bs) = bs"
proof -
  have v: "map (\<lambda>c. the (b64_value c)) (map b64_char (b64_digits bs)) = b64_digits bs"
    using b64_digit b64_digits_range by (auto simp: comp_def intro!: map_idI)
  have "list_all (\<lambda>c. b64_value c \<noteq> None) (map b64_char (b64_digits bs))"
    using b64_digit b64_digits_range by (fastforce simp: list_all_iff)
  moreover have "2 * length bs mod 3 \<in> {0, 1, 2}" by auto
  then have "drop (length (map b64_char (b64_digits bs))) (base64_encode bs) \<in> {[], ''='', ''==''}"
    by (auto simp: base64_encode_def numeral_2_eq_2)
  ultimately show ?thesis unfolding base64_decode_def Let_def base64_body by (simp only: v b64_groups_digits simp_thms if_True)
qed


subsection \<open>The Borsh reader\<close>

text \<open>A read takes the buffer and the offset; \<open>None\<close> is the range error.\<close>

type_synonym 'a borsh_read = "bytes \<Rightarrow> nat \<Rightarrow> ('a \<times> nat) option"

definition require_bytes :: "nat \<Rightarrow> (bytes \<Rightarrow> 'a) \<Rightarrow> 'a borsh_read" where
  "require_bytes n f buf offset =
     (if offset + n > length buf then None else Some (f (take n (drop offset buf)), offset + n))"

definition return_read :: "'a \<Rightarrow> 'a borsh_read" where "return_read x buf offset = Some (x, offset)"

definition then_read :: "'a borsh_read \<Rightarrow> ('a \<Rightarrow> 'b borsh_read) \<Rightarrow> 'b borsh_read" where
  "then_read r k buf offset = (case r buf offset of None \<Rightarrow> None | Some (x, offset') \<Rightarrow> k x buf offset')"

definition skip :: "nat \<Rightarrow> unit borsh_read" where "skip n = require_bytes n (\<lambda>_. ())"

definition readU64String :: "string borsh_read" where "readU64String = require_bytes 8 (\<lambda>bs. nat_digits (le_value bs))"

definition readBool :: "bool borsh_read" where "readBool = require_bytes 1 (\<lambda>bs. bs \<noteq> [0])"

definition readPubkey :: "(bytes \<Rightarrow> string) \<Rightarrow> string borsh_read" where "readPubkey base58 = require_bytes 32 base58"

definition readString :: "unicode borsh_read" where
  "readString = then_read (require_bytes 4 le_value) (\<lambda>n. require_bytes n utf8_string)"

subsection \<open>The events\<close>

record created_event =
  ce_name :: unicode
  ce_symbol :: unicode
  ce_uri :: unicode
  ce_mint :: string
  ce_bondingCurve :: string
  ce_creator :: string
  ce_virtualTokenReserves :: string
  ce_virtualSolReserves :: string
  ce_realTokenReserves :: string
  ce_tokenTotalSupply :: string

record traded_event =
  te_mint :: string
  te_isBuy :: bool
  te_virtualSolReserves :: string
  te_virtualTokenReserves :: string
  te_realSolReserves :: string
  te_realTokenReserves :: string

record completed_event =
  me_mint :: string
  me_bondingCurve :: string

definition CREATE_EVENT_DISCRIMINATOR :: bytes where
  "CREATE_EVENT_DISCRIMINATOR = [27, 114, 169, 77, 222, 235, 99, 118]"

definition TRADE_EVENT_DISCRIMINATOR :: bytes where
  "TRADE_EVENT_DISCRIMINATOR = [189, 219, 127, 211, 78, 230, 97, 238]"

definition COMPLETE_EVENT_DISCRIMINATOR :: bytes where
  "COMPLETE_EVENT_DISCRIMINATOR = [95, 114, 97, 156, 212, 46, 152, 8]"

definition matchesDiscriminator :: "bytes \<Rightarrow> bytes \<Rightarrow> bool" where
  "matchesDiscriminator buf discriminator \<longleftrightarrow> length buf \<ge> 8 \<and> take 8 buf = discriminator"

definition decodeCreateEvent :: "(bytes \<Rightarrow> string) \<Rightarrow> bytes \<Rightarrow> created_event option" where
  "decodeCreateEvent base58 buf =
     (if \<not> matchesDiscriminator buf CREATE_EVENT_DISCRIMINATOR then None
      else map_option fst
        (then_read (skip 8) (\<lambda>_.
         then_read readString (\<lambda>name.
         then_read readString (\<lambda>symbol.
         then_read readString (\<lambda>uri.
         then_read (readPubkey base58) (\<lambda>mint.
         then_read (readPubkey base58) (\<lambda>bondingCurve.
         then_read (skip 32) (\<lambda>_.
         then_read (readPubkey base58) (\<lambda>creator.
         then_read (skip 8) (\<lambda>_.
         then_read readU64String (\<lambda>virtualToken.
         then_read readU64String (\<lambda>virtualSol.
         then_read readU64String (\<lambda>realToken.
         then_read readU64String (\<lambda>minted.
         return_read
           \<lparr>ce_name = name, ce_symbol = symbol, ce_uri = uri, ce_mint = mint, ce_bondingCurve = bondingCurve,
            ce_creator = creator, ce_virtualTokenReserves = virtualToken, ce_virtualSolReserves = virtualSol,
            ce_realTokenReserves = realToken, ce_tokenTotalSupply = minted\<rparr>))))))))))))) buf 0))"

definition decodeTradeEvent :: "(bytes \<Rightarrow> string) \<Rightarrow> bytes \<Rightarrow> traded_event option" where
  "decodeTradeEvent base58 buf =
     (if \<not> matchesDiscriminator buf TRADE_EVENT_DISCRIMINATOR then None
      else map_option fst
        (then_read (skip 8) (\<lambda>_.
         then_read (readPubkey base58) (\<lambda>mint.
         then_read (skip 8) (\<lambda>_.
         then_read (skip 8) (\<lambda>_.
         then_read readBool (\<lambda>isBuy.
         then_read (skip 32) (\<lambda>_.
         then_read (skip 8) (\<lambda>_.
         then_read readU64String (\<lambda>virtualSol.
         then_read readU64String (\<lambda>virtualToken.
         then_read readU64String (\<lambda>realSol.
         then_read readU64String (\<lambda>realToken.
         return_read
           \<lparr>te_mint = mint, te_isBuy = isBuy, te_virtualSolReserves = virtualSol, te_virtualTokenReserves = virtualToken,
            te_realSolReserves = realSol, te_realTokenReserves = realToken\<rparr>))))))))))) buf 0))"

definition decodeCompleteEvent :: "(bytes \<Rightarrow> string) \<Rightarrow> bytes \<Rightarrow> completed_event option" where
  "decodeCompleteEvent base58 buf =
     (if \<not> matchesDiscriminator buf COMPLETE_EVENT_DISCRIMINATOR then None
      else map_option fst
        (then_read (skip 8) (\<lambda>_.
         then_read (skip 32) (\<lambda>_.
         then_read (readPubkey base58) (\<lambda>mint.
         then_read (readPubkey base58) (\<lambda>bondingCurve.
         return_read \<lparr>me_mint = mint, me_bondingCurve = bondingCurve\<rparr>)))) buf 0))"

definition extractProgramDataPayloads :: "(string \<Rightarrow> bytes) \<Rightarrow> string list \<Rightarrow> bytes list" where
  "extractProgramDataPayloads junk logs =
     map (\<lambda>line. base64_decode junk (trim (drop (length ''Program data: '') line)))
       (filter (starts_with ''Program data: '') logs)"

text \<open>The dispatch of \<open>handleLogs\<close> (\<open>pumpfun-ingestion.ts\<close>) on one payload.\<close>

datatype pump_event = Created created_event | Traded traded_event | Completed completed_event

definition decode_payload :: "(bytes \<Rightarrow> string) \<Rightarrow> bytes \<Rightarrow> pump_event option" where
  "decode_payload base58 payload =
     (case decodeCreateEvent base58 payload of
        Some e \<Rightarrow> Some (Created e)
      | None \<Rightarrow>
          case decodeTradeEvent base58 payload of
            Some e \<Rightarrow> Some (Traded e)
          | None \<Rightarrow> map_option Completed (decodeCompleteEvent base58 payload))"

definition decode_logs :: "(bytes \<Rightarrow> string) \<Rightarrow> (string \<Rightarrow> bytes) \<Rightarrow> string list \<Rightarrow> pump_event list" where
  "decode_logs base58 junk logs = List.map_filter (decode_payload base58) (extractProgramDataPayloads junk logs)"


subsection \<open>What the program emits\<close>

text \<open>
  The events as the Pump.fun program writes them: the discriminator, then the Borsh fields in order, public
  keys as 32 bytes, then whatever fields follow that the decoders do not read.
\<close>

datatype emitted =
    EmitCreate unicode unicode unicode bytes bytes bytes bytes nat nat nat nat nat
  | EmitTrade bytes nat nat bool bytes nat nat nat nat nat
  | EmitComplete bytes bytes bytes

definition borsh_text :: "unicode \<Rightarrow> bytes" where
  "borsh_text t = le_bytes 4 (length (utf8_encode t)) @ utf8_encode t"

fun borsh :: "emitted \<Rightarrow> bytes" where
  "borsh (EmitCreate name symbol uri mint curve user creator ts vt vs rt minted) =
     CREATE_EVENT_DISCRIMINATOR @ borsh_text name @ borsh_text symbol @ borsh_text uri @ mint @ curve @ user @ creator
       @ le_bytes 8 ts @ le_bytes 8 vt @ le_bytes 8 vs @ le_bytes 8 rt @ le_bytes 8 minted"
| "borsh (EmitTrade mint sol tok buy user ts vs vt rs rt) =
     TRADE_EVENT_DISCRIMINATOR @ mint @ le_bytes 8 sol @ le_bytes 8 tok @ [if buy then 1 else 0] @ user @ le_bytes 8 ts
       @ le_bytes 8 vs @ le_bytes 8 vt @ le_bytes 8 rs @ le_bytes 8 rt"
| "borsh (EmitComplete user mint curve) = COMPLETE_EVENT_DISCRIMINATOR @ user @ mint @ curve"

definition emitted_text :: "unicode \<Rightarrow> bool" where
  "emitted_text t \<longleftrightarrow> list_all scalar_value t \<and> length (utf8_encode t) < 2 ^ 32"

fun emitted_ok :: "emitted \<Rightarrow> bool" where
  "emitted_ok (EmitCreate name symbol uri mint curve user creator ts vt vs rt minted) =
     (emitted_text name \<and> emitted_text symbol \<and> emitted_text uri \<and> length mint = 32 \<and> length curve = 32
      \<and> length user = 32 \<and> length creator = 32 \<and> vt < 2 ^ 64 \<and> vs < 2 ^ 64 \<and> rt < 2 ^ 64 \<and> minted < 2 ^ 64)"
| "emitted_ok (EmitTrade mint sol tok buy user ts vs vt rs rt) =
     (length mint = 32 \<and> length user = 32 \<and> vs < 2 ^ 64 \<and> vt < 2 ^ 64 \<and> rs < 2 ^ 64 \<and> rt < 2 ^ 64)"
| "emitted_ok (EmitComplete user mint curve) = (length user = 32 \<and> length mint = 32 \<and> length curve = 32)"

fun as_seen :: "(bytes \<Rightarrow> string) \<Rightarrow> emitted \<Rightarrow> pump_event" where
  "as_seen base58 (EmitCreate name symbol uri mint curve user creator ts vt vs rt minted) =
     Created \<lparr>ce_name = name, ce_symbol = symbol, ce_uri = uri, ce_mint = base58 mint, ce_bondingCurve = base58 curve,
       ce_creator = base58 creator, ce_virtualTokenReserves = nat_digits vt, ce_virtualSolReserves = nat_digits vs,
       ce_realTokenReserves = nat_digits rt, ce_tokenTotalSupply = nat_digits minted\<rparr>"
| "as_seen base58 (EmitTrade mint sol tok buy user ts vs vt rs rt) =
     Traded \<lparr>te_mint = base58 mint, te_isBuy = buy, te_virtualSolReserves = nat_digits vs,
       te_virtualTokenReserves = nat_digits vt, te_realSolReserves = nat_digits rs, te_realTokenReserves = nat_digits rt\<rparr>"
| "as_seen base58 (EmitComplete user mint curve) =
     Completed \<lparr>me_mint = base58 mint, me_bondingCurve = base58 curve\<rparr>"

text \<open>A line of the log: an event with its unread tail, or any line without the prefix.\<close>

fun log_line :: "emitted \<times> bytes + string \<Rightarrow> string" where
  "log_line (Inl (e, unread)) = ''Program data: '' @ base64_encode (borsh e @ unread)"
| "log_line (Inr line) = line"

fun line_ok :: "emitted \<times> bytes + string \<Rightarrow> bool" where
  "line_ok (Inl (e, unread)) = emitted_ok e"
| "line_ok (Inr line) = (\<not> starts_with ''Program data: '' line)"

fun line_events :: "(bytes \<Rightarrow> string) \<Rightarrow> emitted \<times> bytes + string \<Rightarrow> pump_event list" where
  "line_events base58 (Inl (e, unread)) = [as_seen base58 e]"
| "line_events base58 (Inr line) = []"

subsection \<open>Reading back\<close>

definition reads :: "'a borsh_read \<Rightarrow> bytes \<Rightarrow> 'a \<Rightarrow> bool" where
  "reads r enc x \<longleftrightarrow> (\<forall>pre post. r (pre @ enc @ post) (length pre) = Some (x, length pre + length enc))"

named_theorems borsh_reads

lemma reads_bytes: "length enc = n \<Longrightarrow> reads (require_bytes n f) enc (f enc)"
  by (simp add: reads_def require_bytes_def)

lemma reads_then:
  assumes "reads r enc x" "reads (k x) enc' y"
  shows "reads (then_read r k) (enc @ enc') y"
  unfolding reads_def
proof (intro allI)
  fix pre post
  have "r (pre @ enc @ enc' @ post) (length pre) = Some (x, length pre + length enc)"
    using assms(1) by (simp add: reads_def)
  moreover have "k x ((pre @ enc) @ enc' @ post) (length (pre @ enc)) = Some (y, length (pre @ enc) + length enc')"
    using assms(2) unfolding reads_def by blast
  ultimately show "then_read r k (pre @ (enc @ enc') @ post) (length pre) = Some (y, length pre + length (enc @ enc'))"
    by (simp add: then_read_def)
qed

lemma reads_skip [borsh_reads]: "length enc = n \<Longrightarrow> reads (skip n) enc ()"
  unfolding skip_def by (rule reads_bytes)

lemma reads_u64 [borsh_reads]: "n < 2 ^ 64 \<Longrightarrow> reads readU64String (le_bytes 8 n) (nat_digits n)"
  using reads_bytes [of "le_bytes 8 n" 8 "\<lambda>bs. nat_digits (le_value bs)"]
  by (simp add: readU64String_def le_value_bytes)

lemma reads_bool [borsh_reads]: "reads readBool [if b then 1 else 0] b"
  using reads_bytes [of "[if b then 1 else 0]" 1 "\<lambda>bs. bs \<noteq> [0]"] by (simp add: readBool_def split: if_splits)

lemma reads_key [borsh_reads]: "length k = 32 \<Longrightarrow> reads (readPubkey base58) k (base58 k)"
  unfolding readPubkey_def by (rule reads_bytes)

lemma reads_text [borsh_reads]: "emitted_text t \<Longrightarrow> reads readString (borsh_text t) t"
  unfolding readString_def borsh_text_def emitted_text_def
  using reads_bytes [of "le_bytes 4 (length (utf8_encode t))" 4 le_value]
    reads_bytes [of "utf8_encode t" "length (utf8_encode t)" utf8_string]
  by (intro reads_then) (auto simp: le_value_bytes utf8_encode_string)

lemma reads_return: "reads (return_read x) [] x"
  by (simp add: reads_def return_read_def)

lemma reads_last: "reads r enc y \<Longrightarrow> reads (then_read r (\<lambda>y. return_read (f y))) enc (f y)"
  using reads_then [of r enc y "\<lambda>y. return_read (f y)" "[]" "f y"] by (simp add: reads_return)

lemma readsD: "reads r enc x \<Longrightarrow> map_option fst (r (enc @ post) 0) = Some x"
  by (force simp: reads_def dest: spec [of _ "[]"])

lemma length_discriminators [simp]:
  "length CREATE_EVENT_DISCRIMINATOR = 8" "length TRADE_EVENT_DISCRIMINATOR = 8" "length COMPLETE_EVENT_DISCRIMINATOR = 8"
  by (simp_all add: CREATE_EVENT_DISCRIMINATOR_def TRADE_EVENT_DISCRIMINATOR_def COMPLETE_EVENT_DISCRIMINATOR_def)

lemma matches_append [simp]: "length d = 8 \<Longrightarrow> matchesDiscriminator (d @ rest) d' \<longleftrightarrow> d = d'"
  by (auto simp: matchesDiscriminator_def)

lemma discriminators_differ [simp]:
  "CREATE_EVENT_DISCRIMINATOR \<noteq> TRADE_EVENT_DISCRIMINATOR" "CREATE_EVENT_DISCRIMINATOR \<noteq> COMPLETE_EVENT_DISCRIMINATOR"
  "TRADE_EVENT_DISCRIMINATOR \<noteq> CREATE_EVENT_DISCRIMINATOR" "COMPLETE_EVENT_DISCRIMINATOR \<noteq> CREATE_EVENT_DISCRIMINATOR"
  "TRADE_EVENT_DISCRIMINATOR \<noteq> COMPLETE_EVENT_DISCRIMINATOR" "COMPLETE_EVENT_DISCRIMINATOR \<noteq> TRADE_EVENT_DISCRIMINATOR"
  by (simp_all add: CREATE_EVENT_DISCRIMINATOR_def TRADE_EVENT_DISCRIMINATOR_def COMPLETE_EVENT_DISCRIMINATOR_def)

lemma decoded:
  assumes "length d = 8" "reads r (d @ enc) x"
  shows "(if \<not> matchesDiscriminator ((d @ enc) @ post) d then None else map_option fst (r ((d @ enc) @ post) 0)) = Some x"
  using assms readsD [OF assms(2), of post] by simp

lemma decode_create:
  assumes "emitted_ok (EmitCreate name symbol uri mint curve user creator ts vt vs rt minted)"
  shows "map_option Created (decodeCreateEvent base58
      (borsh (EmitCreate name symbol uri mint curve user creator ts vt vs rt minted) @ post))
    = Some (as_seen base58 (EmitCreate name symbol uri mint curve user creator ts vt vs rt minted))"
  using assms unfolding borsh.simps decodeCreateEvent_def emitted_ok.simps
  by (elim conjE, subst decoded, simp) (rule borsh_reads reads_last reads_then | simp)+

lemma decode_trade:
  assumes "emitted_ok (EmitTrade mint sol tok buy user ts vs vt rs rt)"
  shows "map_option Traded (decodeTradeEvent base58 (borsh (EmitTrade mint sol tok buy user ts vs vt rs rt) @ post))
    = Some (as_seen base58 (EmitTrade mint sol tok buy user ts vs vt rs rt))"
  using assms unfolding borsh.simps decodeTradeEvent_def emitted_ok.simps
  by (elim conjE, subst decoded, simp) (rule borsh_reads reads_last reads_then | simp)+

lemma decode_complete:
  assumes "emitted_ok (EmitComplete user mint curve)"
  shows "map_option Completed (decodeCompleteEvent base58 (borsh (EmitComplete user mint curve) @ post))
    = Some (as_seen base58 (EmitComplete user mint curve))"
  using assms unfolding borsh.simps decodeCompleteEvent_def emitted_ok.simps
  by (elim conjE, subst decoded, simp) (rule borsh_reads reads_last reads_then | simp)+

lemma decode_other:
  "decodeCreateEvent base58 (borsh (EmitTrade mint sol tok buy user ts vs vt rs rt) @ post) = None"
  "decodeCreateEvent base58 (borsh (EmitComplete user mint curve) @ post) = None"
  "decodeTradeEvent base58 (borsh (EmitComplete user mint curve) @ post) = None"
  by (simp_all add: decodeCreateEvent_def decodeTradeEvent_def)

lemma decode_emitted:
  assumes "emitted_ok e"
  shows "decode_payload base58 (borsh e @ post) = Some (as_seen base58 e)"
proof (cases e)
  case (EmitCreate name symbol uri mint curve user creator ts vt vs rt minted)
  with assms decode_create [of name symbol uri mint curve user creator ts vt vs rt minted base58 post] show ?thesis
    by (auto simp: decode_payload_def simp del: borsh.simps as_seen.simps emitted_ok.simps)
next
  case (EmitTrade mint sol tok buy user ts vs vt rs rt)
  with assms decode_trade [of mint sol tok buy user ts vs vt rs rt base58 post] show ?thesis
    by (auto simp: decode_payload_def decode_other simp del: borsh.simps as_seen.simps emitted_ok.simps)
next
  case (EmitComplete user mint curve)
  with assms decode_complete [of user mint curve base58 post] show ?thesis
    by (simp add: decode_payload_def decode_other del: borsh.simps as_seen.simps emitted_ok.simps)
qed

lemma trim_base64: "trim (base64_encode bs) = base64_encode bs"
proof (cases "base64_encode bs = []")
  case False
  have "\<forall>c\<in>set (base64_encode bs). \<not> is_space c"
    using b64_digit b64_digits_range by (auto simp: base64_encode_def is_space_def)
  with False show ?thesis by (intro trim_id) simp_all
qed (simp add: trim_def)

lemma line_payload:
  "line_ok l \<Longrightarrow> List.map_filter (decode_payload base58) (extractProgramDataPayloads junk [log_line l]) = line_events base58 l"
  by (cases l rule: log_line.cases)
    (simp_all add: extractProgramDataPayloads_def starts_with_def trim_base64 base64_roundtrip decode_emitted List.map_filter_simps)


definition sample_log :: "(emitted \<times> bytes + string) list" where
  "sample_log =
    [Inr ''Program log: Instruction: Buy'',
     Inl (EmitTrade (replicate 32 7) 1000 25 True (replicate 32 9) 1700000000 30000001000 1073000000000000 1000 793100000000000, [1, 2, 3]),
     Inl (EmitComplete (replicate 32 9) (replicate 32 7) (replicate 32 8), [])]"


text \<open>A payload cut short is no event.\<close>

lemma short_trade_is_none:
  "length buf < 129 \<Longrightarrow> decodeTradeEvent base58 buf = None"
  by (simp add: decodeTradeEvent_def then_read_def skip_def readPubkey_def readBool_def readU64String_def require_bytes_def return_read_def)

end
