(* ===== verification/PumpTable.thy ===== *)
theory PumpTable
  imports PumpEvents "HOL-Library.Sublist"
begin

section \<open>The table of Pump.fun tokens and its writers\<close>

text \<open>
  \<open>PumpFunToken\<close> of \<open>packages/db/prisma/schema.prisma\<close>, the handlers and the notification queue of
  \<open>apps/workers/src/pumpfun/pumpfun-ingestion.ts\<close>, and the on-chain reads of \<open>pumpfun-curve-refresher.ts\<close>
  and \<open>pumpfun-curve-stream.ts\<close>.  Every statement the workers send is one atomic write of the table; a
  write carries what its writer read before, so that any interleaving of the writers is a list of writes.
\<close>

record pump_row =
  pf_id :: nat
  pf_mintAddress :: string
  pf_bondingCurveAddress :: string
  pf_creatorAddress :: "string option"
  pf_name :: "unicode option"
  pf_symbol :: "unicode option"
  pf_uri :: "unicode option"
  pf_virtualTokenReserves :: string
  pf_virtualSolReserves :: string
  pf_realTokenReserves :: string
  pf_realSolReserves :: string
  pf_tokenTotalSupply :: string
  pf_complete :: bool
  pf_lastStateUpdateAt :: int
  pf_graduatedAt :: "int option"

type_synonym pump_rows = "pump_row list"

text \<open>The four reserves of one curve, and the curve account's own flag.\<close>

record curve_state =
  cs_virtualSolReserves :: string
  cs_virtualTokenReserves :: string
  cs_realSolReserves :: string
  cs_realTokenReserves :: string

record chain_state = curve_state +
  cs_tokenTotalSupply :: string
  cs_complete :: bool

text \<open>A launch as PumpPortal reports it.\<close>

record launch =
  la_mintAddress :: string
  la_bondingCurveAddress :: string
  la_creatorAddress :: "string option"
  la_name :: "unicode option"
  la_symbol :: "unicode option"
  la_uri :: "unicode option"
  la_state :: curve_state
  la_tokenTotalSupply :: string

datatype pump_write =
    UpsertCreated created_event int
  | UpdateTraded traded_event int
  | UpdateCompleted string "int option" int
  | CreateMany "launch list" int
  | UpdateState string curve_state int
  | SetGraduated string int
  | SetComplete string
  | RefreshCurve nat chain_state int

datatype pump_error = UniqueViolation | RecordMissing

definition row_of :: "string \<Rightarrow> pump_rows \<Rightarrow> pump_row option" where
  "row_of mint = find (\<lambda>r. pf_mintAddress r = mint)"

definition unique_free :: "string \<Rightarrow> string \<Rightarrow> pump_rows \<Rightarrow> bool" where
  "unique_free mint curve rows \<longleftrightarrow> list_all (\<lambda>r. pf_mintAddress r \<noteq> mint \<and> pf_bondingCurveAddress r \<noteq> curve) rows"

definition update_mint :: "string \<Rightarrow> (pump_row \<Rightarrow> pump_row) \<Rightarrow> pump_rows \<Rightarrow> pump_rows" where
  "update_mint mint = update_where (\<lambda>r. pf_mintAddress r = mint)"

text \<open>\<open>prisma.update\<close> throws when no row matches.\<close>

definition update_one :: "string \<Rightarrow> (pump_row \<Rightarrow> pump_row) \<Rightarrow> pump_rows \<Rightarrow> (pump_error, pump_rows) result" where
  "update_one mint f rows = (case row_of mint rows of None \<Rightarrow> Err RecordMissing | Some _ \<Rightarrow> Ok (update_mint mint f rows))"

definition created_row :: "nat \<Rightarrow> created_event \<Rightarrow> int \<Rightarrow> pump_row" where
  "created_row i e now =
     \<lparr>pf_id = i, pf_mintAddress = ce_mint e, pf_bondingCurveAddress = ce_bondingCurve e, pf_creatorAddress = Some (ce_creator e),
      pf_name = Some (ce_name e), pf_symbol = Some (ce_symbol e), pf_uri = Some (ce_uri e),
      pf_virtualTokenReserves = ce_virtualTokenReserves e, pf_virtualSolReserves = ce_virtualSolReserves e,
      pf_realTokenReserves = ce_realTokenReserves e, pf_realSolReserves = ''0'', pf_tokenTotalSupply = ce_tokenTotalSupply e,
      pf_complete = False, pf_lastStateUpdateAt = now, pf_graduatedAt = None\<rparr>"

definition upsert_created :: "created_event \<Rightarrow> int \<Rightarrow> pump_rows \<Rightarrow> (pump_error, pump_rows) result" where
  "upsert_created e now rows =
     (case row_of (ce_mint e) rows of
        Some _ \<Rightarrow> Ok (update_mint (ce_mint e) (\<lambda>r. r\<lparr>pf_name := Some (ce_name e), pf_symbol := Some (ce_symbol e),
          pf_uri := Some (ce_uri e), pf_virtualTokenReserves := ce_virtualTokenReserves e,
          pf_virtualSolReserves := ce_virtualSolReserves e, pf_realTokenReserves := ce_realTokenReserves e,
          pf_tokenTotalSupply := ce_tokenTotalSupply e, pf_lastStateUpdateAt := now\<rparr>) rows)
      | None \<Rightarrow>
          if unique_free (ce_mint e) (ce_bondingCurve e) rows then Ok (rows @ [created_row (length rows) e now])
          else Err UniqueViolation)"

definition launch_row :: "nat \<Rightarrow> launch \<Rightarrow> int \<Rightarrow> pump_row" where
  "launch_row i l now =
     \<lparr>pf_id = i, pf_mintAddress = la_mintAddress l, pf_bondingCurveAddress = la_bondingCurveAddress l,
      pf_creatorAddress = la_creatorAddress l, pf_name = la_name l, pf_symbol = la_symbol l, pf_uri = la_uri l,
      pf_virtualTokenReserves = cs_virtualTokenReserves (la_state l), pf_virtualSolReserves = cs_virtualSolReserves (la_state l),
      pf_realTokenReserves = cs_realTokenReserves (la_state l), pf_realSolReserves = cs_realSolReserves (la_state l),
      pf_tokenTotalSupply = la_tokenTotalSupply l, pf_complete = False, pf_lastStateUpdateAt = now, pf_graduatedAt = None\<rparr>"

text \<open>\<open>createMany\<close> with \<open>skipDuplicates\<close>: a row that breaks a unique index is left out.\<close>

fun create_many :: "launch list \<Rightarrow> int \<Rightarrow> pump_rows \<Rightarrow> pump_rows" where
  "create_many [] now rows = rows"
| "create_many (l # ls) now rows =
     create_many ls now
       (if unique_free (la_mintAddress l) (la_bondingCurveAddress l) rows then rows @ [launch_row (length rows) l now] else rows)"

definition set_state :: "'a curve_state_scheme \<Rightarrow> int \<Rightarrow> pump_row \<Rightarrow> pump_row" where
  "set_state c now r =
     r\<lparr>pf_virtualTokenReserves := cs_virtualTokenReserves c, pf_virtualSolReserves := cs_virtualSolReserves c,
       pf_realTokenReserves := cs_realTokenReserves c, pf_realSolReserves := cs_realSolReserves c, pf_lastStateUpdateAt := now\<rparr>"

fun commit_pump :: "pump_write \<Rightarrow> pump_rows \<Rightarrow> (pump_error, pump_rows) result" where
  "commit_pump (UpsertCreated e now) rows = upsert_created e now rows"
| "commit_pump (UpdateTraded e now) rows =
     update_one (te_mint e) (\<lambda>r. r\<lparr>pf_virtualTokenReserves := te_virtualTokenReserves e,
       pf_virtualSolReserves := te_virtualSolReserves e, pf_realTokenReserves := te_realTokenReserves e,
       pf_realSolReserves := te_realSolReserves e, pf_lastStateUpdateAt := now\<rparr>) rows"
| "commit_pump (UpdateCompleted mint seen now) rows =
     update_one mint (\<lambda>r. r\<lparr>pf_complete := True, pf_graduatedAt := Some (case seen of None \<Rightarrow> now | Some t \<Rightarrow> t),
       pf_lastStateUpdateAt := now\<rparr>) rows"
| "commit_pump (CreateMany ls now) rows = Ok (create_many ls now rows)"
| "commit_pump (UpdateState mint c now) rows = Ok (update_mint mint (set_state c now) rows)"
| "commit_pump (SetGraduated mint now) rows =
     Ok (update_where (\<lambda>r. pf_mintAddress r = mint \<and> pf_graduatedAt r = None)
       (\<lambda>r. r\<lparr>pf_complete := True, pf_graduatedAt := Some now, pf_lastStateUpdateAt := now\<rparr>) rows)"
| "commit_pump (SetComplete mint) rows = Ok (update_mint mint (\<lambda>r. r\<lparr>pf_complete := True\<rparr>) rows)"
| "commit_pump (RefreshCurve i c now) rows =
     (if list_ex (\<lambda>r. pf_id r = i) rows
      then Ok (update_where (\<lambda>r. pf_id r = i)
        (\<lambda>r. (set_state c now r)\<lparr>pf_tokenTotalSupply := cs_tokenTotalSupply c, pf_complete := cs_complete c,
           pf_graduatedAt := (if cs_complete c then Some now else pf_graduatedAt r)\<rparr>) rows)
      else Err RecordMissing)"

text \<open>A write that throws leaves the table as it was.\<close>

definition write_pump :: "pump_rows \<Rightarrow> pump_write \<Rightarrow> pump_rows" where
  "write_pump rows w = (case commit_pump w rows of Err _ \<Rightarrow> rows | Ok rows' \<Rightarrow> rows')"

definition run_pump :: "pump_write list \<Rightarrow> pump_rows \<Rightarrow> pump_rows" where "run_pump ws rows = foldl write_pump rows ws"

subsection \<open>The handlers of the log subscription\<close>

definition event_write :: "int \<Rightarrow> pump_rows \<Rightarrow> pump_event \<Rightarrow> pump_write option" where
  "event_write now rows e =
     (case e of
        Created c \<Rightarrow> Some (UpsertCreated c now)
      | Traded t \<Rightarrow> (case row_of (te_mint t) rows of None \<Rightarrow> None | Some _ \<Rightarrow> Some (UpdateTraded t now))
      | Completed m \<Rightarrow>
          (case row_of (me_mint m) rows of None \<Rightarrow> None | Some r \<Rightarrow> Some (UpdateCompleted (me_mint m) (pf_graduatedAt r) now)))"

text \<open>The events of a log in order, each at its own time; the first write that throws ends the log.\<close>

fun handle_events :: "(pump_event \<times> int) list \<Rightarrow> pump_rows \<Rightarrow> pump_error option \<times> pump_rows" where
  "handle_events [] rows = (None, rows)"
| "handle_events ((e, now) # es) rows =
     (case event_write now rows e of
        None \<Rightarrow> handle_events es rows
      | Some w \<Rightarrow> (case commit_pump w rows of Err err \<Rightarrow> (Some err, rows) | Ok rows' \<Rightarrow> handle_events es rows'))"

definition handleLogs :: "(bytes \<Rightarrow> string) \<Rightarrow> (string \<Rightarrow> bytes) \<Rightarrow> (nat \<Rightarrow> int) \<Rightarrow> string list \<Rightarrow> pump_rows
    \<Rightarrow> pump_error option \<times> pump_rows" where
  "handleLogs base58 junk clock logs rows =
     (let es = decode_logs base58 junk logs in handle_events (zip es (map clock [0..<length es])) rows)"

subsection \<open>The curve accounts\<close>

definition u64_at :: "bytes \<Rightarrow> nat \<Rightarrow> string" where "u64_at d i = nat_digits (le_value (take 8 (drop (8 + i * 8) d)))"

definition decodeBondingCurve :: "bytes \<Rightarrow> chain_state option" where
  "decodeBondingCurve d =
     (if length d < 8 + 5 * 8 + 1 then None
      else Some \<lparr>cs_virtualSolReserves = u64_at d 1, cs_virtualTokenReserves = u64_at d 0, cs_realSolReserves = u64_at d 3,
                 cs_realTokenReserves = u64_at d 2, cs_tokenTotalSupply = u64_at d 4, cs_complete = (d ! (8 + 5 * 8) = 1)\<rparr>)"

text \<open>The refresher's writes for one batch of accounts, each at its own time; the stream's flush sends the same write.\<close>

definition refresh_writes :: "(nat \<times> bytes option \<times> int) list \<Rightarrow> pump_write list" where
  "refresh_writes infos =
     List.map_filter (\<lambda>(i, info, now). case info of None \<Rightarrow> None | Some d \<Rightarrow> map_option (\<lambda>c. RefreshCurve i c now) (decodeBondingCurve d)) infos"

subsection \<open>The queue of notifications\<close>

definition MAX_QUEUE_SIZE :: nat where "MAX_QUEUE_SIZE = 500"

text \<open>
  \<open>iq_current\<close> is the notification \<open>handleLogs\<close> is working on: \<open>draining\<close> is that there is one.
  \<open>iq_handled\<close> and \<open>iq_dropped\<close> record what became of the others.
\<close>

record 'n ingest_queue =
  iq_queue :: "'n list"
  iq_current :: "'n option"
  iq_handled :: "'n list"
  iq_dropped :: "'n list"

definition drain_next :: "'n ingest_queue \<Rightarrow> 'n ingest_queue" where
  "drain_next s =
     (case iq_queue s of [] \<Rightarrow> s\<lparr>iq_current := None\<rparr> | n # q \<Rightarrow> s\<lparr>iq_queue := q, iq_current := Some n\<rparr>)"

definition enqueue :: "'n \<Rightarrow> 'n ingest_queue \<Rightarrow> 'n ingest_queue" where
  "enqueue n s =
     (let s1 = (if length (iq_queue s) \<ge> MAX_QUEUE_SIZE
                then s\<lparr>iq_queue := tl (iq_queue s), iq_dropped := iq_dropped s @ [hd (iq_queue s)]\<rparr> else s);
          s2 = s1\<lparr>iq_queue := iq_queue s1 @ [n]\<rparr>
      in if iq_current s2 = None then drain_next s2 else s2)"

text \<open>\<open>handleLogs\<close> settled, either way.\<close>

definition settled :: "'n ingest_queue \<Rightarrow> 'n ingest_queue" where
  "settled s = (case iq_current s of None \<Rightarrow> s | Some n \<Rightarrow> drain_next (s\<lparr>iq_handled := iq_handled s @ [n]\<rparr>))"

datatype 'n queue_event = Arrives 'n | Settles

fun queue_step :: "'n ingest_queue \<Rightarrow> 'n queue_event \<Rightarrow> 'n ingest_queue" where
  "queue_step s (Arrives n) = enqueue n s"
| "queue_step s Settles = settled s"

fun arrived :: "'n queue_event list \<Rightarrow> 'n list" where
  "arrived [] = []"
| "arrived (Arrives n # ss) = n # arrived ss"
| "arrived (Settles # ss) = arrived ss"

definition empty_queue :: "'n ingest_queue" where
  "empty_queue = \<lparr>iq_queue = [], iq_current = None, iq_handled = [], iq_dropped = []\<rparr>"

subsection \<open>The invariant of the table\<close>

definition table_ok :: "pump_rows \<Rightarrow> bool" where
  "table_ok rows \<longleftrightarrow>
     map pf_id rows = [0..<length rows] \<and> distinct (map pf_mintAddress rows) \<and> distinct (map pf_bondingCurveAddress rows)
     \<and> list_all (\<lambda>r. pf_complete r \<longrightarrow> pf_graduatedAt r \<noteq> None) rows"

lemma update_keeps_table:
  assumes "table_ok rows" "\<And>r. pf_id (f r) = pf_id r" "\<And>r. pf_mintAddress (f r) = pf_mintAddress r"
    "\<And>r. pf_bondingCurveAddress (f r) = pf_bondingCurveAddress r"
    "\<And>r. r \<in> set rows \<Longrightarrow> p r \<Longrightarrow> pf_complete (f r) \<Longrightarrow> pf_graduatedAt (f r) \<noteq> None"
  shows "table_ok (update_where p f rows)"
  using assms by (auto simp: table_ok_def map_update_where_key list_all_iff set_update_where)

lemma table_complete: "table_ok rows \<Longrightarrow> r \<in> set rows \<Longrightarrow> pf_complete r \<Longrightarrow> \<exists>t. pf_graduatedAt r = Some t"
  by (auto simp: table_ok_def list_all_iff)

lemma append_keeps_table:
  "table_ok rows \<Longrightarrow> unique_free (pf_mintAddress r) (pf_bondingCurveAddress r) rows \<Longrightarrow> pf_id r = length rows
   \<Longrightarrow> \<not> pf_complete r \<Longrightarrow> table_ok (rows @ [r])"
  by (auto simp: table_ok_def unique_free_def list_all_iff)

lemma create_many_keeps_table: "table_ok rows \<Longrightarrow> table_ok (create_many ls now rows)"
proof (induction ls arbitrary: rows)
  case (Cons l ls)
  show ?case
    by (auto intro!: Cons.IH append_keeps_table simp: Cons.prems launch_row_def)
qed simp

text \<open>A write that marks a row complete also gives it a time.\<close>

fun timed :: "pump_write \<Rightarrow> pump_rows \<Rightarrow> bool" where
  "timed (SetComplete mint) rows = list_all (\<lambda>r. pf_mintAddress r = mint \<longrightarrow> pf_graduatedAt r \<noteq> None) rows"
| "timed w rows = True"

lemma write_keeps_table:
  assumes "table_ok rows" "timed w rows"
  shows "table_ok (write_pump rows w)"
proof (cases w)
  case (UpsertCreated e now)
  have "row_of (ce_mint e) rows \<noteq> None \<Longrightarrow> ?thesis"
    using assms(1) table_complete [OF assms(1)]
    by (auto simp: UpsertCreated write_pump_def upsert_created_def update_mint_def intro!: update_keeps_table)
  moreover have "row_of (ce_mint e) rows = None \<Longrightarrow> ?thesis"
    using assms(1) by (auto simp: UpsertCreated write_pump_def upsert_created_def created_row_def intro!: append_keeps_table)
  ultimately show ?thesis by blast
next
  case (CreateMany ls now)
  with assms(1) show ?thesis by (simp add: write_pump_def create_many_keeps_table)
next
  case (SetComplete mint)
  with assms show ?thesis
    by (auto simp: write_pump_def update_mint_def list_all_iff intro!: update_keeps_table)
qed (use assms(1) table_complete [OF assms(1)] in \<open>auto simp: write_pump_def update_one_def update_mint_def set_state_def
       split: option.splits intro!: update_keeps_table\<close>)

text \<open>
  The second update of a flush marks a row complete that the first one has timed: between the two only the
  curve readers write.
\<close>

fun guarded :: "string option \<Rightarrow> pump_write list \<Rightarrow> bool" where
  "guarded g [] = True"
| "guarded g (SetComplete mint # ws) = (g = Some mint \<and> guarded g ws)"
| "guarded g (SetGraduated mint now # ws) = guarded (Some mint) ws"
| "guarded g (RefreshCurve i c now # ws) = guarded g ws"
| "guarded g (w # ws) = guarded None ws"

definition graduated :: "string option \<Rightarrow> pump_rows \<Rightarrow> bool" where
  "graduated g rows \<longleftrightarrow> (case g of None \<Rightarrow> True | Some mint \<Rightarrow> timed (SetComplete mint) rows)"

lemma refresh_graduated: "graduated g rows \<Longrightarrow> graduated g (write_pump rows (RefreshCurve i c now))"
  by (auto simp: graduated_def write_pump_def list_all_iff set_update_where set_state_def split: option.splits)

lemma set_graduated: "graduated (Some mint) (write_pump rows (SetGraduated mint now))"
  unfolding graduated_def write_pump_def by (induction rows) simp_all

lemma set_complete_graduated: "graduated g rows \<Longrightarrow> graduated g (write_pump rows (SetComplete mint))"
  by (auto simp: graduated_def write_pump_def list_all_iff set_update_where update_mint_def split: option.splits)

lemma run_pump_simps [simp]: "run_pump [] rows = rows" "run_pump (w # ws) rows = run_pump ws (write_pump rows w)"
  "run_pump (us @ ws) rows = run_pump ws (run_pump us rows)"
  by (simp_all add: run_pump_def)

lemma guarded_run_keeps_table:
  "guarded g ws \<Longrightarrow> graduated g rows \<Longrightarrow> table_ok rows \<Longrightarrow> table_ok (run_pump ws rows)"
proof (induction g ws arbitrary: rows rule: guarded.induct)
  case (2 g mint ws)
  then have "timed (SetComplete mint) rows" by (simp add: graduated_def)
  with 2(4) have "table_ok (write_pump rows (SetComplete mint))" by (rule write_keeps_table)
  moreover have "graduated (Some mint) (write_pump rows (SetComplete mint))" using 2 by (auto intro: set_complete_graduated)
  ultimately show ?case using 2(1,2) by auto
next
  case (3 g mint now ws)
  then show ?case by (simp add: write_keeps_table set_graduated)
next
  case (4 g i c now ws)
  then show ?case by (simp add: write_keeps_table refresh_graduated)
qed (simp_all add: write_keeps_table graduated_def)

lemma guarded_shuffle:
  "ws \<in> shuffles us vs \<Longrightarrow> guarded g us \<Longrightarrow> list_all (\<lambda>w. \<exists>i c now. w = RefreshCurve i c now) vs \<Longrightarrow> guarded g ws"
proof (induction ws arbitrary: us vs g)
  case (Cons w ws)
  then consider us' where "us = w # us'" "ws \<in> shuffles us' vs" | vs' where "vs = w # vs'" "ws \<in> shuffles us vs'"
    by (auto simp: Cons_in_shuffles_iff neq_Nil_conv)
  then show ?case
  proof cases
    case (1 us')
    have "\<And>h. guarded h us' \<Longrightarrow> guarded h ws" using Cons.IH [OF 1(2)] Cons.prems(3) by blast
    with Cons.prems(2) 1(1) show ?thesis by (cases w) auto
  next
    case (2 vs')
    with Cons show ?thesis by auto
  qed
qed simp

subsection \<open>Graduation is recorded once\<close>

text \<open>Without the curve readers, and with the time a handler read still the row's own.\<close>

fun current_write :: "pump_write \<Rightarrow> pump_rows \<Rightarrow> bool" where
  "current_write (RefreshCurve i c now) rows = False"
| "current_write (UpdateCompleted mint seen now) rows = list_all (\<lambda>r. pf_mintAddress r = mint \<longrightarrow> pf_graduatedAt r = seen) rows"
| "current_write w rows = True"

fun current_run :: "pump_write list \<Rightarrow> pump_rows \<Rightarrow> bool" where
  "current_run [] rows = True"
| "current_run (w # ws) rows = (current_write w rows \<and> current_run ws (write_pump rows w))"

definition keeps_graduation :: "pump_row \<Rightarrow> pump_row \<Rightarrow> bool" where
  "keeps_graduation r r' \<longleftrightarrow> pf_id r' = pf_id r \<and> pf_mintAddress r' = pf_mintAddress r \<and> (pf_complete r \<longrightarrow> pf_complete r')
     \<and> (pf_graduatedAt r \<noteq> None \<longrightarrow> pf_graduatedAt r' = pf_graduatedAt r)"

definition extends :: "pump_rows \<Rightarrow> pump_rows \<Rightarrow> bool" where
  "extends rows rows' \<longleftrightarrow> (\<forall>r\<in>set rows. \<exists>r'\<in>set rows'. keeps_graduation r r')"

lemma keeps_refl [simp]: "keeps_graduation r r"
  by (simp add: keeps_graduation_def)

lemma extends_refl: "extends rows rows"
  unfolding extends_def using keeps_refl by blast

lemma extends_trans: "extends a b \<Longrightarrow> extends b c \<Longrightarrow> extends a c"
  unfolding extends_def keeps_graduation_def by (metis (no_types, lifting))

lemma extends_append: "extends rows (rows @ rs)"
  unfolding extends_def set_append using keeps_refl by blast

lemma extends_update: "(\<And>r. r \<in> set rows \<Longrightarrow> p r \<Longrightarrow> keeps_graduation r (f r)) \<Longrightarrow> extends rows (update_where p f rows)"
  unfolding extends_def
proof
  fix r assume "r \<in> set rows" and keep: "\<And>r. r \<in> set rows \<Longrightarrow> p r \<Longrightarrow> keeps_graduation r (f r)"
  then have "(if p r then f r else r) \<in> set (update_where p f rows)" "keeps_graduation r (if p r then f r else r)"
    by (auto simp: update_where_def)
  then show "\<exists>r'\<in>set (update_where p f rows). keeps_graduation r r'" by blast
qed

lemma extends_create_many: "extends rows (create_many ls now rows)"
proof (induction ls arbitrary: rows)
  case (Cons l ls)
  show ?case
    using Cons.IH [of rows] extends_trans [OF extends_append Cons.IH [of "rows @ [launch_row (length rows) l now]"]] by simp
qed (simp add: extends_refl)

lemma write_extends: "current_write w rows \<Longrightarrow> extends rows (write_pump rows w)"
  by (cases w) (auto simp: write_pump_def upsert_created_def update_one_def update_mint_def extends_create_many extends_append
      extends_refl keeps_graduation_def set_state_def list_all_iff split: option.splits intro!: extends_update)

lemma run_extends: "current_run ws rows \<Longrightarrow> extends rows (run_pump ws rows)"
  by (induction ws arbitrary: rows) (auto intro: extends_refl extends_trans write_extends)

text \<open>The handlers of the log subscription write what they just read.\<close>

lemma event_write_current:
  "distinct (map pf_mintAddress rows) \<Longrightarrow> event_write now rows e = Some w \<Longrightarrow> current_write w rows"
  by (force simp: event_write_def row_of_def list_all_iff split: pump_event.splits option.splits dest: find_SomeD distinct_map_unique)

lemma event_write_timed: "event_write now rows e = Some w \<Longrightarrow> timed w rows"
  by (auto simp: event_write_def split: pump_event.splits option.splits)

lemma handle_events_sound:
  "table_ok rows \<Longrightarrow> table_ok (snd (handle_events es rows)) \<and> extends rows (snd (handle_events es rows))"
proof (induction es rows rule: handle_events.induct)
  case (2 e now es rows)
  show ?case
  proof (cases "event_write now rows e")
    case None
    with 2 show ?thesis by simp
  next
    case (Some w)
    show ?thesis
    proof (cases "commit_pump w rows")
      case (Inl err)
      with Some 2(3) show ?thesis by (simp add: extends_refl)
    next
      case (Inr rows')
      then have w: "rows' = write_pump rows w" by (simp add: write_pump_def)
      have "table_ok rows'" unfolding w using 2(3) event_write_timed [OF Some] by (rule write_keeps_table)
      moreover have "extends rows rows'"
        unfolding w using 2(3) event_write_current [OF _ Some] by (intro write_extends) (simp add: table_ok_def)
      ultimately show ?thesis using 2(2) [OF Some Inr] Some Inr by (auto intro: extends_trans)
    qed
  qed
qed (simp add: extends_refl)


subsection \<open>The queue keeps the order and loses only what it drops\<close>

definition waiting :: "'n ingest_queue \<Rightarrow> 'n list" where
  "waiting s = (case iq_current s of None \<Rightarrow> [] | Some n \<Rightarrow> [n]) @ iq_queue s"

definition queue_ok :: "'n list \<Rightarrow> 'n ingest_queue \<Rightarrow> bool" where
  "queue_ok ns s \<longleftrightarrow> length (iq_queue s) \<le> MAX_QUEUE_SIZE \<and> (iq_current s = None \<longrightarrow> iq_queue s = [])
     \<and> subseq (iq_handled s @ waiting s) ns \<and> mset ns = mset (iq_handled s) + mset (waiting s) + mset (iq_dropped s)"

lemma arrived_append [simp]: "arrived (ss @ ts) = arrived ss @ arrived ts"
  by (induction ss rule: arrived.induct) simp_all

lemma subseq_snoc: "subseq xs ys \<Longrightarrow> subseq (xs @ [n]) (ys @ [n])"
  by (simp add: list_emb_append_mono)

lemma enqueue_ok:
  assumes "queue_ok ns s"
  shows "queue_ok (ns @ [n]) (enqueue n s)"
proof (cases "length (iq_queue s) \<ge> MAX_QUEUE_SIZE")
  case True
  then have "iq_queue s \<noteq> []" by (auto simp: MAX_QUEUE_SIZE_def)
  then obtain d q where q: "iq_queue s = d # q" by (auto simp: neq_Nil_conv)
  with assms obtain c where c: "iq_current s = Some c" by (auto simp: queue_ok_def)
  have "subseq (iq_handled s @ c # q) (iq_handled s @ c # d # q)" by (intro list_emb_append_mono) auto
  also have "subseq \<dots> ns" using assms by (simp add: queue_ok_def waiting_def q c)
  finally have "subseq ((iq_handled s @ c # q) @ [n]) (ns @ [n])" by (rule subseq_snoc)
  with assms True show ?thesis by (simp add: queue_ok_def enqueue_def waiting_def q c)
next
  case False
  have "subseq ((iq_handled s @ waiting s) @ [n]) (ns @ [n])" using assms by (intro subseq_snoc) (simp add: queue_ok_def)
  with assms False show ?thesis
    by (cases "iq_current s") (auto simp: queue_ok_def enqueue_def waiting_def drain_next_def)
qed

lemma settled_ok: "queue_ok ns s \<Longrightarrow> queue_ok ns (settled s)"
  by (cases "iq_current s"; cases "iq_queue s") (auto simp: queue_ok_def settled_def waiting_def drain_next_def)

lemma queue_keeps_order: "queue_ok (arrived ss) (foldl queue_step empty_queue ss)"
proof (induction ss rule: rev_induct)
  case Nil
  then show ?case by (simp add: queue_ok_def empty_queue_def waiting_def)
next
  case (snoc st ss)
  then show ?case by (cases st) (simp_all add: enqueue_ok settled_ok)
qed

text \<open>Nothing is dropped while fewer than \<open>MAX_QUEUE_SIZE\<close> wait.\<close>

lemma nothing_dropped: "length (iq_queue s) < MAX_QUEUE_SIZE \<Longrightarrow> iq_dropped (enqueue n s) = iq_dropped s"
  by (simp add: enqueue_def Let_def drain_next_def split: list.splits)

end
