(* ===== verification/PumpPortal.thy ===== *)
theory PumpPortal
  imports PumpTable Consent "HOL-Library.AList"
begin

section \<open>Pump.fun from PumpPortal's stream\<close>

text \<open>
  \<open>apps/workers/src/pumpfun/pumpportal-ingestion.ts\<close>: the buffer of pending tokens, the trade subscriptions
  and their eviction, the live prices, and what a flush writes.  A loop that never ends is \<open>None\<close>.
\<close>

definition LAMPORTS_PER_SOL :: int where "LAMPORTS_PER_SOL = 1000000000"
definition TOKEN_UNITS :: int where "TOKEN_UNITS = 1000000"
definition INITIAL_VIRTUAL_SOL_LAMPORTS :: int where "INITIAL_VIRTUAL_SOL_LAMPORTS = 30 * LAMPORTS_PER_SOL"
definition VIRTUAL_TOKEN_OFFSET_RAW :: int where "VIRTUAL_TOKEN_OFFSET_RAW = 279900000 * TOKEN_UNITS"
definition TOKEN_TOTAL_SUPPLY_RAW :: string where "TOKEN_TOTAL_SUPPLY_RAW = string_of_int (1000000000 * TOKEN_UNITS)"
definition MAX_TRACKED_MINTS :: nat where "MAX_TRACKED_MINTS = 1500"
definition KEEP_TRACKING_PROGRESS_PCT :: jsnum where "KEEP_TRACKING_PROGRESS_PCT = Fin 50"
definition MAX_PUBLISHED_PER_FLUSH :: nat where "MAX_PUBLISHED_PER_FLUSH = 300"

subsection \<open>The curve\<close>

definition curveStateFromPumpPortal :: "jsnum option \<Rightarrow> jsnum option \<Rightarrow> (js_error, curve_state option) result" where
  "curveStateFromPumpPortal vSol vTokens =
     (case (vSol, vTokens) of
        (Some sol, Some tokens) \<Rightarrow>
          if \<not> is_finite sol \<or> \<not> is_finite tokens \<or> nle sol (Fin 0) \<or> nle tokens (Fin 0) then Ok None
          else bind_result (BigInt_num (nround (nmul sol (num_of_int LAMPORTS_PER_SOL)))) (\<lambda>virtualSol.
               bind_result (BigInt_num (nround (nmul tokens (num_of_int TOKEN_UNITS)))) (\<lambda>virtualTokens.
               Ok (Some
                 \<lparr>cs_virtualSolReserves = string_of_int virtualSol, cs_virtualTokenReserves = string_of_int virtualTokens,
                  cs_realSolReserves = string_of_int
                    (if virtualSol > INITIAL_VIRTUAL_SOL_LAMPORTS then virtualSol - INITIAL_VIRTUAL_SOL_LAMPORTS else 0),
                  cs_realTokenReserves = string_of_int
                    (if virtualTokens > VIRTUAL_TOKEN_OFFSET_RAW then virtualTokens - VIRTUAL_TOKEN_OFFSET_RAW else 0)\<rparr>)))
      | _ \<Rightarrow> Ok None)"

definition pumpFunGraduationProgressPct :: "string \<Rightarrow> (js_error, jsnum) result" where
  "pumpFunGraduationProgressPct realSol =
     bind_result (BigInt realSol) (\<lambda>raised.
       if raised \<le> 0 then Ok (Fin 0)
       else Ok (nmin (Fin 100)
         (ndiv (num_of_int (bigint_div (raised * 10000) PUMP_FUN_GRADUATION_THRESHOLD_LAMPORTS)) (Fin 100))))"

subsection \<open>The buffer and the subscriptions\<close>

record creation =
  cr_bondingCurveAddress :: string
  cr_creatorAddress :: "string option"
  cr_name :: "unicode option"
  cr_symbol :: "unicode option"
  cr_uri :: "unicode option"

record pending_token =
  pt_create :: "creation option"
  pt_state :: "curve_state option"
  pt_migrated :: bool

record portal_message =
  pm_txType :: "string option"
  pm_mint :: "string option"
  pm_pool :: "string option"
  pm_traderPublicKey :: "string option"
  pm_bondingCurveKey :: "string option"
  pm_vSol :: "jsnum option"
  pm_vTokens :: "jsnum option"
  pm_name :: "unicode option"
  pm_symbol :: "unicode option"
  pm_uri :: "unicode option"

datatype socket_message = SubscribeTrades "string list" | UnsubscribeTrades "string list"

text \<open>
  The maps keep their insertion order.  \<open>pp_sent\<close> is what went over the open socket; \<open>pp_synced\<close> records
  that \<open>resubscribeTrades\<close> has run on it.
\<close>

record portal =
  pp_pending :: "(string \<times> pending_token) list"
  pp_liveDirty :: "(string \<times> curve_state) list"
  pp_tracked :: "string list"
  pp_progress :: "string \<Rightarrow> jsnum option"
  pp_open :: bool
  pp_sent :: "socket_message list"
  pp_synced :: bool
  pp_flushing :: bool

definition fresh_portal :: portal where
  "fresh_portal = \<lparr>pp_pending = [], pp_liveDirty = [], pp_tracked = [], pp_progress = (\<lambda>_. None), pp_open = False, pp_sent = [],
     pp_synced = False, pp_flushing = False\<rparr>"

definition send :: "socket_message \<Rightarrow> portal \<Rightarrow> portal" where
  "send m s = (if pp_open s then s\<lparr>pp_sent := pp_sent s @ [m]\<rparr> else s)"

definition upsertPending :: "string \<Rightarrow> (pending_token \<Rightarrow> pending_token) \<Rightarrow> portal \<Rightarrow> portal" where
  "upsertPending mint f s =
     (let entry = (case map_of (pp_pending s) mint of None \<Rightarrow> \<lparr>pt_create = None, pt_state = None, pt_migrated = False\<rparr> | Some t \<Rightarrow> t)
      in s\<lparr>pp_pending := AList.update mint (f entry) (pp_pending s)\<rparr>)"

definition untrack :: "string \<Rightarrow> portal \<Rightarrow> portal" where
  "untrack mint s =
     (if mint \<notin> set (pp_tracked s) then s
      else send (UnsubscribeTrades [mint]) (s\<lparr>pp_tracked := remove1 mint (pp_tracked s), pp_progress := (pp_progress s)(mint := None)\<rparr>))"

definition climbing :: "portal \<Rightarrow> string \<Rightarrow> bool" where
  "climbing s mint = (\<not> nlt (case pp_progress s mint of None \<Rightarrow> Fin 0 | Some p \<Rightarrow> p) KEEP_TRACKING_PROGRESS_PCT)"

definition victim :: "portal \<Rightarrow> string option" where
  "victim s = (case find (\<lambda>m. \<not> climbing s m) (pp_tracked s) of
     Some m \<Rightarrow> Some m | None \<Rightarrow> (case pp_tracked s of [] \<Rightarrow> None | m # _ \<Rightarrow> Some m))"

definition evictOne :: "portal \<Rightarrow> portal" where
  "evictOne s = (case victim s of None \<Rightarrow> s | Some m \<Rightarrow> if m = '''' then s else untrack m s)"

fun evict_while :: "nat \<Rightarrow> portal \<Rightarrow> portal option" where
  "evict_while 0 s = None"
| "evict_while (Suc n) s = (if length (pp_tracked s) > MAX_TRACKED_MINTS then evict_while n (evictOne s) else Some s)"

definition track :: "string \<Rightarrow> jsnum \<Rightarrow> portal \<Rightarrow> portal option" where
  "track mint pct s =
     (let s1 = (if mint \<in> set (pp_tracked s) then s else send (SubscribeTrades [mint]) (s\<lparr>pp_tracked := pp_tracked s @ [mint]\<rparr>));
          s2 = s1\<lparr>pp_progress := (pp_progress s1)(mint := Some pct)\<rparr>
      in evict_while (Suc (length (pp_tracked s2))) s2)"

text \<open>A throw is caught by the socket's handler: the message is skipped.\<close>

definition handleMessage :: "portal_message \<Rightarrow> portal \<Rightarrow> portal option" where
  "handleMessage m s =
     (case pm_mint m of
        None \<Rightarrow> Some s
      | Some mint \<Rightarrow>
          if mint = '''' then Some s
          else if pm_txType m = Some ''migrate'' then
            Some (untrack mint
              ((upsertPending mint (\<lambda>t. t\<lparr>pt_migrated := True\<rparr>) s)\<lparr>pp_liveDirty := AList.delete mint (pp_liveDirty s)\<rparr>))
          else if pm_pool m \<noteq> None \<and> pm_pool m \<noteq> Some ''pump'' then Some s
          else case curveStateFromPumpPortal (pm_vSol m) (pm_vTokens m) of
            Err _ \<Rightarrow> Some s
          | Ok state \<Rightarrow>
              if pm_txType m = Some ''create'' then
                (case (state, pm_bondingCurveKey m) of
                   (Some c, Some curve) \<Rightarrow>
                     if curve = '''' then Some s
                     else
                       (let s1 = upsertPending mint (\<lambda>t. t\<lparr>pt_create := Some
                              \<lparr>cr_bondingCurveAddress = curve, cr_creatorAddress = pm_traderPublicKey m, cr_name = pm_name m,
                               cr_symbol = pm_symbol m, cr_uri = pm_uri m\<rparr>, pt_state := Some c\<rparr>) s
                        in case pumpFunGraduationProgressPct (cs_realSolReserves c) of
                             Err _ \<Rightarrow> Some s1
                           | Ok pct \<Rightarrow> track mint pct s1)
                 | _ \<Rightarrow> Some s)
              else (case state of
                  None \<Rightarrow> Some s
                | Some c \<Rightarrow>
                    if pm_txType m = Some ''buy'' \<or> pm_txType m = Some ''sell'' then
                      (let s1 = (upsertPending mint (\<lambda>t. t\<lparr>pt_state := Some c\<rparr>) s)
                                \<lparr>pp_liveDirty := AList.update mint c (pp_liveDirty s)\<rparr>
                       in if mint \<in> set (pp_tracked s1)
                          then (case pumpFunGraduationProgressPct (cs_realSolReserves c) of
                                  Err _ \<Rightarrow> Some s1
                                | Ok pct \<Rightarrow> Some (s1\<lparr>pp_progress := (pp_progress s1)(mint := Some pct)\<rparr>))
                          else Some s1)
                    else Some s))"

text \<open>The hot coins of Kamby's lists are tracked like climbers.\<close>

fun track_hot :: "string list \<Rightarrow> portal \<Rightarrow> portal option" where
  "track_hot [] s = Some s"
| "track_hot (mint # ms) s =
     (if mint \<in> set (pp_tracked s) then track_hot ms s
      else Option.bind (track mint KEEP_TRACKING_PROGRESS_PCT s) (track_hot ms))"

definition syncHotMints :: "string list \<Rightarrow> portal \<Rightarrow> portal option" where
  "syncHotMints hot s = track_hot (take 500 hot) s"

subsection \<open>Connecting\<close>

text \<open>A new socket has no subscription.\<close>

definition opened :: "portal \<Rightarrow> portal" where "opened s = s\<lparr>pp_open := True, pp_sent := [], pp_synced := False\<rparr>"

definition closed :: "portal \<Rightarrow> portal" where "closed s = s\<lparr>pp_open := False\<rparr>"

text \<open>The rows loaded on a first start, latest first: each is tracked, until one whose reserves do not parse.\<close>

fun track_loaded :: "(string \<times> string) list \<Rightarrow> portal \<Rightarrow> portal" where
  "track_loaded [] s = s"
| "track_loaded ((mint, realSol) # rs) s =
     (let s1 = s\<lparr>pp_tracked := (if mint \<in> set (pp_tracked s) then pp_tracked s else pp_tracked s @ [mint])\<rparr>
      in case pumpFunGraduationProgressPct realSol of
           Err _ \<Rightarrow> s1
         | Ok pct \<Rightarrow> track_loaded rs (s1\<lparr>pp_progress := (pp_progress s1)(mint := Some pct)\<rparr>))"

function chunks :: "nat \<Rightarrow> 'a list \<Rightarrow> 'a list list" where
  "chunks n xs = (if xs = [] \<or> n = 0 then [] else take n xs # chunks n (drop n xs))"
  by pat_completeness auto
termination by (relation "measure (\<lambda>(n, xs). length xs)") auto

declare chunks.simps [simp del]

text \<open>\<open>recent\<close> is what the query gave: \<open>None\<close> when it was not asked (something was tracked) or failed.\<close>

definition resubscribeTrades :: "(string \<times> string) list option \<Rightarrow> portal \<Rightarrow> portal" where
  "resubscribeTrades recent s =
     (let s1 = (case recent of None \<Rightarrow> s | Some rows \<Rightarrow> track_loaded (rev (take (MAX_TRACKED_MINTS div 2) rows)) s)
      in (foldl (\<lambda>s ks. send (SubscribeTrades ks) s) s1 (chunks 500 (pp_tracked s1)))\<lparr>pp_synced := True\<rparr>)"

subsection \<open>Writing\<close>

definition writeLive :: "portal \<Rightarrow> (string \<times> curve_state) list \<times> portal" where
  "writeLive s = (pp_liveDirty s, s\<lparr>pp_liveDirty := []\<rparr>)"

definition launch_of :: "string \<times> pending_token \<Rightarrow> launch option" where
  "launch_of p =
     (case (pt_create (snd p), pt_state (snd p)) of
        (Some c, Some st) \<Rightarrow> Some
          \<lparr>la_mintAddress = fst p, la_bondingCurveAddress = cr_bondingCurveAddress c, la_creatorAddress = cr_creatorAddress c,
           la_name = cr_name c, la_symbol = cr_symbol c, la_uri = cr_uri c, la_state = st, la_tokenTotalSupply = TOKEN_TOTAL_SUPPLY_RAW\<rparr>
      | _ \<Rightarrow> None)"

definition token_writes :: "int \<Rightarrow> string \<times> pending_token \<Rightarrow> pump_write list" where
  "token_writes now p =
     (case (pt_state (snd p), pt_create (snd p)) of (Some c, None) \<Rightarrow> [UpdateState (fst p) c now] | _ \<Rightarrow> [])
     @ (if pt_migrated (snd p) then [SetGraduated (fst p) now, SetComplete (fst p)] else [])"

definition flush_writes :: "int \<Rightarrow> (string \<times> pending_token) list \<Rightarrow> pump_write list" where
  "flush_writes now batch =
     (let creates = List.map_filter launch_of batch in
      (if creates = [] then [] else [CreateMany creates now]) @ concat (map (token_writes now) batch))"

definition start_flush :: "portal \<Rightarrow> ((string \<times> pending_token) list \<times> portal) option" where
  "start_flush s =
     (if pp_flushing s \<or> pp_pending s = [] then None else Some (pp_pending s, s\<lparr>pp_pending := [], pp_flushing := True\<rparr>))"

definition end_flush :: "portal \<Rightarrow> portal" where "end_flush s = s\<lparr>pp_flushing := False\<rparr>"

text \<open>What is announced are stored rows, never the buffer.\<close>

definition published :: "string list \<Rightarrow> pump_rows \<Rightarrow> pump_rows" where
  "published mints rows = filter (\<lambda>r. pf_mintAddress r \<in> set (take MAX_PUBLISHED_PER_FLUSH mints)) rows"

subsection \<open>Events\<close>

datatype portal_event =
    Message portal_message
  | HotMints "string list"
  | Opened
  | Resubscribed "(string \<times> string) list option"
  | Closed
  | LiveTick
  | FlushTick
  | Flushed

definition portal_step :: "portal_event \<Rightarrow> portal \<Rightarrow> portal option" where
  "portal_step e s =
     (case e of
        Message m \<Rightarrow> handleMessage m s
      | HotMints hot \<Rightarrow> syncHotMints hot s
      | Opened \<Rightarrow> Some (opened s)
      | Resubscribed recent \<Rightarrow> Some (resubscribeTrades recent s)
      | Closed \<Rightarrow> Some (closed s)
      | LiveTick \<Rightarrow> Some (snd (writeLive s))
      | FlushTick \<Rightarrow> Some (case start_flush s of None \<Rightarrow> s | Some (batch, s') \<Rightarrow> s')
      | Flushed \<Rightarrow> Some (end_flush s))"

fun portal_run :: "portal_event list \<Rightarrow> portal \<Rightarrow> portal option" where
  "portal_run [] s = Some s"
| "portal_run (e # es) s = Option.bind (portal_step e s) (portal_run es)"


subsection \<open>The subscriptions are the tracked coins\<close>

fun subscribe :: "string set \<Rightarrow> socket_message \<Rightarrow> string set" where
  "subscribe S (SubscribeTrades ks) = S \<union> set ks"
| "subscribe S (UnsubscribeTrades ks) = S - set ks"

definition subscribed :: "portal \<Rightarrow> string set" where "subscribed s = foldl subscribe {} (pp_sent s)"

definition tracking_ok :: "portal \<Rightarrow> bool" where
  "tracking_ok s \<longleftrightarrow> distinct (pp_tracked s) \<and> '''' \<notin> set (pp_tracked s) \<and> (pp_open s \<longrightarrow> subscribed s \<subseteq> set (pp_tracked s))"

definition portal_ok :: "portal \<Rightarrow> bool" where
  "portal_ok s \<longleftrightarrow> tracking_ok s \<and> (pp_open s \<and> pp_synced s \<longrightarrow> subscribed s = set (pp_tracked s))"

fun event_ok :: "portal_event \<Rightarrow> bool" where
  "event_ok (HotMints hot) = ('''' \<notin> set hot)"
| "event_ok (Resubscribed (Some rows)) = ('''' \<notin> set (map fst rows))"
| "event_ok e = True"

lemma subscribed_send: "subscribed (send m s) = (if pp_open s then subscribe (subscribed s) m else subscribed s)"
  by (simp add: subscribed_def send_def)

lemma send_fields [simp]:
  "pp_tracked (send m s) = pp_tracked s" "pp_progress (send m s) = pp_progress s" "pp_open (send m s) = pp_open s"
  "pp_synced (send m s) = pp_synced s"
  by (simp_all add: send_def)

lemma portal_okI:
  "pp_tracked s' = pp_tracked s \<Longrightarrow> pp_open s' = pp_open s \<Longrightarrow> pp_sent s' = pp_sent s \<Longrightarrow> pp_synced s' = pp_synced s
   \<Longrightarrow> portal_ok s \<Longrightarrow> portal_ok s'"
  by (simp add: portal_ok_def tracking_ok_def subscribed_def)

lemma upsert_fields [simp]:
  "pp_tracked (upsertPending mint f s) = pp_tracked s" "pp_open (upsertPending mint f s) = pp_open s"
  "pp_sent (upsertPending mint f s) = pp_sent s" "pp_synced (upsertPending mint f s) = pp_synced s"
  by (simp_all add: upsertPending_def Let_def)

lemma subscribed_tracked_update [simp]: "subscribed (s\<lparr>pp_tracked := t, pp_progress := p\<rparr>) = subscribed s"
  "subscribed (s\<lparr>pp_tracked := t\<rparr>) = subscribed s" "subscribed (s\<lparr>pp_progress := p\<rparr>) = subscribed s"
  by (simp_all add: subscribed_def)

lemma untrack_ok: "portal_ok s \<Longrightarrow> portal_ok (untrack mint s)"
  by (auto simp: portal_ok_def tracking_ok_def untrack_def subscribed_send)

lemma untrack_length: "mint \<in> set (pp_tracked s) \<Longrightarrow> length (pp_tracked (untrack mint s)) = length (pp_tracked s) - 1"
  by (simp add: untrack_def length_remove1)

lemma victim_tracked: "pp_tracked s \<noteq> [] \<Longrightarrow> \<exists>m. victim s = Some m \<and> m \<in> set (pp_tracked s)"
  by (auto simp: victim_def neq_Nil_conv split: option.splits dest: find_SomeD)

lemma evictOne_ok:
  assumes "portal_ok s" "pp_tracked s \<noteq> []"
  shows "portal_ok (evictOne s) \<and> length (pp_tracked (evictOne s)) = length (pp_tracked s) - 1"
proof -
  from victim_tracked [OF assms(2)] obtain m where m: "victim s = Some m" "m \<in> set (pp_tracked s)" by blast
  with assms(1) have "m \<noteq> ''''" by (auto simp: portal_ok_def tracking_ok_def)
  with m assms(1) show ?thesis by (simp add: evictOne_def untrack_ok untrack_length)
qed

lemma evict_while_ends:
  "portal_ok s \<Longrightarrow> length (pp_tracked s) < n
   \<Longrightarrow> \<exists>s'. evict_while n s = Some s' \<and> portal_ok s' \<and> length (pp_tracked s') \<le> MAX_TRACKED_MINTS"
proof (induction n arbitrary: s)
  case (Suc n)
  show ?case
  proof (cases "length (pp_tracked s) > MAX_TRACKED_MINTS")
    case True
    then have "pp_tracked s \<noteq> []" by auto
    from evictOne_ok [OF Suc.prems(1) this] True Suc.prems(2) Suc.IH [of "evictOne s"] show ?thesis by auto
  next
    case False
    with Suc.prems show ?thesis by simp
  qed
qed simp

text \<open>Tracking a coin always ends, with at most \<open>MAX_TRACKED_MINTS\<close> of them.\<close>

lemma track_ends:
  assumes "portal_ok s" "mint \<noteq> ''''"
  shows "\<exists>s'. track mint pct s = Some s' \<and> portal_ok s' \<and> length (pp_tracked s') \<le> MAX_TRACKED_MINTS"
proof -
  have "portal_ok (if mint \<in> set (pp_tracked s) then s else send (SubscribeTrades [mint]) (s\<lparr>pp_tracked := pp_tracked s @ [mint]\<rparr>))"
    using assms by (auto simp: portal_ok_def tracking_ok_def subscribed_send)
  then have "portal_ok ((if mint \<in> set (pp_tracked s) then s
      else send (SubscribeTrades [mint]) (s\<lparr>pp_tracked := pp_tracked s @ [mint]\<rparr>))\<lparr>pp_progress := p\<rparr>)" for p
    by (rule portal_okI [rotated -1]) simp_all
  from evict_while_ends [OF this lessI] show ?thesis unfolding track_def Let_def .
qed

text \<open>A climbing coin goes only when every tracked coin climbs.\<close>

lemma climbers_stay:
  assumes "climbing s m" "m \<in> set (pp_tracked s)" "m \<notin> set (pp_tracked (evictOne s))"
  shows "\<forall>k\<in>set (pp_tracked s). climbing s k"
proof (rule ccontr)
  assume "\<not> ?thesis"
  then obtain k where k: "find (\<lambda>m. \<not> climbing s m) (pp_tracked s) = Some k"
    by (metis (mono_tags, lifting) find_None not_None_eq)
  then have "\<not> climbing s k" by (auto dest: find_SomeD)
  with assms(1) have "m \<noteq> k" by blast
  with assms(2,3) k show False by (auto simp: evictOne_def victim_def untrack_def split: if_splits)
qed

lemma handleMessage_ok:
  assumes "portal_ok s"
  shows "\<exists>s'. handleMessage m s = Some s' \<and> portal_ok s'"
proof -
  have up: "portal_ok (upsertPending mint f s)" for mint f by (rule portal_okI [OF _ _ _ _ assms]) simp_all
  have dirty: "portal_ok ((upsertPending mint f s)\<lparr>pp_liveDirty := d\<rparr>)" for mint f d
    by (rule portal_okI [OF _ _ _ _ assms]) simp_all
  have prog: "portal_ok ((upsertPending mint f s)\<lparr>pp_liveDirty := d, pp_progress := p\<rparr>)" for mint f d p
    by (rule portal_okI [OF _ _ _ _ assms]) simp_all
  show ?thesis
    unfolding handleMessage_def using assms
    by (auto simp: Let_def up dirty prog intro!: untrack_ok split: option.splits sum.splits)
      (metis track_ends up)+
qed

lemma track_hot_ok: "portal_ok s \<Longrightarrow> '''' \<notin> set hot \<Longrightarrow> \<exists>s'. track_hot hot s = Some s' \<and> portal_ok s'"
proof (induction hot arbitrary: s)
  case (Cons mint ms)
  then show ?case using track_ends [of s mint KEEP_TRACKING_PROGRESS_PCT] by fastforce
qed simp

lemma tracking_progress: "tracking_ok (s\<lparr>pp_progress := p\<rparr>) = tracking_ok s"
  by (simp add: tracking_ok_def)

lemma load_one:
  "tracking_ok s \<Longrightarrow> mint \<noteq> [] \<Longrightarrow>
   tracking_ok (s\<lparr>pp_tracked := (if mint \<in> set (pp_tracked s) then pp_tracked s else pp_tracked s @ [mint])\<rparr>)"
  by (auto simp: tracking_ok_def)

lemma track_loaded_ok: "tracking_ok s \<Longrightarrow> [] \<notin> set (map fst rs) \<Longrightarrow> tracking_ok (track_loaded rs s)"
proof (induction rs arbitrary: s)
  case (Cons r rs)
  obtain mint realSol where r: "r = (mint, realSol)" by (rule prod.exhaust)
  from Cons.prems r have "tracking_ok (s\<lparr>pp_tracked := (if mint \<in> set (pp_tracked s) then pp_tracked s else pp_tracked s @ [mint])\<rparr>)"
    by (intro load_one) auto
  with Cons r show ?case
    by (cases "pumpFunGraduationProgressPct realSol")
      (simp_all only: track_loaded.simps Let_def sum.case tracking_progress list.map set_simps insert_iff fst_conv de_Morgan_disj simp_thms)
qed simp

lemma set_chunks: "0 < n \<Longrightarrow> (\<Union>c\<in>set (chunks n xs). set c) = set xs"
proof (induction n xs rule: chunks.induct)
  case (1 n xs)
  show ?case
  proof (cases "xs = []")
    case False
    have "set xs = set (take n xs) \<union> set (drop n xs)" by (metis append_take_drop_id set_append)
    with 1 False show ?thesis by (subst chunks.simps) simp
  qed (simp add: chunks.simps)
qed

lemma send_all:
  "let s' = foldl (\<lambda>s ks. send (SubscribeTrades ks) s) s cs
   in pp_tracked s' = pp_tracked s \<and> pp_open s' = pp_open s \<and> pp_synced s' = pp_synced s
      \<and> (pp_open s \<longrightarrow> subscribed s' = subscribed s \<union> (\<Union>c\<in>set cs. set c))"
  by (induction cs arbitrary: s) (auto simp: Let_def subscribed_send)

lemma resubscribe_ok:
  assumes "portal_ok s" "event_ok (Resubscribed recent)"
  shows "portal_ok (resubscribeTrades recent s)"
proof -
  define s1 where "s1 = (case recent of None \<Rightarrow> s | Some rows \<Rightarrow> track_loaded (rev (take (MAX_TRACKED_MINTS div 2) rows)) s)"
  have "tracking_ok s1"
  proof (cases recent)
    case (Some rows)
    with assms(2) have "[] \<notin> set (map fst (rev (take (MAX_TRACKED_MINTS div 2) rows)))"
      by (force dest: in_set_takeD)
    with assms(1) Some show ?thesis unfolding s1_def portal_ok_def by (simp add: track_loaded_ok del: set_map)
  qed (use assms(1) in \<open>simp add: s1_def portal_ok_def\<close>)
  then show ?thesis
    using send_all [of s1 "chunks 500 (pp_tracked s1)"] set_chunks [of 500 "pp_tracked s1"]
    unfolding resubscribeTrades_def s1_def [symmetric] portal_ok_def tracking_ok_def Let_def subscribed_def by auto
qed

lemma portal_step_ok:
  assumes "portal_ok s" "event_ok e"
  shows "\<exists>s'. portal_step e s = Some s' \<and> portal_ok s'"
proof (cases e)
  case (Message m)
  with handleMessage_ok [OF assms(1)] show ?thesis by (simp add: portal_step_def)
next
  case (HotMints hot)
  with track_hot_ok [OF assms(1)] assms(2) show ?thesis by (auto simp: portal_step_def syncHotMints_def dest: in_set_takeD)
next
  case (Resubscribed recent)
  with resubscribe_ok [OF assms(1)] assms(2) show ?thesis by (simp add: portal_step_def)
qed (use assms(1) in \<open>auto simp: portal_step_def portal_ok_def tracking_ok_def opened_def closed_def writeLive_def start_flush_def
       end_flush_def subscribed_def split: option.splits if_splits\<close>)


definition launch_message :: portal_message where
  "launch_message = \<lparr>pm_txType = Some ''create'', pm_mint = Some ''M1'', pm_pool = Some ''pump'', pm_traderPublicKey = None,
     pm_bondingCurveKey = Some ''C1'', pm_vSol = Some (Fin 40), pm_vTokens = Some (Fin 800000000), pm_name = None, pm_symbol = None,
     pm_uri = None\<rparr>"

definition launch_day :: "portal_event list" where
  "launch_day = [Opened, Resubscribed (Some [(''M0'', ''5000000000'')]), Message launch_message, HotMints [''M2''],
     Message (launch_message\<lparr>pm_txType := Some ''migrate''\<rparr>)]"


subsection \<open>The table under flushes and curve reads\<close>

lemma guarded_append: "guarded g us \<Longrightarrow> (\<And>h. guarded h vs) \<Longrightarrow> guarded g (us @ vs)"
  by (induction g us rule: guarded.induct) auto

lemma guarded_take: "guarded g us \<Longrightarrow> guarded g (take k us)"
proof (induction g us arbitrary: k rule: guarded.induct)
  case (2 g mint ws)
  then show ?case by (cases k) auto
next
  case (3 g mint now ws)
  then show ?case by (cases k) auto
next
  case (4 g i c now ws)
  then show ?case by (cases k) auto
qed (auto simp: take_Cons split: nat.splits)

lemma guarded_concat: "(\<And>us h. us \<in> set uss \<Longrightarrow> guarded h us) \<Longrightarrow> guarded g (concat uss)"
  by (induction uss arbitrary: g) (auto intro!: guarded_append)

lemma guarded_flush: "guarded g (flush_writes now batch)"
proof -
  have "guarded h (token_writes now p)" for h p
    by (auto simp: token_writes_def split: option.splits)
  then have "guarded h (concat (map (token_writes now) batch))" for h by (intro guarded_concat) auto
  then show ?thesis by (simp add: flush_writes_def Let_def)
qed

text \<open>Flushes one after the other, each cut where the database fails.\<close>

fun flushed :: "(int \<times> (string \<times> pending_token) list \<times> nat) list \<Rightarrow> pump_write list" where
  "flushed [] = []"
| "flushed ((now, batch, k) # fs) = take k (flush_writes now batch) @ flushed fs"

definition is_refresh :: "pump_write \<Rightarrow> bool" where
  "is_refresh w = (case w of RefreshCurve i c now \<Rightarrow> True | _ \<Rightarrow> False)"

lemma is_refreshD: "is_refresh w \<Longrightarrow> \<exists>i c now. w = RefreshCurve i c now"
  by (cases w) (simp_all add: is_refresh_def)

lemma guarded_flushed: "guarded g (flushed fs)"
  by (induction fs arbitrary: g rule: flushed.induct) (auto intro!: guarded_append guarded_take guarded_flush)

text \<open>C36: However the flushes of the stream interleave with the readers of the curve accounts, and wherever a flush
  fails, the table holds one row per coin and per curve, and every graduated coin has its time.\<close>

theorem pump_table_sound:
  assumes "ws \<in> shuffles (flushed fs) rs" "list_all is_refresh rs"
  shows "distinct (map pf_mintAddress (run_pump ws [])) \<and> distinct (map pf_bondingCurveAddress (run_pump ws []))
    \<and> list_all (\<lambda>r. pf_complete r \<longrightarrow> pf_graduatedAt r \<noteq> None) (run_pump ws [])"
proof -
  have "list_all (\<lambda>w. \<exists>i c now. w = RefreshCurve i c now) rs"
    using assms(2) by (auto simp: list_all_iff dest!: is_refreshD)
  from guarded_shuffle [OF assms(1) guarded_flushed this] have "guarded None ws" .
  then have "table_ok (run_pump ws [])" by (rule guarded_run_keeps_table) (simp_all add: graduated_def table_ok_def)
  then show ?thesis by (simp add: table_ok_def)
qed

definition curve :: "string \<Rightarrow> curve_state" where
  "curve s = \<lparr>cs_virtualSolReserves = s, cs_virtualTokenReserves = s, cs_realSolReserves = s, cs_realTokenReserves = s\<rparr>"

definition on_chain :: "bool \<Rightarrow> chain_state" where
  "on_chain c = \<lparr>cs_virtualSolReserves = ''9'', cs_virtualTokenReserves = ''9'', cs_realSolReserves = ''9'',
     cs_realTokenReserves = ''9'', cs_tokenTotalSupply = ''9'', cs_complete = c\<rparr>"

definition launch_batch :: "(string \<times> pending_token) list" where
  "launch_batch = [(''M1'', \<lparr>pt_create = Some \<lparr>cr_bondingCurveAddress = ''C1'', cr_creatorAddress = None, cr_name = None,
     cr_symbol = None, cr_uri = None\<rparr>, pt_state = Some (curve ''5''), pt_migrated = False\<rparr>)]"

definition migrate_batch :: "(string \<times> pending_token) list" where
  "migrate_batch = [(''M1'', \<lparr>pt_create = None, pt_state = None, pt_migrated = True\<rparr>)]"

definition some_run :: "pump_write list" where
  "some_run = flush_writes 1 launch_batch @ [SetGraduated ''M1'' 2, RefreshCurve 0 (on_chain True) 3, SetComplete ''M1'']"

theorem pump_table_sound_witness:
  "distinct (map pf_mintAddress (run_pump some_run []))
    \<and> list_all (\<lambda>r. pf_graduatedAt r \<noteq> None) (filter pf_complete (run_pump some_run []))"
proof -
  have run: "some_run \<in> shuffles (flushed [(1, launch_batch, 10), (2, migrate_batch, 10)]) [RefreshCurve 0 (on_chain True) 3]"
    by (simp add: some_run_def flush_writes_def launch_batch_def migrate_batch_def token_writes_def launch_of_def
        List.map_filter_simps)
  have "list_all is_refresh [RefreshCurve 0 (on_chain True) 3]" by (simp add: is_refresh_def)
  from pump_table_sound [OF run this] show ?thesis by (simp add: list_all_iff)
qed

text \<open>Without the curve readers a graduation is never undone and never moved.\<close>

lemma flush_current: "list_all (\<lambda>w. \<forall>rows. current_write w rows) (flush_writes now batch)"
  by (auto simp: flush_writes_def token_writes_def Let_def list_all_iff split: option.splits if_splits)

lemma flushed_current: "list_all (\<lambda>w. \<forall>rows. current_write w rows) (flushed fs)"
  using flush_current by (induction fs rule: flushed.induct) (auto simp: list_all_iff dest!: in_set_takeD)

lemma current_runI: "list_all (\<lambda>w. \<forall>rows. current_write w rows) ws \<Longrightarrow> current_run ws rows"
  by (induction ws arbitrary: rows) auto

lemma flushes_keep_graduation: "extends rows (run_pump (flushed fs) rows)"
  by (rule run_extends [OF current_runI [OF flushed_current]])

text \<open>A curve read does both: a stale one takes \<open>complete\<close> back, a later one moves \<open>graduatedAt\<close>.\<close>

definition graduated_table :: pump_rows where
  "graduated_table = run_pump (flush_writes 1 launch_batch @ flush_writes 2 migrate_batch) []"

lemma stale_read_undoes_graduation:
  "map (\<lambda>r. (pf_complete r, pf_graduatedAt r)) graduated_table = [(True, Some 2)]
   \<and> map (\<lambda>r. (pf_complete r, pf_graduatedAt r)) (run_pump [RefreshCurve 0 (on_chain False) 3] graduated_table) = [(False, Some 2)]
   \<and> map (\<lambda>r. (pf_complete r, pf_graduatedAt r)) (run_pump [RefreshCurve 0 (on_chain True) 9] graduated_table) = [(True, Some 9)]"
  by code_simp

text \<open>A launch whose flush fails is gone: the coin's later trades update no row.\<close>

lemma failed_flush_loses_launch:
  "run_pump (flushed [(1, launch_batch, 0), (2, [(''M1'', \<lparr>pt_create = None, pt_state = Some (curve ''7''), pt_migrated = False\<rparr>)], 10)]) [] = []"
  by code_simp

end
