(* ===== verification/EvmLaunch.thy ===== *)
theory EvmLaunch
  imports EvmQuote
begin

section \<open>Transactions a creator sends: building and checking them\<close>

text \<open>
  \<open>apps/api/src/launchpad/adapters/evm-launch.ts\<close>: the funding step of an EVM launch and the check of every
  hash that comes back, which live tips use too.  viem's client, the router, the gas tank and the ABI encodings
  are parameters; \<open>same\<close> is viem's \<open>isAddressEqual\<close>.
\<close>

record LaunchEvmTx =
  le_chainId :: int
  le_to :: string
  le_data :: string
  le_value :: string

record LaunchProof =
  lp_signedTxBase64 :: "string option"
  lp_txHashes :: "string list option"

text \<open>What the client answers for a hash: the receipt's status once mined, and the transaction.\<close>

record evm_view =
  vi_receipt :: "string \<Rightarrow> bool option"
  vi_transaction :: "string \<Rightarrow> (js_error, onchain_tx) result"

definition matches_handed_out ::
    "(string \<Rightarrow> string \<Rightarrow> (js_error, bool) result) \<Rightarrow> string \<Rightarrow> LaunchEvmTx \<Rightarrow> onchain_tx \<Rightarrow> (js_error, bool) result" where
  "matches_handed_out same wallet want tx =
     bind_result (same (oc_from tx) wallet) (\<lambda>from.
       if \<not> from then Ok False
       else case oc_to tx of
         None \<Rightarrow> Ok False
       | Some to' \<Rightarrow>
           bind_result (same to' (le_to want)) (\<lambda>to_ok.
             if \<not> to_ok \<or> to_lower (oc_data tx) \<noteq> to_lower (le_data want) then Ok False
             else bind_result (BigInt (le_value want)) (\<lambda>v. Ok (oc_value tx = v))))"

fun verify_each ::
    "(string \<Rightarrow> string \<Rightarrow> (js_error, bool) result) \<Rightarrow> evm_view \<Rightarrow> string \<Rightarrow> LaunchEvmTx list \<Rightarrow> string list \<Rightarrow> (js_error, unit) result" where
  "verify_each same client wallet (want # wants) (hash # hashes) =
     (case vi_receipt client hash of
        None \<Rightarrow> Err (Unprocessable ''A transaction has not confirmed yet'')
      | Some succeeded \<Rightarrow>
          bind_result (vi_transaction client hash) (\<lambda>tx.
          bind_result (matches_handed_out same wallet want tx) (\<lambda>ok.
            if \<not> ok then Err (Forbidden ''A transaction does not match the launch you prepared'')
            else if \<not> succeeded then Err (Unprocessable ''A transaction failed on-chain'')
            else verify_each same client wallet wants hashes)))"
| "verify_each same client wallet _ _ = Ok ()"

definition verifyEvmTxs ::
    "(string \<Rightarrow> string \<Rightarrow> (js_error, bool) result) \<Rightarrow> evm_view \<Rightarrow> string \<Rightarrow> LaunchEvmTx list \<Rightarrow> LaunchProof \<Rightarrow> (js_error, unit) result" where
  "verifyEvmTxs same client wallet expected proof_sent =
     (let hashes = (case lp_txHashes proof_sent of None \<Rightarrow> [] | Some hs \<Rightarrow> hs) in
      if expected = [] \<or> length hashes \<noteq> length expected then Err (Unprocessable ''Send every transaction of this step'')
      else verify_each same client wallet expected hashes)"

subsection \<open>The funding step\<close>

definition NATIVE_COIN :: string where "NATIVE_COIN = ''0xEeeeeEeeeEeEeeEeEeEeeEEEeeeeEeeeeeeeEEeE''"
definition MIN_SWAP_USD :: jsnum where "MIN_SWAP_USD = Fin 1"
definition SWAP_BUFFER :: jsnum where "SWAP_BUFFER = to_num (102 / 100)"

record 'w EvmLaunchChain =
  lc_chainId :: int
  lc_getBalance :: "string \<Rightarrow> ('w, int) remote"
  lc_router :: "'w router"
  lc_ensureGas :: "int \<Rightarrow> string \<Rightarrow> string \<Rightarrow> nat \<Rightarrow> ('w, bool) remote"
  lc_usdcAddress :: string
  lc_usdcDecimals :: nat
  lc_feeRecipient :: string
  lc_gasReserveWei :: int
  lc_transferData :: "string \<Rightarrow> int \<Rightarrow> string"
  lc_approveData :: "string \<Rightarrow> int \<Rightarrow> string"

definition sell_usdc :: "'w EvmLaunchChain \<Rightarrow> string \<Rightarrow> string \<Rightarrow> ('w, SwapRouterQuote option) remote" where
  "sell_usdc chain wallet amount =
     lc_router chain
       \<lparr>sq_chainId = lc_chainId chain, sq_sellToken = lc_usdcAddress chain, sq_buyToken = NATIVE_COIN, sq_sellAmountRaw = amount,
        sq_taker = wallet, sq_slippageBps = Fin 100, sq_feeRecipient = None, sq_feeBps = Fin 0, sq_feeChargedIn = None\<rparr>"

definition weiPerUsd :: "'w EvmLaunchChain \<Rightarrow> string \<Rightarrow> ('w, jsnum) remote" where
  "weiPerUsd chain wallet =
     then_remote (sell_usdc chain wallet (string_of_int (10 * 10 ^ lc_usdcDecimals chain))) (\<lambda>quote.
       let wei = (case quote of None \<Rightarrow> NaN | Some q \<Rightarrow> ndiv (js_Number (rq_buyAmountRaw q)) (Fin 10)) in
       return_remote (if ngt wei (Fin 0) then Ok wei else Err (Unprocessable ''Could not price the network coin right now'')))"

text \<open>\<open>n * 10 ** decimals\<close> as the code computes it, and the amounts rounded to integers.\<close>

definition scaled :: "jsnum \<Rightarrow> nat \<Rightarrow> jsnum" where "scaled x decimals = nmul x (num_of_int (10 ^ decimals))"

definition swap_usd :: "int \<Rightarrow> int \<Rightarrow> jsnum \<Rightarrow> jsnum" where
  "swap_usd neededWei balance perUsd =
     (let shortUsd = (if neededWei > balance then ndiv (num_of_int (neededWei - balance)) perUsd else Fin 0)
      in nmax MIN_SWAP_USD (nmul shortUsd SWAP_BUFFER))"

record evm_funding =
  fu_txs :: "LaunchEvmTx list"
  fu_networkCostUsd :: jsnum
  fu_swapRaw :: int

definition funding_txs :: "'w EvmLaunchChain \<Rightarrow> int \<Rightarrow> int \<Rightarrow> SwapRouterQuote \<Rightarrow> LaunchEvmTx list" where
  "funding_txs chain feeRaw swapRaw quote =
     [\<lparr>le_chainId = lc_chainId chain, le_to = lc_usdcAddress chain,
       le_data = lc_transferData chain (lc_feeRecipient chain) feeRaw, le_value = ''0''\<rparr>]
     @ (case rq_approvalSpender quote of
          Some spender \<Rightarrow>
            if rq_requiresApproval quote \<and> spender \<noteq> ''''
            then [\<lparr>le_chainId = lc_chainId chain, le_to = lc_usdcAddress chain, le_data = lc_approveData chain spender swapRaw,
                   le_value = ''0''\<rparr>]
            else []
        | None \<Rightarrow> [])
     @ [\<lparr>le_chainId = lc_chainId chain, le_to = tx_to (rq_unsignedTx quote), le_data = tx_data (rq_unsignedTx quote),
         le_value = tx_value (rq_unsignedTx quote)\<rparr>]"

definition buildEvmFunding :: "'w EvmLaunchChain \<Rightarrow> string \<Rightarrow> jsnum \<Rightarrow> jsnum \<Rightarrow> ('w, evm_funding) remote" where
  "buildEvmFunding chain wallet devBuyUsd feeUsd =
     then_remote (lc_ensureGas chain (lc_chainId chain) wallet (lc_usdcAddress chain) (lc_usdcDecimals chain)) (\<lambda>stranded.
       if stranded then return_remote (Err (Unprocessable ''Launching on this network is getting ready''))
       else
         then_remote (weiPerUsd chain wallet) (\<lambda>perUsd.
         then_remote (lc_getBalance chain wallet) (\<lambda>balance.
         then_remote (return_remote (BigInt_num (nround (nmul devBuyUsd perUsd)))) (\<lambda>buyWei.
         then_remote (return_remote (BigInt_num (nceil (scaled (swap_usd (buyWei + lc_gasReserveWei chain) balance perUsd)
           (lc_usdcDecimals chain))))) (\<lambda>swapRaw.
         then_remote (sell_usdc chain wallet (string_of_int swapRaw)) (\<lambda>quote.
           case quote of
             None \<Rightarrow> return_remote (Err (Unprocessable ''Could not get a price for the swap right now''))
           | Some q \<Rightarrow>
               then_remote (return_remote (BigInt_num (nround (scaled feeUsd (lc_usdcDecimals chain))))) (\<lambda>feeRaw.
               return_remote (Ok
                 \<lparr>fu_txs = funding_txs chain feeRaw swapRaw q,
                  fu_networkCostUsd = ndiv (num_of_int (lc_gasReserveWei chain)) perUsd, fu_swapRaw = swapRaw\<rparr>))))))))"

text \<open>The first buy: its target, capped to what the wallet holds beyond the create's gas.\<close>

definition devBuyWei :: "'w EvmLaunchChain \<Rightarrow> string \<Rightarrow> jsnum \<Rightarrow> ('w, int) remote" where
  "devBuyWei chain wallet devBuyUsd =
     (if \<not> ngt devBuyUsd (Fin 0) then return_remote (Ok 0)
      else
        then_remote (lc_getBalance chain wallet) (\<lambda>balance.
          let spendable = balance - lc_gasReserveWei chain in
          if spendable \<le> 0 then return_remote (Err (Unprocessable ''Not enough funds for the launch yet''))
          else
            then_remote (weiPerUsd chain wallet) (\<lambda>perUsd.
            then_remote (return_remote (BigInt_num (nround (nmul devBuyUsd perUsd)))) (\<lambda>target.
            return_remote (Ok (if target > spendable then spendable else target))))))"

subsection \<open>What a passed check means\<close>

text \<open>The transaction of a hash is the one handed out, sent by the wallet, and succeeded.\<close>

definition landed_as ::
    "(string \<Rightarrow> string \<Rightarrow> (js_error, bool) result) \<Rightarrow> (string \<times> onchain_tx \<times> bool) list \<Rightarrow> string \<Rightarrow> LaunchEvmTx \<Rightarrow> string \<Rightarrow> bool" where
  "landed_as same chain wallet want hash \<longleftrightarrow>
     list_ex (\<lambda>(h, tx, succeeded). h = hash \<and> succeeded \<and> same (oc_from tx) wallet = Ok True
       \<and> (case oc_to tx of None \<Rightarrow> False | Some to' \<Rightarrow> same to' (le_to want) = Ok True)
       \<and> to_lower (oc_data tx) = to_lower (le_data want) \<and> BigInt (le_value want) = Ok (oc_value tx)) chain"

text \<open>The client tells no more than the chain: what it reports is mined with that status.\<close>

definition truthful :: "(string \<times> onchain_tx \<times> bool) list \<Rightarrow> evm_view \<Rightarrow> bool" where
  "truthful chain client \<longleftrightarrow>
     (\<forall>h ok tx. vi_receipt client h = Some ok \<longrightarrow> vi_transaction client h = Ok tx \<longrightarrow> (h, tx, ok) \<in> set chain)"

lemma matches_OkD:
  "matches_handed_out same wallet want tx = Ok True \<Longrightarrow>
   same (oc_from tx) wallet = Ok True \<and> (case oc_to tx of None \<Rightarrow> False | Some to' \<Rightarrow> same to' (le_to want) = Ok True)
   \<and> to_lower (oc_data tx) = to_lower (le_data want) \<and> BigInt (le_value want) = Ok (oc_value tx)"
  by (auto simp: matches_handed_out_def bind_result_Ok_iff split: if_splits option.splits)

lemma verify_each_OkD:
  "verify_each same client wallet wants hashes = Ok () \<Longrightarrow> truthful chain client \<Longrightarrow> length hashes = length wants
   \<Longrightarrow> list_all2 (landed_as same chain wallet) wants hashes"
proof (induction same client wallet wants hashes rule: verify_each.induct)
  case (1 same client wallet want wants hash hashes)
  from 1(2) obtain tx where tx: "vi_receipt client hash = Some True" "vi_transaction client hash = Ok tx"
    "matches_handed_out same wallet want tx = Ok True" "verify_each same client wallet wants hashes = Ok ()"
    by (auto simp: bind_result_Ok_iff split: option.splits if_splits)
  have "(hash, tx, True) \<in> set chain" using 1(3) tx(1,2) by (auto simp: truthful_def)
  with matches_OkD [OF tx(3)] have "landed_as same chain wallet want hash"
    unfolding landed_as_def list_ex_iff by (intro bexI [of _ "(hash, tx, True)"]) simp_all
  moreover have "list_all2 (landed_as same chain wallet) wants hashes"
    using 1(1) tx 1(3,4) by simp
  ultimately show ?case by simp
qed simp_all

lemma verifyEvmTxs_OkD:
  assumes "verifyEvmTxs same client wallet expected p = Ok ()" "truthful chain client"
  shows "\<exists>hashes. lp_txHashes p = Some hashes \<and> expected \<noteq> [] \<and> list_all2 (landed_as same chain wallet) expected hashes"
  using assms verify_each_OkD [OF _ assms(2)] by (auto simp: verifyEvmTxs_def Let_def split: option.splits if_splits)

lemma landed_more: "landed_as same chain wallet want hash \<Longrightarrow> set chain \<subseteq> set chain' \<Longrightarrow> landed_as same chain' wallet want hash"
  by (auto simp: landed_as_def list_ex_iff)

lemma buildEvmFunding_txs:
  assumes "buildEvmFunding chain wallet devBuyUsd feeUsd w = (Ok f, w')"
  shows "\<exists>feeRaw q. BigInt_num (nround (scaled feeUsd (lc_usdcDecimals chain))) = Ok feeRaw
    \<and> fu_txs f = funding_txs chain feeRaw (fu_swapRaw f) q"
  using assms by (auto simp: buildEvmFunding_def then_remote_Ok split: if_splits option.splits) blast

lemma devBuyWei_capped:
  assumes "devBuyWei chain wallet usd w = (Ok wei, w')"
  shows "wei = 0 \<or> (\<exists>balance w1. lc_getBalance chain wallet w = (Ok balance, w1) \<and> wei \<le> balance - lc_gasReserveWei chain)"
  using assms by (auto simp: devBuyWei_def Let_def then_remote_Ok split: if_splits)

text \<open>A client that answers from a list of mined transactions.\<close>

definition chain_view :: "(string \<times> onchain_tx \<times> bool) list \<Rightarrow> evm_view" where
  "chain_view chain =
     \<lparr>vi_receipt = (\<lambda>h. map_option snd (map_of chain h)),
      vi_transaction = (\<lambda>h. case map_of chain h of None \<Rightarrow> Err (Error ''not found'') | Some (tx, ok) \<Rightarrow> Ok tx)\<rparr>"

lemma chain_view_truthful [simp]: "truthful chain (chain_view chain)"
  by (auto simp: truthful_def chain_view_def split: option.splits dest: map_of_SomeD)

end
