(* ===== verification/Launchpad.thy ===== *)
theory Launchpad
  imports EvmLaunch
begin

section \<open>The LaunchPad\<close>

text \<open>
  \<open>apps/api/src/launchpad/launchpad.service.ts\<close> and the EVM adapters (\<open>clanker.adapter.ts\<close>,
  \<open>fourmeme.adapter.ts\<close>): a launch goes from prepared over funded and creating to live in four calls.  A call
  is a sequence of steps, one per statement of the database, of Redis or of an adapter, and any calls interleave.
  What an adapter builds, and the whole Solana adapter, are answers of the outside; the EVM adapters' checks are
  the code's.
\<close>

datatype launch_status = Prepared | Funded | Creating | Live | Failed

text \<open>What a step handed out, as stored: Solana's base64 or the EVM transactions.\<close>

datatype stored_step = SolanaStep string | EvmStep "LaunchEvmTx list"

record token_launch =
  tl_id :: nat
  tl_userId :: string
  tl_launchpad :: string
  tl_chainIdentifier :: string
  tl_walletAddress :: string
  tl_name :: string
  tl_symbol :: string
  tl_imageId :: string
  tl_devBuyUsd :: jsnum
  tl_feeUsd :: jsnum
  tl_networkCostUsd :: jsnum
  tl_fundUsdcRaw :: "string option"
  tl_status :: launch_status
  tl_fundTx :: "stored_step option"
  tl_fundSignature :: "string option"
  tl_createTx :: "stored_step option"
  tl_createSignature :: "string option"
  tl_tokenAddress :: "string option"
  tl_failureReason :: "js_error option"
  tl_updatedAt :: int

record PreparedStep =
  ps_transactionBase64 :: "string option"
  ps_evmTransactions :: "LaunchEvmTx list option"
  ps_networkCostUsd :: "jsnum option"
  ps_fundUsdcRaw :: "string option"
  ps_tokenAddress :: "string option"

definition storedTx :: "PreparedStep \<Rightarrow> stored_step" where
  "storedTx s =
     (case ps_transactionBase64 s of
        Some b \<Rightarrow> SolanaStep b
      | None \<Rightarrow> EvmStep (case ps_evmTransactions s of None \<Rightarrow> [] | Some txs \<Rightarrow> txs))"

record LaunchInput =
  li_launchpad :: string
  li_walletAddress :: string
  li_name :: string
  li_symbol :: string
  li_imageId :: string
  li_devBuyUsd :: jsnum

record launch_wallet =
  wa_address :: string
  wa_userId :: string
  wa_verified :: bool
  wa_solana :: bool

text \<open>
  The world: the tables, the Redis locks, the mined EVM transactions with their status, and two records of what
  happened: the create steps handed out and the first buys put on the books.
\<close>

record launch_world =
  lw_launches :: "token_launch list"
  lw_wallets :: "launch_wallet list"
  lw_images :: "(string \<times> string) list"
  lw_locks :: "nat list"
  lw_chain :: "(string \<times> onchain_tx \<times> bool) list"
  lw_handed :: "(nat \<times> stored_step) list"
  lw_buys :: "(nat \<times> string) list"
  lw_now :: int

text \<open>
  What the outside answers to a step: Redis, the database (for the first buy, with the chain's and the dollar's rows
  it needs), the chain's client and the adapters' remote parts.
\<close>

record launch_answer =
  an_redis :: bool
  an_db :: bool
  an_available :: bool
  an_client :: evm_view
  an_step :: "(js_error, PreparedStep) result"
  an_solanaFund :: "(js_error, string) result"
  an_solanaCreate :: "(js_error, string \<times> string option) result"
  an_code :: "(js_error, bool) result"
  an_created :: "(js_error, string option) result"
  an_tokens :: "string option"

record launch_env =
  en_same :: "string \<Rightarrow> string \<Rightarrow> (js_error, bool) result"
  en_famous :: "string \<Rightarrow> bool"
  en_feeUsd :: jsnum

definition launchpad_chain :: "string \<Rightarrow> string option" where
  "launchpad_chain l =
     map_of [(''pumpfun'', ''solana''), (''clanker'', ''eip155:8453''), (''clanker-rh'', ''eip155:4663''), (''fourmeme'', ''eip155:56'')] l"

subsection \<open>Checks\<close>

definition hash_ok :: "string \<Rightarrow> bool" where
  "hash_ok h \<longleftrightarrow> length h = 66 \<and> take 2 h = ''0x'' \<and> list_all is_hex (drop 2 h)"

definition present :: "string option \<Rightarrow> bool" where "present s = (case s of None \<Rightarrow> False | Some t \<Rightarrow> t \<noteq> '''')"

definition parseProof :: "LaunchProof \<Rightarrow> bool" where
  "parseProof p \<longleftrightarrow>
     (case lp_signedTxBase64 p of None \<Rightarrow> True | Some s \<Rightarrow> length s \<le> 20000)
     \<and> (case lp_txHashes p of None \<Rightarrow> True | Some hs \<Rightarrow> length hs \<le> 4 \<and> list_all hash_ok hs)
     \<and> (present (lp_signedTxBase64 p) \<noteq> (case lp_txHashes p of None \<Rightarrow> False | Some hs \<Rightarrow> hs \<noteq> []))"

definition launch_of_id :: "nat \<Rightarrow> launch_world \<Rightarrow> token_launch option" where
  "launch_of_id i w = find (\<lambda>r. tl_id r = i) (lw_launches w)"

definition own :: "string \<Rightarrow> nat \<Rightarrow> launch_world \<Rightarrow> token_launch option" where
  "own userId i w = (case launch_of_id i w of None \<Rightarrow> None | Some r \<Rightarrow> if tl_userId r = userId then Some r else None)"

definition update_launch :: "nat \<Rightarrow> (token_launch \<Rightarrow> token_launch) \<Rightarrow> launch_world \<Rightarrow> launch_world" where
  "update_launch i f w = w\<lparr>lw_launches := update_where (\<lambda>r. tl_id r = i) (\<lambda>r. (f r)\<lparr>tl_updatedAt := lw_now w\<rparr>) (lw_launches w)\<rparr>"

text \<open>Everything \<open>prepare\<close> reads before it creates the launch.\<close>

definition prepare_allowed :: "launch_env \<Rightarrow> string \<Rightarrow> LaunchInput \<Rightarrow> launch_world \<Rightarrow> bool" where
  "prepare_allowed env userId i w =
     (case launchpad_chain (li_launchpad i) of
        None \<Rightarrow> False
      | Some chain \<Rightarrow>
          \<not> en_famous env (to_lower (li_symbol i))
          \<and> (case find (\<lambda>a. wa_address a = li_walletAddress i) (lw_wallets w) of
               None \<Rightarrow> False
             | Some a \<Rightarrow> wa_userId a = userId \<and> wa_verified a \<and> wa_solana a = (chain = ''solana''))
          \<and> map_of (lw_images w) (li_imageId i) = Some userId
          \<and> \<not> list_ex (\<lambda>r. tl_userId r = userId \<and> tl_status r \<in> {Funded, Creating} \<and> tl_updatedAt r \<ge> lw_now w - 15 * 60000) (lw_launches w))"

definition upper_char :: "char \<Rightarrow> char" where
  "upper_char c = (if 97 \<le> char_code c \<and> char_code c \<le> 122 then char_of (char_code c - 32) else c)"

definition new_launch :: "launch_env \<Rightarrow> string \<Rightarrow> LaunchInput \<Rightarrow> launch_world \<Rightarrow> token_launch" where
  "new_launch env userId i w =
     \<lparr>tl_id = length (lw_launches w), tl_userId = userId, tl_launchpad = li_launchpad i,
      tl_chainIdentifier = (case launchpad_chain (li_launchpad i) of None \<Rightarrow> '''' | Some c \<Rightarrow> c),
      tl_walletAddress = li_walletAddress i, tl_name = li_name i, tl_symbol = map upper_char (li_symbol i), tl_imageId = li_imageId i,
      tl_devBuyUsd = li_devBuyUsd i, tl_feeUsd = en_feeUsd env, tl_networkCostUsd = Fin 0, tl_fundUsdcRaw = None,
      tl_status = Prepared, tl_fundTx = None, tl_fundSignature = None, tl_createTx = None, tl_createSignature = None,
      tl_tokenAddress = None, tl_failureReason = None, tl_updatedAt = lw_now w\<rparr>"

subsection \<open>The adapters\<close>

definition evm_launchpad :: "string \<Rightarrow> bool" where
  "evm_launchpad l \<longleftrightarrow> l \<in> {''clanker'', ''clanker-rh'', ''fourmeme''}"

text \<open>\<open>JSON.parse(column ?? '[]')\<close>\<close>

definition evm_txs :: "stored_step option \<Rightarrow> (js_error, LaunchEvmTx list) result" where
  "evm_txs s = (case s of None \<Rightarrow> Ok [] | Some (EvmStep txs) \<Rightarrow> Ok txs | Some (SolanaStep b) \<Rightarrow> Err SyntaxError)"

definition proof_hashes :: "LaunchProof \<Rightarrow> string list" where
  "proof_hashes p = (case lp_txHashes p of None \<Rightarrow> [] | Some hs \<Rightarrow> hs)"

definition verified ::
    "launch_env \<Rightarrow> launch_answer \<Rightarrow> token_launch \<Rightarrow> stored_step option \<Rightarrow> LaunchProof \<Rightarrow> (js_error, unit) result" where
  "verified env a r step p =
     bind_result (reject_if (\<not> an_available a) (Unprocessable ''Launching is not available right now'')) (\<lambda>_.
     bind_result (evm_txs step) (\<lambda>txs. verifyEvmTxs (en_same env) (an_client a) (tl_walletAddress r) txs p))"

definition submitFunding :: "launch_env \<Rightarrow> launch_answer \<Rightarrow> token_launch \<Rightarrow> LaunchProof \<Rightarrow> (js_error, string) result" where
  "submitFunding env a r p =
     (if evm_launchpad (tl_launchpad r)
      then bind_result (verified env a r (tl_fundTx r) p) (\<lambda>_. Ok (last (proof_hashes p)))
      else an_solanaFund a)"

record created_coin =
  cc_signature :: string
  cc_tokensRaw :: "string option"
  cc_tokenAddress :: "string option"

definition submitCreate :: "launch_env \<Rightarrow> launch_answer \<Rightarrow> token_launch \<Rightarrow> LaunchProof \<Rightarrow> (js_error, created_coin) result" where
  "submitCreate env a r p =
     (if \<not> evm_launchpad (tl_launchpad r)
      then bind_result (an_solanaCreate a) (\<lambda>(s, tokens). Ok \<lparr>cc_signature = s, cc_tokensRaw = tokens, cc_tokenAddress = None\<rparr>)
      else
        bind_result (verified env a r (tl_createTx r) p) (\<lambda>_.
          if tl_launchpad r = ''fourmeme''
          then bind_result (an_created a) (\<lambda>token.
            case token of
              None \<Rightarrow> Err (Unprocessable ''Could not find the new coin in the transaction'')
            | Some t \<Rightarrow> Ok \<lparr>cc_signature = hd (proof_hashes p), cc_tokensRaw = an_tokens a, cc_tokenAddress = Some t\<rparr>)
          else bind_result (an_code a) (\<lambda>code.
            if \<not> code then Err (Unprocessable ''The coin is not on-chain yet'')
            else Ok \<lparr>cc_signature = hd (proof_hashes p), cc_tokensRaw = an_tokens a, cc_tokenAddress = None\<rparr>)))"

subsection \<open>The calls, step by step\<close>

datatype launch_call =
    PrepareStart string LaunchInput
  | PrepareChecked string LaunchInput
  | PrepareBuilding token_launch
  | PrepareBuilt nat PreparedStep
  | FundStart string nat LaunchProof
  | FundRead token_launch LaunchProof
  | FundLocked token_launch LaunchProof
  | FundSent token_launch "(js_error, string) result"
  | FundFailed nat js_error
  | CreateStart string nat
  | CreateRead token_launch
  | CreateBuilt token_launch PreparedStep
  | SubmitStart string nat LaunchProof
  | SubmitRead token_launch LaunchProof
  | SubmitLocked token_launch LaunchProof
  | SubmitSent token_launch "(js_error, created_coin) result"
  | SubmitFailed nat js_error
  | Recording token_launch created_coin
  | Unlocking nat

definition unique_fund :: "nat \<Rightarrow> string \<Rightarrow> launch_world \<Rightarrow> bool" where
  "unique_fund i s w = list_all (\<lambda>r. tl_id r = i \<or> tl_fundSignature r \<noteq> Some s) (lw_launches w)"

definition unique_create :: "nat \<Rightarrow> string \<Rightarrow> launch_world \<Rightarrow> bool" where
  "unique_create i s w = list_all (\<lambda>r. tl_id r = i \<or> tl_createSignature r \<noteq> Some s) (lw_launches w)"

text \<open>\<open>SET NX\<close>; a Redis error counts as the lock taken.\<close>

definition take_lock :: "launch_answer \<Rightarrow> nat \<Rightarrow> launch_world \<Rightarrow> launch_world option" where
  "take_lock a i w =
     (if \<not> an_redis a then Some w else if i \<in> set (lw_locks w) then None else Some (w\<lparr>lw_locks := i # lw_locks w\<rparr>))"

definition launch_decimals :: "string \<Rightarrow> nat option" where
  "launch_decimals chain =
     (if chain = ''solana'' then Some 6
      else case map_of [(''eip155:8453'', 8453), (''eip155:4663'', 4663), (''eip155:56'', 56)] chain of
             None \<Rightarrow> None | Some n \<Rightarrow> map_option usdc_decimals (EVM_USDC_BY_CHAIN_ID n))"

definition first_buy_recorded :: "token_launch \<Rightarrow> created_coin \<Rightarrow> bool" where
  "first_buy_recorded r c \<longleftrightarrow>
     tl_tokenAddress r \<noteq> None \<and> tl_tokenAddress r \<noteq> Some '''' \<and> present (cc_tokensRaw c) \<and> cc_tokensRaw c \<noteq> Some ''0''
     \<and> (case launch_decimals (tl_chainIdentifier r) of
          None \<Rightarrow> False | Some d \<Rightarrow> nround (nmul (tl_devBuyUsd r) (num_of_int (10 ^ d))) \<noteq> Fin 0)"

fun launch_step :: "launch_env \<Rightarrow> launch_answer \<Rightarrow> launch_call \<Rightarrow> launch_world \<Rightarrow> launch_call option \<times> launch_world" where
  "launch_step env a (PrepareStart userId i) w = ((if prepare_allowed env userId i w then Some (PrepareChecked userId i) else None), w)"
| "launch_step env a (PrepareChecked userId i) w =
     (let r = new_launch env userId i w in (Some (PrepareBuilding r), w\<lparr>lw_launches := lw_launches w @ [r]\<rparr>))"
| "launch_step env a (PrepareBuilding r) w =
     ((case an_step a of Err e \<Rightarrow> None | Ok s \<Rightarrow> Some (PrepareBuilt (tl_id r) s)), w)"
| "launch_step env a (PrepareBuilt i s) w =
     (None, if an_db a
            then update_launch i (\<lambda>r. r\<lparr>tl_fundTx := Some (storedTx s), tl_fundUsdcRaw := ps_fundUsdcRaw s,
              tl_networkCostUsd := (case ps_networkCostUsd s of None \<Rightarrow> Fin 0 | Some c \<Rightarrow> c)\<rparr>) w
            else w)"
| "launch_step env a (FundStart userId i p) w =
     ((if \<not> parseProof p then None
       else case own userId i w of
         None \<Rightarrow> None
       | Some r \<Rightarrow> if tl_status r \<noteq> Prepared then None else Some (FundRead r p)), w)"
| "launch_step env a (FundRead r p) w =
     (case take_lock a (tl_id r) w of None \<Rightarrow> (None, w) | Some w' \<Rightarrow> (Some (FundLocked r p), w'))"
| "launch_step env a (FundLocked r p) w = (Some (FundSent r (submitFunding env a r p)), w)"
| "launch_step env a (FundSent r (Inl e)) w = (Some (FundFailed (tl_id r) e), w)"
| "launch_step env a (FundSent r (Inr s)) w =
     (if an_db a \<and> unique_fund (tl_id r) s w
      then (Some (Unlocking (tl_id r)), update_launch (tl_id r) (\<lambda>r. r\<lparr>tl_status := Funded, tl_fundSignature := Some s\<rparr>) w)
      else (Some (FundFailed (tl_id r) (if an_db a then UniqueConstraint ''fund_signature'' else Error ''database'')), w))"
| "launch_step env a (FundFailed i e) w =
     (Some (Unlocking i), if an_db a then update_launch i (\<lambda>r. r\<lparr>tl_failureReason := Some e\<rparr>) w else w)"
| "launch_step env a (CreateStart userId i) w =
     ((case own userId i w of
         None \<Rightarrow> None
       | Some r \<Rightarrow> if tl_status r \<noteq> Funded \<and> tl_status r \<noteq> Creating then None else Some (CreateRead r)), w)"
| "launch_step env a (CreateRead r) w = ((case an_step a of Err e \<Rightarrow> None | Ok s \<Rightarrow> Some (CreateBuilt r s)), w)"
| "launch_step env a (CreateBuilt r s) w =
     (None, if an_db a
            then (update_launch (tl_id r) (\<lambda>r. r\<lparr>tl_status := Creating, tl_createTx := Some (storedTx s), tl_tokenAddress := ps_tokenAddress s\<rparr>) w)
                   \<lparr>lw_handed := (tl_id r, storedTx s) # lw_handed w\<rparr>
            else w)"
| "launch_step env a (SubmitStart userId i p) w =
     ((if \<not> parseProof p then None
       else case own userId i w of
         None \<Rightarrow> None
       | Some r \<Rightarrow> if tl_status r \<noteq> Creating then None else Some (SubmitRead r p)), w)"
| "launch_step env a (SubmitRead r p) w =
     (case take_lock a (tl_id r) w of None \<Rightarrow> (None, w) | Some w' \<Rightarrow> (Some (SubmitLocked r p), w'))"
| "launch_step env a (SubmitLocked r p) w = (Some (SubmitSent r (submitCreate env a r p)), w)"
| "launch_step env a (SubmitSent r (Inl e)) w = (Some (SubmitFailed (tl_id r) e), w)"
| "launch_step env a (SubmitSent r (Inr c)) w =
     (if an_db a \<and> unique_create (tl_id r) (cc_signature c) w
      then let w' = update_launch (tl_id r) (\<lambda>r. r\<lparr>tl_status := Live, tl_createSignature := Some (cc_signature c),
                 tl_failureReason := None,
                 tl_tokenAddress := (if present (cc_tokenAddress c) then cc_tokenAddress c else tl_tokenAddress r)\<rparr>) w
           in (case launch_of_id (tl_id r) w' of None \<Rightarrow> Some (Unlocking (tl_id r)) | Some r' \<Rightarrow> Some (Recording r' c), w')
      else (Some (SubmitFailed (tl_id r) (if an_db a then UniqueConstraint ''create_signature'' else Error ''database'')), w))"
| "launch_step env a (SubmitFailed i e) w =
     (Some (Unlocking i), if an_db a then update_launch i (\<lambda>r. r\<lparr>tl_failureReason := Some e\<rparr>) w else w)"
| "launch_step env a (Recording r c) w =
     (Some (Unlocking (tl_id r)),
      if an_db a \<and> first_buy_recorded r c \<and> \<not> list_ex (\<lambda>(i, s). s = cc_signature c) (lw_buys w)
      then w\<lparr>lw_buys := (tl_id r, cc_signature c) # lw_buys w\<rparr> else w)"
| "launch_step env a (Unlocking i) w = (None, if an_redis a then w\<lparr>lw_locks := removeAll i (lw_locks w)\<rparr> else w)"

text \<open>Only the start of a call arrives.\<close>

fun is_start :: "launch_call \<Rightarrow> bool" where
  "is_start (PrepareStart userId i) = True"
| "is_start (FundStart userId i p) = True"
| "is_start (CreateStart userId i) = True"
| "is_start (SubmitStart userId i p) = True"
| "is_start c = False"

datatype launch_event =
    Arrives launch_call
  | Step nat launch_answer
  | Mined string onchain_tx bool
  | LockExpires nat
  | Clock int

type_synonym launch_system = "launch_world \<times> launch_call list"

fun launch_event_step :: "launch_env \<Rightarrow> launch_event \<Rightarrow> launch_system \<Rightarrow> launch_system" where
  "launch_event_step env (Arrives c) (w, cs) = (w, if is_start c then cs @ [c] else cs)"
| "launch_event_step env (Step n a) (w, cs) =
     (if n < length cs
      then case launch_step env a (cs ! n) w of
             (None, w') \<Rightarrow> (w', take n cs @ drop (Suc n) cs)
           | (Some c, w') \<Rightarrow> (w', cs[n := c])
      else (w, cs))"
| "launch_event_step env (Mined h tx ok) (w, cs) = (w\<lparr>lw_chain := lw_chain w @ [(h, tx, ok)]\<rparr>, cs)"
| "launch_event_step env (LockExpires i) (w, cs) = (w\<lparr>lw_locks := removeAll i (lw_locks w)\<rparr>, cs)"
| "launch_event_step env (Clock t) (w, cs) = (w\<lparr>lw_now := max (lw_now w) t\<rparr>, cs)"

definition run_launches :: "launch_env \<Rightarrow> launch_event list \<Rightarrow> launch_system \<Rightarrow> launch_system" where
  "run_launches env es s = foldl (\<lambda>s e. launch_event_step env e s) s es"


subsection \<open>The evidence behind a launch\<close>

definition landed_all :: "launch_env \<Rightarrow> launch_world \<Rightarrow> token_launch \<Rightarrow> stored_step \<Rightarrow> string list \<Rightarrow> bool" where
  "landed_all env w r step hashes =
     (case step of
        SolanaStep b \<Rightarrow> False
      | EvmStep txs \<Rightarrow> txs \<noteq> [] \<and> list_all2 (landed_as (en_same env) (lw_chain w) (tl_walletAddress r)) txs hashes)"

definition funded_by :: "launch_env \<Rightarrow> launch_world \<Rightarrow> token_launch \<Rightarrow> string \<Rightarrow> bool" where
  "funded_by env w r s \<longleftrightarrow>
     (evm_launchpad (tl_launchpad r) \<longrightarrow>
      (\<exists>step hashes. tl_fundTx r = Some step \<and> hashes \<noteq> [] \<and> last hashes = s \<and> landed_all env w r step hashes))"

definition created_by :: "launch_env \<Rightarrow> launch_world \<Rightarrow> token_launch \<Rightarrow> string \<Rightarrow> bool" where
  "created_by env w r s \<longleftrightarrow>
     (evm_launchpad (tl_launchpad r) \<longrightarrow>
      (\<exists>step hashes. (tl_id r, step) \<in> set (lw_handed w) \<and> hashes \<noteq> [] \<and> hd hashes = s \<and> landed_all env w r step hashes))"

definition launch_ok :: "launch_env \<Rightarrow> launch_world \<Rightarrow> token_launch \<Rightarrow> bool" where
  "launch_ok env w r \<longleftrightarrow>
     (tl_status r \<noteq> Prepared \<longrightarrow> tl_fundSignature r \<noteq> None)
     \<and> (tl_status r = Live \<longrightarrow> tl_createSignature r \<noteq> None)
     \<and> (\<forall>s. tl_fundSignature r = Some s \<longrightarrow> funded_by env w r s)
     \<and> (\<forall>s. tl_createSignature r = Some s \<longrightarrow> created_by env w r s)
     \<and> (\<forall>step. tl_createTx r = Some step \<longrightarrow> (tl_id r, step) \<in> set (lw_handed w))"

definition launches_distinct :: "token_launch list \<Rightarrow> bool" where
  "launches_distinct rs \<longleftrightarrow>
     map tl_id rs = [0..<length rs]
     \<and> (\<forall>r\<in>set rs. \<forall>q\<in>set rs. tl_fundSignature r \<noteq> None \<and> tl_fundSignature r = tl_fundSignature q \<longrightarrow> tl_id r = tl_id q)
     \<and> (\<forall>r\<in>set rs. \<forall>q\<in>set rs. tl_createSignature r \<noteq> None \<and> tl_createSignature r = tl_createSignature q \<longrightarrow> tl_id r = tl_id q)"

text \<open>What a row keeps for good, once a step has read it.\<close>

definition follows :: "token_launch \<Rightarrow> token_launch \<Rightarrow> bool" where
  "follows q r \<longleftrightarrow> tl_id r = tl_id q \<and> tl_userId r = tl_userId q \<and> tl_launchpad r = tl_launchpad q
     \<and> tl_walletAddress r = tl_walletAddress q \<and> (tl_fundTx q \<noteq> None \<longrightarrow> tl_fundTx r = tl_fundTx q)
     \<and> (tl_fundSignature q \<noteq> None \<longrightarrow> tl_fundSignature r \<noteq> None)"

definition row_seen :: "launch_world \<Rightarrow> token_launch \<Rightarrow> bool" where
  "row_seen w q \<longleftrightarrow> (\<exists>r\<in>set (lw_launches w). follows q r)
     \<and> (\<forall>step. tl_createTx q = Some step \<longrightarrow> (tl_id q, step) \<in> set (lw_handed w))"

text \<open>A build is pending or built only for a launch whose funding step is not stored yet.\<close>

fun call_ok :: "launch_env \<Rightarrow> launch_world \<Rightarrow> launch_call \<Rightarrow> bool" where
  "call_ok env w (PrepareBuilding r) = (tl_id r < length (lw_launches w))"
| "call_ok env w (PrepareBuilt i s) = (i < length (lw_launches w))"
| "call_ok env w (FundRead r p) = row_seen w r"
| "call_ok env w (FundLocked r p) = row_seen w r"
| "call_ok env w (FundSent r (Inr s)) = (row_seen w r \<and> funded_by env w r s)"
| "call_ok env w (CreateRead r) = (row_seen w r \<and> tl_fundSignature r \<noteq> None)"
| "call_ok env w (CreateBuilt r s) = (row_seen w r \<and> tl_fundSignature r \<noteq> None)"
| "call_ok env w (SubmitRead r p) = (row_seen w r \<and> tl_fundSignature r \<noteq> None)"
| "call_ok env w (SubmitLocked r p) = (row_seen w r \<and> tl_fundSignature r \<noteq> None)"
| "call_ok env w (SubmitSent r (Inr c)) = (row_seen w r \<and> tl_fundSignature r \<noteq> None \<and> created_by env w r (cc_signature c))"
| "call_ok env w c = True"

fun builder :: "launch_call \<Rightarrow> nat list" where
  "builder (PrepareBuilding r) = [tl_id r]"
| "builder (PrepareBuilt i s) = [i]"
| "builder c = []"

definition builders :: "launch_call list \<Rightarrow> nat list" where "builders cs = concat (map builder cs)"

definition rows_ok :: "launch_env \<Rightarrow> launch_world \<Rightarrow> bool" where
  "rows_ok env w \<longleftrightarrow> launches_distinct (lw_launches w) \<and> list_all (launch_ok env w) (lw_launches w)"

definition builders_ok :: "launch_world \<Rightarrow> nat list \<Rightarrow> bool" where
  "builders_ok w bs \<longleftrightarrow> distinct bs \<and> (\<forall>i\<in>set bs. i < length (lw_launches w))
     \<and> (\<forall>r\<in>set (lw_launches w). tl_id r \<in> set bs \<longrightarrow> tl_fundTx r = None)"

definition launch_inv :: "launch_env \<Rightarrow> launch_system \<Rightarrow> bool" where
  "launch_inv env s \<longleftrightarrow> rows_ok env (fst s) \<and> list_all (call_ok env (fst s)) (snd s) \<and> builders_ok (fst s) (builders (snd s))"

definition later :: "launch_world \<Rightarrow> launch_world \<Rightarrow> bool" where
  "later w w' \<longleftrightarrow> set (lw_chain w) \<subseteq> set (lw_chain w') \<and> set (lw_handed w) \<subseteq> set (lw_handed w')
     \<and> length (lw_launches w) \<le> length (lw_launches w') \<and> (\<forall>r\<in>set (lw_launches w). \<exists>r'\<in>set (lw_launches w'). follows r r')"

lemma follows_refl [simp]: "follows r r"
  by (simp add: follows_def)

lemma follows_self: "r \<in> S \<Longrightarrow> \<exists>x\<in>S. follows r x"
  by (rule bexI) simp_all

lemma follows_trans: "follows a b \<Longrightarrow> follows b c \<Longrightarrow> follows a c"
  unfolding follows_def by metis

lemma later_refl [simp]: "later w w"
  unfolding later_def using follows_refl by blast

lemma landed_all_later: "landed_all env w r step hs \<Longrightarrow> set (lw_chain w) \<subseteq> set (lw_chain w') \<Longrightarrow> landed_all env w' r step hs"
  by (auto simp: landed_all_def split: stored_step.splits elim!: list_all2_mono intro: landed_more)

lemma funded_by_later: "funded_by env w r s \<Longrightarrow> set (lw_chain w) \<subseteq> set (lw_chain w') \<Longrightarrow> funded_by env w' r s"
  unfolding funded_by_def
  by (rule impI, drule mp, assumption, elim exE conjE, intro exI conjI, assumption, assumption, assumption, rule landed_all_later)

lemma created_by_later:
  "created_by env w r s \<Longrightarrow> set (lw_chain w) \<subseteq> set (lw_chain w') \<Longrightarrow> set (lw_handed w) \<subseteq> set (lw_handed w') \<Longrightarrow> created_by env w' r s"
  unfolding created_by_def
  by (rule impI, drule mp, assumption, elim exE conjE, intro exI conjI, rule subsetD, assumption, assumption, assumption, assumption,
      rule landed_all_later)

lemma landed_all_follows: "follows q r \<Longrightarrow> landed_all env w r step hs = landed_all env w q step hs"
  by (simp add: landed_all_def follows_def split: stored_step.split)

lemma funded_by_follows: "funded_by env w q s \<Longrightarrow> follows q r \<Longrightarrow> funded_by env w r s"
  using landed_all_follows [of q r] by (fastforce simp: funded_by_def follows_def)

lemma created_by_follows: "created_by env w q s \<Longrightarrow> follows q r \<Longrightarrow> created_by env w r s"
  using landed_all_follows [of q r] by (fastforce simp: created_by_def follows_def)

lemma row_seen_later: "row_seen w q \<Longrightarrow> later w w' \<Longrightarrow> row_seen w' q"
  unfolding row_seen_def later_def by (meson follows_trans subsetD)

lemma launch_ok_later:
  "launch_ok env w r \<Longrightarrow> set (lw_chain w) \<subseteq> set (lw_chain w') \<Longrightarrow> set (lw_handed w) \<subseteq> set (lw_handed w') \<Longrightarrow> launch_ok env w' r"
  unfolding launch_ok_def by (intro conjI allI impI) (elim conjE, (auto intro: funded_by_later created_by_later)[1])+

lemma call_ok_later:
  assumes "call_ok env w c" "later w w'"
  shows "call_ok env w' c"
proof -
  have chain: "set (lw_chain w) \<subseteq> set (lw_chain w')" "set (lw_handed w) \<subseteq> set (lw_handed w')"
    "length (lw_launches w) \<le> length (lw_launches w')" using assms(2) by (simp_all add: later_def)
  have seen: "row_seen w q \<Longrightarrow> row_seen w' q" for q by (rule row_seen_later [OF _ assms(2)])
  show ?thesis
  proof (cases c)
    case (FundSent r x)
    with assms(1) chain show ?thesis by (cases x) (auto simp: seen intro: funded_by_later)
  next
    case (SubmitSent r x)
    with assms(1) chain show ?thesis by (cases x) (auto simp: seen intro: created_by_later)
  qed (use assms(1) chain(3) in \<open>simp_all add: seen\<close>)
qed

lemma list_call_ok_later: "list_all (call_ok env w) cs \<Longrightarrow> later w w' \<Longrightarrow> list_all (call_ok env w') cs"
  by (auto simp: list_all_iff intro: call_ok_later)

subsection \<open>Writes\<close>

lemma landed_all_updatedAt [simp]: "landed_all env w (r\<lparr>tl_updatedAt := t\<rparr>) step hs = landed_all env w r step hs"
  by (cases step) (simp_all add: landed_all_def)

lemma launch_ok_updatedAt [simp]: "launch_ok env w (r\<lparr>tl_updatedAt := t\<rparr>) = launch_ok env w r"
  by (simp add: launch_ok_def funded_by_def created_by_def)

lemma follows_updatedAt [simp]: "follows q (r\<lparr>tl_updatedAt := t\<rparr>) = follows q r"
  by (simp add: follows_def)

lemma update_launch_fields [simp]:
  "lw_chain (update_launch i f w) = lw_chain w" "lw_handed (update_launch i f w) = lw_handed w"
  "length (lw_launches (update_launch i f w)) = length (lw_launches w)"
  by (simp_all add: update_launch_def)

lemma update_later:
  assumes "\<And>r. r \<in> set (lw_launches w) \<Longrightarrow> tl_id r = i \<Longrightarrow> follows r (f r)"
  shows "later w (update_launch i f w)"
proof -
  have "\<exists>r'\<in>set (lw_launches (update_launch i f w)). follows r r'" if r: "r \<in> set (lw_launches w)" for r
  proof (cases "tl_id r = i")
    case True
    with r assms [OF r True] show ?thesis
      by (intro bexI [of _ "(f r)\<lparr>tl_updatedAt := lw_now w\<rparr>"]) (auto simp: update_launch_def update_where_def)
  next
    case False
    with r show ?thesis by (intro bexI [of _ r]) (auto simp: update_launch_def update_where_def)
  qed
  then show ?thesis by (simp add: later_def)
qed

definition key_unique :: "(token_launch \<Rightarrow> string option) \<Rightarrow> token_launch list \<Rightarrow> bool" where
  "key_unique k rs \<longleftrightarrow> (\<forall>r\<in>set rs. \<forall>q\<in>set rs. k r \<noteq> None \<and> k r = k q \<longrightarrow> tl_id r = tl_id q)"

lemma key_uniqueD: "key_unique k rs \<Longrightarrow> r \<in> set rs \<Longrightarrow> q \<in> set rs \<Longrightarrow> k r = Some s \<Longrightarrow> k q = Some s \<Longrightarrow> tl_id r = tl_id q"
  unfolding key_unique_def by (metis option.distinct(1))

lemma key_unique_update:
  assumes "key_unique k rs" "\<And>r. r \<in> set rs \<Longrightarrow> tl_id r = i \<Longrightarrow> tl_id (g r) = i"
    "\<And>r. r \<in> set rs \<Longrightarrow> tl_id r = i \<Longrightarrow> k (g r) = k r \<or> (\<exists>s. k (g r) = Some s \<and> (\<forall>q\<in>set rs. tl_id q = i \<or> k q \<noteq> Some s))"
  shows "key_unique k (update_where (\<lambda>r. tl_id r = i) g rs)"
proof -
  have fresh: "tl_id b = i" if a: "a \<in> set rs" "tl_id a = i" "b \<in> set rs" "k (g a) = Some s" "k b = Some s" for a b s
  proof -
    from assms(3) [OF a(1,2)] consider "k a = Some s" | "\<forall>q\<in>set rs. tl_id q = i \<or> k q \<noteq> Some s" using a(4) by auto
    then show ?thesis
    proof cases
      case 1
      with key_uniqueD [OF assms(1) a(1,3) _ a(5)] a(2) show ?thesis by simp
    qed (use a(3,5) in auto)
  qed
  show ?thesis unfolding key_unique_def
  proof (intro ballI impI, elim conjE)
    fix r q
    assume "r \<in> set (update_where (\<lambda>r. tl_id r = i) g rs)" "q \<in> set (update_where (\<lambda>r. tl_id r = i) g rs)"
      and same: "k r \<noteq> None" "k r = k q"
    then obtain a b where a: "a \<in> set rs" "r = (if tl_id a = i then g a else a)"
      and b: "b \<in> set rs" "q = (if tl_id b = i then g b else b)" by (auto simp: set_update_where)
    from same obtain s where s: "k r = Some s" "k q = Some s" by auto
    show "tl_id r = tl_id q"
    proof (cases "tl_id a = i")
      case ai: True
      show ?thesis
      proof (cases "tl_id b = i")
        case True
        with ai a b assms(2) show ?thesis by simp
      next
        case False
        with ai a b s fresh [OF a(1) ai b(1), of s] show ?thesis by simp
      qed
    next
      case ai: False
      show ?thesis
      proof (cases "tl_id b = i")
        case True
        with ai a b s fresh [OF b(1) True a(1), of s] show ?thesis by simp
      next
        case False
        with ai a b s key_uniqueD [OF assms(1) a(1) b(1), of s] show ?thesis by simp
      qed
    qed
  qed
qed

lemma key_unique_append:
  assumes "key_unique k rs" "k r = None"
  shows "key_unique k (rs @ [r])"
proof (unfold key_unique_def, intro ballI impI, elim conjE)
  fix a b
  assume ab: "a \<in> set (rs @ [r])" "b \<in> set (rs @ [r])" "k a \<noteq> None" "k a = k b"
  with assms(2) have "a \<in> set rs" "b \<in> set rs" by auto
  moreover obtain s where "k a = Some s" "k b = Some s" using ab(3,4) by auto
  ultimately show "tl_id a = tl_id b" by (rule key_uniqueD [OF assms(1)])
qed

lemma launches_distinct_iff:
  "launches_distinct rs \<longleftrightarrow> map tl_id rs = [0..<length rs] \<and> key_unique tl_fundSignature rs \<and> key_unique tl_createSignature rs"
  by (simp add: launches_distinct_def key_unique_def)

lemma update_rows_ok:
  assumes "rows_ok env w"
    "\<And>r. r \<in> set (lw_launches w) \<Longrightarrow> tl_id r = i \<Longrightarrow> tl_id (f r) = i \<and> launch_ok env w (f r)"
    "\<And>r. r \<in> set (lw_launches w) \<Longrightarrow> tl_id r = i \<Longrightarrow>
       tl_fundSignature (f r) = tl_fundSignature r \<or> (\<exists>s. tl_fundSignature (f r) = Some s \<and> unique_fund i s w)"
    "\<And>r. r \<in> set (lw_launches w) \<Longrightarrow> tl_id r = i \<Longrightarrow>
       tl_createSignature (f r) = tl_createSignature r \<or> (\<exists>s. tl_createSignature (f r) = Some s \<and> unique_create i s w)"
  shows "rows_ok env (update_launch i f w)"
proof -
  let ?g = "\<lambda>r. (f r)\<lparr>tl_updatedAt := lw_now w\<rparr>" and ?rows = "lw_launches w"
  have d: "launches_distinct ?rows" and ok: "list_all (launch_ok env w) ?rows" using assms(1) by (simp_all add: rows_ok_def)
  have "map tl_id (update_where (\<lambda>r. tl_id r = i) ?g ?rows) = map tl_id ?rows"
    using assms(2) by (auto simp: update_where_def)
  moreover have "key_unique tl_fundSignature (update_where (\<lambda>r. tl_id r = i) ?g ?rows)"
    using assms(2,3) d by (intro key_unique_update) (auto simp: launches_distinct_iff unique_fund_def list_all_iff)
  moreover have "key_unique tl_createSignature (update_where (\<lambda>r. tl_id r = i) ?g ?rows)"
    using assms(2,4) d by (intro key_unique_update) (auto simp: launches_distinct_iff unique_create_def list_all_iff)
  ultimately have "launches_distinct (update_where (\<lambda>r. tl_id r = i) ?g ?rows)" using d by (simp add: launches_distinct_iff)
  moreover have "list_all (launch_ok env w) (update_where (\<lambda>r. tl_id r = i) ?g ?rows)"
    using ok assms(2) by (auto simp: list_all_iff set_update_where)
  then have "list_all (launch_ok env (update_launch i f w)) (update_where (\<lambda>r. tl_id r = i) ?g ?rows)"
    by (auto simp: list_all_iff intro: launch_ok_later)
  ultimately show ?thesis by (simp add: rows_ok_def update_launch_def)
qed

lemma update_builders_ok:
  assumes "builders_ok w bs" "set cs \<subseteq> set bs" "distinct cs"
    "\<And>r. r \<in> set (lw_launches w) \<Longrightarrow> tl_id r = i \<Longrightarrow> tl_id (f r) = i \<and> (tl_fundTx (f r) = tl_fundTx r \<or> i \<notin> set cs)"
  shows "builders_ok (update_launch i f w) cs"
proof -
  have "tl_fundTx r' = None" if "r' \<in> set (lw_launches (update_launch i f w))" "tl_id r' \<in> set cs" for r'
  proof -
    from that(1) obtain r where r: "r \<in> set (lw_launches w)"
      "r' = (if tl_id r = i then (f r)\<lparr>tl_updatedAt := lw_now w\<rparr> else r)" by (auto simp: update_launch_def set_update_where)
    with assms(4) [OF r(1)] that(2) have "tl_fundTx r' = tl_fundTx r" "tl_id r' = tl_id r" by (auto split: if_splits)
    with assms(1,2) that(2) r(1) show ?thesis by (auto simp: builders_ok_def)
  qed
  then show ?thesis using assms(1-3) by (auto simp: builders_ok_def)
qed

lemma builders_mono: "builders_ok w bs \<Longrightarrow> set cs \<subseteq> set bs \<Longrightarrow> distinct cs \<Longrightarrow> builders_ok w cs"
  by (auto simp: builders_ok_def)


subsection \<open>Every step keeps the books\<close>

lemma rows_ok_core:
  assumes "lw_launches w' = lw_launches w" "lw_chain w' = lw_chain w" "lw_handed w' = lw_handed w"
  shows "rows_ok env w' = rows_ok env w" "builders_ok w' bs = builders_ok w bs" "later w w'"
    "call_ok env w' c = call_ok env w c"
proof -
  have both: "later w w'" "later w' w" by (auto simp: later_def assms follows_self)
  then show "later w w'" by simp
  show "call_ok env w' c = call_ok env w c" using both call_ok_later [of env w c w'] call_ok_later [of env w' c w] by auto
  have "launch_ok env w' r = launch_ok env w r" for r
    using launch_ok_later [of env w r w'] launch_ok_later [of env w' r w] assms(2,3) by auto
  then have "launch_ok env w' = launch_ok env w" by (rule ext)
  then show "rows_ok env w' = rows_ok env w" by (simp add: rows_ok_def assms)
qed (simp add: builders_ok_def assms)

definition step_keeps :: "launch_env \<Rightarrow> launch_world \<Rightarrow> nat list \<Rightarrow> launch_call option \<Rightarrow> launch_world \<Rightarrow> bool" where
  "step_keeps env w bs c' w' \<longleftrightarrow>
     rows_ok env w' \<and> later w w' \<and> (case c' of None \<Rightarrow> True | Some d \<Rightarrow> call_ok env w' d)
     \<and> builders_ok w' ((case c' of None \<Rightarrow> [] | Some d \<Rightarrow> builder d) @ bs)"

lemma keeps_core:
  assumes "rows_ok env w" "builders_ok w bs" "lw_launches w' = lw_launches w" "lw_chain w' = lw_chain w" "lw_handed w' = lw_handed w"
    "\<And>d. c' = Some d \<Longrightarrow> call_ok env w d \<and> builder d = []"
  shows "step_keeps env w bs c' w'"
  using assms rows_ok_core [OF assms(3-5)] by (auto simp: step_keeps_def split: option.split)

lemma launch_of_idD: "launch_of_id i w = Some r \<Longrightarrow> r \<in> set (lw_launches w) \<and> tl_id r = i"
  by (auto simp: launch_of_id_def find_Some_iff)

lemma ownD:
  assumes "own userId i w = Some r" "rows_ok env w"
  shows "row_seen w r" "tl_status r \<noteq> Prepared \<Longrightarrow> \<exists>s. tl_fundSignature r = Some s"
proof -
  have r: "r \<in> set (lw_launches w)" using assms(1) by (auto simp: own_def split: option.splits if_splits dest: launch_of_idD)
  with assms(2) have "launch_ok env w r" by (simp add: rows_ok_def list_all_iff)
  then show "row_seen w r" "tl_status r \<noteq> Prepared \<Longrightarrow> \<exists>s. tl_fundSignature r = Some s"
    using follows_self [OF r] by (auto simp: row_seen_def launch_ok_def)
qed

lemma row_by_id:
  assumes "rows_ok env w" "row_seen w q" "r \<in> set (lw_launches w)" "tl_id r = tl_id q"
  shows "follows q r"
proof -
  obtain r' where r': "r' \<in> set (lw_launches w)" "follows q r'" using assms(2) by (auto simp: row_seen_def)
  have "distinct (map tl_id (lw_launches w))" using assms(1) by (simp add: rows_ok_def launches_distinct_def)
  with r' assms(3,4) have "r' = r" by (auto simp: distinct_map follows_def inj_on_def)
  with r' show ?thesis by simp
qed

lemma verified_OkD:
  assumes "verified env a r step p = Ok ()" "truthful (lw_chain w) (an_client a)"
  shows "\<exists>s. step = Some s \<and> proof_hashes p \<noteq> [] \<and> landed_all env w r s (proof_hashes p)"
proof -
  from assms(1) obtain txs where txs: "evm_txs step = Ok txs" "verifyEvmTxs (en_same env) (an_client a) (tl_walletAddress r) txs p = Ok ()"
    by (auto simp: verified_def bind_result_Ok_iff split: if_splits)
  from verifyEvmTxs_OkD [OF txs(2) assms(2)] obtain hs where hs: "lp_txHashes p = Some hs" "txs \<noteq> []"
    "list_all2 (landed_as (en_same env) (lw_chain w) (tl_walletAddress r)) txs hs" by blast
  from txs(1) hs(2) have "step = Some (EvmStep txs)" by (auto simp: evm_txs_def split: option.splits stored_step.splits)
  with hs show ?thesis by (auto simp: proof_hashes_def landed_all_def)
qed

lemma submitFunding_OkD:
  "submitFunding env a r p = Ok s \<Longrightarrow> truthful (lw_chain w) (an_client a) \<Longrightarrow> funded_by env w r s"
  by (auto simp: submitFunding_def funded_by_def bind_result_Ok_iff split: if_splits dest!: verified_OkD)

lemma submitCreate_OkD:
  "submitCreate env a r p = Ok c \<Longrightarrow> truthful (lw_chain w) (an_client a) \<Longrightarrow> row_seen w r \<Longrightarrow> created_by env w r (cc_signature c)"
  by (auto simp: submitCreate_def created_by_def bind_result_Ok_iff row_seen_def split: if_splits option.splits dest!: verified_OkD) blast+


lemma read_keeps:
  assumes "rows_ok env w" "builders_ok w (builder c @ bs)" "\<And>d. c' = Some d \<Longrightarrow> call_ok env w d \<and> builder d = []"
  shows "step_keeps env w bs c' w"
proof (rule keeps_core)
  show "builders_ok w bs" using assms(2) by (rule builders_mono) (use assms(2) in \<open>auto simp: builders_ok_def\<close>)
qed (use assms in auto)

lemma prepare_keeps:
  assumes "rows_ok env w" "builders_ok w bs"
  shows "step_keeps env w bs (Some (PrepareBuilding (new_launch env u i w))) (w\<lparr>lw_launches := lw_launches w @ [new_launch env u i w]\<rparr>)"
proof -
  let ?r = "new_launch env u i w" and ?w' = "w\<lparr>lw_launches := lw_launches w @ [new_launch env u i w]\<rparr>"
  have l: "later w ?w'" by (auto simp: later_def follows_self)
  have d: "launches_distinct (lw_launches w)" and ok: "list_all (launch_ok env w) (lw_launches w)" using assms(1) by (simp_all add: rows_ok_def)
  have ids: "tl_id r < length (lw_launches w)" if "r \<in> set (lw_launches w)" for r
  proof -
    have "tl_id r \<in> set (map tl_id (lw_launches w))" using that by simp
    then have "tl_id r \<in> set [0..<length (lw_launches w)]" using d unfolding launches_distinct_def by metis
    then show ?thesis by simp
  qed
  have new: "tl_id ?r = length (lw_launches w)" "tl_fundSignature ?r = None" "tl_createSignature ?r = None" "tl_fundTx ?r = None"
    "tl_createTx ?r = None" "tl_status ?r = Prepared" by (simp_all add: new_launch_def)
  have "launches_distinct (lw_launches ?w')" using d new by (simp add: launches_distinct_iff key_unique_append)
  moreover have "list_all (launch_ok env ?w') (lw_launches w)" using ok by (auto simp: list_all_iff intro: launch_ok_later)
  moreover have "launch_ok env ?w' ?r" using new by (simp add: launch_ok_def)
  ultimately have "rows_ok env ?w'" by (simp add: rows_ok_def)
  moreover have "builders_ok ?w' (tl_id ?r # bs)" using assms(2) new ids by (force simp: builders_ok_def)
  ultimately show ?thesis using l new by (simp add: step_keeps_def)
qed

lemma write_keeps:
  assumes "rows_ok env w" "builders_ok w (builder c @ bs)" "d = None \<or> (\<exists>e. d = Some e \<and> builder e = [] \<and> (\<forall>w. call_ok env w e))"
    "\<And>r. r \<in> set (lw_launches w) \<Longrightarrow> tl_id r = i \<Longrightarrow> follows r (f r) \<and> launch_ok env w (f r)"
    "\<And>r. r \<in> set (lw_launches w) \<Longrightarrow> tl_id r = i \<Longrightarrow>
       tl_fundSignature (f r) = tl_fundSignature r \<or> (\<exists>s. tl_fundSignature (f r) = Some s \<and> unique_fund i s w)"
    "\<And>r. r \<in> set (lw_launches w) \<Longrightarrow> tl_id r = i \<Longrightarrow>
       tl_createSignature (f r) = tl_createSignature r \<or> (\<exists>s. tl_createSignature (f r) = Some s \<and> unique_create i s w)"
    "\<And>r. r \<in> set (lw_launches w) \<Longrightarrow> tl_id r = i \<Longrightarrow> tl_fundTx (f r) = tl_fundTx r \<or> i \<notin> set bs"
  shows "step_keeps env w bs d (update_launch i f w)"
proof -
  have bs: "set bs \<subseteq> set (builder c @ bs)" "distinct bs" using assms(2) by (auto simp: builders_ok_def)
  have "rows_ok env (update_launch i f w)" by (rule update_rows_ok) (use assms(1,4-6) in \<open>auto simp: follows_def\<close>)
  moreover have "later w (update_launch i f w)" by (rule update_later) (use assms(4) in auto)
  moreover have "builders_ok (update_launch i f w) bs"
    by (rule update_builders_ok [OF assms(2) bs]) (use assms(4,7) in \<open>auto simp: follows_def\<close>)
  ultimately show ?thesis using assms(3) by (auto simp: step_keeps_def)
qed

lemma failure_keeps:
  assumes "rows_ok env w" "builders_ok w bs"
  shows "step_keeps env w bs (Some (Unlocking i)) (if db then update_launch i (\<lambda>r. r\<lparr>tl_failureReason := Some e\<rparr>) w else w)"
proof (cases db)
  case True
  have same: "launch_ok env w (r\<lparr>tl_failureReason := Some e\<rparr>) = launch_ok env w r" for r
    by (simp add: launch_ok_def funded_by_def created_by_def landed_all_def split: stored_step.split)
  have "step_keeps env w bs (Some (Unlocking i)) (update_launch i (\<lambda>r. r\<lparr>tl_failureReason := Some e\<rparr>) w)"
    using assms by (intro write_keeps [where c = "Unlocking i"]) (auto simp: follows_def same rows_ok_def list_all_iff)
  with True show ?thesis by simp
qed (use assms in \<open>auto intro: keeps_core\<close>)


lemma landed_fields [simp]:
  "landed_all env w (r\<lparr>tl_status := x0\<rparr>) step hs = landed_all env w r step hs"
  "landed_all env w (r\<lparr>tl_fundUsdcRaw := x1\<rparr>) step hs = landed_all env w r step hs"
  "landed_all env w (r\<lparr>tl_networkCostUsd := x2\<rparr>) step hs = landed_all env w r step hs"
  "landed_all env w (r\<lparr>tl_fundSignature := x3\<rparr>) step hs = landed_all env w r step hs"
  "landed_all env w (r\<lparr>tl_createTx := x4\<rparr>) step hs = landed_all env w r step hs"
  "landed_all env w (r\<lparr>tl_createSignature := x5\<rparr>) step hs = landed_all env w r step hs"
  "landed_all env w (r\<lparr>tl_tokenAddress := x6\<rparr>) step hs = landed_all env w r step hs"
  "landed_all env w (r\<lparr>tl_failureReason := x7\<rparr>) step hs = landed_all env w r step hs"
  "landed_all env w (r\<lparr>tl_fundTx := x8\<rparr>) step hs = landed_all env w r step hs"
  by (simp_all add: landed_all_def split: stored_step.split)

lemma evidence_fields [simp]:
  "funded_by env w (r\<lparr>tl_status := x0\<rparr>) s = funded_by env w r s"
  "funded_by env w (r\<lparr>tl_fundUsdcRaw := x1\<rparr>) s = funded_by env w r s"
  "funded_by env w (r\<lparr>tl_networkCostUsd := x2\<rparr>) s = funded_by env w r s"
  "funded_by env w (r\<lparr>tl_fundSignature := x3\<rparr>) s = funded_by env w r s"
  "funded_by env w (r\<lparr>tl_createTx := x4\<rparr>) s = funded_by env w r s"
  "funded_by env w (r\<lparr>tl_createSignature := x5\<rparr>) s = funded_by env w r s"
  "funded_by env w (r\<lparr>tl_tokenAddress := x6\<rparr>) s = funded_by env w r s"
  "funded_by env w (r\<lparr>tl_failureReason := x7\<rparr>) s = funded_by env w r s"
  "created_by env w (r\<lparr>tl_status := x0\<rparr>) s = created_by env w r s"
  "created_by env w (r\<lparr>tl_fundUsdcRaw := x1\<rparr>) s = created_by env w r s"
  "created_by env w (r\<lparr>tl_networkCostUsd := x2\<rparr>) s = created_by env w r s"
  "created_by env w (r\<lparr>tl_fundSignature := x3\<rparr>) s = created_by env w r s"
  "created_by env w (r\<lparr>tl_createTx := x4\<rparr>) s = created_by env w r s"
  "created_by env w (r\<lparr>tl_createSignature := x5\<rparr>) s = created_by env w r s"
  "created_by env w (r\<lparr>tl_tokenAddress := x6\<rparr>) s = created_by env w r s"
  "created_by env w (r\<lparr>tl_failureReason := x7\<rparr>) s = created_by env w r s"
  "created_by env w (r\<lparr>tl_fundTx := x8\<rparr>) s = created_by env w r s"
  by (simp_all add: funded_by_def created_by_def)

lemma built_keeps:
  assumes "rows_ok env w" "builders_ok w (i # bs)"
  shows "step_keeps env w bs None (update_launch i (\<lambda>r. r\<lparr>tl_fundTx := Some st, tl_fundUsdcRaw := u, tl_networkCostUsd := n\<rparr>) w)"
proof (rule write_keeps [where c = "PrepareBuilt i x"])
  fix r
  assume r: "r \<in> set (lw_launches w)" "tl_id r = i"
  have "launch_ok env w r" using assms(1) r(1) by (simp add: rows_ok_def list_all_iff)
  moreover have none: "tl_fundTx r = None" using assms(2) r by (auto simp: builders_ok_def)
  ultimately show "follows r (r\<lparr>tl_fundTx := Some st, tl_fundUsdcRaw := u, tl_networkCostUsd := n\<rparr>)
      \<and> launch_ok env w (r\<lparr>tl_fundTx := Some st, tl_fundUsdcRaw := u, tl_networkCostUsd := n\<rparr>)"
    by (auto simp: follows_def launch_ok_def) (auto simp: funded_by_def)
qed (use assms in \<open>auto simp: builders_ok_def\<close>)

lemma funded_keeps:
  assumes "rows_ok env w" "builders_ok w bs" "row_seen w q" "funded_by env w q s" "unique_fund (tl_id q) s w"
  shows "step_keeps env w bs (Some (Unlocking (tl_id q))) (update_launch (tl_id q) (\<lambda>r. r\<lparr>tl_status := Funded, tl_fundSignature := Some s\<rparr>) w)"
proof (rule write_keeps [where c = "Unlocking i"])
  fix r
  assume r: "r \<in> set (lw_launches w)" "tl_id r = tl_id q"
  have "launch_ok env w r" using assms(1) r(1) by (simp add: rows_ok_def list_all_iff)
  moreover have "funded_by env w r s" by (rule funded_by_follows [OF assms(4) row_by_id [OF assms(1,3) r]])
  ultimately show "follows r (r\<lparr>tl_status := Funded, tl_fundSignature := Some s\<rparr>)
      \<and> launch_ok env w (r\<lparr>tl_status := Funded, tl_fundSignature := Some s\<rparr>)"
    by (auto simp: follows_def launch_ok_def)
qed (use assms in auto)

lemma created_keeps:
  assumes "rows_ok env w" "builders_ok w bs" "row_seen w q" "tl_fundSignature q \<noteq> None"
  shows "step_keeps env w bs None
     ((update_launch (tl_id q) (\<lambda>r. r\<lparr>tl_status := Creating, tl_createTx := Some st, tl_tokenAddress := t\<rparr>) w)\<lparr>lw_handed := (tl_id q, st) # lw_handed w\<rparr>)"
proof -
  define w1 where "w1 = w\<lparr>lw_handed := (tl_id q, st) # lw_handed w\<rparr>"
  have w1: "lw_launches w1 = lw_launches w" "lw_chain w1 = lw_chain w" "set (lw_handed w) \<subseteq> set (lw_handed w1)"
    "(tl_id q, st) \<in> set (lw_handed w1)" by (auto simp: w1_def)
  have l: "later w w1" using w1 by (auto simp: later_def follows_self)
  have ok1: "launch_ok env w1 r" if "r \<in> set (lw_launches w)" for r
    using assms(1) that w1 by (auto simp: rows_ok_def list_all_iff intro: launch_ok_later)
  have rows1: "rows_ok env w1" using assms(1) ok1 w1 by (simp add: rows_ok_def list_all_iff)
  have "step_keeps env w1 bs None (update_launch (tl_id q) (\<lambda>r. r\<lparr>tl_status := Creating, tl_createTx := Some st, tl_tokenAddress := t\<rparr>) w1)"
  proof (rule write_keeps [where c = "Unlocking i"])
    fix r
    assume "r \<in> set (lw_launches w1)" and id: "tl_id r = tl_id q"
    then have r: "r \<in> set (lw_launches w)" by (simp add: w1)
    from row_by_id [OF assms(1,3) r id] assms(4) have "tl_fundSignature r \<noteq> None" by (simp add: follows_def)
    with ok1 [OF r] id w1(4) show "follows r (r\<lparr>tl_status := Creating, tl_createTx := Some st, tl_tokenAddress := t\<rparr>)
        \<and> launch_ok env w1 (r\<lparr>tl_status := Creating, tl_createTx := Some st, tl_tokenAddress := t\<rparr>)"
      by (auto simp: follows_def launch_ok_def)
  qed (use rows1 assms(2) w1 in \<open>auto simp: builders_ok_def\<close>)
  moreover have "update_launch (tl_id q) f w1 = (update_launch (tl_id q) f w)\<lparr>lw_handed := (tl_id q, st) # lw_handed w\<rparr>" for f
    by (simp add: w1_def update_launch_def)
  moreover have "later w w'" if "later w1 w'" for w'
    using l that unfolding later_def by (meson follows_trans order_trans)
  ultimately show ?thesis by (simp add: step_keeps_def)
qed

lemma live_keeps:
  assumes "rows_ok env w" "builders_ok w bs" "row_seen w q" "tl_fundSignature q \<noteq> None" "created_by env w q s"
    "unique_create (tl_id q) s w" "d = None \<or> (\<exists>e. d = Some e \<and> builder e = [] \<and> (\<forall>w. call_ok env w e))"
  shows "step_keeps env w bs d
     (update_launch (tl_id q) (\<lambda>r. r\<lparr>tl_status := Live, tl_createSignature := Some s, tl_failureReason := None, tl_tokenAddress := t r\<rparr>) w)"
proof (rule write_keeps [where c = "Unlocking i"])
  fix r
  assume r: "r \<in> set (lw_launches w)" "tl_id r = tl_id q"
  have "launch_ok env w r" using assms(1) r(1) by (simp add: rows_ok_def list_all_iff)
  moreover have f: "follows q r" by (rule row_by_id [OF assms(1,3) r])
  then have "created_by env w r s" by (rule created_by_follows [OF assms(5)])
  moreover have "tl_fundSignature r \<noteq> None" using f assms(4) by (simp add: follows_def)
  ultimately show "follows r (r\<lparr>tl_status := Live, tl_createSignature := Some s, tl_failureReason := None, tl_tokenAddress := t r\<rparr>)
      \<and> launch_ok env w (r\<lparr>tl_status := Live, tl_createSignature := Some s, tl_failureReason := None, tl_tokenAddress := t r\<rparr>)"
    by (auto simp: follows_def launch_ok_def)
qed (use assms in auto)


lemma launch_step_keeps:
  assumes "launch_step env a c w = (c', w')" "rows_ok env w" "call_ok env w c" "builders_ok w (builder c @ bs)"
    "truthful (lw_chain w) (an_client a)"
  shows "step_keeps env w bs c' w'"
proof (cases c)
  case (PrepareStart u i)
  with assms show ?thesis by (auto intro!: keeps_core split: if_splits)
next
  case (PrepareChecked u i)
  with assms prepare_keeps [of env w bs u i] show ?thesis by (auto simp: Let_def)
next
  case (PrepareBuilding r)
  with assms show ?thesis by (auto simp: step_keeps_def builders_ok_def split: sum.splits)
next
  case (PrepareBuilt i s)
  with assms built_keeps [of env w i bs] show ?thesis by (cases "an_db a") (auto intro: read_keeps [where c = "PrepareBuilt i s"])
next
  case (FundStart u i p)
  with assms show ?thesis by (auto intro!: keeps_core dest: ownD(1) split: if_splits option.splits)
next
  case (FundRead r p)
  with assms show ?thesis by (auto intro!: keeps_core simp: take_lock_def split: if_splits option.splits)
next
  case (FundLocked r p)
  with assms have "call_ok env w (FundSent r (submitFunding env a r p))"
    by (cases "submitFunding env a r p") (auto dest: submitFunding_OkD)
  with FundLocked assms show ?thesis by (auto intro!: keeps_core)
next
  case (FundSent r x)
  with assms funded_keeps [of env w bs r] show ?thesis by (cases x) (auto intro: keeps_core split: if_splits)
next
  case (FundFailed i e)
  with assms failure_keeps [of env w bs i "an_db a" e] show ?thesis by auto
next
  case (CreateStart u i)
  with assms(1) have "call_ok env w d \<and> builder d = []" if "c' = Some d" for d
    using that ownD [OF _ assms(2), of u i] by (auto split: if_splits option.splits)
  with CreateStart assms show ?thesis by (intro keeps_core) auto
next
  case (CreateRead r)
  with assms show ?thesis by (auto intro!: keeps_core split: sum.splits)
next
  case (CreateBuilt r s)
  with assms created_keeps [of env w bs r] show ?thesis by (cases "an_db a") (auto intro: keeps_core)
next
  case (SubmitStart u i p)
  with assms(1) have "call_ok env w d \<and> builder d = []" if "c' = Some d" for d
    using that ownD [OF _ assms(2), of u i] by (auto split: if_splits option.splits)
  with SubmitStart assms show ?thesis by (intro keeps_core) auto
next
  case (SubmitRead r p)
  with assms show ?thesis by (auto intro!: keeps_core simp: take_lock_def split: if_splits option.splits)
next
  case (SubmitLocked r p)
  with assms have "call_ok env w (SubmitSent r (submitCreate env a r p))"
    by (cases "submitCreate env a r p") (auto dest: submitCreate_OkD)
  with SubmitLocked assms show ?thesis by (auto intro!: keeps_core)
next
  case (SubmitSent r x)
  with assms live_keeps [of env w bs r] show ?thesis
    by (cases x) (auto intro: keeps_core simp: Let_def split: if_splits option.splits)
next
  case (SubmitFailed i e)
  with assms failure_keeps [of env w bs i "an_db a" e] show ?thesis by auto
next
  case (Recording r c)
  with assms show ?thesis by (auto intro!: keeps_core split: if_splits)
next
  case (Unlocking i)
  with assms show ?thesis by (auto intro!: keeps_core split: if_splits)
qed


subsection \<open>Every reachable state\<close>

text \<open>
  What can happen from empty books on: calls arrive, steps of any calls interleave with any answers of the outside,
  transactions are mined, locks run out, time passes.  The clients only report mined transactions.
\<close>

inductive launch_reach :: "launch_env \<Rightarrow> launch_system \<Rightarrow> bool" for env where
  books_empty: "lw_launches w = [] \<Longrightarrow> launch_reach env (w, [])"
| launch_event: "launch_reach env s \<Longrightarrow> (\<forall>n a. e = Step n a \<longrightarrow> truthful (lw_chain (fst s)) (an_client a))
    \<Longrightarrow> launch_reach env (launch_event_step env e s)"

lemma builders_append [simp]: "builders (cs @ ds) = builders cs @ builders ds" "builders (c # cs) = builder c @ builders cs" "builders [] = []"
  by (simp_all add: builders_def)

lemma builders_permute: "builders_ok w bs \<Longrightarrow> mset cs = mset bs \<Longrightarrow> builders_ok w cs"
  using mset_eq_imp_distinct_iff [of cs bs] mset_eq_setD [of cs bs] by (auto simp: builders_ok_def)

lemma update_nth_split: "n < length cs \<Longrightarrow> cs[n := d] = take n cs @ d # drop (Suc n) cs"
  by (rule upd_conv_take_nth_drop)

lemma launch_inv_step:
  assumes "launch_inv env (w, cs)" "n < length cs" "truthful (lw_chain w) (an_client a)"
  shows "launch_inv env (launch_event_step env (Step n a) (w, cs))"
proof -
  define pre where "pre = take n cs"
  define post where "post = drop (Suc n) cs"
  have cs: "cs = pre @ cs ! n # post" using assms(2) by (simp add: pre_def post_def id_take_nth_drop)
  obtain c' w' where s: "launch_step env a (cs ! n) w = (c', w')" by fastforce
  from assms(1) have rows: "rows_ok env w" and calls: "list_all (call_ok env w) cs" and b: "builders_ok w (builders cs)"
    by (simp_all add: launch_inv_def)
  have "list_all (call_ok env w) (pre @ cs ! n # post)" using calls cs by simp
  then have c: "call_ok env w (cs ! n)" and others: "list_all (call_ok env w) (pre @ post)" by simp_all
  have "mset (builder (cs ! n) @ builders pre @ builders post) = mset (builders cs)" by (subst (2) cs) simp
  from builders_permute [OF b this] launch_step_keeps [OF s rows c _ assms(3)]
  have k: "step_keeps env w (builders pre @ builders post) c' w'" by simp
  then have "list_all (call_ok env w') (pre @ post)" using list_call_ok_later [OF others] by (simp add: step_keeps_def)
  moreover have "launch_event_step env (Step n a) (w, cs) = (w', pre @ (case c' of None \<Rightarrow> [] | Some d \<Rightarrow> [d]) @ post)"
    using s assms(2) by (simp add: pre_def post_def update_nth_split split: option.split)
  moreover have "builders_ok w' (builders (pre @ (case c' of None \<Rightarrow> [] | Some d \<Rightarrow> [d]) @ post))"
    by (rule builders_permute [where bs = "(case c' of None \<Rightarrow> [] | Some d \<Rightarrow> builder d) @ builders pre @ builders post"])
       (use k in \<open>simp_all add: step_keeps_def split: option.splits\<close>)
  ultimately show ?thesis using k by (auto simp: launch_inv_def step_keeps_def split: option.splits)
qed

lemma launch_inv_reach: "launch_reach env s \<Longrightarrow> launch_inv env s"
proof (induction rule: launch_reach.induct)
  case (books_empty w)
  then show ?case by (simp add: launch_inv_def rows_ok_def launches_distinct_def builders_ok_def)
next
  case (launch_event s e)
  obtain w cs where s: "s = (w, cs)" by fastforce
  show ?case
  proof (cases e)
    case (Arrives c)
    have "is_start c \<Longrightarrow> call_ok env w c \<and> builder c = []" by (cases c) auto
    with Arrives s launch_event.IH show ?thesis by (auto simp: launch_inv_def)
  next
    case (Step n a)
    with s launch_event show ?thesis by (cases "n < length cs") (simp_all add: launch_inv_step del: launch_event_step.simps(2), simp)
  next
    case (Mined h tx ok)
    let ?w' = "w\<lparr>lw_chain := lw_chain w @ [(h, tx, ok)]\<rparr>"
    have l: "later w ?w'" by (auto simp: later_def follows_self)
    have "rows_ok env ?w'" using launch_event.IH s by (auto simp: launch_inv_def rows_ok_def list_all_iff intro: launch_ok_later)
    with Mined s launch_event.IH list_call_ok_later [OF _ l] show ?thesis by (simp add: launch_inv_def builders_ok_def)
  next
    case (LockExpires i)
    with s launch_event.IH rows_ok_core [of "w\<lparr>lw_locks := removeAll i (lw_locks w)\<rparr>" w] show ?thesis
      by (simp add: launch_inv_def list_all_iff)
  next
    case (Clock t)
    with s launch_event.IH rows_ok_core [of "w\<lparr>lw_now := max (lw_now w) t\<rparr>" w] show ?thesis
      by (simp add: launch_inv_def list_all_iff)
  qed
qed


text \<open>C38: Every launch past prepared was paid: on an EVM launchpad its stored funding step is a list of transactions
  that all succeeded on-chain as handed out, sent from the creator's wallet, and the last one's hash is stored.  A
  live coin has the same evidence for a create step that was handed out for it, under its first hash.  No two
  launches share a stored funding or create hash, however many calls overlap and locks are lost.
\<close>

theorem launches_have_evidence:
  assumes "launch_reach env (w, cs)" "r \<in> set (lw_launches w)"
  shows "(tl_status r = Prepared \<or> (\<exists>s. tl_fundSignature r = Some s \<and> funded_by env w r s))
    \<and> (tl_status r \<noteq> Live \<or> (\<exists>s. tl_createSignature r = Some s \<and> created_by env w r s))
    \<and> (\<forall>q\<in>set (lw_launches w).
         (tl_fundSignature r \<noteq> None \<and> tl_fundSignature r = tl_fundSignature q
          \<or> tl_createSignature r \<noteq> None \<and> tl_createSignature r = tl_createSignature q) \<longrightarrow> q = r)"
proof -
  from launch_inv_reach [OF assms(1)] have d: "launches_distinct (lw_launches w)" and ok: "launch_ok env w r"
    using assms(2) by (auto simp: launch_inv_def rows_ok_def list_all_iff)
  have "q = r" if "q \<in> set (lw_launches w)" "tl_id r = tl_id q" for q
  proof -
    have "distinct (map tl_id (lw_launches w))" using d by (simp add: launches_distinct_def)
    with that assms(2) show ?thesis by (simp add: distinct_map inj_on_def)
  qed
  with d assms(2) have "\<forall>q\<in>set (lw_launches w).
         (tl_fundSignature r \<noteq> None \<and> tl_fundSignature r = tl_fundSignature q
          \<or> tl_createSignature r \<noteq> None \<and> tl_createSignature r = tl_createSignature q) \<longrightarrow> q = r"
    unfolding launches_distinct_def by metis
  with ok show ?thesis by (auto simp: launch_ok_def)
qed

text \<open>A client that reads the chain; one launch taken to live, its create tapped twice.\<close>

definition demo_hash :: "char \<Rightarrow> string" where "demo_hash c = ''0x'' @ replicate 64 c"

definition demo_env :: launch_env where
  "demo_env = \<lparr>en_same = (\<lambda>a b. Ok (a = b)), en_famous = (\<lambda>s. s = ''btc''), en_feeUsd = Fin 3\<rparr>"

definition demo_world :: launch_world where
  "demo_world = \<lparr>lw_launches = [], lw_wallets = [\<lparr>wa_address = ''0xw'', wa_userId = ''u'', wa_verified = True, wa_solana = False\<rparr>],
     lw_images = [(''img'', ''u'')], lw_locks = [], lw_chain = [], lw_handed = [], lw_buys = [], lw_now = 0\<rparr>"

definition demo_tx :: LaunchEvmTx where
  "demo_tx = \<lparr>le_chainId = 8453, le_to = ''0xr'', le_data = ''0x'', le_value = ''0''\<rparr>"

definition demo_mined :: onchain_tx where
  "demo_mined = \<lparr>oc_from = ''0xw'', oc_to = Some ''0xr'', oc_value = 0, oc_data = ''0x''\<rparr>"

definition demo_answer :: "char list \<Rightarrow> launch_answer" where
  "demo_answer cs =
     \<lparr>an_redis = True, an_db = True, an_available = True,
      an_client = chain_view (map (\<lambda>c. (demo_hash c, demo_mined, True)) cs),
      an_step = Ok \<lparr>ps_transactionBase64 = None, ps_evmTransactions = Some [demo_tx], ps_networkCostUsd = Some (Fin 1),
                    ps_fundUsdcRaw = Some ''1000000'', ps_tokenAddress = Some ''0xcoin''\<rparr>,
      an_solanaFund = Err TypeError, an_solanaCreate = Err TypeError, an_code = Ok True, an_created = Ok None, an_tokens = None\<rparr>"

definition demo_proof :: "char \<Rightarrow> LaunchProof" where
  "demo_proof c = \<lparr>lp_signedTxBase64 = None, lp_txHashes = Some [demo_hash c]\<rparr>"

definition demo_input :: LaunchInput where
  "demo_input = \<lparr>li_launchpad = ''clanker'', li_walletAddress = ''0xw'', li_name = ''Coin'', li_symbol = ''coin'',
     li_imageId = ''img'', li_devBuyUsd = Fin 0\<rparr>"

definition demo_events :: "launch_event list" where
  "demo_events =
     Arrives (PrepareStart ''u'' demo_input) # replicate 4 (Step 0 (demo_answer []))
     @ [Mined (demo_hash CHR ''1'') demo_mined True, Arrives (FundStart ''u'' 0 (demo_proof CHR ''1''))]
     @ replicate 5 (Step 0 (demo_answer [CHR ''1'']))
     @ [Arrives (CreateStart ''u'' 0), Arrives (CreateStart ''u'' 0), Step 1 (demo_answer [CHR ''1'']), Step 1 (demo_answer [CHR ''1''])]
     @ replicate 3 (Step 0 (demo_answer [CHR ''1'']))
     @ [Mined (demo_hash CHR ''2'') demo_mined True, Arrives (SubmitStart ''u'' 0 (demo_proof CHR ''2''))]
     @ replicate 6 (Step 1 (demo_answer [CHR ''1'', CHR ''2'']))"


fun honest_events :: "launch_event list \<Rightarrow> (string \<times> onchain_tx \<times> bool) list \<Rightarrow> bool" where
  "honest_events [] chain = True"
| "honest_events (Step n a # es) chain = (truthful chain (an_client a) \<and> honest_events es chain)"
| "honest_events (Mined h tx ok # es) chain = honest_events es (chain @ [(h, tx, ok)])"
| "honest_events (e # es) chain = honest_events es chain"

lemma launch_step_chain: "lw_chain (snd (launch_step env a c w)) = lw_chain w"
  by (cases "(env, a, c, w)" rule: launch_step.cases)
     (auto simp: Let_def take_lock_def split: option.split sum.split)

lemma reach_run:
  "launch_reach env s \<Longrightarrow> honest_events es (lw_chain (fst s)) \<Longrightarrow> launch_reach env (run_launches env es s)"
proof (induction es arbitrary: s)
  case Nil
  then show ?case by (simp add: run_launches_def)
next
  case (Cons e es)
  obtain w cs where s: "s = (w, cs)" by fastforce
  have "launch_reach env (launch_event_step env e s)" using Cons.prems by (intro launch_event) auto
  moreover have "honest_events es (lw_chain (fst (launch_event_step env e s)))"
    using Cons.prems(2) s launch_step_chain [of env _ _ w]
    by (cases e) (auto split: prod.split option.split, (metis snd_conv)+)
  ultimately show ?case using Cons.IH by (simp add: run_launches_def)
qed

definition demo_end :: launch_system where "demo_end = run_launches demo_env demo_events (demo_world, [])"

lemma demo_live:
  "map (\<lambda>r. (tl_status r, tl_fundSignature r, tl_createSignature r)) (lw_launches (fst demo_end))
     = [(Live, Some (demo_hash CHR ''1''), Some (demo_hash CHR ''2''))]"
  by code_simp


lemma demo_reach: "launch_reach demo_env demo_end"
  unfolding demo_end_def
  by (rule reach_run, rule books_empty) (simp_all add: demo_world_def demo_events_def demo_answer_def numeral_eq_Suc)

lemma launches_have_evidence_witness:
  "length (lw_launches (fst demo_end)) = 1 \<and> tl_status (hd (lw_launches (fst demo_end))) = Live
   \<and> (\<exists>s. tl_fundSignature (hd (lw_launches (fst demo_end))) = Some s \<and> funded_by demo_env (fst demo_end) (hd (lw_launches (fst demo_end))) s)
   \<and> (\<exists>s. tl_createSignature (hd (lw_launches (fst demo_end))) = Some s \<and> created_by demo_env (fst demo_end) (hd (lw_launches (fst demo_end))) s)"
proof -
  obtain r where r: "lw_launches (fst demo_end) = [r]" "tl_status r = Live" using demo_live by auto
  have "launch_reach demo_env (fst demo_end, snd demo_end)" using demo_reach by simp
  from launches_have_evidence [OF this, of r] r show ?thesis by simp
qed

subsection \<open>What overlapping calls can undo\<close>

text \<open>
  \<open>create\<close> takes no lock and writes its result whatever the status has become: the second of two taps, still
  building while the coin goes live, puts the live launch back to creating with a new create step.
\<close>

lemma second_create_undoes_live:
  "map (\<lambda>r. (tl_status r, tl_createSignature r))
     (lw_launches (fst (launch_event_step demo_env (Step 0 (demo_answer [CHR ''1''])) demo_end)))
   = [(Creating, Some (demo_hash CHR ''2''))]"
  by code_simp

text \<open>
  \<open>fund\<close> checks the status before it takes the lock: a second tap that read the launch as prepared, and whose
  Redis call comes late, runs the step again and puts the launch back to funded, whatever it has become.
\<close>

lemma second_fund_undoes_live:
  assumes "an_redis a" "an_db a" "tl_id r \<notin> set (lw_locks w)" "submitFunding env a r p = Ok s" "unique_fund (tl_id r) s w"
    "launch_of_id (tl_id r) w = Some q" "tl_status q = Live"
  shows "map_option tl_status (launch_of_id (tl_id r) (fst (run_launches env [Step 0 a, Step 0 a, Step 0 a] (w, [FundRead r p])))) = Some Funded"
proof -
  have find: "find (\<lambda>x. tl_id x = i) (update_where (\<lambda>x. tl_id x = i) g rs) = map_option g (find (\<lambda>x. tl_id x = i) rs)"
    if "\<And>x. tl_id (g x) = tl_id x" for g i rs using that by (induction rs) auto
  show ?thesis using assms
    by (simp add: run_launches_def take_lock_def unique_fund_def update_launch_def launch_of_id_def find option.map_comp comp_def)
qed

text \<open>
  A hash is checked against the transactions of its own step only: the same transfer counts again for any other
  launch that was handed out the same transaction, as long as the step's last hash differs.
\<close>

lemma transfer_counts_twice:
  assumes "verify_each same client wallet [want] [h] = Ok ()" "verify_each same client wallet [swap1] [h1] = Ok ()"
    "verify_each same client wallet [swap2] [h2] = Ok ()"
  shows "verifyEvmTxs same client wallet [want, swap1] \<lparr>lp_signedTxBase64 = None, lp_txHashes = Some [h, h1]\<rparr> = Ok ()
    \<and> verifyEvmTxs same client wallet [want, swap2] \<lparr>lp_signedTxBase64 = None, lp_txHashes = Some [h, h2]\<rparr> = Ok ()"
  using assms by (auto simp: verifyEvmTxs_def bind_result_Ok_iff split: option.splits if_splits)

text \<open>The lock is deleted by name: a step that outlives its 90 seconds deletes the lock of the step after it.\<close>

lemma late_unlock_frees_other:
  assumes "an_redis a" "tl_id r \<in> set (lw_locks w)"
  shows "take_lock a (tl_id r) w = None
    \<and> take_lock a (tl_id r) (fst (run_launches env [Step 0 a] (w, [Unlocking (tl_id r)]))) \<noteq> None"
  using assms by (simp add: run_launches_def take_lock_def)

end
