(* ===== verification/Identity.thy ===== *)
theory Identity
  imports Trading
begin

section \<open>Sessions and wallet ownership\<close>

text \<open>
  \<open>apps/api/src/identity\<close>: \<open>identity.service.ts\<close> (anonymous sessions, tokens), \<open>wallet.service.ts\<close> and
  \<open>solana-wallet.service.ts\<close> (challenges, their verification, unlinking), \<open>account-adoption.ts\<close>, and the
  messages of \<open>packages/domain/src/wallet-auth.ts\<close>.  Each statement of the database is one step and the calls
  interleave.  Random bytes, the signature check and the clock are answers of the outside; \<open>to_iso\<close> is
  \<open>toISOString\<close>.  A token is its payload, which only the server can make.
\<close>

subsection \<open>The messages a wallet signs\<close>

definition newline :: char where "newline = char_of (10 :: nat)"

fun join_lines :: "string list \<Rightarrow> string" where
  "join_lines [] = ''''"
| "join_lines [l] = l"
| "join_lines (l # ls) = l @ newline # join_lines ls"

definition WALLET_CHALLENGE_TTL_MINUTES :: int where "WALLET_CHALLENGE_TTL_MINUTES = 5"

record SiweMessageParams =
  si_domain :: string
  si_address :: string
  si_statement :: string
  si_uri :: string
  si_chainId :: int
  si_nonce :: string
  si_issuedAt :: int
  si_expirationTime :: int

definition buildSiweMessage :: "(int \<Rightarrow> string) \<Rightarrow> SiweMessageParams \<Rightarrow> string" where
  "buildSiweMessage to_iso p =
     join_lines
       [si_domain p @ '' wants you to sign in with your Ethereum account:'',
        si_address p,
        '''',
        si_statement p,
        '''',
        ''URI: '' @ si_uri p,
        ''Version: 1'',
        ''Chain ID: '' @ string_of_int (si_chainId p),
        ''Nonce: '' @ si_nonce p,
        ''Issued At: '' @ to_iso (si_issuedAt p),
        ''Expiration Time: '' @ to_iso (si_expirationTime p)]"

record SolanaSignInMessageParams =
  so_domain :: string
  so_address :: string
  so_statement :: string
  so_nonce :: string
  so_issuedAt :: int
  so_expirationTime :: int

definition buildSolanaSignInMessage :: "(int \<Rightarrow> string) \<Rightarrow> SolanaSignInMessageParams \<Rightarrow> string" where
  "buildSolanaSignInMessage to_iso p =
     join_lines
       [so_domain p @ '' wants you to sign in with your Solana account:'',
        so_address p,
        '''',
        so_statement p,
        '''',
        ''Nonce: '' @ so_nonce p,
        ''Issued At: '' @ to_iso (so_issuedAt p),
        ''Expiration Time: '' @ to_iso (so_expirationTime p)]"

text \<open>Random bytes as text: \<open>toString('hex')\<close>, and the alphabet of referral codes.\<close>

definition hex_of_bytes :: "nat list \<Rightarrow> string" where
  "hex_of_bytes bs = concat (map (\<lambda>b. [''0123456789abcdef'' ! (b div 16 mod 16), ''0123456789abcdef'' ! (b mod 16)]) bs)"

definition REFERRAL_CODE_ALPHABET :: string where "REFERRAL_CODE_ALPHABET = ''23456789ABCDEFGHJKMNPQRSTUVWXYZ''"
definition REFERRAL_CODE_LENGTH :: nat where "REFERRAL_CODE_LENGTH = 8"
definition MAX_REFERRAL_CODE_ATTEMPTS :: nat where "MAX_REFERRAL_CODE_ATTEMPTS = 5"

definition generateReferralCode :: "nat list \<Rightarrow> string" where
  "generateReferralCode bytes = map (\<lambda>b. REFERRAL_CODE_ALPHABET ! (b mod length REFERRAL_CODE_ALPHABET)) (take REFERRAL_CODE_LENGTH bytes)"

definition upper_letter :: "char \<Rightarrow> char" where
  "upper_letter c = (if 97 \<le> char_code c \<and> char_code c \<le> 122 then char_of (char_code c - 32) else c)"

subsection \<open>The tables\<close>

datatype wallet_chain = EVM | SOLANA

record user_row =
  us_id :: string
  us_username :: "string option"
  us_referralCode :: string
  us_referredByUserId :: "string option"

record wallet_row =
  wr_address :: string
  wr_chain :: wallet_chain
  wr_userId :: "string option"
  wr_firstSeenAt :: int
  wr_verifiedAt :: "int option"
  wr_lastUsedAt :: "int option"

record challenge_row =
  ch_address :: string
  ch_nonce :: string
  ch_message :: string
  ch_userId :: string
  ch_expiresAt :: int
  ch_usedAt :: "int option"

text \<open>
  What a finished verification did: a wallet linked to the session's user, or a session handed out for the
  account the wallet already has.
\<close>

datatype outcome =
    Linked wallet_chain challenge_row
  | Resumed wallet_chain challenge_row string

text \<open>
  \<open>iw_signed\<close> is what the holder of an address's key has signed so far; \<open>iw_done\<close> the outcomes of the calls;
  \<open>iw_sessions\<close> the users anonymous sessions were made for.
\<close>

record identity_world =
  iw_users :: "user_row list"
  iw_wallets :: "wallet_row list"
  iw_walletChallenges :: "challenge_row list"
  iw_solanaWalletChallenges :: "challenge_row list"
  iw_trades :: "string list"
  iw_solanaTrades :: "string list"
  iw_now :: int
  iw_signed :: "(wallet_chain \<times> string \<times> string) list"
  iw_done :: "outcome list"
  iw_sessions :: "string list"

record identity_env =
  ie_domain :: string
  ie_iso :: "int \<Rightarrow> string"

record identity_answer =
  ia_db :: bool
  ia_bytes :: "nat list"
  ia_uuid :: string
  ia_signature :: bool

definition challenges :: "wallet_chain \<Rightarrow> identity_world \<Rightarrow> challenge_row list" where
  "challenges f w = (case f of EVM \<Rightarrow> iw_walletChallenges w | SOLANA \<Rightarrow> iw_solanaWalletChallenges w)"

definition set_challenges :: "wallet_chain \<Rightarrow> challenge_row list \<Rightarrow> identity_world \<Rightarrow> identity_world" where
  "set_challenges f cs w =
     (case f of EVM \<Rightarrow> w\<lparr>iw_walletChallenges := cs\<rparr> | SOLANA \<Rightarrow> w\<lparr>iw_solanaWalletChallenges := cs\<rparr>)"

definition SIGN_IN_STATEMENT :: string where
  "SIGN_IN_STATEMENT = ''Sign in to Kamby to verify wallet ownership. This request will not trigger a blockchain transaction or cost any gas.''"

definition canonical_address :: "wallet_chain \<Rightarrow> string \<Rightarrow> string option" where
  "canonical_address f a =
     (case f of
        EVM \<Rightarrow> if isEvmAddress a then Some (normalizeEvmAddress a) else None
      | SOLANA \<Rightarrow> if isSolanaAddress a then Some a else None)"

definition challenge_message :: "identity_env \<Rightarrow> wallet_chain \<Rightarrow> string \<Rightarrow> string \<Rightarrow> int \<Rightarrow> int \<Rightarrow> string" where
  "challenge_message env f address nonce issuedAt expiresAt =
     (case f of
        EVM \<Rightarrow> buildSiweMessage (ie_iso env)
          \<lparr>si_domain = ie_domain env, si_address = address, si_statement = SIGN_IN_STATEMENT, si_uri = ie_domain env,
           si_chainId = 8453, si_nonce = nonce, si_issuedAt = issuedAt, si_expirationTime = expiresAt\<rparr>
      | SOLANA \<Rightarrow> buildSolanaSignInMessage (ie_iso env)
          \<lparr>so_domain = ie_domain env, so_address = address, so_statement = SIGN_IN_STATEMENT, so_nonce = nonce,
           so_issuedAt = issuedAt, so_expirationTime = expiresAt\<rparr>)"

subsection \<open>The calls, step by step\<close>

text \<open>
  \<open>VerifyEmpty\<close> holds the owner \<open>accountToResume\<close> found and its four reads (one after the other here): the user's
  name, other wallets, trades and Solana trades.
\<close>

datatype identity_call =
    SessionCall "string option"
  | SessionCreate "string option" nat
  | ChallengeCall wallet_chain string string
  | VerifyCall wallet_chain string string
  | VerifySignature wallet_chain challenge_row
  | VerifyConsume wallet_chain challenge_row
  | VerifyOwner wallet_chain challenge_row
  | VerifyEmpty wallet_chain challenge_row string int "bool list"
  | VerifyKeep wallet_chain challenge_row string int
  | VerifyLink wallet_chain challenge_row int
  | UnlinkCall wallet_chain string string

definition empty_check :: "nat \<Rightarrow> string \<Rightarrow> identity_world \<Rightarrow> bool" where
  "empty_check k u w =
     (if k = 0 then (case find (\<lambda>r. us_id r = u) (iw_users w) of None \<Rightarrow> True | Some r \<Rightarrow> us_username r \<in> {None, Some ''''})
      else if k = 1 then \<not> list_ex (\<lambda>r. wr_userId r = Some u \<and> wr_verifiedAt r \<noteq> None) (iw_wallets w)
      else if k = 2 then u \<notin> set (iw_trades w)
      else u \<notin> set (iw_solanaTrades w))"

definition find_wallet :: "string \<Rightarrow> identity_world \<Rightarrow> wallet_row option" where
  "find_wallet a w = find (\<lambda>r. wr_address r = a) (iw_wallets w)"

definition update_wallets :: "(wallet_row \<Rightarrow> bool) \<Rightarrow> (wallet_row \<Rightarrow> wallet_row) \<Rightarrow> identity_world \<Rightarrow> identity_world" where
  "update_wallets p g w = w\<lparr>iw_wallets := update_where p g (iw_wallets w)\<rparr>"

definition link_wallet :: "wallet_chain \<Rightarrow> challenge_row \<Rightarrow> int \<Rightarrow> identity_world \<Rightarrow> identity_world" where
  "link_wallet f c t w =
     (case find_wallet (ch_address c) w of
        Some r \<Rightarrow>
          update_wallets (\<lambda>r. wr_address r = ch_address c)
            (\<lambda>r. r\<lparr>wr_userId := Some (ch_userId c), wr_verifiedAt := Some t, wr_lastUsedAt := Some t\<rparr>) w
      | None \<Rightarrow>
          w\<lparr>iw_wallets := iw_wallets w @
            [\<lparr>wr_address = ch_address c, wr_chain = f, wr_userId = Some (ch_userId c), wr_firstSeenAt = t, wr_verifiedAt = Some t,
              wr_lastUsedAt = Some t\<rparr>]\<rparr>)"

text \<open>A session's referrer, and one attempt to create its user with a fresh code (none on a collision).\<close>

definition referrer_of :: "string option \<Rightarrow> identity_world \<Rightarrow> string option" where
  "referrer_of code w =
     (case code of
        None \<Rightarrow> None
      | Some s \<Rightarrow> if s = '''' then None else map_option us_id (find (\<lambda>r. us_referralCode r = map upper_letter s) (iw_users w)))"

definition user_attempt :: "identity_answer \<Rightarrow> string option \<Rightarrow> identity_world \<Rightarrow> user_row option" where
  "user_attempt a referrer w =
     (let code = generateReferralCode (ia_bytes a) in
      if list_ex (\<lambda>r. us_referralCode r = code) (iw_users w) then None
      else Some \<lparr>us_id = ia_uuid a, us_username = None, us_referralCode = code, us_referredByUserId = referrer\<rparr>)"

fun identity_step :: "identity_env \<Rightarrow> identity_answer \<Rightarrow> identity_call \<Rightarrow> identity_world \<Rightarrow> identity_call option \<times> identity_world" where
  "identity_step env a (SessionCall code) w =
     (if \<not> ia_db a then (None, w)
      else (Some (SessionCreate (referrer_of code w) MAX_REFERRAL_CODE_ATTEMPTS), w))"
| "identity_step env a (SessionCreate referrer attempts) w =
     (if attempts = 0 \<or> \<not> ia_db a \<or> list_ex (\<lambda>r. us_id r = ia_uuid a) (iw_users w) then (None, w)
      else
        (case user_attempt a referrer w of
           None \<Rightarrow> (Some (SessionCreate referrer (attempts - 1)), w)
         | Some r \<Rightarrow> (None, w\<lparr>iw_users := iw_users w @ [r], iw_sessions := us_id r # iw_sessions w\<rparr>)))"
| "identity_step env a (ChallengeCall f userId address) w =
     (case canonical_address f address of
        None \<Rightarrow> (None, w)
      | Some addr \<Rightarrow>
          let nonce = hex_of_bytes (take 16 (ia_bytes a)); expiresAt = iw_now w + WALLET_CHALLENGE_TTL_MINUTES * 60000 in
          if \<not> ia_db a \<or> list_ex (\<lambda>c. ch_nonce c = nonce) (challenges f w) then (None, w)
          else (None, set_challenges f (challenges f w @
                  [\<lparr>ch_address = addr, ch_nonce = nonce, ch_message = challenge_message env f addr nonce (iw_now w) expiresAt,
                    ch_userId = userId, ch_expiresAt = expiresAt, ch_usedAt = None\<rparr>]) w))"
| "identity_step env a (VerifyCall f userId nonce) w =
     ((if \<not> ia_db a then None
       else case find (\<lambda>c. ch_nonce c = nonce) (challenges f w) of
         None \<Rightarrow> None
       | Some c \<Rightarrow> if ch_userId c \<noteq> userId \<or> ch_expiresAt c \<le> iw_now w then None else Some (VerifySignature f c)), w)"
| "identity_step env a (VerifySignature f c) w = ((if ia_signature a then Some (VerifyConsume f c) else None), w)"
| "identity_step env a (VerifyConsume f c) w =
     (if ia_db a \<and> list_ex (\<lambda>r. ch_nonce r = ch_nonce c \<and> ch_usedAt r = None) (challenges f w)
      then (Some (VerifyOwner f c),
            set_challenges f (update_where (\<lambda>r. ch_nonce r = ch_nonce c \<and> ch_usedAt r = None) (\<lambda>r. r\<lparr>ch_usedAt := Some (iw_now w)\<rparr>)
              (challenges f w)) w)
      else (None, w))"
| "identity_step env a (VerifyOwner f c) w =
     ((if \<not> ia_db a then None
       else case find_wallet (ch_address c) w of
         None \<Rightarrow> Some (VerifyLink f c (iw_now w))
       | Some r \<Rightarrow>
           (case wr_userId r of
              None \<Rightarrow> Some (VerifyLink f c (iw_now w))
            | Some owner \<Rightarrow>
                if owner = '''' \<or> wr_verifiedAt r = None \<or> owner = ch_userId c then Some (VerifyLink f c (iw_now w))
                else Some (VerifyEmpty f c owner (iw_now w) []))), w)"
| "identity_step env a (VerifyEmpty f c owner t checks) w =
     ((if \<not> ia_db a then None
       else let all = checks @ [empty_check (length checks) (ch_userId c) w] in
         if length all < 4 then Some (VerifyEmpty f c owner t all)
         else if list_all (\<lambda>b. b) all then Some (VerifyKeep f c owner t)
         else Some (VerifyLink f c t)), w)"
| "identity_step env a (VerifyKeep f c owner t) w =
     (if \<not> ia_db a \<or> find_wallet (ch_address c) w = None then (None, w)
      else
        let w' = update_wallets (\<lambda>r. wr_address r = ch_address c) (\<lambda>r. r\<lparr>wr_lastUsedAt := Some t\<rparr>) w in
        (None, (case find_wallet (ch_address c) w' of
                  None \<Rightarrow> w'
                | Some r \<Rightarrow> if wr_verifiedAt r = None then w' else w'\<lparr>iw_done := Resumed f c owner # iw_done w'\<rparr>)))"
| "identity_step env a (VerifyLink f c t) w =
     (if ia_db a then (None, (link_wallet f c t w)\<lparr>iw_done := Linked f c # iw_done w\<rparr>) else (None, w))"
| "identity_step env a (UnlinkCall f userId address) w =
     (case canonical_address f address of
        None \<Rightarrow> (None, w)
      | Some addr \<Rightarrow>
          (None, if ia_db a
                 then update_wallets (\<lambda>r. wr_address r = addr \<and> wr_userId r = Some userId \<and> (f = SOLANA \<longrightarrow> wr_chain r = SOLANA))
                        (\<lambda>r. r\<lparr>wr_userId := None, wr_verifiedAt := None\<rparr>) w
                 else w))"

text \<open>\<open>listWallets\<close> of the two services (the \<open>!\<close> of \<open>verifiedAt\<close> throws on null), and \<open>verifyToken\<close>.\<close>

definition listWallets :: "wallet_chain \<Rightarrow> string \<Rightarrow> identity_world \<Rightarrow> (string \<times> int) list option" where
  "listWallets f userId w =
     those (map (\<lambda>r. map_option (Pair (wr_address r)) (wr_verifiedAt r))
       (filter (\<lambda>r. wr_userId r = Some userId \<and> (f = SOLANA \<longrightarrow> wr_chain r = SOLANA)) (iw_wallets w)))"

definition verifyToken :: "('t \<Rightarrow> string option) \<Rightarrow> 't \<Rightarrow> identity_world \<Rightarrow> string option" where
  "verifyToken verify token w =
     (case verify token of
        None \<Rightarrow> None
      | Some sub \<Rightarrow> if sub = '''' then None else map_option us_id (find (\<lambda>r. us_id r = sub) (iw_users w)))"


subsection \<open>What can happen\<close>

text \<open>
  Calls arrive and their steps interleave; holders of keys sign what they like; wallets are observed trading, names
  are set, trades are stored, time passes.
\<close>

datatype identity_event =
    CallArrives identity_call
  | CallSteps nat identity_answer
  | KeySigns wallet_chain string string
  | WalletObserved string wallet_chain
  | NameSet string string
  | TradeStored string
  | SolanaTradeStored string
  | TimePasses int

fun starts_call :: "identity_call \<Rightarrow> bool" where
  "starts_call (SessionCall code) = True"
| "starts_call (ChallengeCall f u a) = True"
| "starts_call (VerifyCall f u n) = True"
| "starts_call (UnlinkCall f u a) = True"
| "starts_call c = False"

type_synonym identity_system = "identity_world \<times> identity_call list"

fun identity_event_step :: "identity_env \<Rightarrow> identity_event \<Rightarrow> identity_system \<Rightarrow> identity_system" where
  "identity_event_step env (CallArrives c) (w, cs) = (w, if starts_call c then cs @ [c] else cs)"
| "identity_event_step env (CallSteps n a) (w, cs) =
     (if n < length cs
      then case identity_step env a (cs ! n) w of
             (None, w') \<Rightarrow> (w', take n cs @ drop (Suc n) cs)
           | (Some c, w') \<Rightarrow> (w', cs[n := c])
      else (w, cs))"
| "identity_event_step env (KeySigns f a m) (w, cs) = (w\<lparr>iw_signed := (f, a, m) # iw_signed w\<rparr>, cs)"
| "identity_event_step env (WalletObserved a f) (w, cs) =
     (if find_wallet a w = None
      then w\<lparr>iw_wallets := iw_wallets w @ [\<lparr>wr_address = a, wr_chain = f, wr_userId = None, wr_firstSeenAt = iw_now w,
             wr_verifiedAt = None, wr_lastUsedAt = None\<rparr>]\<rparr> else w, cs)"
| "identity_event_step env (NameSet u n) (w, cs) =
     (w\<lparr>iw_users := update_where (\<lambda>r. us_id r = u) (\<lambda>r. r\<lparr>us_username := Some n\<rparr>) (iw_users w)\<rparr>, cs)"
| "identity_event_step env (TradeStored u) (w, cs) = (w\<lparr>iw_trades := u # iw_trades w\<rparr>, cs)"
| "identity_event_step env (SolanaTradeStored u) (w, cs) = (w\<lparr>iw_solanaTrades := u # iw_solanaTrades w\<rparr>, cs)"
| "identity_event_step env (TimePasses t) (w, cs) = (w\<lparr>iw_now := max (iw_now w) t\<rparr>, cs)"

text \<open>A signature passes only when the holder of the address's key signed that very message.\<close>

fun honest_step :: "identity_event \<Rightarrow> identity_system \<Rightarrow> bool" where
  "honest_step (CallSteps n a) (w, cs) =
     (if n < length cs \<and> ia_signature a
      then (case cs ! n of VerifySignature f c \<Rightarrow> (f, ch_address c, ch_message c) \<in> set (iw_signed w) | _ \<Rightarrow> True)
      else True)"
| "honest_step e s = True"

inductive identity_reach :: "identity_env \<Rightarrow> identity_system \<Rightarrow> bool" for env where
  nothing_yet: "iw_wallets w = [] \<Longrightarrow> iw_walletChallenges w = [] \<Longrightarrow> iw_solanaWalletChallenges w = [] \<Longrightarrow> iw_done w = []
    \<Longrightarrow> identity_reach env (w, [])"
| identity_event: "identity_reach env s \<Longrightarrow> honest_step e s \<Longrightarrow> identity_reach env (identity_event_step env e s)"

subsection \<open>Messages name their challenge\<close>

definition plain :: "string \<Rightarrow> bool" where "plain s \<longleftrightarrow> newline \<notin> set s"

definition env_plain :: "identity_env \<Rightarrow> bool" where
  "env_plain env \<longleftrightarrow> plain (ie_domain env) \<and> (\<forall>t. plain (ie_iso env t))"

lemma plain_simps [simp]: "plain []" "plain (c # s) \<longleftrightarrow> c \<noteq> newline \<and> plain s" "plain (s @ t) \<longleftrightarrow> plain s \<and> plain t"
  by (auto simp: plain_def)

lemma cut_at_newline: "plain s \<Longrightarrow> plain t \<Longrightarrow> s @ newline # x = t @ newline # y \<longleftrightarrow> s = t \<and> x = y"
proof (induction s arbitrary: t)
  case Nil
  then show ?case by (cases t) auto
next
  case (Cons c s)
  then show ?case by (cases t) auto
qed

lemma join_lines_inj:
  "list_all plain ls \<Longrightarrow> list_all plain ms \<Longrightarrow> length ls = length ms \<Longrightarrow> join_lines ls = join_lines ms \<Longrightarrow> ls = ms"
proof (induction ls arbitrary: ms rule: join_lines.induct)
  case (2 l)
  then show ?case by (cases ms) auto
next
  case (3 l k ls)
  from "3.prems"(3) obtain m n ms' where ms: "ms = m # n # ms'" by (auto simp: length_Suc_conv Suc_length_conv)
  with "3.prems" "3.IH" [of "n # ms'"] show ?case by (auto simp: cut_at_newline)
qed simp

lemma newline_prefix: "newline \<notin> set s \<Longrightarrow> plain s"
  by (simp add: plain_def)

lemma newline_char: "newline = CHR 0x0A"
  by (simp add: newline_def char_of_def bit_0 bit_Suc)

lemma plain_hex: "plain (hex_of_bytes bs)"
proof -
  have "list_all (\<lambda>d. ''0123456789abcdef'' ! d \<noteq> newline) [0..<16]" by (simp add: newline_char upt_rec)
  then have d: "''0123456789abcdef'' ! d \<noteq> newline" if "d < 16" for d using that by (simp add: list_all_iff)
  have "plain (concat (map (\<lambda>b. [''0123456789abcdef'' ! (b div 16 mod 16), ''0123456789abcdef'' ! (b mod 16)]) bs))"
  proof (induction bs)
    case (Cons b bs)
    with d [of "b div 16 mod 16"] d [of "b mod 16"] show ?case by simp
  qed simp
  then show ?thesis by (simp only: hex_of_bytes_def)
qed

lemma newline_not_hex: "\<not> is_hex newline"
  by (simp add: newline_char is_hex_def is_digit_def)

lemma newline_not_base58: "\<not> is_base58 newline"
  by (simp add: newline_char is_base58_def is_digit_def)

lemma plain_canonical:
  assumes "canonical_address f a = Some b"
  shows "plain b"
proof (cases f)
  case EVM
  with assms have "isEvmAddress b" by (auto simp: canonical_address_def normalizeEvmAddress_def isEvmAddress_lower split: if_splits)
  then have "take 2 b = ''0x''" "list_all is_hex (drop 2 b)" by (auto simp: isEvmAddress_def)
  then have "plain (take 2 b @ drop 2 b)" using newline_not_hex by (auto simp: plain_def list_all_iff newline_char)
  then show ?thesis by simp
next
  case SOLANA
  with assms have "list_all is_base58 b" by (auto simp: canonical_address_def isSolanaAddress_def split: if_splits)
  then show ?thesis using newline_not_base58 by (auto simp: plain_def list_all_iff)
qed

lemma plain_int: "plain (string_of_int 8453)"
  by (code_simp)

lemma join_lines_head: "join_lines (l # k # ls) = join_lines (m # j # ms) \<Longrightarrow> plain l \<Longrightarrow> plain m \<Longrightarrow> l = m"
  by (simp add: cut_at_newline)

lemma siwe_inj:
  assumes "buildSiweMessage to_iso p = buildSiweMessage to_iso q" "\<And>t. plain (to_iso t)"
    "list_all plain [si_domain p, si_address p, si_statement p, si_uri p, string_of_int (si_chainId p), si_nonce p]"
    "list_all plain [si_domain q, si_address q, si_statement q, si_uri q, string_of_int (si_chainId q), si_nonce q]"
  shows "si_address p = si_address q \<and> si_nonce p = si_nonce q"
  using join_lines_inj [OF _ _ _ assms(1) [unfolded buildSiweMessage_def]] assms(2-4) by (simp add: newline_char)

lemma solana_message_inj:
  assumes "buildSolanaSignInMessage to_iso p = buildSolanaSignInMessage to_iso q" "\<And>t. plain (to_iso t)"
    "list_all plain [so_domain p, so_address p, so_statement p, so_nonce p]" "list_all plain [so_domain q, so_address q, so_statement q, so_nonce q]"
  shows "so_address p = so_address q \<and> so_nonce p = so_nonce q"
  using join_lines_inj [OF _ _ _ assms(1) [unfolded buildSolanaSignInMessage_def]] assms(2-4) by (simp add: newline_char)

lemma families_differ:
  assumes "plain d"
  shows "buildSiweMessage to_iso \<lparr>si_domain = d, si_address = a, si_statement = s, si_uri = u, si_chainId = i, si_nonce = n, si_issuedAt = t, si_expirationTime = e\<rparr>
    \<noteq> buildSolanaSignInMessage to_iso \<lparr>so_domain = d, so_address = a', so_statement = s', so_nonce = n', so_issuedAt = t', so_expirationTime = e'\<rparr>"
proof
  assume "buildSiweMessage to_iso \<lparr>si_domain = d, si_address = a, si_statement = s, si_uri = u, si_chainId = i, si_nonce = n, si_issuedAt = t, si_expirationTime = e\<rparr>
    = buildSolanaSignInMessage to_iso \<lparr>so_domain = d, so_address = a', so_statement = s', so_nonce = n', so_issuedAt = t', so_expirationTime = e'\<rparr>"
  from join_lines_head [OF this [unfolded buildSiweMessage_def buildSolanaSignInMessage_def]] assms show False by (simp add: newline_char)
qed

lemma plain_statement: "plain SIGN_IN_STATEMENT"
  by (simp add: SIGN_IN_STATEMENT_def newline_char)

lemma challenge_message_inj:
  assumes "challenge_message env f a n t e = challenge_message env f' a' n' t' e'" "env_plain env" "plain a" "plain n" "plain a'" "plain n'"
  shows "f = f' \<and> a = a' \<and> n = n'"
proof -
  have env: "plain (ie_domain env)" "\<And>t. plain (ie_iso env t)" using assms(2) by (simp_all add: env_plain_def)
  show ?thesis
  proof (cases f)
    case EVM
    show ?thesis
    proof (cases f')
      case EVM
      with \<open>f = EVM\<close> assms(1) have "buildSiweMessage (ie_iso env)
          \<lparr>si_domain = ie_domain env, si_address = a, si_statement = SIGN_IN_STATEMENT, si_uri = ie_domain env, si_chainId = 8453,
           si_nonce = n, si_issuedAt = t, si_expirationTime = e\<rparr>
        = buildSiweMessage (ie_iso env)
          \<lparr>si_domain = ie_domain env, si_address = a', si_statement = SIGN_IN_STATEMENT, si_uri = ie_domain env, si_chainId = 8453,
           si_nonce = n', si_issuedAt = t', si_expirationTime = e'\<rparr>" by (simp add: challenge_message_def)
      from siwe_inj [OF this] env assms(3-6) plain_statement plain_int EVM \<open>f = EVM\<close> show ?thesis by simp
    next
      case SOLANA
      with \<open>f = EVM\<close> assms(1) families_differ [OF env(1)] show ?thesis by (simp add: challenge_message_def)
    qed
  next
    case SOLANA
    show ?thesis
    proof (cases f')
      case EVM
      with \<open>f = SOLANA\<close> assms(1) families_differ [OF env(1), THEN not_sym] show ?thesis by (simp add: challenge_message_def)
    next
      case SOLANA
      with \<open>f = SOLANA\<close> assms(1) have "buildSolanaSignInMessage (ie_iso env)
          \<lparr>so_domain = ie_domain env, so_address = a, so_statement = SIGN_IN_STATEMENT, so_nonce = n, so_issuedAt = t, so_expirationTime = e\<rparr>
        = buildSolanaSignInMessage (ie_iso env)
          \<lparr>so_domain = ie_domain env, so_address = a', so_statement = SIGN_IN_STATEMENT, so_nonce = n', so_issuedAt = t', so_expirationTime = e'\<rparr>"
        by (simp add: challenge_message_def)
      from solana_message_inj [OF this] env assms(3-6) plain_statement SOLANA \<open>f = SOLANA\<close> show ?thesis by simp
    qed
  qed
qed


subsection \<open>Ownership rests on keys\<close>

text \<open>
  \<open>proof_of\<close>: a challenge of the service for this address and user was used, and the key's holder signed its
  message.
\<close>

definition proof_of :: "identity_world \<Rightarrow> wallet_chain \<Rightarrow> string \<Rightarrow> string \<Rightarrow> string \<Rightarrow> bool" where
  "proof_of w f a u n \<longleftrightarrow>
     (\<exists>r\<in>set (challenges f w). ch_address r = a \<and> ch_userId r = u \<and> ch_nonce r = n \<and> ch_usedAt r \<noteq> None
        \<and> (f, a, ch_message r) \<in> set (iw_signed w))"

definition owned :: "identity_world \<Rightarrow> string \<Rightarrow> string \<Rightarrow> bool" where
  "owned w a u \<longleftrightarrow> (\<exists>f n. proof_of w f a u n)"

definition known :: "identity_world \<Rightarrow> wallet_chain \<Rightarrow> challenge_row \<Rightarrow> bool" where
  "known w f c \<longleftrightarrow> (\<exists>r\<in>set (challenges f w). ch_address r = ch_address c \<and> ch_userId r = ch_userId c \<and> ch_nonce r = ch_nonce c
     \<and> ch_message r = ch_message c)"

definition proved :: "identity_world \<Rightarrow> wallet_chain \<Rightarrow> challenge_row \<Rightarrow> bool" where
  "proved w f c \<longleftrightarrow> proof_of w f (ch_address c) (ch_userId c) (ch_nonce c)"

definition tables_ok :: "identity_env \<Rightarrow> identity_world \<Rightarrow> bool" where
  "tables_ok env w \<longleftrightarrow>
     (\<forall>f. distinct (map ch_nonce (challenges f w))
        \<and> (\<forall>c\<in>set (challenges f w). plain (ch_address c) \<and> plain (ch_nonce c)
             \<and> (\<exists>t. ch_message c = challenge_message env f (ch_address c) (ch_nonce c) t (ch_expiresAt c))))"

definition backed :: "identity_world \<Rightarrow> wallet_row \<Rightarrow> bool" where
  "backed w r \<longleftrightarrow> (case wr_userId r of None \<Rightarrow> wr_verifiedAt r = None | Some u \<Rightarrow> wr_verifiedAt r \<noteq> None \<and> owned w (wr_address r) u)"

definition wallets_ok :: "identity_world \<Rightarrow> bool" where
  "wallets_ok w \<longleftrightarrow> (\<forall>r\<in>set (iw_wallets w). backed w r)"

fun outcome_ok :: "identity_world \<Rightarrow> outcome \<Rightarrow> bool" where
  "outcome_ok w (Linked f c) = proved w f c"
| "outcome_ok w (Resumed f c owner) = (proved w f c \<and> owned w (ch_address c) owner)"

fun id_call_ok :: "identity_world \<Rightarrow> identity_call \<Rightarrow> bool" where
  "id_call_ok w (VerifySignature f c) = known w f c"
| "id_call_ok w (VerifyConsume f c) = (known w f c \<and> (f, ch_address c, ch_message c) \<in> set (iw_signed w))"
| "id_call_ok w (VerifyOwner f c) = proved w f c"
| "id_call_ok w (VerifyEmpty f c owner t checks) = (proved w f c \<and> owned w (ch_address c) owner)"
| "id_call_ok w (VerifyKeep f c owner t) = (proved w f c \<and> owned w (ch_address c) owner)"
| "id_call_ok w (VerifyLink f c t) = proved w f c"
| "id_call_ok w c = True"

text \<open>Each consumed challenge is in one place: a running call or an outcome.\<close>

fun call_ticket :: "identity_call \<Rightarrow> (wallet_chain \<times> string) list" where
  "call_ticket (VerifyOwner f c) = [(f, ch_nonce c)]"
| "call_ticket (VerifyEmpty f c owner t checks) = [(f, ch_nonce c)]"
| "call_ticket (VerifyKeep f c owner t) = [(f, ch_nonce c)]"
| "call_ticket (VerifyLink f c t) = [(f, ch_nonce c)]"
| "call_ticket c = []"

fun outcome_ticket :: "outcome \<Rightarrow> wallet_chain \<times> string" where
  "outcome_ticket (Linked f c) = (f, ch_nonce c)"
| "outcome_ticket (Resumed f c owner) = (f, ch_nonce c)"

definition tickets_ok :: "identity_world \<Rightarrow> (wallet_chain \<times> string) list \<Rightarrow> bool" where
  "tickets_ok w ts \<longleftrightarrow> distinct ts \<and> (\<forall>(f, n)\<in>set ts. \<exists>r\<in>set (challenges f w). ch_nonce r = n \<and> ch_usedAt r \<noteq> None)"

definition world_ok :: "identity_env \<Rightarrow> identity_world \<Rightarrow> bool" where
  "world_ok env w \<longleftrightarrow> tables_ok env w \<and> wallets_ok w \<and> list_all (outcome_ok w) (iw_done w)"

definition tickets_of :: "identity_call list \<Rightarrow> identity_world \<Rightarrow> (wallet_chain \<times> string) list" where
  "tickets_of cs w = concat (map call_ticket cs) @ map outcome_ticket (iw_done w)"

definition identity_inv :: "identity_env \<Rightarrow> identity_system \<Rightarrow> bool" where
  "identity_inv env s \<longleftrightarrow> world_ok env (fst s) \<and> list_all (id_call_ok (fst s)) (snd s) \<and> tickets_ok (fst s) (tickets_of (snd s) (fst s))"

text \<open>Evidence only grows.\<close>

definition grows :: "identity_world \<Rightarrow> identity_world \<Rightarrow> bool" where
  "grows w w' \<longleftrightarrow> set (iw_signed w) \<subseteq> set (iw_signed w')
     \<and> (\<forall>f. \<forall>r\<in>set (challenges f w). \<exists>r'\<in>set (challenges f w'). ch_address r' = ch_address r \<and> ch_userId r' = ch_userId r
          \<and> ch_nonce r' = ch_nonce r \<and> ch_message r' = ch_message r \<and> (ch_usedAt r \<noteq> None \<longrightarrow> ch_usedAt r' \<noteq> None))"

lemma grows_proof: "grows w w' \<Longrightarrow> proof_of w f a u n \<Longrightarrow> proof_of w' f a u n"
  unfolding grows_def proof_of_def by (metis subsetD)

lemma grows_known: "grows w w' \<Longrightarrow> known w f c \<Longrightarrow> known w' f c"
  unfolding grows_def known_def by metis

lemma grows_owned: "grows w w' \<Longrightarrow> owned w a u \<Longrightarrow> owned w' a u"
  unfolding owned_def using grows_proof by blast

lemma grows_proved: "grows w w' \<Longrightarrow> proved w f c \<Longrightarrow> proved w' f c"
  unfolding proved_def by (rule grows_proof)

lemma grows_outcome: "grows w w' \<Longrightarrow> outcome_ok w d \<Longrightarrow> outcome_ok w' d"
  by (cases d) (auto intro: grows_proved grows_owned)

lemma grows_outcomes: "grows w w' \<Longrightarrow> list_all (outcome_ok w) ds \<Longrightarrow> list_all (outcome_ok w') ds"
  by (auto simp: list_all_iff intro: grows_outcome)

lemma grows_call: "grows w w' \<Longrightarrow> id_call_ok w c \<Longrightarrow> id_call_ok w' c"
  by (cases c) (auto simp: grows_def intro: grows_proved grows_owned grows_known dest: subsetD)

lemma grows_calls: "grows w w' \<Longrightarrow> list_all (id_call_ok w) cs \<Longrightarrow> list_all (id_call_ok w') cs"
  by (auto simp: list_all_iff intro: grows_call)

lemma grows_tickets: "grows w w' \<Longrightarrow> tickets_ok w ts \<Longrightarrow> tickets_ok w' ts"
  unfolding grows_def tickets_ok_def by (fastforce split: prod.splits)

lemma same_grows: "set (iw_signed w) \<subseteq> set (iw_signed w') \<Longrightarrow> (\<And>f. challenges f w' = challenges f w) \<Longrightarrow> grows w w'"
  by (auto simp: grows_def)

lemma tickets_permute: "tickets_ok w ts \<Longrightarrow> mset us = mset ts \<Longrightarrow> tickets_ok w us"
  using mset_eq_imp_distinct_iff [of us ts] mset_eq_setD [of us ts] by (auto simp: tickets_ok_def)

lemma tickets_drop: "tickets_ok w (ts @ us) \<Longrightarrow> tickets_ok w us"
  by (auto simp: tickets_ok_def)

lemma challenges_simps [simp]:
  "challenges f (set_challenges f cs w) = cs"
  "f \<noteq> g \<Longrightarrow> challenges f (set_challenges g cs w) = challenges f w"
  "challenges f (w\<lparr>iw_users := us\<rparr>) = challenges f w" "challenges f (w\<lparr>iw_wallets := ws\<rparr>) = challenges f w"
  "challenges f (w\<lparr>iw_trades := ts\<rparr>) = challenges f w" "challenges f (w\<lparr>iw_solanaTrades := ts\<rparr>) = challenges f w"
  "challenges f (w\<lparr>iw_now := t\<rparr>) = challenges f w" "challenges f (w\<lparr>iw_signed := ss\<rparr>) = challenges f w"
  "challenges f (w\<lparr>iw_done := ds\<rparr>) = challenges f w" "challenges f (w\<lparr>iw_sessions := xs\<rparr>) = challenges f w"
  "challenges f (update_wallets p h w) = challenges f w"
  by (cases f; cases g; simp add: challenges_def set_challenges_def update_wallets_def)+

lemma set_challenges_simps [simp]:
  "iw_signed (set_challenges f cs w) = iw_signed w" "iw_wallets (set_challenges f cs w) = iw_wallets w"
  "iw_done (set_challenges f cs w) = iw_done w"
  "iw_signed (update_wallets p g w) = iw_signed w" "iw_done (update_wallets p g w) = iw_done w"
  by (cases f; simp add: set_challenges_def update_wallets_def)+


definition id_keeps ::
    "identity_env \<Rightarrow> identity_world \<Rightarrow> (wallet_chain \<times> string) list \<Rightarrow> identity_call option \<Rightarrow> identity_world \<Rightarrow> bool" where
  "id_keeps env w ts c' w' \<longleftrightarrow>
     world_ok env w' \<and> grows w w' \<and> (case c' of None \<Rightarrow> True | Some d \<Rightarrow> id_call_ok w' d)
     \<and> tickets_ok w' ((case c' of None \<Rightarrow> [] | Some d \<Rightarrow> call_ticket d) @ ts @ map outcome_ticket (iw_done w'))"

lemma id_frame:
  assumes "world_ok env w" "tickets_ok w (us @ ts @ map outcome_ticket (iw_done w))"
    "\<And>f. challenges f w' = challenges f w" "iw_signed w' = iw_signed w" "iw_done w' = iw_done w" "wallets_ok w'"
    "\<And>d. c' = Some d \<Longrightarrow> id_call_ok w d \<and> (call_ticket d = [] \<or> call_ticket d = us)"
  shows "id_keeps env w ts c' w'"
proof -
  have g: "grows w w'" by (rule same_grows) (simp_all add: assms)
  have "tables_ok env w'" using assms(1,3) by (simp add: world_ok_def tables_ok_def)
  moreover have "list_all (outcome_ok w') (iw_done w')" using assms(1,5) by (simp add: world_ok_def grows_outcomes [OF g])
  moreover have "tickets_ok w' ((case c' of None \<Rightarrow> [] | Some d \<Rightarrow> call_ticket d) @ ts @ map outcome_ticket (iw_done w'))"
  proof -
    have t: "tickets_ok w' (us @ ts @ map outcome_ticket (iw_done w'))" using assms(2,5) grows_tickets [OF g] by simp
    with tickets_drop [OF t] show ?thesis using assms(7) by (cases c') auto
  qed
  ultimately show ?thesis using g assms(6,7) grows_call [OF g] by (auto simp: id_keeps_def world_ok_def split: option.split)
qed

lemma owned_same: "(\<And>f. challenges f w' = challenges f w) \<Longrightarrow> iw_signed w' = iw_signed w \<Longrightarrow> owned w' a u = owned w a u"
  by (simp add: owned_def proof_of_def)

lemma backed_same: "(\<And>f. challenges f w' = challenges f w) \<Longrightarrow> iw_signed w' = iw_signed w \<Longrightarrow> backed w' r = backed w r"
  using owned_same [of w' w] by (simp add: backed_def split: option.split)

lemma backed_grows: "grows w w' \<Longrightarrow> backed w r \<Longrightarrow> backed w' r"
  by (auto simp: backed_def intro: grows_owned split: option.splits)

lemma wallets_same: "world_ok env w \<Longrightarrow> iw_wallets w' = iw_wallets w \<Longrightarrow> grows w w' \<Longrightarrow> wallets_ok w'"
  by (simp add: world_ok_def wallets_ok_def backed_grows)

lemma wallets_update:
  assumes "wallets_ok w" "\<And>r. r \<in> set (iw_wallets w) \<Longrightarrow> p r \<Longrightarrow> backed w (g r)"
  shows "wallets_ok (update_wallets p g w)"
proof -
  have "backed (update_wallets p g w) r = backed w r" for r by (rule backed_same) simp_all
  with assms show ?thesis by (auto simp: wallets_ok_def update_wallets_def set_update_where)
qed

lemma backed_fields [simp]: "backed w (r\<lparr>wr_lastUsedAt := t\<rparr>) = backed w r"
  "backed w (r\<lparr>wr_userId := None, wr_verifiedAt := None\<rparr>)"
  by (simp_all add: backed_def split: option.split)

lemma challenge_added:
  assumes "world_ok env w" "tickets_ok w (ts @ map outcome_ticket (iw_done w))" "ch_nonce c \<notin> ch_nonce ` set (challenges f w)"
    "plain (ch_address c)" "plain (ch_nonce c)" "ch_message c = challenge_message env f (ch_address c) (ch_nonce c) t (ch_expiresAt c)"
  shows "id_keeps env w ts None (set_challenges f (challenges f w @ [c]) w)"
proof -
  let ?w = "set_challenges f (challenges f w @ [c]) w"
  have t: "challenges g ?w = challenges g w @ (if g = f then [c] else [])" for g by (cases "g = f") simp_all
  have g: "grows w ?w" by (auto simp: grows_def t)
  have "tables_ok env ?w" using assms by (auto simp: world_ok_def tables_ok_def t)
  moreover have "wallets_ok ?w" by (rule wallets_same [OF assms(1) _ g]) simp
  ultimately show ?thesis using assms(1,2) g grows_outcomes [OF g] grows_tickets [OF g] by (simp add: id_keeps_def world_ok_def)
qed

lemma tickets_Cons:
  "tickets_ok w ((f, n) # ts) \<longleftrightarrow>
     (f, n) \<notin> set ts \<and> (\<exists>r\<in>set (challenges f w). ch_nonce r = n \<and> ch_usedAt r \<noteq> None) \<and> tickets_ok w ts"
  by (simp add: tickets_ok_def conj_ac)

lemma tickets_used:
  assumes "tickets_ok w ts" "(f, n) \<in> set ts"
  shows "\<exists>r\<in>set (challenges f w). ch_nonce r = n \<and> ch_usedAt r \<noteq> None"
proof -
  have "\<forall>x\<in>set ts. case x of (f, n) \<Rightarrow> \<exists>r\<in>set (challenges f w). ch_nonce r = n \<and> ch_usedAt r \<noteq> None"
    using assms(1) by (simp add: tickets_ok_def)
  from bspec [OF this assms(2)] show ?thesis by simp
qed

lemma challenge_used:
  assumes "world_ok env w" "tickets_ok w (ts @ map outcome_ticket (iw_done w))" "known w f c" "(f, ch_address c, ch_message c) \<in> set (iw_signed w)"
    "list_ex (\<lambda>r. ch_nonce r = ch_nonce c \<and> ch_usedAt r = None) (challenges f w)"
  shows "id_keeps env w ts (Some (VerifyOwner f c))
     (set_challenges f (update_where (\<lambda>r. ch_nonce r = ch_nonce c \<and> ch_usedAt r = None) (\<lambda>r. r\<lparr>ch_usedAt := Some t\<rparr>) (challenges f w)) w)"
proof -
  let ?g = "\<lambda>r. r\<lparr>ch_usedAt := Some t\<rparr>" and ?p = "\<lambda>r. ch_nonce r = ch_nonce c \<and> ch_usedAt r = None"
  let ?w = "set_challenges f (update_where ?p ?g (challenges f w)) w"
  have tf: "challenges g ?w = (if g = f then update_where ?p ?g (challenges f w) else challenges g w)" for g by (cases "g = f") simp_all
  obtain r where r: "r \<in> set (challenges f w)" "ch_nonce r = ch_nonce c" "ch_usedAt r = None" using assms(5) by (auto simp: list_ex_iff)
  have dis: "distinct (map ch_nonce (challenges f w))" using assms(1) by (simp add: world_ok_def tables_ok_def)
  then have only: "q = r" if "q \<in> set (challenges f w)" "ch_nonce q = ch_nonce c" for q
    using that r by (auto simp: distinct_map inj_on_def)
  have mem: "(if ?p q then ?g q else q) \<in> set (update_where ?p ?g (challenges f w))" if "q \<in> set (challenges f w)" for q
    using imageI [OF that, of "\<lambda>r. if ?p r then ?g r else r"] by (simp add: update_where_def)
  have g: "grows w ?w" unfolding grows_def
  proof (intro conjI allI ballI)
    fix g q
    assume q: "q \<in> set (challenges g w)"
    show "\<exists>r'\<in>set (challenges g ?w). ch_address r' = ch_address q \<and> ch_userId r' = ch_userId q \<and> ch_nonce r' = ch_nonce q
        \<and> ch_message r' = ch_message q \<and> (ch_usedAt q \<noteq> None \<longrightarrow> ch_usedAt r' \<noteq> None)"
      by (rule bexI [of _ "if g = f \<and> ?p q then ?g q else q"]) (use q mem [of q] in \<open>auto simp: tf\<close>)
  qed simp
  have keys: "map ch_nonce (update_where ?p ?g (challenges f w)) = map ch_nonce (challenges f w)" by (simp add: update_where_def)
  have "tables_ok env ?w" unfolding tables_ok_def
  proof (intro allI conjI ballI)
    fix g
    show "distinct (map ch_nonce (challenges g ?w))" using assms(1) keys by (simp add: tf world_ok_def tables_ok_def)
    fix q
    assume "q \<in> set (challenges g ?w)"
    then obtain q0 where "q0 \<in> set (challenges g w)" "q = q0 \<or> q = ?g q0" by (auto simp: tf set_update_where split: if_splits)
    then show "plain (ch_address q)" "plain (ch_nonce q)" "\<exists>t. ch_message q = challenge_message env g (ch_address q) (ch_nonce q) t (ch_expiresAt q)"
      using assms(1) by (auto simp: world_ok_def tables_ok_def)
  qed
  moreover have "wallets_ok ?w" by (rule wallets_same [OF assms(1) _ g]) simp
  moreover have used: "?g r \<in> set (challenges f ?w)" using r by (auto simp: tf set_update_where)
  have "proved ?w f c"
  proof -
    from assms(3) only obtain "ch_address r = ch_address c" "ch_userId r = ch_userId c" "ch_message r = ch_message c"
      unfolding known_def by blast
    with used r assms(4) show ?thesis unfolding proved_def proof_of_def by (intro bexI [of _ "?g r"]) auto
  qed
  moreover have "tickets_ok ?w ((f, ch_nonce c) # ts @ map outcome_ticket (iw_done w))"
  proof -
    have "(f, ch_nonce c) \<notin> set (ts @ map outcome_ticket (iw_done w))"
    proof
      assume "(f, ch_nonce c) \<in> set (ts @ map outcome_ticket (iw_done w))"
      from tickets_used [OF assms(2) this] obtain q where q: "q \<in> set (challenges f w)" "ch_nonce q = ch_nonce c" "ch_usedAt q \<noteq> None" by (elim bexE conjE)
      from only [OF q(1,2)] q(3) r(3) show False by simp
    qed
    moreover have "\<exists>q\<in>set (challenges f ?w). ch_nonce q = ch_nonce c \<and> ch_usedAt q \<noteq> None"
      by (rule bexI [OF _ used]) (simp add: r)
    ultimately show ?thesis using grows_tickets [OF g assms(2)] by (simp only: tickets_Cons simp_thms)
  qed
  ultimately show ?thesis using assms(1) g grows_outcomes [OF g] by (simp add: id_keeps_def world_ok_def)
qed


lemma find_walletD: "find_wallet a w = Some r \<Longrightarrow> r \<in> set (iw_wallets w) \<and> wr_address r = a"
  by (auto simp: find_wallet_def find_Some_iff)

lemma wallet_owner:
  assumes "world_ok env w" "find_wallet a w = Some r" "wr_userId r = Some u"
  shows "owned w a u"
  using assms find_walletD [OF assms(2)] by (auto simp: world_ok_def wallets_ok_def backed_def)

lemma link_keeps:
  assumes "world_ok env w" "tickets_ok w ((f, ch_nonce c) # ts @ map outcome_ticket (iw_done w))" "proved w f c"
  shows "id_keeps env w ts None ((link_wallet f c t w)\<lparr>iw_done := Linked f c # iw_done w\<rparr>)"
proof -
  let ?l = "link_wallet f c t w" and ?w = "(link_wallet f c t w)\<lparr>iw_done := Linked f c # iw_done w\<rparr>"
  have ch: "challenges g ?l = challenges g w" "iw_signed ?l = iw_signed w" for g by (simp_all add: link_wallet_def split: option.split)
  have g: "grows w ?w" by (rule same_grows) (simp_all add: ch)
  have own: "owned w (ch_address c) (ch_userId c)" using assms(3) by (auto simp: owned_def proved_def)
  have "wallets_ok ?l"
  proof (cases "find_wallet (ch_address c) w")
    case (Some r)
    have "wallets_ok (update_wallets (\<lambda>r. wr_address r = ch_address c)
        (\<lambda>r. r\<lparr>wr_userId := Some (ch_userId c), wr_verifiedAt := Some t, wr_lastUsedAt := Some t\<rparr>) w)"
      by (rule wallets_update) (use assms(1) own in \<open>simp_all add: world_ok_def backed_def\<close>)
    with Some show ?thesis by (simp add: link_wallet_def)
  next
    case None
    have "backed ?l r = backed w r" for r by (rule backed_same) (simp_all add: ch)
    moreover have "backed w \<lparr>wr_address = ch_address c, wr_chain = f, wr_userId = Some (ch_userId c), wr_firstSeenAt = t, wr_verifiedAt = Some t,
        wr_lastUsedAt = Some t\<rparr>" using own by (simp add: backed_def)
    ultimately show ?thesis using None assms(1) unfolding wallets_ok_def by (auto simp: link_wallet_def world_ok_def wallets_ok_def)
  qed
  moreover have "backed ?w r = backed ?l r" for r by (rule backed_same) simp_all
  ultimately have "wallets_ok ?w" by (simp add: wallets_ok_def)
  moreover have "tables_ok env ?w" using assms(1) by (simp add: world_ok_def tables_ok_def ch)
  moreover have "list_all (outcome_ok ?w) (iw_done ?w)"
    using assms(1,3) grows_outcomes [OF g] grows_proved [OF g] by (simp add: world_ok_def)
  moreover have "tickets_ok ?w (ts @ map outcome_ticket (iw_done ?w))"
    by (rule tickets_permute [OF grows_tickets [OF g assms(2)]]) simp
  ultimately show ?thesis using g by (simp add: id_keeps_def world_ok_def)
qed

lemma keep_keeps:
  assumes "world_ok env w" "tickets_ok w ((f, ch_nonce c) # ts @ map outcome_ticket (iw_done w))" "proved w f c" "owned w (ch_address c) owner"
  shows "id_keeps env w ts None ((update_wallets (\<lambda>r. wr_address r = ch_address c) (\<lambda>r. r\<lparr>wr_lastUsedAt := Some t\<rparr>) w)
     \<lparr>iw_done := Resumed f c owner # iw_done w\<rparr>)"
proof -
  let ?l = "update_wallets (\<lambda>r. wr_address r = ch_address c) (\<lambda>r. r\<lparr>wr_lastUsedAt := Some t\<rparr>) w"
  let ?w = "?l\<lparr>iw_done := Resumed f c owner # iw_done w\<rparr>"
  have g: "grows w ?w" by (rule same_grows) simp_all
  have "wallets_ok ?l" by (rule wallets_update) (use assms(1) in \<open>simp_all add: world_ok_def wallets_ok_def\<close>)
  moreover have "backed ?w r = backed ?l r" for r by (rule backed_same) simp_all
  ultimately have "wallets_ok ?w" by (simp add: wallets_ok_def)
  moreover have "tables_ok env ?w" using assms(1) by (simp add: world_ok_def tables_ok_def)
  moreover have "list_all (outcome_ok ?w) (iw_done ?w)"
    using assms(1,3,4) grows_outcomes [OF g] grows_proved [OF g] grows_owned [OF g] by (simp add: world_ok_def)
  moreover have "tickets_ok ?w (ts @ map outcome_ticket (iw_done ?w))"
    by (rule tickets_permute [OF grows_tickets [OF g assms(2)]]) simp
  ultimately show ?thesis using g by (simp add: id_keeps_def world_ok_def)
qed

lemma touch_keeps:
  assumes "world_ok env w" "tickets_ok w (us @ ts @ map outcome_ticket (iw_done w))"
    "\<And>r. r \<in> set (iw_wallets w) \<Longrightarrow> p r \<Longrightarrow> backed w (g r)"
  shows "id_keeps env w ts None (update_wallets p g w)"
proof (rule id_frame [OF assms(1,2)])
  show "wallets_ok (update_wallets p g w)" by (rule wallets_update) (use assms in \<open>auto simp: world_ok_def\<close>)
qed simp_all

lemma identity_step_keeps:
  assumes "world_ok env w" "id_call_ok w c" "tickets_ok w (call_ticket c @ ts @ map outcome_ticket (iw_done w))"
    "case c of VerifySignature f d \<Rightarrow> ia_signature a \<longrightarrow> (f, ch_address d, ch_message d) \<in> set (iw_signed w) | _ \<Rightarrow> True"
  shows "id_keeps env w ts (fst (identity_step env a c w)) (snd (identity_step env a c w))"
proof -
  have wo: "wallets_ok w" using assms(1) by (simp add: world_ok_def)
  have stay: "id_keeps env w ts d w" if "\<And>e. d = Some e \<Longrightarrow> id_call_ok w e \<and> (call_ticket e = [] \<or> call_ticket e = call_ticket c)" for d
    by (rule id_frame [OF assms(1,3)]) (use wo that in auto)
  show ?thesis
  proof (cases c)
    case (SessionCall code)
    then show ?thesis by (auto intro!: stay)
  next
    case (SessionCreate referrer n)
    have "wallets_ok (w\<lparr>iw_users := us, iw_sessions := xs\<rparr>)" for us xs
      by (rule wallets_same [OF assms(1)]) (simp_all add: same_grows)
    with SessionCreate show ?thesis by (auto intro!: stay id_frame [OF assms(1,3)] split: option.split)
  next
    case (ChallengeCall f u addr)
    then show ?thesis
    proof (cases "canonical_address f addr")
      case (Some b)
      have t: "tickets_ok w (ts @ map outcome_ticket (iw_done w))" using assms(3) ChallengeCall by simp
      from ChallengeCall Some show ?thesis
        by (auto simp: Let_def list_ex_iff intro!: stay challenge_added [OF assms(1) t] plain_hex plain_canonical [OF Some])
    qed (auto intro!: stay)
  next
    case (VerifyCall f u n)
    have "known w f c" if "find p (challenges f w) = Some c" for p c
      using find_SomeD [OF that] by (auto simp: known_def)
    with VerifyCall show ?thesis by (auto intro!: stay split: option.split)
  next
    case (VerifySignature f d)
    with assms(2,4) show ?thesis by (auto intro!: stay)
  next
    case (VerifyConsume f d)
    with assms show ?thesis by (auto intro!: stay challenge_used)
  next
    case (VerifyOwner f d)
    with assms(2) show ?thesis by (auto intro!: stay dest: wallet_owner [OF assms(1)] split: option.split)
  next
    case (VerifyEmpty f d owner t checks)
    with assms(2) show ?thesis by (auto intro!: stay simp: Let_def)
  next
    case (VerifyKeep f d owner t)
    have "id_keeps env w ts None (update_wallets (\<lambda>r. wr_address r = ch_address d) (\<lambda>r. r\<lparr>wr_lastUsedAt := Some t\<rparr>) w)"
      by (rule touch_keeps [OF assms(1,3)]) (use wo in \<open>simp add: wallets_ok_def\<close>)
    moreover have "id_keeps env w ts None ((update_wallets (\<lambda>r. wr_address r = ch_address d) (\<lambda>r. r\<lparr>wr_lastUsedAt := Some t\<rparr>) w)
        \<lparr>iw_done := Resumed f d owner # iw_done w\<rparr>)"
      by (rule keep_keeps) (use VerifyKeep assms in simp_all)
    moreover have "id_keeps env w ts None w" by (rule stay) simp
    ultimately show ?thesis using VerifyKeep by (auto simp: Let_def split: option.split)
  next
    case (VerifyLink f d t)
    with assms link_keeps [of env w f d ts t] show ?thesis by (auto intro!: stay)
  next
    case (UnlinkCall f u addr)
    have touched: "id_keeps env w ts None (update_wallets p (\<lambda>r. r\<lparr>wr_userId := None, wr_verifiedAt := None\<rparr>) w)" for p
      by (rule touch_keeps [OF assms(1,3)]) simp
    from UnlinkCall show ?thesis by (auto intro!: stay touched split: option.split)
  qed
qed


lemma frame_inv:
  assumes "identity_inv env (w, cs)" "\<And>f. challenges f w' = challenges f w" "set (iw_signed w) \<subseteq> set (iw_signed w')" "iw_done w' = iw_done w"
    "wallets_ok w'"
  shows "identity_inv env (w', cs)"
proof -
  have g: "grows w w'" by (rule same_grows) (simp_all add: assms)
  have "world_ok env w'" using assms grows_outcomes [OF g] by (simp add: identity_inv_def world_ok_def tables_ok_def)
  then show ?thesis using assms(1,4) grows_calls [OF g] grows_tickets [OF g] by (simp add: identity_inv_def tickets_of_def)
qed

lemma identity_inv_steps:
  assumes "identity_inv env (w, cs)" "n < length cs" "honest_step (CallSteps n a) (w, cs)"
  shows "identity_inv env (identity_event_step env (CallSteps n a) (w, cs))"
proof -
  define pre where "pre = take n cs"
  define post where "post = drop (Suc n) cs"
  define c where "c = cs ! n"
  have cs: "cs = pre @ c # post" using assms(2) by (simp add: pre_def post_def c_def id_take_nth_drop)
  define ts where "ts = concat (map call_ticket (pre @ post))"
  obtain c' w' where s: "identity_step env a c w = (c', w')" by fastforce
  from assms(1) have w: "world_ok env w" and calls: "list_all (id_call_ok w) (pre @ c # post)" and t: "tickets_ok w (tickets_of cs w)"
    using cs by (simp_all add: identity_inv_def)
  have "tickets_ok w (call_ticket c @ ts @ map outcome_ticket (iw_done w))"
    by (rule tickets_permute [OF t]) (simp add: tickets_of_def ts_def cs)
  moreover have "case c of VerifySignature f d \<Rightarrow> ia_signature a \<longrightarrow> (f, ch_address d, ch_message d) \<in> set (iw_signed w) | _ \<Rightarrow> True"
    using assms(2,3) by (auto simp: c_def split: identity_call.splits if_splits)
  ultimately have k: "id_keeps env w ts c' w'"
    using identity_step_keeps [where c = c and ts = ts and a = a, OF w] calls s by simp
  then have g: "grows w w'" by (simp add: id_keeps_def)
  have "identity_event_step env (CallSteps n a) (w, cs) = (w', pre @ (case c' of None \<Rightarrow> [] | Some d \<Rightarrow> [d]) @ post)"
    using s assms(2) by (simp add: pre_def post_def c_def upd_conv_take_nth_drop split: option.split)
  moreover have "list_all (id_call_ok w') (pre @ post)" using grows_calls [OF g] calls by simp
  moreover have "tickets_ok w' (tickets_of (pre @ (case c' of None \<Rightarrow> [] | Some d \<Rightarrow> [d]) @ post) w')"
    by (rule tickets_permute [where ts = "(case c' of None \<Rightarrow> [] | Some d \<Rightarrow> call_ticket d) @ ts @ map outcome_ticket (iw_done w')"])
       (use k in \<open>simp_all add: id_keeps_def tickets_of_def ts_def split: option.splits\<close>)
  ultimately show ?thesis using k by (auto simp: identity_inv_def id_keeps_def split: option.splits)
qed

lemma identity_inv_reach: "identity_reach env s \<Longrightarrow> identity_inv env s"
proof (induction rule: identity_reach.induct)
  case (nothing_yet w)
  then have "challenges f w = []" for f by (cases f) (simp_all add: challenges_def)
  with nothing_yet show ?case by (simp add: identity_inv_def world_ok_def tables_ok_def wallets_ok_def tickets_ok_def tickets_of_def)
next
  case (identity_event s e)
  obtain w cs where s: "s = (w, cs)" by fastforce
  have inv: "identity_inv env (w, cs)" using identity_event.IH s by simp
  then have wo: "wallets_ok w" by (simp add: identity_inv_def world_ok_def)
  have same: "wallets_ok w'" if "iw_wallets w' = iw_wallets w" "grows w w'" for w'
    using wo that by (simp add: wallets_ok_def backed_grows)
  show ?case
  proof (cases e)
    case (CallArrives c)
    have "starts_call c \<Longrightarrow> id_call_ok w c \<and> call_ticket c = []" by (cases c) auto
    with CallArrives s inv show ?thesis by (auto simp: identity_inv_def tickets_of_def)
  next
    case (CallSteps n a)
    with s inv identity_event.hyps(2) show ?thesis
      by (cases "n < length cs") (use identity_inv_steps [of env w cs n a] in simp_all)
  next
    case (KeySigns f a m)
    with s show ?thesis by (auto intro!: frame_inv [OF inv] same same_grows)
  next
    case (WalletObserved a f)
    have "wallets_ok (w\<lparr>iw_wallets := iw_wallets w @ [\<lparr>wr_address = a, wr_chain = f, wr_userId = None, wr_firstSeenAt = iw_now w,
             wr_verifiedAt = None, wr_lastUsedAt = None\<rparr>]\<rparr>)" (is "wallets_ok ?w")
    proof -
      have "backed ?w r = backed w r" for r by (rule backed_same) simp_all
      then show ?thesis using wo by (auto simp: wallets_ok_def backed_def)
    qed
    with WalletObserved s inv show ?thesis by (auto intro!: frame_inv [OF inv])
  next
    case (NameSet u n)
    with s show ?thesis by (auto intro!: frame_inv [OF inv] same same_grows)
  next
    case (TradeStored u)
    with s show ?thesis by (auto intro!: frame_inv [OF inv] same same_grows)
  next
    case (SolanaTradeStored u)
    with s show ?thesis by (auto intro!: frame_inv [OF inv] same same_grows)
  next
    case (TimePasses t)
    with s show ?thesis by (auto intro!: frame_inv [OF inv] same same_grows)
  qed
qed

text \<open>
  The evidence for one challenge row: it was used, and the holder of the address's key signed its message.
\<close>

definition key_proved :: "identity_world \<Rightarrow> wallet_chain \<Rightarrow> challenge_row \<Rightarrow> bool" where
  "key_proved w f r \<longleftrightarrow> r \<in> set (challenges f w) \<and> ch_usedAt r \<noteq> None \<and> (f, ch_address r, ch_message r) \<in> set (iw_signed w)"

lemma owned_key: "owned w a u \<longleftrightarrow> (\<exists>f r. key_proved w f r \<and> ch_address r = a \<and> ch_userId r = u)"
  unfolding owned_def proof_of_def key_proved_def by metis

lemma proved_key: "proved w f c \<longleftrightarrow> (\<exists>r. key_proved w f r \<and> ch_address r = ch_address c \<and> ch_userId r = ch_userId c \<and> ch_nonce r = ch_nonce c)"
  unfolding proved_def proof_of_def key_proved_def by metis



fun run_identity :: "identity_env \<Rightarrow> identity_event list \<Rightarrow> identity_system \<Rightarrow> identity_system" where
  "run_identity env [] s = s"
| "run_identity env (e # es) s = run_identity env es (identity_event_step env e s)"

fun honest_run :: "identity_env \<Rightarrow> identity_event list \<Rightarrow> identity_system \<Rightarrow> bool" where
  "honest_run env [] s = True"
| "honest_run env (e # es) s = (honest_step e s \<and> honest_run env es (identity_event_step env e s))"

lemma reach_run_identity: "identity_reach env s \<Longrightarrow> honest_run env es s \<Longrightarrow> identity_reach env (run_identity env es s)"
  by (induction env es s rule: run_identity.induct) (auto intro: identity_event)

text \<open>One wallet, verified by its account's user and later from a fresh session, which gets the account back.\<close>

definition id_env :: identity_env where "id_env = \<lparr>ie_domain = ''kambesh.com'', ie_iso = (\<lambda>t. ''t'')\<rparr>"

definition id_world :: identity_world where
  "id_world = \<lparr>iw_users = [], iw_wallets = [], iw_walletChallenges = [], iw_solanaWalletChallenges = [], iw_trades = [], iw_solanaTrades = [],
     iw_now = 0, iw_signed = [], iw_done = [], iw_sessions = []\<rparr>"

definition id_answer :: "nat \<Rightarrow> string \<Rightarrow> identity_answer" where
  "id_answer b u = \<lparr>ia_db = True, ia_bytes = replicate 16 b, ia_uuid = u, ia_signature = True\<rparr>"

definition id_wallet :: string where "id_wallet = replicate 32 CHR ''A''"

definition id_message :: "nat \<Rightarrow> string" where
  "id_message b = challenge_message id_env SOLANA id_wallet (hex_of_bytes (replicate 16 b)) 0 300000"

definition id_verify :: "nat \<Rightarrow> string \<Rightarrow> nat \<Rightarrow> identity_event list" where
  "id_verify b u k =
     [CallArrives (SessionCall None), CallSteps 0 (id_answer b u), CallSteps 0 (id_answer b u),
      CallArrives (ChallengeCall SOLANA u id_wallet), CallSteps 0 (id_answer b u), KeySigns SOLANA id_wallet (id_message b),
      CallArrives (VerifyCall SOLANA u (hex_of_bytes (replicate 16 b)))] @ replicate k (CallSteps 0 (id_answer b u))"

definition id_end :: identity_system where
  "id_end = run_identity id_env (id_verify 1 ''u1'' 5 @ [NameSet ''u1'' ''ann''] @ id_verify 2 ''u2'' 9) (id_world, [])"

lemma id_end_done:
  "map (\<lambda>d. case d of Linked f c \<Rightarrow> (ch_userId c, ''linked'') | Resumed f c owner \<Rightarrow> (ch_userId c, owner)) (iw_done (fst id_end))
     = [(''u2'', ''u1''), (''u1'', ''linked'')]"
  by code_simp

lemma id_end_honest: "honest_run id_env (id_verify 1 ''u1'' 5 @ [NameSet ''u1'' ''ann''] @ id_verify 2 ''u2'' 9) (id_world, [])"
  by code_simp

lemma id_end_reach: "identity_reach id_env (fst id_end, snd id_end)"
  using reach_run_identity [OF nothing_yet id_end_honest] by (simp add: id_end_def id_world_def)


subsection \<open>Lists and sessions\<close>

text \<open>The \<open>!\<close> of \<open>listWallets\<close> is safe: a wallet with a user is marked verified.\<close>

lemma those_map_Some: "(\<And>x. x \<in> set xs \<Longrightarrow> f x \<noteq> None) \<Longrightarrow> those (map f xs) \<noteq> None"
  by (induction xs) (auto split: option.split)

lemma listWallets_safe: "identity_reach env (w, cs) \<Longrightarrow> listWallets f u w \<noteq> None"
  unfolding listWallets_def
  by (rule those_map_Some) (auto dest!: identity_inv_reach simp: identity_inv_def world_ok_def wallets_ok_def backed_def split: option.splits)

text \<open>The EVM list has no chain condition: it shows Solana wallets too.\<close>

lemma evm_list_shows_solana: "listWallets EVM ''u1'' (fst id_end) = listWallets SOLANA ''u1'' (fst id_end) \<and> listWallets EVM ''u1'' (fst id_end) \<noteq> Some []"
  by code_simp

text \<open>
  A wallet unlinked between the check of its owner and the update has no \<open>verifiedAt\<close>: the call throws, and its
  challenge is spent.
\<close>

lemma resume_after_unlink_throws:
  assumes "find_wallet (ch_address c) w = Some r" "wr_verifiedAt r = None"
  shows "fst (identity_step env a (VerifyKeep f c owner t) w) = None \<and> iw_done (snd (identity_step env a (VerifyKeep f c owner t) w)) = iw_done w"
proof -
  have "find (\<lambda>x. wr_address x = ch_address c)
      (update_where (\<lambda>x. wr_address x = ch_address c) (\<lambda>r. r\<lparr>wr_lastUsedAt := Some t\<rparr>) (iw_wallets w)) = Some (r\<lparr>wr_lastUsedAt := Some t\<rparr>)"
    by (subst find_update_where [where k = wr_address]) (use assms(1) in \<open>simp_all add: find_wallet_def\<close>)
  with assms show ?thesis by (simp add: Let_def find_wallet_def update_wallets_def)
qed

text \<open>A token names a user only while the user exists.\<close>

lemma verifyToken_exists: "verifyToken verify token w = Some u \<Longrightarrow> \<exists>r\<in>set (iw_users w). us_id r = u \<and> verify token = Some u"
  by (auto simp: verifyToken_def split: option.splits if_splits dest: find_SomeD)

end
