(* ===== verification/LiveTips.thy ===== *)
theory LiveTips
  imports EvmLaunch Identity
begin

section \<open>Tips in a live room\<close>

text \<open>
  \<open>apps/api/src/live/live-tips.service.ts\<close> with the tip rules of \<open>packages/domain/src/live.ts\<close>: a tip is
  prepared (its transfers are built and kept in Redis for ten minutes), signed, and submitted; once its transfers
  are checked it appears in the room.  The room, the gas tank, the Solana relayer and the encodings are
  parameters.
\<close>

subsection \<open>Amounts\<close>

definition tipMinUsd :: jsnum where "tipMinUsd = Fin 5"
definition tipMaxUsd :: jsnum where "tipMaxUsd = Fin 1000"
definition tipFeeBps :: jsnum where "tipFeeBps = Fin 300"

definition liveTipFeeUsd :: "jsnum \<Rightarrow> jsnum" where
  "liveTipFeeUsd amountUsd = ndiv (nround (ndiv (nmul amountUsd tipFeeBps) (Fin 100))) (Fin 100)"

definition toRaw :: "jsnum \<Rightarrow> nat \<Rightarrow> (js_error, int) result" where
  "toRaw usd decimals =
     bind_result (BigInt_num (nround (nmul usd (Fin 100)))) (\<lambda>cents. Ok (bigint_div (cents * 10 ^ decimals) 100))"

definition tip_amount :: "jsnum \<Rightarrow> (js_error, jsnum) result" where
  "tip_amount x =
     (let amountUsd = ndiv (nround (nmul x (Fin 100))) (Fin 100) in
      if \<not> nge amountUsd tipMinUsd then Err (BadRequest ''The smallest tip'')
      else if ngt amountUsd tipMaxUsd then Err (BadRequest ''The biggest tip'')
      else Ok amountUsd)"

text \<open>Cents survive the trip through doubles.\<close>

lemma fl_close:
  assumes "1 / 1000 \<le> x" "x \<le> 1073741824"
  shows "\<bar>fl x - x\<bar> \<le> 1 / 8388608"
proof -
  have p: "(2::rat) powi (- 1022) \<le> 1 / 1000"
  proof -
    have "(2::rat) powi (- 1022) \<le> 2 powi (- 10)" by (simp only: powi_le_iff)
    also have "\<dots> \<le> 1 / 1000" by (simp add: power_int_def power_divide)
    finally show ?thesis .
  qed
  have "\<bar>fl x - x\<bar> \<le> \<bar>x\<bar> * 2 powi (- 53)" by (rule fl_err_rel) (use assms(1) p in linarith)
  also have "\<dots> \<le> 1073741824 * 2 powi (- 53)" by (rule mult_right_mono) (use assms in auto)
  also have "\<dots> = 1 / 8388608" by (simp add: power_int_def field_simps)
  finally show ?thesis .
qed

lemma floor_near: "\<bar>y - of_int c\<bar> < 1 / 2 \<Longrightarrow> \<lfloor>y + 1 / 2\<rfloor> = (c::int)" for y :: rat
  by (rule floor_unique) linarith+

definition cents :: "int \<Rightarrow> jsnum" where "cents c = ndiv (Fin (of_int c)) (Fin 100)"

lemma cents_Fin: "\<bar>c\<bar> \<le> 1073741824 \<Longrightarrow> cents c = Fin (fl (of_int c / 100))"
proof -
  assume c: "\<bar>c\<bar> \<le> 1073741824"
  have "\<bar>of_int c / (100::rat)\<bar> \<le> 2 ^ 1000"
  proof -
    have "\<bar>of_int c / (100::rat)\<bar> \<le> \<bar>of_int c\<bar>" by simp
    also have "\<dots> \<le> 1073741824" using c by linarith
    also have "\<dots> \<le> 2 ^ 1000" by simp
    finally show ?thesis .
  qed
  then show ?thesis by (simp add: cents_def to_num_small)
qed

lemma cents_back:
  assumes "1 \<le> c" "c \<le> 1048576"
  shows "nround (nmul (cents c) (Fin 100)) = Fin (of_int c)"
proof -
  let ?x = "of_int c / 100 :: rat"
  have c: "(1::rat) \<le> of_int c" "of_int c \<le> (1048576::rat)" using assms by simp_all
  have e1: "\<bar>fl ?x - ?x\<bar> \<le> 1 / 8388608" by (rule fl_close) (use c in auto)
  let ?y = "fl ?x * 100"
  have y: "\<bar>?y - of_int c\<bar> \<le> 100 / 8388608" using e1 by linarith
  then have y1: "1 / 1000 \<le> ?y" "?y \<le> 1073741824" using y c by linarith+
  have e2: "\<bar>fl ?y - ?y\<bar> \<le> 1 / 8388608" by (rule fl_close) (use y1 in auto)
  have "\<bar>fl ?y - of_int c\<bar> < 1 / 2" using e2 y by linarith
  then have "\<lfloor>fl ?y + 1 / 2\<rfloor> = c" by (rule floor_near)
  moreover have "\<bar>?y\<bar> \<le> 2 ^ 1000"
  proof -
    have "\<bar>?y\<bar> \<le> 1073741824" using y1 by simp
    also have "\<dots> \<le> (2::rat) ^ 1000" by simp
    finally show ?thesis .
  qed
  ultimately show ?thesis using assms by (simp add: cents_Fin to_num_small)
qed

lemma toRaw_cents: "1 \<le> c \<Longrightarrow> c \<le> 1048576 \<Longrightarrow> toRaw (cents c) d = Ok (c * 10 ^ d div 100)"
  by (simp add: toRaw_def cents_back)

lemma fee_of_half:
  assumes "0 \<le> m" "m \<le> 1048576"
  shows "liveTipFeeUsd (cents (100 * m + 50)) = cents (3 * m + 2)"
proof -
  have big: "\<bar>x\<bar> \<le> (2::rat) ^ 1000" if "\<bar>x\<bar> \<le> 1099511627776" for x :: rat
  proof -
    have "(1099511627776::rat) \<le> 2 ^ 1000" by simp
    with that show ?thesis by linarith
  qed
  have m: "0 \<le> (of_int m :: rat)" "(of_int m :: rat) \<le> 1048576"
    using assms by simp_all
  have half: "fl (of_int k / 2) = of_int k / 2" if "\<bar>k\<bar> \<le> 2 ^ 50" for k
    using fl_representable [of k "- 1"] that by (simp add: power_int_def)
  have a: "cents (100 * m + 50) = Fin (of_int (2 * m + 1) / 2)"
  proof -
    have "of_int (100 * m + 50) / (100::rat) = of_int (2 * m + 1) / 2" by (simp add: field_simps)
    then have "cents (100 * m + 50) = to_num (of_int (2 * m + 1) / 2)" by (simp only: cents_def ndiv.simps) simp
    also have "\<dots> = Fin (fl (of_int (2 * m + 1) / 2))" by (rule to_num_small, rule big) (use m in simp)
    finally show ?thesis using half [of "2 * m + 1"] assms by simp
  qed
  have b: "nmul (Fin (of_int (2 * m + 1) / 2)) tipFeeBps = Fin (of_int (300 * m + 150))"
  proof -
    have "of_int (2 * m + 1) / 2 * (300::rat) = of_int (300 * m + 150)" by simp
    then have "nmul (Fin (of_int (2 * m + 1) / 2)) tipFeeBps = to_num (of_int (300 * m + 150))"
      unfolding tipFeeBps_def by (simp only: nmul.simps)
    also have "\<dots> = Fin (fl (of_int (300 * m + 150)))" by (rule to_num_small, rule big) (use m in simp)
    finally show ?thesis using fl_of_int [of "300 * m + 150"] assms by simp
  qed
  have c: "ndiv (Fin (of_int (300 * m + 150))) (Fin 100) = Fin (of_int (6 * m + 3) / 2)"
  proof -
    have "of_int (300 * m + 150) / (100::rat) = of_int (6 * m + 3) / 2" by (simp add: field_simps)
    then have "ndiv (Fin (of_int (300 * m + 150))) (Fin 100) = to_num (of_int (6 * m + 3) / 2)" by (simp only: ndiv.simps) simp
    also have "\<dots> = Fin (fl (of_int (6 * m + 3) / 2))" by (rule to_num_small, rule big) (use m in simp)
    finally show ?thesis using half [of "6 * m + 3"] assms by simp
  qed
  have "\<lfloor>of_int (6 * m + 3) / 2 + 1 / 2 :: rat\<rfloor> = 3 * m + 2" by (rule floor_unique) (simp_all add: field_simps)
  then show ?thesis unfolding liveTipFeeUsd_def a b c by (simp add: cents_def)
qed

lemma fee_near:
  assumes "100 \<le> c" "c \<le> 131072"
  shows "\<exists>y. ndiv (nmul (cents c) tipFeeBps) (Fin 100) = Fin y \<and> \<bar>y - 3 * of_int c / 100\<bar> < 1 / 200"
proof -
  let ?x = "of_int c / 100 :: rat"
  have c: "(100::rat) \<le> of_int c" "of_int c \<le> (131072::rat)"
    using assms by simp_all
  have big: "\<bar>x\<bar> \<le> (2::rat) ^ 1000" if "0 \<le> x" "x \<le> 1073741824" for x :: rat
  proof -
    have "(1073741824::rat) \<le> 2 ^ 1000" by simp
    with that show ?thesis by linarith
  qed
  have e1: "\<bar>fl ?x - ?x\<bar> \<le> 1 / 8388608" by (rule fl_close) (use c in auto)
  define y where "y = fl ?x * 300"
  have y: "\<bar>y - 3 * of_int c\<bar> \<le> 300 / 8388608" using e1 unfolding y_def by linarith
  have y1: "1 / 1000 \<le> y" "y \<le> 1073741824" using y c by linarith+
  have e2: "\<bar>fl y - y\<bar> \<le> 1 / 8388608" by (rule fl_close) (use y1 in auto)
  define z where "z = fl y / 100"
  have z: "\<bar>z - 3 * of_int c / 100\<bar> \<le> 4 / 8388608" using e2 y unfolding z_def by linarith
  have z1: "1 / 1000 \<le> z" "z \<le> 1073741824" using z c by linarith+
  have e3: "\<bar>fl z - z\<bar> \<le> 1 / 8388608" by (rule fl_close) (use z1 in auto)
  have "ndiv (nmul (cents c) tipFeeBps) (Fin 100) = Fin (fl z)"
    using assms y1 z1 by (simp add: cents_Fin tipFeeBps_def to_num_small big y_def z_def)
  moreover have "\<bar>fl z - 3 * of_int c / 100\<bar> < 1 / 200" using e3 z by linarith
  ultimately show ?thesis by blast
qed

lemma liveTipFee_cents:
  assumes "100 \<le> c" "c \<le> 131072"
  shows "liveTipFeeUsd (cents c) = cents ((3 * c + 50) div 100)"
proof (cases "c mod 100 = 50")
  case True
  then obtain m where m: "c = 100 * m + 50" by (metis mult_div_mod_eq)
  with fee_of_half [of m] assms have "liveTipFeeUsd (cents c) = cents (3 * m + 2)" by simp
  also have "3 * m + 2 = (3 * c + 50) div 100" using m by simp
  finally show ?thesis .
next
  case False
  obtain y where y: "ndiv (nmul (cents c) tipFeeBps) (Fin 100) = Fin y" "\<bar>y - 3 * of_int c / 100\<bar> < 1 / 200"
    using fee_near [OF assms] by blast
  define k where "k = (3 * c + 50) div 100"
  define r where "r = (3 * c + 50) mod 100"
  have kr: "3 * c + 50 = 100 * k + r" by (simp add: k_def r_def)
  have r: "1 \<le> r" "r \<le> 99"
  proof -
    have "r \<noteq> 0"
    proof
      assume "r = 0"
      with kr have "c = 50 + 100 * (67 * k - 2 * c - 34)" by simp
      then have "c mod 100 = (50 + 100 * (67 * k - 2 * c - 34)) mod 100" by (rule arg_cong)
      also have "\<dots> = 50" by (simp only: mod_mult_self2) simp
      finally have "c mod 100 = 50" .
      with False show False ..
    qed
    moreover have "0 \<le> r" by (simp add: r_def)
    ultimately show "1 \<le> r" by simp
    show "r \<le> 99" by (simp add: r_def)
  qed
  have "3 * of_int c / 100 + 1 / 2 = (of_int k + of_int r / 100 :: rat)"
    using arg_cong [OF kr, of "of_int :: int \<Rightarrow> rat"] by (simp add: field_simps)
  moreover have "1 \<le> (of_int r :: rat)" "(of_int r :: rat) \<le> 99" using r by simp_all
  ultimately have "of_int k \<le> y + 1 / 2" "y + 1 / 2 < of_int k + 1" using y(2) by linarith+
  then have "\<lfloor>y + 1 / 2\<rfloor> = k" by (rule floor_unique)
  then show ?thesis using y(1) by (simp add: liveTipFeeUsd_def cents_def k_def)
qed


lemma tip_amount_cents:
  assumes "tip_amount x = Ok amount"
  shows "\<exists>c. 500 \<le> c \<and> c \<le> 100000 \<and> amount = cents c"
proof -
  have a: "amount = ndiv (nround (nmul x (Fin 100))) (Fin 100)" "nle tipMinUsd amount" "\<not> ngt amount tipMaxUsd"
    using assms by (auto simp: tip_amount_def Let_def nge_def split: if_splits)
  have "amount \<noteq> NaN" using nle_not_NaN [OF a(2)] by simp
  with a(3) have max: "nle amount tipMaxUsd" by (simp add: ngt_def not_nlt tipMaxUsd_def)
  show ?thesis
  proof (cases "nround (nmul x (Fin 100))")
    case (Fin v)
    then obtain c where v: "v = of_int c" by (cases "nmul x (Fin 100)") auto
    have amt: "amount = cents c" using a(1) Fin v by (simp add: cents_def)
    have lo: "500 \<le> c"
    proof (rule ccontr)
      assume "\<not> 500 \<le> c"
      then have "(of_int c :: rat) / 100 \<le> 499 / 100" by simp
      then have "nle (cents c) (to_num (499 / 100))" by (simp add: cents_def to_num_mono)
      moreover have "nlt (to_num (499 / 100)) tipMinUsd" by code_simp
      ultimately have "nlt (cents c) tipMinUsd" by (rule nle_nlt_trans)
      with a(2) amt show False using not_nle nle_not_NaN by blast
    qed
    have hi: "c \<le> 100000"
    proof (rule ccontr)
      assume "\<not> c \<le> 100000"
      then have "100001 / 100 \<le> (of_int c :: rat) / 100" by simp
      then have "nle (to_num (100001 / 100)) (cents c)" by (simp add: cents_def to_num_mono)
      moreover have "nlt tipMaxUsd (to_num (100001 / 100))" by code_simp
      ultimately have "nlt tipMaxUsd (cents c)" by (metis nlt_nle_trans)
      with max amt show False using not_nle nle_not_NaN by blast
    qed
    from lo hi amt show ?thesis by blast
  next
    case (Infty s)
    with a max show ?thesis by (cases s) (simp_all add: tipMinUsd_def tipMaxUsd_def)
  next
    case NaN
    with a(1) \<open>amount \<noteq> NaN\<close> show ?thesis by simp
  qed
qed


subsection \<open>Preparing and submitting\<close>

datatype LiveTipChain = TipSolana | TipBase | TipBnb | TipRobinhood

definition EVM_CHAIN_IDS :: "LiveTipChain \<Rightarrow> int" where
  "EVM_CHAIN_IDS c = (case c of TipBase \<Rightarrow> 8453 | TipBnb \<Rightarrow> 56 | TipRobinhood \<Rightarrow> 4663 | TipSolana \<Rightarrow> 0)"

record PendingTip =
  pt_tipId :: string
  pt_roomId :: string
  pt_senderId :: string
  pt_hostId :: string
  pt_chain :: LiveTipChain
  pt_wallet :: string
  pt_amountUsd :: jsnum
  pt_feeUsd :: jsnum
  pt_solanaTx :: "string option"
  pt_evmTxs :: "LaunchEvmTx list option"

text \<open>
  What the service is configured with: \<open>te_transferData\<close> is the calldata of an ERC-20 transfer,
  \<open>te_hostAta\<close> a wallet's USDC account, \<open>te_same\<close> viem's \<open>isAddressEqual\<close>.
\<close>

record tip_env =
  te_clients :: "int list"
  te_feeRecipient :: "string option"
  te_treasuryUsdcAta :: "string option"
  te_transferData :: "string \<Rightarrow> int \<Rightarrow> string"
  te_hostAta :: "string \<Rightarrow> string"
  te_same :: "string \<Rightarrow> string \<Rightarrow> (js_error, bool) result"

text \<open>
  The world: the wallet rows, the pending tips of Redis, the mined EVM transactions, and what happened: every tip
  handed out, the Solana transfers the relayer sent, the lines of the rooms and the notes to the
  hosts, the random ids drawn and the states the wallet table has had.
\<close>

record tip_world =
  tw_wallets :: "wallet_row list"
  tw_pending :: "(string \<times> PendingTip) list"
  tw_chain :: "(string \<times> onchain_tx \<times> bool) list"
  tw_handed :: "PendingTip list"
  tw_relayed :: "(string \<times> string) list"
  tw_lines :: "PendingTip list"
  tw_notes :: "(string \<times> string) list"
  tw_ids :: "string list"
  tw_tables :: "wallet_row list list"

text \<open>
  What the outside answers: Redis, the database, the host of the room (none once it has ended), the random id, the
  gas tank, the relayer's two operations, the chain's client, and whether the room takes the line.
\<close>

record tip_answer =
  ta_redis :: bool
  ta_db :: bool
  ta_host :: "string option"
  ta_uuid :: string
  ta_stranded :: "(js_error, bool) result"
  ta_built :: "(string \<times> int) list \<Rightarrow> (js_error, string) result"
  ta_relayed :: "(js_error, string) result"
  ta_client :: evm_view
  ta_line :: bool

definition tip_wallet :: "wallet_chain \<Rightarrow> string \<Rightarrow> wallet_row list \<Rightarrow> string option" where
  "tip_wallet f userId ws =
     map_option wr_address (find (\<lambda>r. wr_chain r = f)
       (sort_key (\<lambda>r. case wr_verifiedAt r of None \<Rightarrow> 0 | Some t \<Rightarrow> t)
         (filter (\<lambda>r. wr_userId r = Some userId \<and> wr_verifiedAt r \<noteq> None) ws)))"

definition tip_txs :: "tip_env \<Rightarrow> int \<Rightarrow> usdc_info \<Rightarrow> string \<Rightarrow> string \<Rightarrow> int \<Rightarrow> int \<Rightarrow> LaunchEvmTx list" where
  "tip_txs env chainId usdc theirs feeRecipient amountRaw feeRaw =
     map (\<lambda>data. \<lparr>le_chainId = chainId, le_to = usdc_address usdc, le_data = data, le_value = ''0''\<rparr>)
       [te_transferData env theirs amountRaw, te_transferData env feeRecipient feeRaw]"

text \<open>The two calls, cut at their awaits.\<close>

datatype tip_call =
    TipCall string string LiveTipChain jsnum
  | TipRoom string string LiveTipChain jsnum string
  | TipGas PendingTip string
  | TipStore PendingTip
  | TipSubmit string string string LaunchProof
  | TipTaken string string PendingTip LaunchProof
  | TipVerified PendingTip string
  | TipNotify PendingTip string

definition new_tip :: "tip_answer \<Rightarrow> string \<Rightarrow> string \<Rightarrow> LiveTipChain \<Rightarrow> jsnum \<Rightarrow> string \<Rightarrow> PendingTip" where
  "new_tip a me roomId chain amountUsd host =
     \<lparr>pt_tipId = ta_uuid a, pt_roomId = roomId, pt_senderId = me, pt_hostId = host, pt_chain = chain, pt_wallet = '''',
      pt_amountUsd = amountUsd, pt_feeUsd = liveTipFeeUsd amountUsd, pt_solanaTx = None, pt_evmTxs = None\<rparr>"

definition prepare_solana :: "tip_env \<Rightarrow> tip_answer \<Rightarrow> PendingTip \<Rightarrow> tip_world \<Rightarrow> (js_error, PendingTip) result" where
  "prepare_solana env a p w =
     (case (tip_wallet SOLANA (pt_senderId p) (tw_wallets w), tip_wallet SOLANA (pt_hostId p) (tw_wallets w), te_treasuryUsdcAta env) of
        (Some mine, Some theirs, Some treasury) \<Rightarrow>
          bind_result (toRaw (pt_amountUsd p) 6) (\<lambda>amountRaw.
          bind_result (toRaw (pt_feeUsd p) 6) (\<lambda>feeRaw.
          bind_result (ta_built a [(te_hostAta env theirs, amountRaw), (treasury, feeRaw)]) (\<lambda>tx.
            Ok (p\<lparr>pt_wallet := mine, pt_solanaTx := Some tx\<rparr>))))
      | _ \<Rightarrow> Err (Unprocessable ''Tips on Solana are not available right now''))"

text \<open>The EVM branch up to the gas tank, and from there on.\<close>

definition evm_parties :: "tip_env \<Rightarrow> PendingTip \<Rightarrow> tip_world \<Rightarrow> (string \<times> string) option" where
  "evm_parties env p w =
     (let chainId = EVM_CHAIN_IDS (pt_chain p) in
      case (EVM_USDC_BY_CHAIN_ID chainId, te_feeRecipient env, tip_wallet EVM (pt_senderId p) (tw_wallets w), tip_wallet EVM (pt_hostId p) (tw_wallets w)) of
        (Some usdc, Some fee, Some mine, Some theirs) \<Rightarrow> if chainId \<in> set (te_clients env) then Some (mine, theirs) else None
      | _ \<Rightarrow> None)"

definition prepare_evm :: "tip_env \<Rightarrow> PendingTip \<Rightarrow> string \<Rightarrow> (js_error, PendingTip) result" where
  "prepare_evm env p theirs =
     (case (EVM_USDC_BY_CHAIN_ID (EVM_CHAIN_IDS (pt_chain p)), te_feeRecipient env) of
        (Some usdc, Some fee) \<Rightarrow>
          bind_result (toRaw (pt_amountUsd p) (usdc_decimals usdc)) (\<lambda>amountRaw.
          bind_result (toRaw (pt_feeUsd p) (usdc_decimals usdc)) (\<lambda>feeRaw.
            Ok (p\<lparr>pt_evmTxs := Some (tip_txs env (EVM_CHAIN_IDS (pt_chain p)) usdc theirs fee amountRaw feeRaw)\<rparr>)))
      | _ \<Rightarrow> Err TypeError)"

definition submit_transfers :: "tip_env \<Rightarrow> tip_answer \<Rightarrow> PendingTip \<Rightarrow> LaunchProof \<Rightarrow> (js_error, string) result" where
  "submit_transfers env a p proof_sent =
     (if pt_chain p = TipSolana
      then (case (lp_signedTxBase64 proof_sent, pt_solanaTx p) of
              (Some s, Some tx) \<Rightarrow> if s = '''' \<or> tx = '''' then Err (BadRequest ''Sign the tip first'') else ta_relayed a
            | _ \<Rightarrow> Err (BadRequest ''Sign the tip first''))
      else if EVM_CHAIN_IDS (pt_chain p) \<notin> set (te_clients env) then Err (Unprocessable ''Tips on this network are not available'')
      else
        (case pt_evmTxs p of
           None \<Rightarrow> Err (Unprocessable ''Tips on this network are not available'')
         | Some txs \<Rightarrow>
             let hashes = (case lp_txHashes proof_sent of None \<Rightarrow> [] | Some hs \<Rightarrow> hs) in
             bind_result (verifyEvmTxs (te_same env) (ta_client a) (pt_wallet p) txs
               \<lparr>lp_signedTxBase64 = None, lp_txHashes = Some hashes\<rparr>) (\<lambda>_. Ok (hd hashes))))"

fun tip_step :: "tip_env \<Rightarrow> tip_answer \<Rightarrow> tip_call \<Rightarrow> tip_world \<Rightarrow> tip_call option \<times> tip_world" where
  "tip_step env a (TipCall me roomId chain amount) w =
     ((case tip_amount amount of
         Err e \<Rightarrow> None
       | Ok amountUsd \<Rightarrow>
           (case ta_host a of
              None \<Rightarrow> None
            | Some host \<Rightarrow> if host = me then None else Some (TipRoom me roomId chain amountUsd host))), w)"
| "tip_step env a (TipRoom me roomId chain amountUsd host) w =
     ((if \<not> ta_db a then None
       else
         let p = new_tip a me roomId chain amountUsd host in
         if chain = TipSolana
         then (case prepare_solana env a p w of Err e \<Rightarrow> None | Ok q \<Rightarrow> Some (TipStore q))
         else (case evm_parties env p w of
                 None \<Rightarrow> None
               | Some (mine, theirs) \<Rightarrow> Some (TipGas (p\<lparr>pt_wallet := mine\<rparr>) theirs))), w\<lparr>tw_ids := ta_uuid a # tw_ids w\<rparr>)"
| "tip_step env a (TipGas p theirs) w =
     ((case ta_stranded a of
         Err e \<Rightarrow> None
       | Ok stranded \<Rightarrow>
           if stranded then None else (case prepare_evm env p theirs of Err e \<Rightarrow> None | Ok q \<Rightarrow> Some (TipStore q))), w)"
| "tip_step env a (TipStore p) w =
     (None, if ta_redis a
            then w\<lparr>tw_pending := (pt_tipId p, p) # filter (\<lambda>(i, _). i \<noteq> pt_tipId p) (tw_pending w), tw_handed := p # tw_handed w\<rparr>
            else w)"
| "tip_step env a (TipSubmit me roomId tipId proof_sent) w =
     (if \<not> ta_redis a then (None, w)
      else case map_of (tw_pending w) tipId of
        None \<Rightarrow> (None, w)
      | Some p \<Rightarrow> (Some (TipTaken me roomId p proof_sent), w\<lparr>tw_pending := filter (\<lambda>(i, _). i \<noteq> tipId) (tw_pending w)\<rparr>))"
| "tip_step env a (TipTaken me roomId p proof_sent) w =
     (if pt_senderId p \<noteq> me \<or> pt_roomId p \<noteq> roomId then (None, w)
      else case submit_transfers env a p proof_sent of
        Err e \<Rightarrow> (None, w)
      | Ok ref \<Rightarrow> (Some (TipVerified p ref),
                   if pt_chain p = TipSolana then w\<lparr>tw_relayed := (pt_tipId p, ref) # tw_relayed w\<rparr> else w))"
| "tip_step env a (TipVerified p ref) w =
     (Some (TipNotify p ref), if ta_line a then w\<lparr>tw_lines := p # tw_lines w\<rparr> else w)"
| "tip_step env a (TipNotify p ref) w =
     (None, if ta_db a \<and> (pt_hostId p, ''transfer:'' @ ref) \<notin> set (tw_notes w)
            then w\<lparr>tw_notes := (pt_hostId p, ''transfer:'' @ ref) # tw_notes w\<rparr> else w)"

datatype tip_event =
    TipArrives tip_call
  | TipSteps nat tip_answer
  | TipMined string onchain_tx bool
  | TipExpires string
  | WalletsChange "wallet_row list"

fun tip_starts :: "tip_call \<Rightarrow> bool" where
  "tip_starts (TipCall me roomId chain amount) = True"
| "tip_starts (TipSubmit me roomId tipId proof_sent) = True"
| "tip_starts c = False"

type_synonym tip_system = "tip_world \<times> tip_call list"

fun tip_event_step :: "tip_env \<Rightarrow> tip_event \<Rightarrow> tip_system \<Rightarrow> tip_system" where
  "tip_event_step env (TipArrives c) (w, cs) = (w, if tip_starts c then cs @ [c] else cs)"
| "tip_event_step env (TipSteps n a) (w, cs) =
     (if n < length cs
      then case tip_step env a (cs ! n) w of
             (None, w') \<Rightarrow> (w', take n cs @ drop (Suc n) cs)
           | (Some c, w') \<Rightarrow> (w', cs[n := c])
      else (w, cs))"
| "tip_event_step env (TipMined h tx ok) (w, cs) = (w\<lparr>tw_chain := tw_chain w @ [(h, tx, ok)]\<rparr>, cs)"
| "tip_event_step env (TipExpires i) (w, cs) = (w\<lparr>tw_pending := filter (\<lambda>(j, _). j \<noteq> i) (tw_pending w)\<rparr>, cs)"
| "tip_event_step env (WalletsChange ws) (w, cs) = (w\<lparr>tw_wallets := ws, tw_tables := ws # tw_tables w\<rparr>, cs)"


text \<open>Clients report only mined transactions, and a random id is never drawn twice.\<close>

fun tip_honest :: "tip_event \<Rightarrow> tip_system \<Rightarrow> bool" where
  "tip_honest (TipSteps n a) (w, cs) = (truthful (tw_chain w) (ta_client a) \<and> ta_uuid a \<notin> set (tw_ids w))"
| "tip_honest e s = True"

inductive tip_reach :: "tip_env \<Rightarrow> tip_system \<Rightarrow> bool" for env where
  no_tips: "tw_pending w = [] \<Longrightarrow> tw_lines w = [] \<Longrightarrow> tw_handed w = [] \<Longrightarrow> tw_tables w = [tw_wallets w] \<Longrightarrow> tip_reach env (w, [])"
| tip_event: "tip_reach env s \<Longrightarrow> tip_honest e s \<Longrightarrow> tip_reach env (tip_event_step env e s)"

subsection \<open>Every announced tip was paid\<close>

definition amounts_ok :: "jsnum \<Rightarrow> jsnum \<Rightarrow> int \<Rightarrow> bool" where
  "amounts_ok amount fee c \<longleftrightarrow> 500 \<le> c \<and> c \<le> 100000 \<and> amount = cents c \<and> fee = cents ((3 * c + 50) div 100)"

text \<open>The transfers of an EVM tip of \<open>c\<close> cents, between wallets that a state of the wallet table verified.\<close>

definition evm_tip_ok :: "tip_env \<Rightarrow> tip_world \<Rightarrow> PendingTip \<Rightarrow> int \<Rightarrow> bool" where
  "evm_tip_ok env w p c \<longleftrightarrow>
     (\<exists>usdc fee theirs ws.
        EVM_USDC_BY_CHAIN_ID (EVM_CHAIN_IDS (pt_chain p)) = Some usdc \<and> te_feeRecipient env = Some fee
        \<and> ws \<in> set (tw_tables w) \<and> tip_wallet EVM (pt_senderId p) ws = Some (pt_wallet p) \<and> tip_wallet EVM (pt_hostId p) ws = Some theirs
        \<and> pt_evmTxs p = Some (tip_txs env (EVM_CHAIN_IDS (pt_chain p)) usdc theirs fee
             (c * 10 ^ usdc_decimals usdc div 100) ((3 * c + 50) div 100 * 10 ^ usdc_decimals usdc div 100)))"

definition tip_ok :: "tip_env \<Rightarrow> tip_world \<Rightarrow> PendingTip \<Rightarrow> bool" where
  "tip_ok env w p \<longleftrightarrow>
     pt_senderId p \<noteq> pt_hostId p
     \<and> (\<exists>c. amounts_ok (pt_amountUsd p) (pt_feeUsd p) c \<and> (pt_chain p \<noteq> TipSolana \<longrightarrow> evm_tip_ok env w p c))"

definition tip_paid :: "tip_env \<Rightarrow> tip_world \<Rightarrow> PendingTip \<Rightarrow> bool" where
  "tip_paid env w p \<longleftrightarrow>
     (if pt_chain p = TipSolana then \<exists>ref. (pt_tipId p, ref) \<in> set (tw_relayed w)
      else \<exists>txs hashes. pt_evmTxs p = Some txs \<and> list_all2 (landed_as (te_same env) (tw_chain w) (pt_wallet p)) txs hashes)"

fun tip_call_ok :: "tip_env \<Rightarrow> tip_world \<Rightarrow> tip_call \<Rightarrow> bool" where
  "tip_call_ok env w (TipRoom me roomId chain amountUsd host) = (me \<noteq> host \<and> (\<exists>c. amounts_ok amountUsd (liveTipFeeUsd amountUsd) c))"
| "tip_call_ok env w (TipGas p theirs) =
     (pt_senderId p \<noteq> pt_hostId p \<and> pt_chain p \<noteq> TipSolana \<and> (\<exists>c. amounts_ok (pt_amountUsd p) (pt_feeUsd p) c)
      \<and> (\<exists>ws\<in>set (tw_tables w). tip_wallet EVM (pt_senderId p) ws = Some (pt_wallet p) \<and> tip_wallet EVM (pt_hostId p) ws = Some theirs))"
| "tip_call_ok env w (TipStore p) = tip_ok env w p"
| "tip_call_ok env w (TipTaken me roomId p proof_sent) = (p \<in> set (tw_handed w))"
| "tip_call_ok env w (TipVerified p ref) = (p \<in> set (tw_handed w) \<and> tip_paid env w p)"
| "tip_call_ok env w c = True"

fun tip_ticket :: "tip_call \<Rightarrow> string list" where
  "tip_ticket (TipGas p theirs) = [pt_tipId p]"
| "tip_ticket (TipStore p) = [pt_tipId p]"
| "tip_ticket (TipTaken me roomId p proof_sent) = [pt_tipId p]"
| "tip_ticket (TipVerified p ref) = [pt_tipId p]"
| "tip_ticket c = []"

definition ids_of :: "tip_world \<Rightarrow> string list" where
  "ids_of w = map fst (tw_pending w) @ map pt_tipId (tw_lines w)"

definition ids_ok :: "tip_world \<Rightarrow> string list \<Rightarrow> bool" where
  "ids_ok w ts \<longleftrightarrow> distinct (ts @ ids_of w) \<and> set (ts @ ids_of w) \<subseteq> set (tw_ids w)"

definition tips_ok :: "tip_env \<Rightarrow> tip_world \<Rightarrow> bool" where
  "tips_ok env w \<longleftrightarrow>
     tw_wallets w \<in> set (tw_tables w)
     \<and> (\<forall>p\<in>set (tw_handed w). tip_ok env w p)
     \<and> (\<forall>(i, p)\<in>set (tw_pending w). i = pt_tipId p \<and> p \<in> set (tw_handed w))
     \<and> (\<forall>p\<in>set (tw_lines w). p \<in> set (tw_handed w) \<and> tip_paid env w p)"

definition tips_inv :: "tip_env \<Rightarrow> tip_system \<Rightarrow> bool" where
  "tips_inv env s \<longleftrightarrow> tips_ok env (fst s) \<and> list_all (tip_call_ok env (fst s)) (snd s) \<and> ids_ok (fst s) (concat (map tip_ticket (snd s)))"

text \<open>What happened stays.\<close>

definition more :: "tip_world \<Rightarrow> tip_world \<Rightarrow> bool" where
  "more w w' \<longleftrightarrow> set (tw_chain w) \<subseteq> set (tw_chain w') \<and> set (tw_handed w) \<subseteq> set (tw_handed w') \<and> set (tw_relayed w) \<subseteq> set (tw_relayed w')
     \<and> set (tw_tables w) \<subseteq> set (tw_tables w')"

lemma more_refl [simp]: "more w w"
  by (simp add: more_def)

lemma evm_tip_ok_more: "more w w' \<Longrightarrow> evm_tip_ok env w p c \<Longrightarrow> evm_tip_ok env w' p c"
  unfolding more_def evm_tip_ok_def by blast

lemma tip_ok_more: "more w w' \<Longrightarrow> tip_ok env w p \<Longrightarrow> tip_ok env w' p"
  unfolding tip_ok_def using evm_tip_ok_more by blast

lemma tip_paid_more:
  assumes "more w w'" "tip_paid env w p"
  shows "tip_paid env w' p"
proof (cases "pt_chain p = TipSolana")
  case True
  with assms show ?thesis by (auto simp: tip_paid_def more_def)
next
  case False
  with assms(2) obtain txs hashes where t: "pt_evmTxs p = Some txs"
    "list_all2 (landed_as (te_same env) (tw_chain w) (pt_wallet p)) txs hashes" by (auto simp: tip_paid_def)
  have "set (tw_chain w) \<subseteq> set (tw_chain w')" using assms(1) by (simp add: more_def)
  with t(2) have "list_all2 (landed_as (te_same env) (tw_chain w') (pt_wallet p)) txs hashes"
    by (auto elim!: list_all2_mono intro: landed_more)
  with False t(1) show ?thesis by (auto simp: tip_paid_def)
qed

lemma tip_call_more: "more w w' \<Longrightarrow> tip_call_ok env w c \<Longrightarrow> tip_call_ok env w' c"
  by (cases c) (auto simp: more_def intro: tip_ok_more tip_paid_more)

lemma tip_calls_more: "more w w' \<Longrightarrow> list_all (tip_call_ok env w) cs \<Longrightarrow> list_all (tip_call_ok env w') cs"
  by (auto simp: list_all_iff intro: tip_call_more)

lemma ids_permute: "ids_ok w ts \<Longrightarrow> mset us = mset ts \<Longrightarrow> ids_ok w us"
  using mset_eq_imp_distinct_iff [of us ts] mset_eq_setD [of us ts] by (auto simp: ids_ok_def)


definition tip_keeps :: "tip_env \<Rightarrow> tip_world \<Rightarrow> string list \<Rightarrow> tip_call option \<Rightarrow> tip_world \<Rightarrow> bool" where
  "tip_keeps env w ts c' w' \<longleftrightarrow>
     tips_ok env w' \<and> more w w' \<and> (case c' of None \<Rightarrow> True | Some d \<Rightarrow> tip_call_ok env w' d)
     \<and> ids_ok w' ((case c' of None \<Rightarrow> [] | Some d \<Rightarrow> tip_ticket d) @ ts)"

lemma ids_less: "ids_ok w (us @ ts) \<Longrightarrow> ids_ok w ts"
  by (auto simp: ids_ok_def)

lemma tips_ok_more:
  assumes "tips_ok env w" "more w w'" "tw_wallets w' \<in> set (tw_tables w')" "set (tw_handed w') = set (tw_handed w)"
    "set (tw_pending w') \<subseteq> set (tw_pending w)" "tw_lines w' = tw_lines w"
  shows "tips_ok env w'"
  using assms tip_ok_more [OF assms(2)] tip_paid_more [OF assms(2)] unfolding tips_ok_def by (simp, blast)

lemma tip_stays:
  assumes "tips_ok env w" "ids_ok w (us @ ts)" "\<And>d. c' = Some d \<Longrightarrow> tip_call_ok env w d \<and> (tip_ticket d = [] \<or> tip_ticket d = us)"
  shows "tip_keeps env w ts c' w"
  using assms ids_less [OF assms(2)] by (auto simp: tip_keeps_def split: option.split)

lemma fee_amounts: "500 \<le> c \<Longrightarrow> c \<le> 100000 \<Longrightarrow> amounts_ok (cents c) (liveTipFeeUsd (cents c)) c"
  by (simp add: amounts_ok_def liveTipFee_cents)

lemma tip_amount_ok: "tip_amount x = Ok a \<Longrightarrow> \<exists>c. amounts_ok a (liveTipFeeUsd a) c"
  using tip_amount_cents fee_amounts by blast

lemma fee_range: "500 \<le> c \<Longrightarrow> c \<le> 100000 \<Longrightarrow> 1 \<le> (3 * c + 50) div 100 \<and> (3 * c + 50) div 100 \<le> (1048576::int)"
  by linarith

lemma prepare_evm_ok:
  assumes "prepare_evm env p theirs = Ok q" "pt_senderId p \<noteq> pt_hostId p" "pt_chain p \<noteq> TipSolana"
    "amounts_ok (pt_amountUsd p) (pt_feeUsd p) c" "ws \<in> set (tw_tables w)"
    "tip_wallet EVM (pt_senderId p) ws = Some (pt_wallet p)" "tip_wallet EVM (pt_hostId p) ws = Some theirs"
  shows "tip_ok env w q \<and> pt_tipId q = pt_tipId p"
proof -
  from assms(4) have c: "500 \<le> c" "c \<le> 100000" and a: "pt_amountUsd p = cents c" "pt_feeUsd p = cents ((3 * c + 50) div 100)"
    by (simp_all add: amounts_ok_def)
  have raw: "toRaw (pt_amountUsd p) d = Ok (c * 10 ^ d div 100)"
    "toRaw (pt_feeUsd p) d = Ok ((3 * c + 50) div 100 * 10 ^ d div 100)" for d
    using c fee_range [OF c] by (simp_all only: a) (rule toRaw_cents; simp)+
  from assms(1) obtain usdc fee where u: "EVM_USDC_BY_CHAIN_ID (EVM_CHAIN_IDS (pt_chain p)) = Some usdc" "te_feeRecipient env = Some fee"
    and q: "q = p\<lparr>pt_evmTxs := Some (tip_txs env (EVM_CHAIN_IDS (pt_chain p)) usdc theirs fee
        (c * 10 ^ usdc_decimals usdc div 100) ((3 * c + 50) div 100 * 10 ^ usdc_decimals usdc div 100))\<rparr>"
    by (auto simp: prepare_evm_def bind_result_Ok_iff raw split: option.splits)
  have "evm_tip_ok env w q c" unfolding evm_tip_ok_def
    by (intro exI [of _ usdc] exI [of _ fee] exI [of _ theirs] exI [of _ ws]) (use u assms(5-7) in \<open>simp add: q\<close>)
  with assms(2,4) show ?thesis by (auto simp: tip_ok_def q)
qed

lemma room_keeps:
  assumes "tips_ok env w" "ids_ok w ts" "me \<noteq> host" "amounts_ok amountUsd (liveTipFeeUsd amountUsd) c" "ta_uuid a \<notin> set (tw_ids w)"
    "tip_step env a (TipRoom me roomId chain amountUsd host) w = (c', w')"
  shows "tip_keeps env w ts c' w'"
proof -
  let ?p = "new_tip a me roomId chain amountUsd host"
  have w': "w' = w\<lparr>tw_ids := ta_uuid a # tw_ids w\<rparr>" using assms(6) by simp
  have m: "more w w'" by (simp add: w' more_def)
  have ok: "tips_ok env w'" by (rule tips_ok_more [OF assms(1) m]) (use assms(1) in \<open>simp_all add: w' tips_ok_def\<close>)
  have ids: "ids_ok w' ts" "ids_ok w' (ta_uuid a # ts)" using assms(2,5) by (auto simp: ids_ok_def ids_of_def w')
  have "tip_call_ok env w' d \<and> tip_ticket d = [ta_uuid a]" if d: "c' = Some d" for d
  proof (cases "chain = TipSolana")
    case True
    with assms(6) d obtain q where q: "prepare_solana env a ?p w = Ok q" "d = TipStore q" by (auto simp: Let_def split: if_splits sum.splits)
    from q(1) have "tip_ok env w' q \<and> pt_tipId q = ta_uuid a"
      using True assms(3,4) by (auto simp: prepare_solana_def bind_result_Ok_iff new_tip_def tip_ok_def split: option.splits)
    with q show ?thesis by simp
  next
    case False
    with assms(6) d obtain mine theirs where q: "evm_parties env ?p w = Some (mine, theirs)" "d = TipGas (?p\<lparr>pt_wallet := mine\<rparr>) theirs"
      by (auto simp: Let_def split: if_splits option.splits)
    have "tw_wallets w \<in> set (tw_tables w)" using assms(1) by (simp add: tips_ok_def)
    with q False assms(3,4) show ?thesis
      by (auto simp: evm_parties_def new_tip_def Let_def w' split: option.splits if_splits)
  qed
  with ok m ids show ?thesis by (auto simp: tip_keeps_def split: option.split)
qed

lemma store_keeps:
  assumes "tips_ok env w" "ids_ok w (pt_tipId p # ts)" "tip_ok env w p"
  shows "tip_keeps env w ts None
     (w\<lparr>tw_pending := (pt_tipId p, p) # filter (\<lambda>(i, _). i \<noteq> pt_tipId p) (tw_pending w), tw_handed := p # tw_handed w\<rparr>)"
    (is "tip_keeps env w ts None ?w")
proof -
  have m: "more w ?w" by (auto simp: more_def)
  have "tip_ok env ?w q" if "q \<in> set (tw_handed ?w)" for q
    using that assms(1,3) tip_ok_more [OF m] by (auto simp: tips_ok_def)
  moreover have "tip_paid env ?w q" if "q \<in> set (tw_lines w)" for q
    using that assms(1) tip_paid_more [OF m] by (auto simp: tips_ok_def)
  ultimately have "tips_ok env ?w" using assms(1) by (auto simp: tips_ok_def)
  moreover have "ids_ok ?w ts"
  proof -
    have "pt_tipId p \<notin> fst ` set (tw_pending w)" using assms(2) by (simp add: ids_ok_def ids_of_def)
    then have "\<forall>x\<in>set (tw_pending w). case x of (i, _) \<Rightarrow> i \<noteq> pt_tipId p" by (auto simp: image_iff)
    then have "filter (\<lambda>(i, _). i \<noteq> pt_tipId p) (tw_pending w) = tw_pending w" by (rule filter_True)
    with assms(2) show ?thesis by (auto simp: ids_ok_def ids_of_def)
  qed
  ultimately show ?thesis using m by (simp add: tip_keeps_def)
qed

lemma distinct_fst_filter: "distinct (map fst xs) \<Longrightarrow> distinct (map fst (filter P xs))"
  by (simp add: distinct_map_filter)

lemma taken_keeps:
  assumes "tips_ok env w" "ids_ok w ts" "map_of (tw_pending w) i = Some p"
  shows "tip_keeps env w ts (Some (TipTaken me roomId p proof_sent)) (w\<lparr>tw_pending := filter (\<lambda>(j, _). j \<noteq> i) (tw_pending w)\<rparr>)"
    (is "tip_keeps env w ts _ ?w")
proof -
  have m: "more w ?w" by (simp add: more_def)
  have ok: "tips_ok env ?w" by (rule tips_ok_more [OF assms(1) m]) (use assms(1) in \<open>auto simp: tips_ok_def\<close>)
  have mem: "(i, p) \<in> set (tw_pending w)" using assms(3) by (rule map_of_SomeD)
  then have p: "i = pt_tipId p" "p \<in> set (tw_handed w)" using assms(1) by (auto simp: tips_ok_def)
  have "ids_ok ?w (i # ts)"
  proof -
    define P where "P = map fst (tw_pending w)"
    define F where "F = map fst (filter (\<lambda>(j, _). j \<noteq> i) (tw_pending w))"
    define L where "L = map pt_tipId (tw_lines w)"
    have d: "distinct (ts @ P @ L)" "set (ts @ P @ L) \<subseteq> set (tw_ids w)" using assms(2) by (simp_all add: ids_ok_def ids_of_def P_def L_def)
    have "set F \<subseteq> set P" "i \<notin> set F" by (auto simp: F_def P_def)
    moreover have "distinct F" unfolding F_def by (rule distinct_fst_filter) (use d(1) in \<open>simp add: P_def\<close>)
    moreover have "i \<in> set P" using imageI [OF mem, of fst] by (simp add: P_def)
    ultimately have "distinct ((i # ts) @ F @ L)" "set ((i # ts) @ F @ L) \<subseteq> set (tw_ids w)" using d by auto
    then show ?thesis by (simp add: ids_ok_def ids_of_def F_def L_def)
  qed
  with ok m p show ?thesis by (simp add: tip_keeps_def)
qed


lemma submit_paid:
  assumes "submit_transfers env a p proof_sent = Ok ref" "pt_chain p \<noteq> TipSolana" "truthful (tw_chain w) (ta_client a)"
  shows "tip_paid env w p"
proof -
  from assms(1,2) obtain txs hashes where t: "pt_evmTxs p = Some txs"
    "verifyEvmTxs (te_same env) (ta_client a) (pt_wallet p) txs \<lparr>lp_signedTxBase64 = None, lp_txHashes = Some hashes\<rparr> = Ok ()"
    by (auto simp: submit_transfers_def Let_def bind_result_Ok_iff split: if_splits option.splits)
  from verifyEvmTxs_OkD [OF t(2) assms(3)] t(1) assms(2) show ?thesis by (auto simp: tip_paid_def)
qed

lemma line_keeps:
  assumes "tips_ok env w" "ids_ok w (pt_tipId p # ts)" "p \<in> set (tw_handed w)" "tip_paid env w p"
  shows "tip_keeps env w ts (Some (TipNotify p ref)) (w\<lparr>tw_lines := p # tw_lines w\<rparr>)" (is "tip_keeps env w ts _ ?w")
proof -
  have m: "more w ?w" by (simp add: more_def)
  have "tips_ok env ?w" using assms(1,3,4) tip_ok_more [OF m] tip_paid_more [OF m] by (auto simp: tips_ok_def)
  moreover have "ids_ok ?w ts" using assms(2) by (auto simp: ids_ok_def ids_of_def)
  ultimately show ?thesis using m by (simp add: tip_keeps_def)
qed

lemma frame_keeps:
  assumes "tips_ok env w" "ids_ok w (us @ ts)" "more w w'" "tw_wallets w' = tw_wallets w" "tw_handed w' = tw_handed w"
    "tw_pending w' = tw_pending w" "tw_lines w' = tw_lines w" "tw_ids w' = tw_ids w"
    "\<And>d. c' = Some d \<Longrightarrow> tip_call_ok env w' d \<and> (tip_ticket d = [] \<or> tip_ticket d = us)"
  shows "tip_keeps env w ts c' w'"
proof -
  have "tips_ok env w'" by (rule tips_ok_more [OF assms(1,3)]) (use assms(1,3-7) in \<open>auto simp: tips_ok_def more_def\<close>)
  moreover have "ids_ok w' (us @ ts)" "ids_ok w' ts" using assms(2,6-8) ids_less [OF assms(2)] by (simp_all add: ids_ok_def ids_of_def)
  ultimately show ?thesis using assms(3,9) by (auto simp: tip_keeps_def split: option.split)
qed

lemma tip_step_keeps:
  assumes "tips_ok env w" "tip_call_ok env w c" "ids_ok w (tip_ticket c @ ts)" "truthful (tw_chain w) (ta_client a)"
    "ta_uuid a \<notin> set (tw_ids w)"
  shows "tip_keeps env w ts (fst (tip_step env a c w)) (snd (tip_step env a c w))"
proof (cases c)
  case (TipCall me roomId chain amount)
  have "tip_call_ok env w d \<and> (tip_ticket d = [] \<or> tip_ticket d = tip_ticket c)" if "fst (tip_step env a c w) = Some d" for d
    using that TipCall tip_amount_ok by (auto split: sum.splits option.splits if_splits)
  with tip_stays [OF assms(1,3)] TipCall show ?thesis by simp
next
  case (TipRoom me roomId chain amountUsd host)
  with assms(2) obtain n where n: "me \<noteq> host" "amounts_ok amountUsd (liveTipFeeUsd amountUsd) n" by auto
  show ?thesis unfolding TipRoom by (rule room_keeps [OF assms(1) _ n assms(5) prod.collapse [symmetric]]) (use assms(3) TipRoom in simp)
next
  case (TipGas p theirs)
  with assms(2) obtain n ws where n: "pt_senderId p \<noteq> pt_hostId p" "pt_chain p \<noteq> TipSolana" "amounts_ok (pt_amountUsd p) (pt_feeUsd p) n"
    "ws \<in> set (tw_tables w)" "tip_wallet EVM (pt_senderId p) ws = Some (pt_wallet p)" "tip_wallet EVM (pt_hostId p) ws = Some theirs" by auto
  have "tip_call_ok env w d \<and> (tip_ticket d = [] \<or> tip_ticket d = tip_ticket c)" if "fst (tip_step env a c w) = Some d" for d
    using that TipGas prepare_evm_ok [OF _ n] by (auto split: sum.splits if_splits)
  with tip_stays [OF assms(1,3)] TipGas show ?thesis by simp
next
  case (TipStore p)
  have "tip_keeps env w ts None w" by (rule tip_stays [OF assms(1,3)]) simp
  with TipStore assms store_keeps [of env w p ts] show ?thesis by auto
next
  case (TipSubmit me roomId i proof_sent)
  have "tip_keeps env w ts None w" by (rule tip_stays [OF assms(1,3)]) simp
  with TipSubmit assms taken_keeps [of env w ts i] show ?thesis by (auto split: option.split)
next
  case (TipTaken me roomId p proof_sent)
  have none: "tip_keeps env w ts None w" by (rule tip_stays [OF assms(1,3)]) simp
  show ?thesis
  proof (cases "submit_transfers env a p proof_sent")
    case (Inr ref)
    have "tip_keeps env w ts (Some (TipVerified p ref)) (w\<lparr>tw_relayed := (pt_tipId p, ref) # tw_relayed w\<rparr>)" if "pt_chain p = TipSolana"
      by (rule frame_keeps [OF assms(1,3)]) (use that TipTaken assms(2) in \<open>auto simp: more_def tip_paid_def\<close>)
    moreover have "tip_keeps env w ts (Some (TipVerified p ref)) w" if "pt_chain p \<noteq> TipSolana"
      by (rule tip_stays [OF assms(1,3)]) (use that TipTaken assms(2) submit_paid [OF Inr that assms(4)] in auto)
    ultimately show ?thesis using none TipTaken Inr by auto
  qed (use none TipTaken in auto)
next
  case (TipVerified p ref)
  have "tip_keeps env w ts (Some (TipNotify p ref)) w" by (rule tip_stays [OF assms(1,3)]) simp
  with TipVerified assms line_keeps [of env w p ts ref] show ?thesis by auto
next
  case (TipNotify p ref)
  have "tip_keeps env w ts None (w\<lparr>tw_notes := ns\<rparr>)" for ns
    by (rule frame_keeps [OF assms(1,3)]) (simp_all add: more_def)
  moreover have "tip_keeps env w ts None w" by (rule tip_stays [OF assms(1,3)]) simp
  ultimately show ?thesis using TipNotify by auto
qed

lemma tips_inv_steps:
  assumes "tips_inv env (w, cs)" "n < length cs" "tip_honest (TipSteps n a) (w, cs)"
  shows "tips_inv env (tip_event_step env (TipSteps n a) (w, cs))"
proof -
  define pre where "pre = take n cs"
  define post where "post = drop (Suc n) cs"
  define c where "c = cs ! n"
  have cs: "cs = pre @ c # post" using assms(2) by (simp add: pre_def post_def c_def id_take_nth_drop)
  define ts where "ts = concat (map tip_ticket (pre @ post))"
  obtain c' w' where s: "tip_step env a c w = (c', w')" by fastforce
  from assms(1) have w: "tips_ok env w" and calls: "list_all (tip_call_ok env w) (pre @ c # post)"
    and t: "ids_ok w (concat (map tip_ticket cs))" using cs by (simp_all add: tips_inv_def)
  have "ids_ok w (tip_ticket c @ ts)" by (rule ids_permute [OF t]) (simp add: ts_def cs)
  then have k: "tip_keeps env w ts c' w'"
    using tip_step_keeps [where c = c and ts = ts and a = a, OF w] calls assms(3) s by simp
  then have m: "more w w'" by (simp add: tip_keeps_def)
  have "tip_event_step env (TipSteps n a) (w, cs) = (w', pre @ (case c' of None \<Rightarrow> [] | Some d \<Rightarrow> [d]) @ post)"
    using s assms(2) by (simp add: pre_def post_def c_def upd_conv_take_nth_drop split: option.split)
  moreover have "list_all (tip_call_ok env w') (pre @ post)" using tip_calls_more [OF m] calls by simp
  moreover have "ids_ok w' (concat (map tip_ticket (pre @ (case c' of None \<Rightarrow> [] | Some d \<Rightarrow> [d]) @ post)))"
    by (rule ids_permute [where ts = "(case c' of None \<Rightarrow> [] | Some d \<Rightarrow> tip_ticket d) @ ts"])
       (use k in \<open>simp_all add: tip_keeps_def ts_def split: option.splits\<close>)
  ultimately show ?thesis using k by (auto simp: tips_inv_def tip_keeps_def split: option.splits)
qed


lemma tips_inv_reach: "tip_reach env s \<Longrightarrow> tips_inv env s"
proof (induction rule: tip_reach.induct)
  case (no_tips w)
  then show ?case by (simp add: tips_inv_def tips_ok_def ids_ok_def ids_of_def)
next
  case (tip_event s e)
  obtain w cs where s: "s = (w, cs)" by fastforce
  have inv: "tips_ok env w" "list_all (tip_call_ok env w) cs" "ids_ok w (concat (map tip_ticket cs))"
    using tip_event.IH s by (simp_all add: tips_inv_def)
  have keep: "tips_inv env (w', cs)" if "more w w'" "tw_wallets w' \<in> set (tw_tables w')" "tw_handed w' = tw_handed w"
    "set (tw_pending w') \<subseteq> set (tw_pending w)" "tw_lines w' = tw_lines w" "ids_ok w' (concat (map tip_ticket cs))" for w'
    using tips_ok_more [OF inv(1) that(1,2) _ that(4,5)] tip_calls_more [OF that(1) inv(2)] that(3,6) by (simp add: tips_inv_def)
  have wt: "tw_wallets w \<in> set (tw_tables w)" using inv(1) by (simp add: tips_ok_def)
  show ?case
  proof (cases e)
    case (TipArrives c)
    have "tip_starts c \<Longrightarrow> tip_call_ok env w c \<and> tip_ticket c = []" by (cases c) auto
    with TipArrives s inv show ?thesis by (auto simp: tips_inv_def)
  next
    case (TipSteps n a)
    with s tip_event show ?thesis by (cases "n < length cs") (use tips_inv_steps [of env w cs n a] in simp_all)
  next
    case (TipMined h tx ok)
    have "tips_inv env (w\<lparr>tw_chain := tw_chain w @ [(h, tx, ok)]\<rparr>, cs)"
      by (rule keep) (use wt inv(3) in \<open>auto simp: more_def ids_ok_def ids_of_def\<close>)
    with TipMined s show ?thesis by simp
  next
    case (TipExpires i)
    have "tips_inv env (w\<lparr>tw_pending := filter (\<lambda>(j, _). j \<noteq> i) (tw_pending w)\<rparr>, cs)"
      by (rule keep) (use wt inv(3) distinct_fst_filter [of "tw_pending w"] in \<open>auto simp: more_def ids_ok_def ids_of_def\<close>)
    with TipExpires s show ?thesis by simp
  next
    case (WalletsChange ws)
    have "tips_inv env (w\<lparr>tw_wallets := ws, tw_tables := ws # tw_tables w\<rparr>, cs)"
      by (rule keep) (use inv(3) in \<open>auto simp: more_def ids_ok_def ids_of_def\<close>)
    with WalletsChange s show ?thesis by simp
  qed
qed


text \<open>A tip of five dollars on Base, its transfers mined.\<close>

definition tip_demo_env :: tip_env where
  "tip_demo_env = \<lparr>te_clients = [8453], te_feeRecipient = Some ''0xk'', te_treasuryUsdcAta = None,
     te_transferData = (\<lambda>to n. to @ string_of_int n), te_hostAta = (\<lambda>a. a), te_same = (\<lambda>a b. Ok (a = b))\<rparr>"

definition tip_demo_wallets :: "wallet_row list" where
  "tip_demo_wallets = map (\<lambda>(a, u). \<lparr>wr_address = a, wr_chain = EVM, wr_userId = Some u, wr_firstSeenAt = 1, wr_verifiedAt = Some 1,
     wr_lastUsedAt = None\<rparr>) [(''0xs'', ''s''), (''0xh'', ''h'')]"

definition tip_demo_world :: tip_world where
  "tip_demo_world = \<lparr>tw_wallets = tip_demo_wallets, tw_pending = [], tw_chain = [], tw_handed = [], tw_relayed = [], tw_lines = [],
     tw_notes = [], tw_ids = [], tw_tables = [tip_demo_wallets]\<rparr>"

definition tip_demo_answer :: "string \<Rightarrow> (string \<times> onchain_tx \<times> bool) list \<Rightarrow> tip_answer" where
  "tip_demo_answer u chain = \<lparr>ta_redis = True, ta_db = True, ta_host = Some ''h'', ta_uuid = u, ta_stranded = Ok False,
     ta_built = (\<lambda>_. Err TypeError), ta_relayed = Err TypeError, ta_client = chain_view chain, ta_line = True\<rparr>"

fun tip_demo_run :: "tip_event list \<Rightarrow> tip_system \<Rightarrow> tip_system" where
  "tip_demo_run [] s = s"
| "tip_demo_run (TipSteps n a # es) s =
     tip_demo_run es (tip_event_step tip_demo_env (TipSteps n (a\<lparr>ta_client := chain_view (tw_chain (fst s))\<rparr>)) s)"
| "tip_demo_run (e # es) s = tip_demo_run es (tip_event_step tip_demo_env e s)"

fun tip_demo_fresh :: "tip_event list \<Rightarrow> tip_system \<Rightarrow> bool" where
  "tip_demo_fresh [] s = True"
| "tip_demo_fresh (TipSteps n a # es) s =
     (ta_uuid a \<notin> set (tw_ids (fst s))
      \<and> tip_demo_fresh es (tip_event_step tip_demo_env (TipSteps n (a\<lparr>ta_client := chain_view (tw_chain (fst s))\<rparr>)) s))"
| "tip_demo_fresh (e # es) s = tip_demo_fresh es (tip_event_step tip_demo_env e s)"

lemma tip_demo_reach: "tip_reach tip_demo_env s \<Longrightarrow> tip_demo_fresh es s \<Longrightarrow> tip_reach tip_demo_env (tip_demo_run es s)"
proof (induction es arbitrary: s)
  case (Cons e es)
  show ?case
  proof (cases e)
    case (TipSteps n a)
    have "tip_honest (TipSteps n (a\<lparr>ta_client := chain_view (tw_chain (fst s))\<rparr>)) s"
      using Cons.prems(2) TipSteps by (cases s) simp
    from tip_event [OF Cons.prems(1) this] Cons.IH Cons.prems(2) TipSteps show ?thesis by simp
  qed (use tip_event [OF Cons.prems(1), of e] Cons.IH Cons.prems(2) in simp_all)
qed simp

definition tip_demo_events :: "tip_event list" where
  "tip_demo_events =
     [TipArrives (TipCall ''s'' ''room'' TipBase (Fin 5)), TipSteps 0 (tip_demo_answer ''t1'' []), TipSteps 0 (tip_demo_answer ''t1'' [])]
     @ replicate 2 (TipSteps 0 (tip_demo_answer ''t2'' []))
     @ map (\<lambda>(h, d). TipMined h \<lparr>oc_from = ''0xs'', oc_to = Some ''0x833589fCD6eDb6E08f4c7C32D4f71b54bdA02913'', oc_value = 0, oc_data = d\<rparr> True)
         [(''h1'', ''0xh5000000''), (''h2'', ''0xk150000'')]
     @ [TipArrives (TipSubmit ''s'' ''room'' ''t1'' \<lparr>lp_signedTxBase64 = None, lp_txHashes = Some [''h1'', ''h2'']\<rparr>)]
     @ replicate 4 (TipSteps 0 (tip_demo_answer ''t2'' []))"

definition tip_demo_end :: tip_system where "tip_demo_end = tip_demo_run tip_demo_events (tip_demo_world, [])"

lemma tip_demo_line: "map (\<lambda>p. (pt_tipId p, pt_chain p, pt_wallet p)) (tw_lines (fst tip_demo_end)) = [(''t1'', TipBase, ''0xs'')]"
  by code_simp


lemma tip_demo_end_reach: "tip_reach tip_demo_env (fst tip_demo_end, snd tip_demo_end)"
proof -
  have "tip_demo_fresh tip_demo_events (tip_demo_world, [])" by code_simp
  then have "tip_reach tip_demo_env tip_demo_end" unfolding tip_demo_end_def
    by (intro tip_demo_reach no_tips) (simp_all add: tip_demo_world_def)
  then show ?thesis by simp
qed


subsection \<open>What a check can miss\<close>

text \<open>
  The tip is taken out of Redis before its transfers are checked: a submission that comes before they are mined is
  refused with ``check again in a minute'', and the tip is gone.
\<close>

lemma early_submission_burns_tip:
  assumes "map_of (tw_pending w) i = Some p" "ta_redis a" "ta_redis b" "submit_transfers env b p proof_sent = Err e"
  shows "tip_step env a (TipSubmit me roomId i proof_sent) w
      = (Some (TipTaken me roomId p proof_sent), w\<lparr>tw_pending := filter (\<lambda>(j, _). j \<noteq> i) (tw_pending w)\<rparr>)
    \<and> fst (tip_step env b (TipTaken me roomId p proof_sent) (w\<lparr>tw_pending := filter (\<lambda>(j, _). j \<noteq> i) (tw_pending w)\<rparr>)) = None
    \<and> fst (tip_step env a (TipSubmit me roomId i proof_sent) (w\<lparr>tw_pending := filter (\<lambda>(j, _). j \<noteq> i) (tw_pending w)\<rparr>)) = None"
proof -
  have "map_of (filter (\<lambda>(j, _). j \<noteq> i) xs) i = None" for xs :: "(string \<times> PendingTip) list"
    by (induction xs) auto
  with assms show ?thesis by simp
qed

text \<open>
  The hashes are not remembered: two tips handed out with the same transfers (same wallets, chain and amount) both
  pass with the hashes of one payment, and both are announced.
\<close>

lemma one_payment_two_tips:
  assumes "pt_chain p \<noteq> TipSolana" "pt_chain q = pt_chain p" "pt_wallet q = pt_wallet p" "pt_evmTxs q = pt_evmTxs p"
    "submit_transfers env a p proof_sent = Ok ref"
  shows "submit_transfers env a q proof_sent = Ok ref"
  using assms by (auto simp: submit_transfers_def split: option.splits if_splits)

end
