(* ===== verification/Spec2Isabelle.thy ===== *)
theory Spec2Isabelle
  imports Trading Consent Pnl PnlSweep Resilience EvmRelay TradeTx TradeApi TradeInv SolanaQuote EvmQuote GasTopup WithdrawGas MarketTick Duels FeedPatch PumpPortal Launchpad LiveTips
begin

text \<open>
  A verification development of the Kamby trading platform's own logic.
\<close>

end
